(* ===== verification/Prelude.thy ===== *)
theory Prelude
  imports Main "HOL-Library.Word"
begin

text \<open>
  Shared by every theory of the development: the machine integer types of the
  Rust sources, the little- and big-endian byte codecs of the standard library
  (\<open>to_le_bytes\<close>, \<open>from_be_bytes\<close>, ...), the outcome type of code that can
  crash, and generic lemmas on lists.

  Rust data is modelled as follows throughout.  A \<open>u8\<close> is an \<open>8 word\<close> and a
  \<open>u16\<close>, \<open>u32\<close>, \<open>u64\<close>, \<open>i64\<close> a word of that width where wrap-around can
  matter; a \<open>usize\<close> that only indexes or counts is a \<open>nat\<close>.  A \<open>Result\<close> is a sum
  with the error on the left.  Code that can panic or exhaust the stack returns
  a \<open>run\<close>: a crash is a value of the model, never an unspecified one.
\<close>

unbundle bit_operations_syntax

type_synonym u8 = "8 word"
type_synonym u16 = "16 word"
type_synonym u32 = "32 word"
type_synonym u64 = "64 word"
type_synonym bytes = "u8 list"

named_theorems codec_simps \<open>byte codecs: lengths and round trips\<close>
named_theorems run_simps \<open>evaluation of crash outcomes\<close>

subsection \<open>Outcomes of code that can crash\<close>

text \<open>
  \<open>Panic\<close> is a Rust panic (index out of bounds, slice out of range, failed
  \<open>unwrap\<close>); \<open>StackOverflow\<close> is a recursion deeper than the stack that is left;
  \<open>Diverge\<close> is a loop that would never end.
\<close>

datatype crash = Panic | StackOverflow | Diverge

datatype 'a run = Ret 'a | Crash crash

fun run_bind :: "'a run \<Rightarrow> ('a \<Rightarrow> 'b run) \<Rightarrow> 'b run" where
  "run_bind (Ret x) f = f x"
| "run_bind (Crash c) f = Crash c"

fun run_map :: "('a \<Rightarrow> 'b) \<Rightarrow> 'a run \<Rightarrow> 'b run" where
  "run_map f (Ret x) = Ret (f x)"
| "run_map f (Crash c) = Crash c"

fun returns :: "'a run \<Rightarrow> bool" where
  "returns (Ret x) = True"
| "returns (Crash c) = False"

text \<open>The \<open>?\<close> operator of Rust on a \<open>Result\<close> and on an \<open>Option\<close>.\<close>

fun res_bind :: "'e + 'a \<Rightarrow> ('a \<Rightarrow> 'e + 'b) \<Rightarrow> 'e + 'b" where
  "res_bind (Inl e) f = Inl e"
| "res_bind (Inr x) f = f x"

fun res_ok :: "'e + 'a \<Rightarrow> 'a option" where
  "res_ok (Inl e) = None"
| "res_ok (Inr x) = Some x"

definition ok_or :: "'a option \<Rightarrow> 'e \<Rightarrow> 'e + 'a" where
  "ok_or o1 e = (case o1 of None \<Rightarrow> Inl e | Some x \<Rightarrow> Inr x)"

text \<open>\<open>collect::<Result<_, _>>\<close> over a list: the first error wins.\<close>

fun res_mapM :: "('a \<Rightarrow> 'e + 'b) \<Rightarrow> 'a list \<Rightarrow> 'e + 'b list" where
  "res_mapM f [] = Inr []"
| "res_mapM f (x # xs) =
     (case f x of Inl e \<Rightarrow> Inl e
      | Inr y \<Rightarrow> (case res_mapM f xs of Inl e \<Rightarrow> Inl e | Inr ys \<Rightarrow> Inr (y # ys)))"

fun opt_mapM :: "('a \<Rightarrow> 'b option) \<Rightarrow> 'a list \<Rightarrow> 'b list option" where
  "opt_mapM f [] = Some []"
| "opt_mapM f (x # xs) =
     (case f x of None \<Rightarrow> None
      | Some y \<Rightarrow> (case opt_mapM f xs of None \<Rightarrow> None | Some ys \<Rightarrow> Some (y # ys)))"

fun run_mapM :: "('a \<Rightarrow> 'b run) \<Rightarrow> 'a list \<Rightarrow> 'b list run" where
  "run_mapM f [] = Ret []"
| "run_mapM f (x # xs) =
     run_bind (f x) (\<lambda>y. run_bind (run_mapM f xs) (\<lambda>ys. Ret (y # ys)))"

lemma run_bind_Ret [run_simps]: "run_bind m f = Ret y \<longleftrightarrow> (\<exists>x. m = Ret x \<and> f x = Ret y)"
  by (cases m) auto

lemma run_map_Ret [run_simps]: "run_map f m = Ret y \<longleftrightarrow> (\<exists>x. m = Ret x \<and> y = f x)"
  by (cases m) auto

text \<open>\<open>?\<close> in a function that can crash and returns a \<open>Result\<close>.\<close>

fun rr_bind :: "('e + 'a) run \<Rightarrow> ('a \<Rightarrow> ('e + 'b) run) \<Rightarrow> ('e + 'b) run" where
  "rr_bind (Ret (Inr x)) f = f x"
| "rr_bind (Ret (Inl e)) f = Ret (Inl e)"
| "rr_bind (Crash c) f = Crash c"

abbreviation rr_return :: "'a \<Rightarrow> ('e + 'a) run" where "rr_return x \<equiv> Ret (Inr x)"
abbreviation rr_fail :: "'e \<Rightarrow> ('e + 'a) run" where "rr_fail e \<equiv> Ret (Inl e)"

text \<open>A \<open>for\<close> loop whose body can fail or crash, and \<open>collect\<close> of such results.\<close>

fun rr_fold :: "('a \<Rightarrow> 's \<Rightarrow> ('e + 's) run) \<Rightarrow> 'a list \<Rightarrow> 's \<Rightarrow> ('e + 's) run" where
  "rr_fold f [] s = rr_return s"
| "rr_fold f (x # xs) s = rr_bind (f x s) (rr_fold f xs)"

fun rr_mapM :: "('a \<Rightarrow> ('e + 'b) run) \<Rightarrow> 'a list \<Rightarrow> ('e + 'b list) run" where
  "rr_mapM f [] = rr_return []"
| "rr_mapM f (x # xs) = rr_bind (f x) (\<lambda>y. rr_bind (rr_mapM f xs) (\<lambda>ys. rr_return (y # ys)))"

text \<open>Evaluate the first step before looking into what follows it.\<close>

lemma bind_congs:
  "m = m' \<Longrightarrow> rr_bind m f = rr_bind m' f" "r = r' \<Longrightarrow> res_bind r g = res_bind r' g"
  by simp_all

lemma rr_bind_Inr [run_simps]:
  "rr_bind m f = Ret (Inr y) \<longleftrightarrow> (\<exists>x. m = Ret (Inr x) \<and> f x = Ret (Inr y))"
  by (cases m rule: run.exhaust) (auto split: sum.splits simp: rr_bind.simps elim: rr_bind.elims)

lemma res_bind_Inr [run_simps]: "res_bind m f = Inr y \<longleftrightarrow> (\<exists>x. m = Inr x \<and> f x = Inr y)"
  by (cases m) auto

lemma res_bind_assoc: "res_bind (res_bind m f) g = res_bind m (\<lambda>x. res_bind (f x) g)"
  by (cases m) auto

lemma res_bind_return [simp]: "res_bind m Inr = m"
  by (cases m) auto

lemma returns_iff: "returns m \<longleftrightarrow> (\<exists>x. m = Ret x)"
  by (cases m) auto

named_theorems returns_intros \<open>steps that do not crash\<close>

lemma returns_Ret [returns_intros]: "returns (Ret x)"
  by simp

lemma returns_rr_bind [returns_intros]:
  assumes "returns m" "\<And>x. m = Ret (Inr x) \<Longrightarrow> returns (f x)"
  shows "returns (rr_bind m f)"
proof -
  from assms(1) obtain r where "m = Ret r" by (cases m) auto
  with assms(2) show ?thesis by (cases r) auto
qed

lemma returns_rr_mapM [returns_intros]:
  "(\<And>x. x \<in> set xs \<Longrightarrow> returns (f x)) \<Longrightarrow> returns (rr_mapM f xs)"
  by (induction xs) (auto intro!: returns_intros)

lemma returns_rr_fold:
  assumes "\<And>x s. x \<in> set xs \<Longrightarrow> returns (f x s)"
  shows "returns (rr_fold f xs s)"
  using assms by (induction xs arbitrary: s) (auto intro!: returns_intros)

lemma returns_bind [run_simps]: "returns (run_bind m f) \<longleftrightarrow> (\<exists>x. m = Ret x \<and> returns (f x))"
  by (cases m) auto

lemma returns_map [simp]: "returns (run_map f m) = returns m"
  by (cases m) auto

lemma res_mapM_length: "res_mapM f xs = Inr ys \<Longrightarrow> length ys = length xs"
  by (induction xs arbitrary: ys) (auto split: sum.splits)

lemma res_mapM_Inr: "res_mapM f xs = Inr ys \<longleftrightarrow> list_all2 (\<lambda>x y. f x = Inr y) xs ys"
proof (induction xs arbitrary: ys)
  case Nil
  then show ?case by (auto simp: list_all2_Nil)
next
  case (Cons x xs)
  show ?case
    by (cases "f x"; cases "res_mapM f xs") (auto simp: list_all2_Cons1 Cons.IH [symmetric])
qed

lemma opt_mapM_length: "opt_mapM f xs = Some ys \<Longrightarrow> length ys = length xs"
  by (induction xs arbitrary: ys) (auto split: option.splits)

lemma opt_mapM_Some: "opt_mapM f xs = Some ys \<longleftrightarrow> list_all2 (\<lambda>x y. f x = Some y) xs ys"
proof (induction xs arbitrary: ys)
  case Nil
  then show ?case by (auto simp: list_all2_Nil)
next
  case (Cons x xs)
  show ?case
    by (cases "f x"; cases "opt_mapM f xs") (auto simp: list_all2_Cons1 Cons.IH [symmetric])
qed

lemma opt_mapM_map: "(\<And>x. x \<in> set xs \<Longrightarrow> f x = Some (g x)) \<Longrightarrow> opt_mapM f xs = Some (map g xs)"
  by (induction xs) auto

subsection \<open>Byte codecs\<close>

definition to_le16 :: "u16 \<Rightarrow> bytes" where
  "to_le16 w = [ucast w, ucast (drop_bit 8 w)]"

definition to_be16 :: "u16 \<Rightarrow> bytes" where
  "to_be16 w = [ucast (drop_bit 8 w), ucast w]"

definition from_le16 :: "u8 \<Rightarrow> u8 \<Rightarrow> u16" where
  "from_le16 b0 b1 = ucast b0 OR push_bit 8 (ucast b1)"

definition from_be16 :: "u8 \<Rightarrow> u8 \<Rightarrow> u16" where
  "from_be16 b0 b1 = from_le16 b1 b0"

definition to_le32 :: "u32 \<Rightarrow> bytes" where
  "to_le32 w = [ucast w, ucast (drop_bit 8 w), ucast (drop_bit 16 w), ucast (drop_bit 24 w)]"

definition to_be32 :: "u32 \<Rightarrow> bytes" where
  "to_be32 w = [ucast (drop_bit 24 w), ucast (drop_bit 16 w), ucast (drop_bit 8 w), ucast w]"

definition from_le32 :: "u8 \<Rightarrow> u8 \<Rightarrow> u8 \<Rightarrow> u8 \<Rightarrow> u32" where
  "from_le32 b0 b1 b2 b3 =
     ucast b0 OR push_bit 8 (ucast b1) OR push_bit 16 (ucast b2) OR push_bit 24 (ucast b3)"

definition from_be32 :: "u8 \<Rightarrow> u8 \<Rightarrow> u8 \<Rightarrow> u8 \<Rightarrow> u32" where
  "from_be32 b0 b1 b2 b3 = from_le32 b3 b2 b1 b0"

text \<open>\<open>u16::swap_bytes\<close>\<close>

definition swap_bytes16 :: "u16 \<Rightarrow> u16" where
  "swap_bytes16 w = push_bit 8 w OR drop_bit 8 w"

lemma length_codecs [codec_simps, simp]:
  "length (to_le16 w) = 2" "length (to_be16 w) = 2"
  "length (to_le32 v) = 4" "length (to_be32 v) = 4"
  by (simp_all add: to_le16_def to_be16_def to_le32_def to_be32_def)

lemma from_le16_to [codec_simps, simp]:
  "from_le16 (ucast w) (ucast (drop_bit 8 w)) = w"
  unfolding from_le16_def
  by (rule bit_word_eqI) (auto simp: bit_simps)

lemma from_le32_to [codec_simps, simp]:
  "from_le32 (ucast w) (ucast (drop_bit 8 w)) (ucast (drop_bit 16 w)) (ucast (drop_bit 24 w)) = w"
proof (rule bit_word_eqI)
  fix n assume "n < LENGTH(32)"
  then consider "n < 8" | "8 \<le> n \<and> n < 16" | "16 \<le> n \<and> n < 24" | "24 \<le> n \<and> n < 32"
    by fastforce
  then show "bit (from_le32 (ucast w) (ucast (drop_bit 8 w)) (ucast (drop_bit 16 w))
      (ucast (drop_bit 24 w))) n = bit w n"
    by cases (auto simp: from_le32_def bit_simps)
qed

lemma bit_u8_high: "8 \<le> n \<Longrightarrow> \<not> bit (b :: u8) n"
  by (auto dest: bit_imp_le_length)

lemma to_le16_from [codec_simps]: "to_le16 (from_le16 b0 b1) = [b0, b1]"
  unfolding from_le16_def to_le16_def
  by (auto intro!: bit_word_eqI simp: bit_simps bit_u8_high)

lemma to_le32_from [codec_simps]: "to_le32 (from_le32 b0 b1 b2 b3) = [b0, b1, b2, b3]"
  unfolding from_le32_def to_le32_def
  by (auto intro!: bit_word_eqI simp: bit_simps bit_u8_high)

lemma to_be32_from [codec_simps]: "to_be32 (from_be32 b0 b1 b2 b3) = [b0, b1, b2, b3]"
  using to_le32_from [of b3 b2 b1 b0] by (simp add: to_be32_def to_le32_def from_be32_def)

lemma to_le16_swap: "to_le16 (swap_bytes16 w) = to_be16 w"
  unfolding to_le16_def to_be16_def swap_bytes16_def
  by (auto intro!: bit_word_eqI simp: bit_simps)

text \<open>The numbers the bytes denote.\<close>

lemma or_shift_nat: "(a::nat) < 2 ^ k \<Longrightarrow> a OR push_bit k b = a + 2 ^ k * b"
proof -
  assume "a < 2 ^ k"
  then have "a AND push_bit k b = 0"
    by (intro bit_eqI) (metis bit_and_iff bit_push_bit_iff_nat bit_0_eq take_bit_nat_eq_self
        bit_take_bit_iff leD bot_fun_def bot_bool_def)
  then have "a OR push_bit k b = a + push_bit k b" by (simp add: disjunctive_add_eq_or)
  then show ?thesis by (simp add: push_bit_eq_mult)
qed

lemma u8_lt: "unat (b :: u8) < 256"
  using unsigned_less [of b, where 'a = nat] by simp

lemma unat_from_le16: "unat (from_le16 b0 b1) = unat b0 + 256 * unat b1"
  unfolding from_le16_def
  using u8_lt [of b0] u8_lt [of b1] or_shift_nat [of "unat b0" 8 "unat b1"]
  by (simp add: unsigned_or_eq unsigned_push_bit_eq unsigned_ucast_eq take_bit_nat_eq_self
      take_bit_push_bit)

lemma unat_from_le32:
  "unat (from_le32 b0 b1 b2 b3) =
     unat b0 + 256 * unat b1 + 65536 * unat b2 + 16777216 * unat b3"
  unfolding from_le32_def
  using u8_lt [of b0] u8_lt [of b1] u8_lt [of b2] u8_lt [of b3]
    or_shift_nat [of "unat b0" 8 "unat b1"]
    or_shift_nat [of "unat b0 + 256 * unat b1" 16 "unat b2"]
    or_shift_nat [of "unat b0 + 256 * unat b1 + 65536 * unat b2" 24 "unat b3"]
  by (simp add: unsigned_or_eq unsigned_push_bit_eq unsigned_ucast_eq take_bit_nat_eq_self
      take_bit_push_bit flip: or.assoc)

subsection \<open>Lists\<close>

text \<open>\<open>slice.get(i..j)\<close> of Rust: \<open>None\<close> out of range or when \<open>j < i\<close>.\<close>

definition slice_get :: "'a list \<Rightarrow> nat \<Rightarrow> nat \<Rightarrow> 'a list option" where
  "slice_get xs i j = (if i \<le> j \<and> j \<le> length xs then Some (take (j - i) (drop i xs)) else None)"

definition list_get :: "'a list \<Rightarrow> nat \<Rightarrow> 'a option" where
  "list_get xs i = (if i < length xs then Some (xs ! i) else None)"

text \<open>\<open>slice.chunks(n)\<close>; the callers below pass a positive \<open>n\<close> (Rust panics on 0).\<close>

function chunks :: "nat \<Rightarrow> 'a list \<Rightarrow> 'a list list" where
  "chunks n xs = (if n = 0 \<or> xs = [] then [] else take n xs # chunks n (drop n xs))"
  by pat_completeness auto
termination
  by (relation "measure (\<lambda>(n, xs). length xs)") auto

declare chunks.simps [simp del]

lemma chunks_Nil [simp]: "chunks n [] = []"
  by (simp add: chunks.simps)

lemma concat_chunks: "0 < n \<Longrightarrow> concat (chunks n xs) = xs"
proof (induction n xs rule: chunks.induct)
  case (1 n xs)
  then show ?case by (cases "xs = []") (simp_all add: chunks.simps [of n xs])
qed

lemma chunks_bounds: "c \<in> set (chunks n xs) \<Longrightarrow> 0 < length c \<and> length c \<le> n"
proof (induction n xs rule: chunks.induct)
  case (1 n xs)
  show ?case
  proof (cases "n = 0 \<or> xs = []")
    case True
    with 1 show ?thesis by (simp add: chunks.simps [of n xs])
  next
    case False
    with 1 have "c = take n xs \<or> c \<in> set (chunks n (drop n xs))"
      by (simp add: chunks.simps [of n xs])
    with 1 False show ?thesis by auto
  qed
qed

lemma list_get_Some [simp]: "i < length xs \<Longrightarrow> list_get xs i = Some (xs ! i)"
  by (simp add: list_get_def)

lemma list_get_eq_Some: "list_get xs i = Some x \<longleftrightarrow> i < length xs \<and> xs ! i = x"
  by (auto simp: list_get_def)

lemma slice_get_length: "slice_get xs i j = Some ys \<Longrightarrow> length ys = j - i"
  by (auto simp: slice_get_def split: if_splits)

text \<open>\<open>dst[i..i+n].copy_from_slice(ys)\<close> for a range inside the list.\<close>

definition splice :: "'a list \<Rightarrow> nat \<Rightarrow> 'a list \<Rightarrow> 'a list" where
  "splice xs i ys = take i xs @ ys @ drop (i + length ys) xs"

lemma length_splice [simp]: "i + length ys \<le> length xs \<Longrightarrow> length (splice xs i ys) = length xs"
  by (simp add: splice_def)

lemma nth_splice:
  assumes "i + length ys \<le> length xs" "k < length xs"
  shows "splice xs i ys ! k = (if i \<le> k \<and> k < i + length ys then ys ! (k - i) else xs ! k)"
  using assms by (auto simp: splice_def nth_append min_def)

lemma splice_same: "i + n \<le> length xs \<Longrightarrow> splice xs i (take n (drop i xs)) = xs"
  by (rule nth_equalityI) (auto simp: nth_splice)

lemma slice_splice_same:
  "i + length ys \<le> length xs \<Longrightarrow> slice_get (splice xs i ys) i (i + length ys) = Some ys"
  by (auto simp: slice_get_def splice_def)

lemma slice_splice_other:
  assumes "i + length ys \<le> length xs" "b \<le> i \<or> i + length ys \<le> a"
  shows "slice_get (splice xs i ys) a b = slice_get xs a b"
proof -
  have "take (b - a) (drop a (splice xs i ys)) = take (b - a) (drop a xs)" if "b \<le> length xs"
    by (rule nth_equalityI) (use assms that in \<open>auto simp: nth_splice\<close>)
  then show ?thesis using assms by (auto simp: slice_get_def)
qed

end
