(* ===== verification/F64.thy ===== *)
theory F64
  imports Complex_Main "HOL-Library.Log_Nat" Prelude
begin

text \<open>
  The \<open>f64\<close> of Rust: IEEE 754 binary64 with round-to-nearest, ties to even.
  A finite value is the rational number it denotes; the negative zero, the two
  infinities and NaN are constructors of their own (NaN payloads and signs are
  never observed by the program).  Every arithmetic operation computes the exact
  rational result and rounds it once with \<open>to_f64\<close>.

  The lemmas bound the rounding error (\<open>rnd_rat_error\<close>), show that values with
  a 53 bit significand are rounded to themselves (\<open>rnd_rat_rep\<close>), and that
  results are always such values (\<open>rep_rnd_rat\<close>).
\<close>

datatype f64 = Fin rat | NegZero | PosInf | NegInf | NaN

fun fval :: "f64 \<Rightarrow> rat" where
  "fval (Fin q) = q"
| "fval _ = 0"

fun is_finite :: "f64 \<Rightarrow> bool" where
  "is_finite (Fin q) = True"
| "is_finite NegZero = True"
| "is_finite _ = False"

fun is_neg :: "f64 \<Rightarrow> bool" where
  "is_neg (Fin q) = (q < 0)"
| "is_neg NegZero = True"
| "is_neg NegInf = True"
| "is_neg _ = False"

abbreviation fzero :: f64 where "fzero \<equiv> Fin 0"
abbreviation fone :: f64 where "fone \<equiv> Fin 1"

subsection \<open>Rounding\<close>

text \<open>\<open>ilog2 q\<close> is the exponent of the binade of a positive rational.\<close>

definition ilog2 :: "rat \<Rightarrow> int" where
  "ilog2 q = (case quotient_of q of (n, d) \<Rightarrow>
     let k = bitlen n - bitlen d in if 2 powi k \<le> q then k else k - 1)"

definition round_half_even :: "rat \<Rightarrow> int" where
  "round_half_even q =
     (let f = \<lfloor>q\<rfloor>; r = q - of_int f
      in if r < 1 / 2 then f else if 1 / 2 < r then f + 1 else if even f then f else f + 1)"

definition ulp_exp :: "rat \<Rightarrow> int" where
  "ulp_exp q = max (ilog2 \<bar>q\<bar> - 52) (- 1074)"

definition rnd_rat :: "rat \<Rightarrow> rat" where
  "rnd_rat q =
     (if q = 0 then 0
      else let u = 2 powi (ulp_exp q) in of_int (round_half_even (q / u)) * u)"

definition mk_fin :: "bool \<Rightarrow> rat \<Rightarrow> f64" where
  "mk_fin neg r = (if r = 0 \<and> neg then NegZero else Fin r)"

text \<open>Round a rational; \<open>neg\<close> is the sign of an exact zero.\<close>

definition to_f64 :: "bool \<Rightarrow> rat \<Rightarrow> f64" where
  "to_f64 neg q =
     (let r = rnd_rat q
      in if 2 ^ 1024 \<le> \<bar>r\<bar> then (if r < 0 then NegInf else PosInf)
         else mk_fin (if q = 0 then neg else q < 0) r)"

subsection \<open>Comparison\<close>

fun feq :: "f64 \<Rightarrow> f64 \<Rightarrow> bool" where
  "feq NaN _ = False"
| "feq _ NaN = False"
| "feq PosInf y = (y = PosInf)"
| "feq NegInf y = (y = NegInf)"
| "feq _ PosInf = False"
| "feq _ NegInf = False"
| "feq x y = (fval x = fval y)"

fun flt :: "f64 \<Rightarrow> f64 \<Rightarrow> bool" where
  "flt NaN _ = False"
| "flt _ NaN = False"
| "flt PosInf _ = False"
| "flt _ NegInf = False"
| "flt NegInf _ = True"
| "flt _ PosInf = True"
| "flt x y = (fval x < fval y)"

definition fle :: "f64 \<Rightarrow> f64 \<Rightarrow> bool" where
  "fle x y \<longleftrightarrow> flt x y \<or> feq x y"

subsection \<open>Arithmetic\<close>

fun fneg :: "f64 \<Rightarrow> f64" where
  "fneg (Fin q) = (if q = 0 then NegZero else Fin (- q))"
| "fneg NegZero = Fin 0"
| "fneg PosInf = NegInf"
| "fneg NegInf = PosInf"
| "fneg NaN = NaN"

fun fabs :: "f64 \<Rightarrow> f64" where
  "fabs (Fin q) = Fin \<bar>q\<bar>"
| "fabs NegZero = Fin 0"
| "fabs NegInf = PosInf"
| "fabs x = x"

definition inf_of :: "bool \<Rightarrow> f64" where
  "inf_of neg = (if neg then NegInf else PosInf)"

definition zero_of :: "bool \<Rightarrow> f64" where
  "zero_of neg = (if neg then NegZero else Fin 0)"

definition fadd :: "f64 \<Rightarrow> f64 \<Rightarrow> f64" where
  "fadd x y =
     (if x = NaN \<or> y = NaN then NaN
      else if x = PosInf then (if y = NegInf then NaN else PosInf)
      else if x = NegInf then (if y = PosInf then NaN else NegInf)
      else if \<not> is_finite y then y
      else to_f64 (x = NegZero \<and> y = NegZero) (fval x + fval y))"

definition fsub :: "f64 \<Rightarrow> f64 \<Rightarrow> f64" where
  "fsub x y = fadd x (fneg y)"

definition fmul :: "f64 \<Rightarrow> f64 \<Rightarrow> f64" where
  "fmul x y =
     (let neg = (is_neg x \<noteq> is_neg y)
      in if x = NaN \<or> y = NaN then NaN
         else if is_finite x \<and> is_finite y then to_f64 neg (fval x * fval y)
         else if is_finite x \<and> fval x = 0 \<or> is_finite y \<and> fval y = 0 then NaN
         else inf_of neg)"

definition fdiv :: "f64 \<Rightarrow> f64 \<Rightarrow> f64" where
  "fdiv x y =
     (let neg = (is_neg x \<noteq> is_neg y)
      in if x = NaN \<or> y = NaN then NaN
         else if is_finite x then
           (if \<not> is_finite y then zero_of neg
            else if fval y = 0 then (if fval x = 0 then NaN else inf_of neg)
            else to_f64 neg (fval x / fval y))
         else if is_finite y then inf_of neg
         else NaN)"

definition trunc_rat :: "rat \<Rightarrow> int" where
  "trunc_rat q = (if 0 \<le> q then \<lfloor>q\<rfloor> else - \<lfloor>- q\<rfloor>)"

text \<open>Rust's \<open>%\<close> on floats is C's \<open>fmod\<close>: truncated quotient, exact result.\<close>

definition frem :: "f64 \<Rightarrow> f64 \<Rightarrow> f64" where
  "frem x y =
     (if x = NaN \<or> y = NaN \<or> \<not> is_finite x \<or> is_finite y \<and> fval y = 0 then NaN
      else if \<not> is_finite y then x
      else to_f64 (is_neg x)
        (fval x - fval y * of_int (trunc_rat (fval x / fval y))))"

text \<open>\<open>f64::max\<close> and \<open>f64::min\<close> ignore a NaN operand.\<close>

definition fmax :: "f64 \<Rightarrow> f64 \<Rightarrow> f64" where
  "fmax x y = (if x = NaN then y else if y = NaN then x else if flt x y then y else x)"

definition fmin :: "f64 \<Rightarrow> f64 \<Rightarrow> f64" where
  "fmin x y = (if x = NaN then y else if y = NaN then x else if flt y x then y else x)"

text \<open>\<open>f64::round\<close> rounds halves away from zero.\<close>

definition round_away :: "rat \<Rightarrow> int" where
  "round_away q = (if 0 \<le> q then \<lfloor>q + 1 / 2\<rfloor> else - \<lfloor>- q + 1 / 2\<rfloor>)"

fun fround :: "f64 \<Rightarrow> f64" where
  "fround (Fin q) = mk_fin (q < 0) (of_int (round_away q))"
| "fround x = x"

fun ftrunc :: "f64 \<Rightarrow> f64" where
  "ftrunc (Fin q) = mk_fin (q < 0) (of_int (trunc_rat q))"
| "ftrunc x = x"

subsection \<open>Conversions\<close>

text \<open>\<open>as\<close> from a float to an integer type with range \<open>lo..hi\<close>: NaN is 0, the rest saturates.\<close>

fun f_as :: "int \<Rightarrow> int \<Rightarrow> f64 \<Rightarrow> int" where
  "f_as lo hi (Fin q) = max lo (min hi (trunc_rat q))"
| "f_as lo hi NegZero = 0"
| "f_as lo hi PosInf = hi"
| "f_as lo hi NegInf = lo"
| "f_as lo hi NaN = 0"

abbreviation f_as_i64 :: "f64 \<Rightarrow> int" where
  "f_as_i64 \<equiv> f_as (- (2 ^ 63)) (2 ^ 63 - 1)"
abbreviation f_as_u64 :: "f64 \<Rightarrow> int" where
  "f_as_u64 \<equiv> f_as 0 (2 ^ 64 - 1)"
abbreviation f_as_u32 :: "f64 \<Rightarrow> int" where
  "f_as_u32 \<equiv> f_as 0 (2 ^ 32 - 1)"
abbreviation f_as_u16 :: "f64 \<Rightarrow> int" where
  "f_as_u16 \<equiv> f_as 0 (2 ^ 16 - 1)"
abbreviation f_as_u8 :: "f64 \<Rightarrow> int" where
  "f_as_u8 \<equiv> f_as 0 255"
abbreviation f_as_usize :: "f64 \<Rightarrow> nat" where
  "f_as_usize x \<equiv> nat (f_as 0 (2 ^ 64 - 1) x)"

text \<open>\<open>as f64\<close> from an integer rounds; \<open>bool as u8 as f64\<close> is 0 or 1.\<close>

definition f_of_int :: "int \<Rightarrow> f64" where
  "f_of_int i = to_f64 False (of_int i)"

definition f_of_bool :: "bool \<Rightarrow> f64" where
  "f_of_bool b = (if b then fone else fzero)"

subsection \<open>Rounding error\<close>

lemma powi_add: "(2::rat) powi (a + b) = 2 powi a * 2 powi b"
  by (simp add: power_int_add)

lemma powi_pos [simp]: "0 < (2::rat) powi k"
  by (simp add: zero_less_power_int)

lemma powi_mono: "a \<le> b \<Longrightarrow> (2::rat) powi a \<le> 2 powi b"
  by (rule power_int_increasing) auto

lemma powi_less_iff: "(2::rat) powi a < 2 powi b \<longleftrightarrow> a < b"
  by (meson linorder_not_le one_less_numeral_iff powi_mono power_int_strict_increasing semiring_norm(76))

lemma bitlen_powi:
  assumes "0 < n"
  shows "(2::rat) powi (bitlen n - 1) \<le> of_int n" and "(of_int n :: rat) < 2 powi (bitlen n)"
proof -
  have b: "0 < bitlen n"
    using assms by (metis bitlen_eq_zero_iff bitlen_nonneg linorder_not_less order_le_less)
  have "2 ^ nat (bitlen n - 1) \<le> n" "n < 2 ^ nat (bitlen n)"
    using bitlen_bounds [OF assms] by auto
  then have "(of_int (2 ^ nat (bitlen n - 1)) :: rat) \<le> of_int n"
    and "(of_int n :: rat) < of_int (2 ^ nat (bitlen n))"
    by (simp_all only: of_int_le_iff of_int_less_iff)
  with b show "(2::rat) powi (bitlen n - 1) \<le> of_int n" "(of_int n :: rat) < 2 powi (bitlen n)"
    by (simp_all add: power_int_def)
qed

lemma ilog2_bounds:
  assumes "0 < q"
  shows "2 powi (ilog2 q) \<le> q" and "q < 2 powi (ilog2 q + 1)"
proof -
  obtain n d where nd: "quotient_of q = (n, d)" by (cases "quotient_of q")
  have d: "0 < d" using nd by (rule quotient_of_denom_pos)
  have q: "q = of_int n / of_int d" using nd by (rule quotient_of_div)
  have n: "0 < n" using assms d by (simp add: q zero_less_divide_iff)
  define k where "k = bitlen n - bitlen d"
  note bn = bitlen_powi [OF n] and bd = bitlen_powi [OF d]
  have up: "q < 2 powi (k + 1)"
  proof -
    have "of_int n < (2 powi (k + 1) * 2 powi (bitlen d - 1) :: rat)"
      using bn(2) by (simp add: k_def flip: powi_add)
    also have "\<dots> \<le> 2 powi (k + 1) * of_int d"
      using bd(1) by (intro mult_left_mono) (auto simp: less_imp_le)
    finally show ?thesis using d by (simp add: q divide_simps)
  qed
  have low: "2 powi (k - 1) \<le> q"
  proof -
    have "(2 powi (k - 1) * of_int d :: rat) \<le> 2 powi (k - 1) * 2 powi (bitlen d)"
      using bd(2) by (intro mult_left_mono) (auto simp: less_imp_le)
    also have "\<dots> = 2 powi (bitlen n - 1)"
      by (simp add: k_def flip: powi_add)
    also have "\<dots> \<le> of_int n" by (rule bn(1))
    finally show ?thesis using d by (simp add: q divide_simps)
  qed
  have "ilog2 q = (if 2 powi k \<le> q then k else k - 1)"
    by (simp add: ilog2_def nd k_def Let_def)
  with up low show "2 powi (ilog2 q) \<le> q" "q < 2 powi (ilog2 q + 1)"
    by (auto split: if_splits)
qed

lemma ilog2_less:
  assumes "0 < q" "q < 2 powi k"
  shows "ilog2 q < k"
  using ilog2_bounds(1) [OF assms(1)] assms(2) powi_less_iff [of "ilog2 q" k] by linarith

lemma round_half_even_error: "\<bar>of_int (round_half_even q) - q\<bar> \<le> 1 / 2"
proof -
  have "of_int \<lfloor>q\<rfloor> \<le> q" "q < of_int \<lfloor>q\<rfloor> + 1"
    using floor_correct [of q] by auto
  then show ?thesis
    unfolding round_half_even_def Let_def by (simp add: abs_if) linarith?
qed

lemma round_half_even_int [simp]: "round_half_even (of_int k) = k"
  by (simp add: round_half_even_def)

lemma round_half_even_abs:
  assumes "\<bar>q\<bar> \<le> of_int k"
  shows "\<bar>round_half_even q\<bar> \<le> k"
proof -
  have "\<bar>of_int (round_half_even q) :: rat\<bar> \<le> of_int k + 1 / 2"
    using round_half_even_error [of q] assms by linarith
  then have "(of_int \<bar>round_half_even q\<bar> :: rat) < of_int (k + 1)"
    by simp
  then show ?thesis by (simp only: of_int_less_iff)
qed

text \<open>A value with at most 53 significant bits and exponent at least -1074.\<close>

definition rep :: "rat \<Rightarrow> bool" where
  "rep q \<longleftrightarrow> (\<exists>m e. q = of_int m * 2 powi e \<and> \<bar>m\<bar> < 2 ^ 53 \<and> - 1074 \<le> e)"

lemma repI: "q = of_int m * 2 powi e \<Longrightarrow> \<bar>m\<bar> < 2 ^ 53 \<Longrightarrow> - 1074 \<le> e \<Longrightarrow> rep q"
  unfolding rep_def by blast

lemma rep_0 [simp]: "rep 0"
  by (rule repI [of _ 0 0]) auto

lemma rep_of_int: "\<bar>i\<bar> < 2 ^ 53 \<Longrightarrow> rep (of_int i)"
  by (rule repI [of _ i 0]) auto

lemma rep_uminus: "rep q \<Longrightarrow> rep (- q)"
proof -
  assume "rep q"
  then obtain m e where "q = of_int m * 2 powi e" "\<bar>m\<bar> < 2 ^ 53" "- 1074 \<le> e"
    unfolding rep_def by blast
  then show ?thesis by (intro repI [of _ "- m" e]) auto
qed

lemma rnd_rat_0 [simp]: "rnd_rat 0 = 0"
  by (simp add: rnd_rat_def)

lemma rnd_rat_error_ulp: "q \<noteq> 0 \<Longrightarrow> \<bar>rnd_rat q - q\<bar> \<le> 2 powi (ulp_exp q) / 2"
proof -
  assume q: "q \<noteq> 0"
  define u where "u = (2::rat) powi (ulp_exp q)"
  have u: "0 < u" by (simp add: u_def)
  have "rnd_rat q - q = (of_int (round_half_even (q / u)) - q / u) * u"
    using q u by (simp add: rnd_rat_def u_def Let_def algebra_simps)
  then have "\<bar>rnd_rat q - q\<bar> = \<bar>of_int (round_half_even (q / u)) - q / u\<bar> * u"
    using u by (simp add: abs_mult)
  also have "\<dots> \<le> 1 / 2 * u"
    using round_half_even_error [of "q / u"] u by (intro mult_right_mono) auto
  finally show ?thesis by (simp add: u_def)
qed

lemma rnd_rat_error: "\<bar>rnd_rat q - q\<bar> \<le> \<bar>q\<bar> / 2 ^ 53 + 1 / 2 ^ 1075"
proof (cases "q = 0")
  case False
  have "2 powi (ilog2 \<bar>q\<bar> - 52) = (2 powi (ilog2 \<bar>q\<bar>) / 2 ^ 52 :: rat)"
    by (simp add: power_int_diff)
  also have "\<dots> \<le> \<bar>q\<bar> / 2 ^ 52"
    using ilog2_bounds(1) [of "\<bar>q\<bar>"] False by (intro divide_right_mono) auto
  finally have a: "2 powi (ilog2 \<bar>q\<bar> - 52) \<le> \<bar>q\<bar> / 2 ^ 52" .
  have b: "2 powi (- 1074) = (1 / 2 ^ 1074 :: rat)"
    by (simp add: power_int_minus_divide)
  have "2 powi (ulp_exp q) \<le> \<bar>q\<bar> / 2 ^ 52 + 1 / 2 ^ 1074"
    using a b by (auto simp: ulp_exp_def max_def)
  then have "2 powi (ulp_exp q) / 2 \<le> \<bar>q\<bar> / 2 ^ 53 + 1 / 2 ^ 1075"
    by (simp add: field_simps)
  with rnd_rat_error_ulp [OF False] show ?thesis by linarith
qed simp

lemma rnd_rat_rep:
  assumes "rep q"
  shows "rnd_rat q = q"
proof (cases "q = 0")
  case False
  from assms obtain m e where q: "q = of_int m * 2 powi e" and m: "\<bar>m\<bar> < 2 ^ 53" and e: "- 1074 \<le> e"
    unfolding rep_def by blast
  have "(of_int \<bar>m\<bar> :: rat) < of_int (2 ^ 53)"
    using m by (simp only: of_int_less_iff)
  then have "\<bar>q\<bar> < 2 powi 53 * 2 powi e"
  proof -
    have "\<bar>q\<bar> = of_int \<bar>m\<bar> * 2 powi e" by (simp add: q abs_mult abs_of_pos)
    also have "\<dots> < 2 powi 53 * 2 powi e"
      using \<open>(of_int \<bar>m\<bar> :: rat) < _\<close> by (intro mult_strict_right_mono) auto
    finally show ?thesis .
  qed
  then have "\<bar>q\<bar> < 2 powi (53 + e)" by (simp only: powi_add)
  then have "ilog2 \<bar>q\<bar> < 53 + e"
    using False by (intro ilog2_less) auto
  then have le: "ulp_exp q \<le> e" using e by (simp add: ulp_exp_def)
  define k where "k = m * 2 ^ nat (e - ulp_exp q)"
  have "q / 2 powi (ulp_exp q) = of_int m * 2 powi (e - ulp_exp q)"
    by (simp add: q power_int_diff)
  also have "\<dots> = of_int k"
    using le by (simp add: k_def power_int_def)
  finally have k: "q / 2 powi (ulp_exp q) = of_int k" .
  have "rnd_rat q = of_int k * 2 powi (ulp_exp q)"
    using False by (simp add: rnd_rat_def Let_def k)
  also have "\<dots> = q" by (simp flip: k)
  finally show ?thesis .
qed simp

lemma rep_rnd_rat: "rep (rnd_rat q)"
proof (cases "q = 0")
  case False
  define u where "u = ulp_exp q"
  define m where "m = round_half_even (q / 2 powi u)"
  have r: "rnd_rat q = of_int m * 2 powi u"
    using False by (simp add: rnd_rat_def u_def m_def Let_def)
  have u: "- 1074 \<le> u" "ilog2 \<bar>q\<bar> + 1 \<le> 53 + u"
    by (simp_all add: u_def ulp_exp_def)
  have "\<bar>q\<bar> < 2 powi (ilog2 \<bar>q\<bar> + 1)"
    using ilog2_bounds(2) [of "\<bar>q\<bar>"] False by simp
  also have "\<dots> \<le> 2 powi (53 + u)" using u(2) by (rule powi_mono)
  finally have "\<bar>q\<bar> < 2 powi 53 * 2 powi u" by (simp only: powi_add)
  then have "\<bar>q / 2 powi u\<bar> \<le> of_int (2 ^ 53)" by (simp add: divide_simps)
  then have m: "\<bar>m\<bar> \<le> 2 ^ 53" unfolding m_def by (rule round_half_even_abs)
  show ?thesis
  proof (cases "\<bar>m\<bar> = 2 ^ 53")
    case False
    with m u r show ?thesis by (intro repI [of _ m u]) auto
  next
    case True
    then have m2: "m = 2 * (sgn m * 2 ^ 52)" by (auto simp: sgn_if abs_if split: if_splits)
    then have "rnd_rat q = of_int (sgn m * 2 ^ 52) * 2 powi (u + 1)"
      unfolding r by (subst m2) (simp add: power_int_add_1)
    moreover have "\<bar>sgn m * 2 ^ 52\<bar> < 2 ^ 53" by (simp add: abs_mult sgn_if)
    ultimately show ?thesis using u by (intro repI [of _ "sgn m * 2 ^ 52" "u + 1"]) auto
  qed
qed simp

lemma rnd_rat_bound: "\<bar>q\<bar> \<le> 2 ^ 1023 \<Longrightarrow> \<bar>rnd_rat q\<bar> < 2 ^ 1024"
proof -
  assume "\<bar>q\<bar> \<le> 2 ^ 1023"
  moreover from this have "\<bar>q\<bar> / 2 ^ 53 \<le> 2 ^ 1023 / 2 ^ 53"
    by (intro divide_right_mono) auto
  ultimately have "\<bar>rnd_rat q\<bar> \<le> 2 ^ 1023 + (2 ^ 1023 / 2 ^ 53 + 1 / 2 ^ 1075)"
    using rnd_rat_error [of q] by linarith
  also have "\<dots> < 2 ^ 1024" by simp
  finally show ?thesis .
qed

lemma fval_mk_fin [simp]: "fval (mk_fin s r) = r" "is_finite (mk_fin s r)" "mk_fin s r \<noteq> NaN"
  "mk_fin s r \<noteq> PosInf" "mk_fin s r \<noteq> NegInf"
  by (auto simp: mk_fin_def)

lemma to_f64_finite:
  assumes "\<bar>q\<bar> \<le> 2 ^ 1023"
  shows "is_finite (to_f64 b q)" and "fval (to_f64 b q) = rnd_rat q"
  using rnd_rat_bound [OF assms] by (simp_all add: to_f64_def Let_def)

lemma to_f64_rep:
  assumes "rep q" "\<bar>q\<bar> < 2 ^ 1024"
  shows "to_f64 b q = mk_fin (if q = 0 then b else q < 0) q"
  using assms by (simp add: to_f64_def rnd_rat_rep)

lemma finite_cases: "is_finite x \<longleftrightarrow> x = NegZero \<or> (\<exists>q. x = Fin q)"
  by (cases x) auto

lemma to_f64_int: "\<bar>i\<bar> < 2 ^ 53 \<Longrightarrow> i \<noteq> 0 \<or> \<not> s \<Longrightarrow> to_f64 s (of_int i) = Fin (of_int i)"
  by (auto simp: to_f64_rep rep_of_int mk_fin_def)

lemma f_of_int_exact: "\<bar>i\<bar> < 2 ^ 53 \<Longrightarrow> f_of_int i = Fin (of_int i)"
proof -
  assume i: "\<bar>i\<bar> < 2 ^ 53"
  then have "(of_int \<bar>i\<bar> :: rat) < of_int (2 ^ 53)" by (simp only: of_int_less_iff)
  then have "\<bar>of_int i :: rat\<bar> < 2 ^ 53" by simp
  then have "\<bar>of_int i :: rat\<bar> < 2 ^ 1024" by (rule less_trans) simp
  with rep_of_int [OF i] show ?thesis by (simp add: f_of_int_def to_f64_rep mk_fin_def)
qed

lemma trunc_rat_of_int [simp]: "trunc_rat (of_int i) = i"
  by (simp add: trunc_rat_def flip: of_int_minus)

lemma round_away_near: "\<bar>q - of_int i\<bar> < 1 / 2 \<Longrightarrow> round_away q = i"
  unfolding round_away_def by (auto simp: floor_eq_iff abs_if split: if_splits) linarith+

lemma f_as_of_int: "lo \<le> i \<Longrightarrow> i \<le> hi \<Longrightarrow> f_as lo hi (Fin (of_int i)) = i"
  by simp

lemma f_as_range: "lo \<le> 0 \<Longrightarrow> 0 \<le> hi \<Longrightarrow> lo \<le> f_as lo hi x \<and> f_as lo hi x \<le> hi"
  by (cases x) auto

subsection \<open>Every result is a binary64 value\<close>

definition f64_ok :: "f64 \<Rightarrow> bool" where
  "f64_ok x \<longleftrightarrow> (\<forall>q. x = Fin q \<longrightarrow> rep q \<and> \<bar>q\<bar> < 2 ^ 1024)"

lemma f64_ok_simps [simp]: "f64_ok NegZero" "f64_ok PosInf" "f64_ok NegInf" "f64_ok NaN"
  by (simp_all add: f64_ok_def)

lemma f64_ok_to_f64 [simp]: "f64_ok (to_f64 b q)"
  by (auto simp: f64_ok_def to_f64_def mk_fin_def Let_def rep_rnd_rat not_le split: if_splits)

lemma f64_ok_fneg: "f64_ok x \<Longrightarrow> f64_ok (fneg x)"
  by (cases x) (auto simp: f64_ok_def rep_uminus)

lemma f64_ok_arith: "f64_ok x \<Longrightarrow> f64_ok y \<Longrightarrow> f64_ok (fadd x y)"
  "f64_ok x \<Longrightarrow> f64_ok y \<Longrightarrow> f64_ok (fsub x y)"
  "f64_ok (fmul x y)" "f64_ok (fdiv x y)" "f64_ok x \<Longrightarrow> f64_ok (frem x y)"
proof -
  have zi: "f64_ok (inf_of b)" "f64_ok (zero_of b)" for b
    by (simp_all add: inf_of_def zero_of_def f64_ok_def)
  show add: "f64_ok (fadd x y)" if "f64_ok x" "f64_ok y" for x y
    using that by (simp add: fadd_def)
  show "f64_ok (fsub x y)" if "f64_ok x" "f64_ok y"
    using that unfolding fsub_def by (intro add f64_ok_fneg)
  show "f64_ok (fmul x y)" "f64_ok (fdiv x y)" using zi by (simp_all add: fmul_def fdiv_def Let_def)
  show "f64_ok (frem x y)" if "f64_ok x" using that by (simp add: frem_def)
qed

end
