(* ===== verification/RustStr.thy ===== *)
theory RustStr
  imports F64
begin

text \<open>
  The \<open>str\<close> of Rust and the part of its standard library the sources use.

  A \<open>str\<close> is its UTF-8 byte sequence, an Isabelle \<open>string\<close> whose characters are
  bytes; one Rust \<open>char\<close> is the byte string that encodes it (\<open>rchar\<close>), so byte
  offsets and lengths are those of the code.  \<open>chars_of\<close> is the iterator
  \<open>chars()\<close>: a lead byte with the continuation bytes that follow it.  Trimming
  knows every character with the Unicode property White_Space.  Number parsing
  follows \<open>str::parse\<close> for \<open>u8\<close>, \<open>u16\<close>, \<open>u32\<close> and \<open>f64\<close>.
\<close>

type_synonym rchar = string

abbreviation code :: "char \<Rightarrow> nat" where "code c \<equiv> of_char c"

subsection \<open>Characters\<close>

definition is_cont :: "char \<Rightarrow> bool" where
  "is_cont c \<longleftrightarrow> 128 \<le> code c \<and> code c < 192"

function chars_of :: "string \<Rightarrow> rchar list" where
  "chars_of [] = []"
| "chars_of (c # s) = (c # takeWhile is_cont s) # chars_of (dropWhile is_cont s)"
  by pat_completeness auto
termination
  by (relation "measure length") (auto simp: length_dropWhile_le less_Suc_eq_le)

lemma is_cont_code [code]: "is_cont c \<longleftrightarrow> digit7 c \<and> \<not> digit6 c"
  by (cases c) (auto simp: is_cont_def)

definition ascii :: "char \<Rightarrow> bool" where "ascii c \<longleftrightarrow> code c < 128"

definition is_digit :: "char \<Rightarrow> bool" where
  "is_digit c \<longleftrightarrow> 48 \<le> code c \<and> code c \<le> 57"

definition is_alpha :: "char \<Rightarrow> bool" where
  "is_alpha c \<longleftrightarrow> 65 \<le> code c \<and> code c \<le> 90 \<or> 97 \<le> code c \<and> code c \<le> 122"

definition digit_val :: "char \<Rightarrow> nat" where "digit_val c = code c - 48"

text \<open>The UTF-8 encodings of the White_Space characters (\<open>char::is_whitespace\<close>).\<close>

definition is_ws :: "rchar \<Rightarrow> bool" where
  "is_ws c =
     (case c of
        [x] \<Rightarrow> x \<in> {CHR 0x09, CHR 0x0A, CHR 0x0B, CHR 0x0C, CHR 0x0D, CHR 0x20}
      | [x, y] \<Rightarrow> x = CHR 0xC2 \<and> y \<in> {CHR 0x85, CHR 0xA0}
      | [x, y, z] \<Rightarrow>
            x = CHR 0xE1 \<and> y = CHR 0x9A \<and> z = CHR 0x80
          \<or> x = CHR 0xE2 \<and> y = CHR 0x80 \<and> z \<in> {CHR 0x80, CHR 0x81, CHR 0x82, CHR 0x83, CHR 0x84,
              CHR 0x85, CHR 0x86, CHR 0x87, CHR 0x88, CHR 0x89, CHR 0x8A, CHR 0xA8, CHR 0xA9, CHR 0xAF}
          \<or> x = CHR 0xE2 \<and> y = CHR 0x81 \<and> z = CHR 0x9F
          \<or> x = CHR 0xE3 \<and> y = CHR 0x80 \<and> z = CHR 0x80
      | _ \<Rightarrow> False)"

text \<open>\<open>c as u8\<close>: the low byte of the code point.\<close>

definition rchar_u8 :: "rchar \<Rightarrow> u8" where
  "rchar_u8 c =
     (case rev c of
        [] \<Rightarrow> 0
      | [b] \<Rightarrow> of_char b
      | b1 # b0 # _ \<Rightarrow> (of_char b1 AND 63) OR push_bit 6 (of_char b0))"

definition str_bytes :: "string \<Rightarrow> bytes" where "str_bytes = map of_char"

subsection \<open>Trimming and splitting\<close>

definition trim_start :: "string \<Rightarrow> string" where
  "trim_start s = concat (dropWhile is_ws (chars_of s))"

definition trim_end :: "string \<Rightarrow> string" where
  "trim_end s = concat (rev (dropWhile is_ws (rev (chars_of s))))"

definition trim :: "string \<Rightarrow> string" where
  "trim s = trim_end (trim_start s)"

text \<open>\<open>trim_end_matches\<close>, \<open>trim_start_matches\<close>, \<open>trim_matches\<close> for a set of ASCII characters.\<close>

definition trim_end_in :: "char set \<Rightarrow> string \<Rightarrow> string" where
  "trim_end_in C s = rev (dropWhile (\<lambda>c. c \<in> C) (rev s))"

definition trim_in :: "char set \<Rightarrow> string \<Rightarrow> string" where
  "trim_in C s = trim_end_in C (dropWhile (\<lambda>c. c \<in> C) s)"

text \<open>\<open>split(c)\<close> and \<open>split_once(c)\<close> for an ASCII separator.\<close>

fun split_on :: "char \<Rightarrow> string \<Rightarrow> string list" where
  "split_on c [] = [[]]"
| "split_on c (x # xs) =
     (if x = c then [] # split_on c xs
      else case split_on c xs of [] \<Rightarrow> [[x]] | p # ps \<Rightarrow> (x # p) # ps)"

fun split_once :: "char \<Rightarrow> string \<Rightarrow> (string \<times> string) option" where
  "split_once c [] = None"
| "split_once c (x # xs) =
     (if x = c then Some ([], xs)
      else case split_once c xs of None \<Rightarrow> None | Some (a, b) \<Rightarrow> Some (x # a, b))"

fun strip_prefix :: "string \<Rightarrow> string \<Rightarrow> string option" where
  "strip_prefix [] s = Some s"
| "strip_prefix (p # ps) [] = None"
| "strip_prefix (p # ps) (c # s) = (if p = c then strip_prefix ps s else None)"

definition strip_suffix :: "string \<Rightarrow> string \<Rightarrow> string option" where
  "strip_suffix p s = map_option rev (strip_prefix (rev p) (rev s))"

definition starts_with :: "string \<Rightarrow> string \<Rightarrow> bool" where
  "starts_with p s \<longleftrightarrow> strip_prefix p s \<noteq> None"

definition ends_with :: "string \<Rightarrow> string \<Rightarrow> bool" where
  "ends_with p s \<longleftrightarrow> strip_suffix p s \<noteq> None"

text \<open>\<open>lines()\<close>: pieces between newlines, one carriage return dropped, no empty last piece.\<close>

definition strip_cr :: "string \<Rightarrow> string" where
  "strip_cr s = (if s \<noteq> [] \<and> last s = CHR 0x0D then butlast s else s)"

definition str_lines :: "string \<Rightarrow> string list" where
  "str_lines s =
     (let ps = split_on CHR 0x0A s
      in map strip_cr (butlast ps) @ (if last ps = [] then [] else [last ps]))"

text \<open>\<open>split_whitespace()\<close>.\<close>

function split_ws :: "rchar list \<Rightarrow> string list" where
  "split_ws cs =
     (let r = dropWhile is_ws cs
      in if r = [] then []
         else concat (takeWhile (\<lambda>c. \<not> is_ws c) r) # split_ws (dropWhile (\<lambda>c. \<not> is_ws c) r))"
  by pat_completeness auto
termination
proof (relation "measure length", goal_cases)
  case (2 cs r)
  have "r \<noteq> []" "r = dropWhile is_ws cs" using 2 by auto
  then have "\<not> is_ws (hd r)" by (simp add: hd_dropWhile)
  with \<open>r \<noteq> []\<close> have "length (dropWhile (\<lambda>c. \<not> is_ws c) r) < length r"
    by (cases r) (auto simp: length_dropWhile_le less_Suc_eq_le)
  also have "length r \<le> length cs" using 2 by (simp add: length_dropWhile_le)
  finally show ?case by simp
qed simp

declare split_ws.simps [simp del]

definition split_whitespace :: "string \<Rightarrow> string list" where
  "split_whitespace s = split_ws (chars_of s)"

fun str_join :: "string \<Rightarrow> string list \<Rightarrow> string" where
  "str_join sep [] = []"
| "str_join sep [p] = p"
| "str_join sep (p # ps) = p @ sep @ str_join sep ps"

definition to_lower_char :: "char \<Rightarrow> char" where
  "to_lower_char c = (if 65 \<le> code c \<and> code c \<le> 90 then char_of (code c + 32) else c)"

definition to_ascii_lowercase :: "string \<Rightarrow> string" where
  "to_ascii_lowercase s = map to_lower_char s"

definition str_contains :: "string \<Rightarrow> string \<Rightarrow> bool" where
  "str_contains p s \<longleftrightarrow> (\<exists>k \<in> set [0 ..< Suc (length s)]. starts_with p (drop k s))"

text \<open>\<open>replace(c, r)\<close> for one ASCII character.\<close>

definition replace_char :: "char \<Rightarrow> string \<Rightarrow> string \<Rightarrow> string" where
  "replace_char c r s = concat (map (\<lambda>x. if x = c then r else [x]) s)"

subsection \<open>Numbers\<close>

definition dec_val :: "string \<Rightarrow> nat" where
  "dec_val s = foldl (\<lambda>n c. 10 * n + digit_val c) 0 s"

text \<open>\<open>parse::<uN>()\<close>: an optional plus sign, at least one digit, no overflow.\<close>

definition parse_uint :: "nat \<Rightarrow> string \<Rightarrow> nat option" where
  "parse_uint w s =
     (let ds = (case s of c # r \<Rightarrow> if c = CHR ''+'' then r else s | [] \<Rightarrow> [])
      in if ds \<noteq> [] \<and> list_all is_digit ds \<and> dec_val ds < 2 ^ w then Some (dec_val ds) else None)"

definition hex_val :: "char \<Rightarrow> nat option" where
  "hex_val c =
     (if is_digit c then Some (code c - 48)
      else if 65 \<le> code c \<and> code c \<le> 70 then Some (code c - 55)
      else if 97 \<le> code c \<and> code c \<le> 102 then Some (code c - 87)
      else None)"

text \<open>\<open>u8::from_str_radix(s, 16)\<close> on the two-character strings the template parser builds.\<close>

definition u8_from_hex2 :: "rchar \<Rightarrow> rchar \<Rightarrow> u8 option" where
  "u8_from_hex2 hi lo =
     (case (hi, lo) of
        ([h], [l]) \<Rightarrow>
          (case (if h = CHR ''+'' then Some 0 else hex_val h, hex_val l) of
             (Some a, Some b) \<Rightarrow> Some (of_nat (16 * a + b))
           | _ \<Rightarrow> None)
      | _ \<Rightarrow> None)"

text \<open>The decimal part of \<open>f64::from_str\<close>: digits, an optional fraction, an optional exponent.\<close>

definition span_digits :: "string \<Rightarrow> string \<times> string" where
  "span_digits s = (takeWhile is_digit s, dropWhile is_digit s)"

definition parse_exp :: "string \<Rightarrow> int option" where
  "parse_exp s =
     (case s of
        [] \<Rightarrow> None
      | c # r \<Rightarrow>
          (let neg = (c = CHR ''-''); ds = (if c = CHR ''-'' \<or> c = CHR ''+'' then r else s)
           in if ds \<noteq> [] \<and> list_all is_digit ds
              then Some (if neg then - int (dec_val ds) else int (dec_val ds)) else None))"

definition parse_decimal :: "string \<Rightarrow> rat option" where
  "parse_decimal s =
     (let (ip, r1) = span_digits s;
          (fp, r2) = (case r1 of c # r \<Rightarrow> if c = CHR ''.'' then span_digits r else ([], r1)
                      | [] \<Rightarrow> ([], []));
          ex = (case r2 of [] \<Rightarrow> Some 0
                | c # r \<Rightarrow> if c = CHR ''e'' \<or> c = CHR ''E'' then parse_exp r else None)
      in if ip = [] \<and> fp = [] then None
         else map_option
           (\<lambda>e. of_nat (dec_val (ip @ fp)) * 10 powi (e - int (length fp))) ex)"

definition parse_f64 :: "string \<Rightarrow> f64 option" where
  "parse_f64 s =
     (let (neg, r) = (case s of c # t \<Rightarrow>
            if c = CHR ''-'' then (True, t) else if c = CHR ''+'' then (False, t) else (False, s)
          | [] \<Rightarrow> (False, []));
          l = to_ascii_lowercase r
      in if l = ''inf'' \<or> l = ''infinity'' then Some (inf_of neg)
         else if l = ''nan'' then Some NaN
         else map_option (\<lambda>q. to_f64 neg (if neg then - q else q)) (parse_decimal r))"

text \<open>Decimal digits of a natural number (\<open>Display\<close> of the integer types).\<close>

fun show_nat :: "nat \<Rightarrow> string" where
  "show_nat n =
     (if n < 10 then [char_of (48 + n)] else show_nat (n div 10) @ [char_of (48 + n mod 10)])"

declare show_nat.simps [simp del]

definition show_int :: "int \<Rightarrow> string" where
  "show_int i = (if i < 0 then CHR ''-'' # show_nat (nat (- i)) else show_nat (nat i))"

text \<open>
  \<open>format!("{:.p}", x)\<close>: the exact decimal expansion rounded to \<open>p\<close> digits, ties to even.
\<close>

definition pad_left :: "nat \<Rightarrow> string \<Rightarrow> string" where
  "pad_left k s = replicate (k - length s) (CHR ''0'') @ s"

definition show_fixed :: "nat \<Rightarrow> f64 \<Rightarrow> string" where
  "show_fixed p x =
     (case x of NaN \<Rightarrow> ''NaN'' | PosInf \<Rightarrow> ''inf'' | NegInf \<Rightarrow> ''-inf''
      | _ \<Rightarrow>
        (let ds = pad_left (p + 1) (show_nat (nat (round_half_even (\<bar>fval x\<bar> * 10 ^ p))));
             k = length ds - p
         in (if is_neg x then ''-'' else []) @ take k ds
            @ (if p = 0 then [] else CHR ''.'' # drop k ds)))"

text \<open>
  \<open>Display\<close> of \<open>f64\<close> (\<open>to_string\<close>, \<open>{}\<close>): the shortest decimal that reads back as the
  value, never in exponent form.  \<open>dec_exp q\<close> is the \<open>e\<close> with \<open>10^(e-1) \<le> q < 10^e\<close>;
  \<open>shortest\<close> tries 1 to 17 significant digits and takes the candidate nearest to the value.
\<close>

fun leading_zeros :: "nat \<Rightarrow> rat \<Rightarrow> nat" where
  "leading_zeros 0 q = 0"
| "leading_zeros (Suc n) q = (if 1 \<le> 10 * q then 0 else Suc (leading_zeros n (10 * q)))"

definition dec_exp :: "rat \<Rightarrow> int" where
  "dec_exp q =
     (if 1 \<le> q then int (length (show_nat (nat \<lfloor>q\<rfloor>))) else - int (leading_zeros 400 q))"

definition dec_candidate :: "rat \<Rightarrow> int \<Rightarrow> nat \<Rightarrow> nat option" where
  "dec_candidate q e k =
     (let u = 10 powi (e - int k); m = q / u;
          good = (\<lambda>c. to_f64 False (of_int c * u) = Fin q)
      in if good \<lfloor>m\<rfloor> \<and> (\<not> good \<lceil>m\<rceil> \<or> m - of_int \<lfloor>m\<rfloor> \<le> of_int \<lceil>m\<rceil> - m) then Some (nat \<lfloor>m\<rfloor>)
         else if good \<lceil>m\<rceil> then Some (nat \<lceil>m\<rceil>) else None)"

fun shortest :: "rat \<Rightarrow> int \<Rightarrow> nat list \<Rightarrow> nat \<times> nat" where
  "shortest q e [] = (0, 1)"
| "shortest q e (k # ks) =
     (case dec_candidate q e k of Some c \<Rightarrow> (c, k) | None \<Rightarrow> shortest q e ks)"

definition show_pos :: "rat \<Rightarrow> string" where
  "show_pos q =
     (let e = dec_exp q
      in case shortest q e [1 ..< 18] of
           (c, k) \<Rightarrow>
             if int k \<le> e then show_nat (c * 10 ^ nat (e - int k))
             else
               (let p = nat (int k - e); ds = pad_left (p + 1) (show_nat c); n = length ds - p
                in take n ds @ ''.'' @ drop n ds))"

definition show_f64 :: "f64 \<Rightarrow> string" where
  "show_f64 x =
     (case x of
        NaN \<Rightarrow> ''NaN'' | PosInf \<Rightarrow> ''inf'' | NegInf \<Rightarrow> ''-inf'' | NegZero \<Rightarrow> ''-0''
      | Fin q \<Rightarrow>
          if q = 0 then ''0'' else if q < 0 then CHR ''-'' # show_pos (- q) else show_pos q)"

subsection \<open>Lossy decoding\<close>

text \<open>
  \<open>String::from_utf8_lossy\<close>: \<open>utf8_take\<close> reads one character and says whether it is
  well formed and how many bytes it used; every ill-formed piece becomes U+FFFD.
\<close>

definition u8_in :: "nat \<Rightarrow> nat \<Rightarrow> bytes \<Rightarrow> bool" where
  "u8_in lo hi bs = (case bs of [] \<Rightarrow> False | b # _ \<Rightarrow> lo \<le> unat b \<and> unat b \<le> hi)"

fun conts_ok :: "nat \<Rightarrow> nat \<Rightarrow> bytes \<Rightarrow> bool \<times> nat" where
  "conts_ok 0 n bs = (True, n)"
| "conts_ok (Suc k) n bs = (if u8_in 128 191 bs then conts_ok k (n + 1) (tl bs) else (False, n))"

definition utf8_take :: "u8 \<Rightarrow> bytes \<Rightarrow> bool \<times> nat" where
  "utf8_take b bs =
     (let v = unat b;
          after = (\<lambda>lo hi k. if u8_in lo hi bs then conts_ok k 2 (tl bs) else (False, 1))
      in if v < 128 then (True, 1)
         else if 194 \<le> v \<and> v \<le> 223 then after 128 191 0
         else if v = 224 then after 160 191 1
         else if v = 237 then after 128 159 1
         else if 225 \<le> v \<and> v \<le> 239 then after 128 191 1
         else if v = 240 then after 144 191 2
         else if 241 \<le> v \<and> v \<le> 243 then after 128 191 2
         else if v = 244 then after 128 143 2
         else (False, 1))"

function utf8_lossy :: "bytes \<Rightarrow> string" where
  "utf8_lossy [] = []"
| "utf8_lossy (b # bs) =
     (case utf8_take b bs of
        (valid, n) \<Rightarrow>
          (if valid then map (\<lambda>x. char_of (unat x)) (take n (b # bs)) else map char_of [239, 191, 189 :: nat])
          @ utf8_lossy (drop (n - 1) bs))"
  by pat_completeness auto
termination
  by (relation "measure length") auto

subsection \<open>Characters and trimming\<close>

lemma concat_chars_of [simp]: "concat (chars_of s) = s"
  by (induction s rule: chars_of.induct) simp_all

lemma cont_prefix_append:
  assumes "ys = [] \<or> \<not> is_cont (hd ys)"
  shows "takeWhile is_cont (s @ ys) = takeWhile is_cont s"
    and "dropWhile is_cont (s @ ys) = dropWhile is_cont s @ ys"
  using assms by (induction s; cases ys; simp)+

lemma chars_of_append:
  assumes "ys = [] \<or> \<not> is_cont (hd ys)"
  shows "chars_of (xs @ ys) = chars_of xs @ chars_of ys"
  using assms
  by (induction xs rule: chars_of.induct) (simp_all add: cont_prefix_append)

lemma ws_heads: "is_ws (c # t) \<Longrightarrow> code c \<in> {9, 10, 11, 12, 13, 32, 194, 225, 226, 227}"
  by (auto simp: is_ws_def split: list.splits)

lemma trim_start_id:
  assumes "s \<noteq> []" "code (hd s) \<notin> {9, 10, 11, 12, 13, 32, 194, 225, 226, 227}"
  shows "trim_start s = s"
proof -
  obtain c r where s: "s = c # r" using assms(1) by (cases s) auto
  have "\<not> is_ws (c # takeWhile is_cont r)" using ws_heads assms(2) s by auto
  then have "dropWhile is_ws (chars_of s) = chars_of s" by (simp add: s)
  then show ?thesis by (simp add: trim_start_def)
qed

lemma trim_end_id:
  assumes "\<not> is_cont c" "\<not> is_ws [c]"
  shows "trim_end (s @ [c]) = s @ [c]"
proof -
  have "chars_of (s @ [c]) = chars_of s @ [[c]]"
    using assms(1) by (subst chars_of_append) simp_all
  with assms(2) show ?thesis by (simp add: trim_end_def)
qed

lemma is_ws_space: "is_ws '' ''"
  by code_simp

text \<open>Visible ASCII delimiters protect what is between them from trimming.\<close>

definition solid :: "char \<Rightarrow> bool" where
  "solid c \<longleftrightarrow> 33 \<le> code c \<and> code c < 127"

lemma solid_props:
  assumes "solid c"
  shows "\<not> is_cont c" "\<not> is_ws [c]" "code c \<notin> {9, 10, 11, 12, 13, 32, 194, 225, 226, 227}"
  using assms ws_heads [of c "[]"] by (auto simp: solid_def is_cont_def)

lemma trim_solid:
  assumes "s \<noteq> []" "solid (hd s)" "solid (last s)"
  shows "trim s = s"
  using trim_start_id [OF assms(1) solid_props(3) [OF assms(2)]]
    trim_end_id [OF solid_props(1,2) [OF assms(3)], of "butlast s"] assms(1)
  by (simp add: trim_def)

lemma trim_space:
  assumes "s = [] \<or> \<not> is_cont (hd s)"
  shows "trim (CHR '' '' # s) = trim s"
proof -
  have "takeWhile is_cont s = []" "dropWhile is_cont s = s" using assms by (cases s; simp)+
  then show ?thesis by (simp add: trim_def trim_start_def is_ws_space)
qed

lemma trim_Nil [simp]: "trim [] = []"
  by (simp add: trim_def trim_start_def trim_end_def)

lemma strip_prefix_append [simp]: "strip_prefix p (p @ s) = Some s"
  by (induction p) auto

lemma strip_suffix_snoc [simp]: "strip_suffix [c] (s @ [d]) = (if c = d then Some s else None)"
  by (simp add: strip_suffix_def)

lemma strip_prefix_single: "strip_prefix [c] s = (case s of [] \<Rightarrow> None | d # r \<Rightarrow> if c = d then Some r else None)"
  by (cases s) auto

text \<open>Splitting a joined list.\<close>

lemma split_on_append: "c \<notin> set a \<Longrightarrow> split_on c (a @ c # b) = a # split_on c b"
  by (induction a) auto

lemma split_on_none: "c \<notin> set a \<Longrightarrow> split_on c a = [a]"
  by (induction a) auto

lemma str_join_Cons: "ps \<noteq> [] \<Longrightarrow> str_join sep (p # ps) = p @ sep @ str_join sep ps"
  by (cases ps) simp_all

lemma split_on_join:
  assumes "ps \<noteq> []" "\<forall>p \<in> set ps. c \<notin> set p"
  shows "split_on c (str_join [c] ps) = ps"
  using assms
proof (induction ps)
  case (Cons p ps)
  then show ?case
    by (cases "ps = []") (simp_all add: split_on_none str_join_Cons split_on_append)
qed simp

lemma lines_join:
  assumes "\<forall>p \<in> set ps. p \<noteq> [] \<and> CHR 0x0A \<notin> set p \<and> CHR 0x0D \<notin> set p"
  shows "str_lines (str_join [CHR 0x0A] ps) = ps"
proof (cases "ps = []")
  case False
  have cr: "strip_cr p = p" if "p \<in> set ps" for p
  proof -
    have "p \<noteq> []" "CHR 0x0D \<notin> set p" using assms that by auto
    then have "last p \<noteq> CHR 0x0D" using last_in_set [of p] by metis
    then show ?thesis by (simp add: strip_cr_def)
  qed
  have "map strip_cr (butlast ps) = butlast ps"
    by (rule map_idI) (use cr in_set_butlastD in metis)
  moreover have "last ps \<noteq> []" using False assms by auto
  ultimately have parts: "last ps \<noteq> []" "map strip_cr (butlast ps) = butlast ps" by blast+
  then show ?thesis
    using False assms parts by (simp add: str_lines_def Let_def split_on_join)
qed (simp add: str_lines_def)

text \<open>A numeral below \<open>2 ^ 53\<close> is read exactly.\<close>

lemma lowercase_digits: "list_all is_digit s \<Longrightarrow> to_ascii_lowercase s = s"
  by (induction s) (auto simp: to_ascii_lowercase_def is_digit_def to_lower_char_def)

lemma parse_f64_digits:
  assumes "list_all is_digit s" "s \<noteq> []" "dec_val s < 2 ^ 53"
  shows "parse_f64 s = Some (Fin (of_nat (dec_val s)))"
proof -
  obtain c t where s: "s = c # t" using assms(2) by (cases s) auto
  have c: "is_digit c" using assms(1) s by simp
  then have c1: "c \<noteq> CHR ''-''" "c \<noteq> CHR ''+''" "c \<noteq> CHR ''i''" "c \<noteq> CHR ''n''" by (auto simp: is_digit_def)
  have tw: "takeWhile is_digit s = s" "dropWhile is_digit s = []"
    using assms(1) by (auto simp: list_all_iff takeWhile_eq_all_conv dropWhile_eq_Nil_conv)
  have "parse_decimal s = Some (of_nat (dec_val s))"
    using assms(2) by (simp add: parse_decimal_def span_digits_def tw)
  moreover have "to_f64 False (of_nat (dec_val s)) = Fin (of_nat (dec_val s))"
  proof -
    have "rep (of_int (int (dec_val s)))" using assms(3) by (intro rep_of_int) simp
    then show ?thesis using f_of_int_exact [of "int (dec_val s)"] assms(3) by (simp add: f_of_int_def)
  qed
  ultimately show ?thesis using lowercase_digits [OF assms(1)] by (simp add: parse_f64_def s c1)
qed

text \<open>The line separator, for the texts of examples.\<close>

definition nl :: string where "nl = [CHR 0x0A]"

end
