(* ===== verification/Expr_Syntax.thy ===== *)
theory Expr_Syntax
  imports RustStr
begin

text \<open>
  The expression language of the INI files, \<open>ts-ini/src/expr.rs\<close>: the syntax tree,
  the scanner and the precedence-climbing parser.  A parser state (token vector and
  position) is the list of the tokens still to read.

  The mutually recursive parser functions take a budget of nested calls and loop
  passes; twice the number of tokens plus two is always enough (\<open>parse_budget\<close>), so
  \<open>parse_expr\<close> returns on every text.  \<open>toks\<close> writes a tree as tokens with the least
  parentheses its precedences need; the parser inverts it.
\<close>

text \<open>The error type of \<open>ts-ini/src/lib.rs\<close>.\<close>

datatype ini_error = Parse_error nat string | Eval_error string

datatype un_op = Neg | Not_op

datatype bin_op = Add | Sub | Mul | Div | Rem | Lt | Gt | Le | Ge | Eq_op | Ne | And_op | Or_op
  | BitAnd | BitOr | BitXor | Shl | Shr

datatype expr =
    ENum f64
  | EStr string
  | EIdent string
  | EUnary un_op expr
  | EBinary bin_op expr expr
  | ETernary expr expr expr
  | ECall string "expr list"
  | EIndex string expr

subsection \<open>Scanner\<close>

datatype tok = TNum f64 | TStr string | TIdent string | TOp string

definition rdigit :: "rchar \<Rightarrow> bool" where
  "rdigit c = (case c of [b] \<Rightarrow> is_digit b | _ \<Rightarrow> False)"

definition ralpha :: "rchar \<Rightarrow> bool" where
  "ralpha c = (case c of [b] \<Rightarrow> is_alpha b | _ \<Rightarrow> False)"

definition number_char :: "rchar \<Rightarrow> bool" where
  "number_char c \<longleftrightarrow> rdigit c \<or> c = ''.''"

definition ident_start :: "rchar \<Rightarrow> bool" where
  "ident_start c \<longleftrightarrow> ralpha c \<or> c = ''_''"

definition ident_char :: "rchar \<Rightarrow> bool" where
  "ident_char c \<longleftrightarrow> ralpha c \<or> rdigit c \<or> c = ''_'' \<or> c = ''.''"

definition two_char_ops :: "string list" where
  "two_char_ops = [''&&'', ''||'', ''=='', ''!='', ''<='', ''>='', ''<<'', ''>>'']"

definition one_char_ops :: "string list" where
  "one_char_ops = [''+'', ''-'', ''*'', ''/'', ''%'', ''('', '')'', '','', ''?'', '':'', ''<'', ''>'',
     ''!'', ''&'', ''|'', ''^'', ''['', '']'']"

abbreviation dquote :: rchar where "dquote \<equiv> [CHR 0x22]"

definition in_braces :: "string \<Rightarrow> string" where
  "in_braces text = '' in { '' @ text @ '' }''"

definition ticked :: "string \<Rightarrow> string" where
  "ticked s = [CHR 0x60] @ s @ [CHR 0x60]"

function scan_toks :: "nat \<Rightarrow> string \<Rightarrow> rchar list \<Rightarrow> ini_error + tok list" where
  "scan_toks num text [] = Inr []"
| "scan_toks num text (c # r) =
     (if is_ws c then scan_toks num text r
      else if number_char c then
        (let s = concat (takeWhile number_char (c # r))
         in case parse_f64 s of
              None \<Rightarrow> Inl (Parse_error num (''bad number '' @ ticked s @ in_braces text))
            | Some x \<Rightarrow> res_bind (scan_toks num text (dropWhile number_char r)) (\<lambda>ts. Inr (TNum x # ts)))
      else if ident_start c then
        res_bind (scan_toks num text (dropWhile ident_char r))
          (\<lambda>ts. Inr (TIdent (concat (takeWhile ident_char (c # r))) # ts))
      else if c = dquote then
        (case dropWhile (\<lambda>d. d \<noteq> dquote) r of
           [] \<Rightarrow> Inl (Parse_error num (''unterminated string'' @ in_braces text))
         | q # r1 \<Rightarrow> res_bind (scan_toks num text r1)
             (\<lambda>ts. Inr (TStr (concat (takeWhile (\<lambda>d. d \<noteq> dquote) r)) # ts)))
      else
        (case r of
           d # r1 \<Rightarrow>
             if c @ d \<in> set two_char_ops then res_bind (scan_toks num text r1) (\<lambda>ts. Inr (TOp (c @ d) # ts))
             else if c \<in> set one_char_ops then res_bind (scan_toks num text r) (\<lambda>ts. Inr (TOp c # ts))
             else Inl (Parse_error num (''unexpected '' @ ticked c @ in_braces text))
         | [] \<Rightarrow>
             if c \<in> set one_char_ops then Inr [TOp c]
             else Inl (Parse_error num (''unexpected '' @ ticked c @ in_braces text))))"
  by pat_completeness auto
termination
proof (relation "measure (\<lambda>(num, text, cs). length cs)", goal_cases)
  case (5 num tx c r q r1)
  then have "length (q # r1) \<le> length r" by (metis length_dropWhile_le)
  then show ?case by simp
qed (auto simp: length_dropWhile_le less_Suc_eq_le)

subsection \<open>Parser\<close>

text \<open>Left binding power per binary operator (C-like precedence).\<close>

definition lbp :: "string \<Rightarrow> (nat \<times> bin_op) option" where
  "lbp op = map_of
     [(''||'', 1, Or_op), (''&&'', 2, And_op), (''|'', 3, BitOr), (''^'', 4, BitXor),
      (''&'', 5, BitAnd), (''=='', 6, Eq_op), (''!='', 6, Ne), (''<'', 7, Lt), (''>'', 7, Gt),
      (''<='', 7, Le), (''>='', 7, Ge), (''<<'', 8, Shl), (''>>'', 8, Shr), (''+'', 9, Add),
      (''-'', 9, Sub), (''*'', 10, Mul), (''/'', 10, Div), (''%'', 10, Rem)] op"

text \<open>The parser's constant fields: the line number and the source text.\<close>

type_synonym pctx = "nat \<times> string"

definition p_err :: "pctx \<Rightarrow> string \<Rightarrow> ini_error" where
  "p_err cx msg = Parse_error (fst cx) (msg @ in_braces (snd cx))"

definition expect_op :: "pctx \<Rightarrow> string \<Rightarrow> tok list \<Rightarrow> (ini_error + tok list) run" where
  "expect_op cx op ts =
     (case ts of
        TOp o1 # r \<Rightarrow> if o1 = op then rr_return r else rr_fail (p_err cx (''expected '' @ ticked op))
      | _ \<Rightarrow> rr_fail (p_err cx (''expected '' @ ticked op)))"

function p_expr :: "pctx \<Rightarrow> nat \<Rightarrow> nat \<Rightarrow> tok list \<Rightarrow> (ini_error + expr \<times> tok list) run"
and p_loop :: "pctx \<Rightarrow> nat \<Rightarrow> nat \<Rightarrow> expr \<Rightarrow> tok list \<Rightarrow> (ini_error + expr \<times> tok list) run"
and p_primary :: "pctx \<Rightarrow> nat \<Rightarrow> tok list \<Rightarrow> (ini_error + expr \<times> tok list) run"
and p_args :: "pctx \<Rightarrow> nat \<Rightarrow> tok list \<Rightarrow> (ini_error + expr list \<times> tok list) run"
where
  "p_expr cx 0 bp ts = Crash Diverge"
| "p_expr cx (Suc n) bp ts =
     rr_bind (p_primary cx n ts) (\<lambda>(lhs, r). p_loop cx n bp lhs r)"
| "p_loop cx 0 bp lhs ts = Crash Diverge"
| "p_loop cx (Suc n) bp lhs ts =
     (case ts of
        TOp op # r \<Rightarrow>
          if op = ''?'' then
            (if 0 < bp then rr_return (lhs, ts)
             else
               rr_bind (p_expr cx n 0 r) (\<lambda>(t, r1).
               rr_bind (expect_op cx '':'' r1) (\<lambda>r2.
               rr_bind (p_expr cx n 0 r2) (\<lambda>(f, r3).
                 p_loop cx n bp (ETernary lhs t f) r3))))
          else
            (case lbp op of
               None \<Rightarrow> rr_return (lhs, ts)
             | Some (b, binop) \<Rightarrow>
                 if b < bp then rr_return (lhs, ts)
                 else
                   rr_bind (p_expr cx n (b + 1) r) (\<lambda>(rhs, r1).
                     p_loop cx n bp (EBinary binop lhs rhs) r1))
      | _ \<Rightarrow> rr_return (lhs, ts))"
| "p_primary cx 0 ts = Crash Diverge"
| "p_primary cx (Suc n) ts =
     (case ts of
        TNum x # r \<Rightarrow> rr_return (ENum x, r)
      | TStr s # r \<Rightarrow> rr_return (EStr s, r)
      | TIdent name # r \<Rightarrow>
          (case r of
             TOp op # r1 \<Rightarrow>
               if op = ''['' then
                 rr_bind (p_expr cx n 0 r1) (\<lambda>(idx, r2).
                 rr_bind (expect_op cx '']'' r2) (\<lambda>r3. rr_return (EIndex name idx, r3)))
               else if op = ''('' then
                 (case r1 of
                    TOp o2 # r2 \<Rightarrow>
                      if o2 = '')'' then rr_return (ECall name [], r2)
                      else rr_bind (p_args cx n r1) (\<lambda>(args, r3). rr_return (ECall name args, r3))
                  | _ \<Rightarrow> rr_bind (p_args cx n r1) (\<lambda>(args, r3). rr_return (ECall name args, r3)))
               else rr_return (EIdent name, r)
           | _ \<Rightarrow> rr_return (EIdent name, r))
      | TOp op # r \<Rightarrow>
          if op = ''('' then
            rr_bind (p_expr cx n 0 r) (\<lambda>(e, r1).
            rr_bind (expect_op cx '')'' r1) (\<lambda>r2. rr_return (e, r2)))
          else if op = ''-'' then
            rr_bind (p_primary cx n r) (\<lambda>(e, r1). rr_return (EUnary Neg e, r1))
          else if op = ''!'' then
            rr_bind (p_primary cx n r) (\<lambda>(e, r1). rr_return (EUnary Not_op e, r1))
          else rr_fail (p_err cx ''expected a value'')
      | [] \<Rightarrow> rr_fail (p_err cx ''expected a value''))"
| "p_args cx 0 ts = Crash Diverge"
| "p_args cx (Suc n) ts =
     rr_bind (p_expr cx n 0 ts) (\<lambda>(e, r).
       case r of
         TOp op # r1 \<Rightarrow>
           if op = '','' then rr_bind (p_args cx n r1) (\<lambda>(es, r2). rr_return (e # es, r2))
           else if op = '')'' then rr_return ([e], r1)
           else rr_fail (p_err cx (''expected '' @ ticked '','' @ '' or '' @ ticked '')''))
       | _ \<Rightarrow> rr_fail (p_err cx (''expected '' @ ticked '','' @ '' or '' @ ticked '')'')))"

  by pat_completeness auto
termination
  by (relation "measure (\<lambda>x. case x of
      Inl (Inl (cx, n, bp, ts)) \<Rightarrow> n | Inl (Inr (cx, n, bp, lhs, ts)) \<Rightarrow> n
    | Inr (Inl (cx, n, ts)) \<Rightarrow> n | Inr (Inr (cx, n, ts)) \<Rightarrow> n)") auto

definition parse_toks :: "pctx \<Rightarrow> tok list \<Rightarrow> (ini_error + expr) run" where
  "parse_toks cx ts =
     rr_bind (p_expr cx (2 * length ts + 2) 0 ts) (\<lambda>(e, r).
       if r = [] then rr_return e else rr_fail (p_err cx ''trailing input''))"

definition parse_expr :: "string \<Rightarrow> nat \<Rightarrow> (ini_error + expr) run" where
  "parse_expr text num =
     (case scan_toks num text (chars_of text) of
        Inl e \<Rightarrow> rr_fail e
      | Inr ts \<Rightarrow> parse_toks (num, text) ts)"

subsection \<open>The budget is enough\<close>

text \<open>\<open>reads k m\<close>: the parser step returns, and on success leaves fewer than \<open>k\<close> tokens.\<close>

definition reads :: "nat \<Rightarrow> (ini_error + 'a \<times> tok list) run \<Rightarrow> bool" where
  "reads k m \<longleftrightarrow> (\<exists>r. m = Ret r \<and> (\<forall>x rest. r = Inr (x, rest) \<longrightarrow> length rest < k))"

lemma reads_basic [simp]:
  "reads k (rr_fail e)" "reads k (rr_return (x, rest)) \<longleftrightarrow> length rest < k"
  by (auto simp: reads_def)

lemma reads_bind:
  assumes "reads k m" "\<And>x rest. length rest < k \<Longrightarrow> reads l (f (x, rest))"
  shows "reads l (rr_bind m f)"
proof -
  from assms(1) obtain r where r: "m = Ret r" "\<And>x rest. r = Inr (x, rest) \<Longrightarrow> length rest < k"
    by (auto simp: reads_def)
  show ?thesis
  proof (cases r)
    case (Inr y)
    obtain x rest where "y = (x, rest)" by (cases y)
    with assms(2) r Inr show ?thesis by simp
  qed (simp add: r reads_def)
qed

lemma reads_expect:
  assumes "\<And>rest. length rest < length ts \<Longrightarrow> reads l (f rest)"
  shows "reads l (rr_bind (expect_op cx op ts) f)"
  using assms by (auto simp: expect_op_def reads_def split: list.splits tok.splits)

lemma reads_mono: "reads k m \<Longrightarrow> k \<le> l \<Longrightarrow> reads l m"
  by (force simp: reads_def)

lemma parse_budget:
  "(2 * length ts + 2 \<le> n \<longrightarrow> reads (length ts) (p_expr cx n bp ts))
   \<and> (2 * length ts + 1 \<le> n \<longrightarrow> reads (length ts + 1) (p_loop cx n bp lhs ts))
   \<and> (2 * length ts + 1 \<le> n \<longrightarrow> reads (length ts) (p_primary cx n ts))
   \<and> (2 * length ts + 3 \<le> n \<longrightarrow> reads (length ts) (p_args cx n ts))"
proof (induction n arbitrary: bp lhs ts)
  case (Suc n)
  note e = Suc.IH [THEN conjunct1, THEN mp]
    and l = Suc.IH [THEN conjunct2, THEN conjunct1, THEN mp]
    and p = Suc.IH [THEN conjunct2, THEN conjunct2, THEN conjunct1, THEN mp]
    and a = Suc.IH [THEN conjunct2, THEN conjunct2, THEN conjunct2, THEN mp]
  have 1: "reads (length ts) (p_expr cx (Suc n) bp ts)" if "2 * length ts + 2 \<le> Suc n"
    using that by (auto intro!: reads_bind [OF p] reads_mono [OF l])
  have 2: "reads (length ts + 1) (p_loop cx (Suc n) bp lhs ts)" if "2 * length ts + 1 \<le> Suc n"
  proof (cases ts)
    case (Cons t r)
    show ?thesis
    proof (cases t)
      case (TOp op)
      with Cons that show ?thesis
        by (auto split: option.splits intro!: reads_bind [OF e] reads_expect reads_mono [OF l])
    qed (simp_all add: Cons)
  qed simp
  have 3: "reads (length ts) (p_primary cx (Suc n) ts)" if "2 * length ts + 1 \<le> Suc n"
  proof (cases ts)
    case (Cons t r)
    show ?thesis
    proof (cases t)
      case (TOp op)
      with Cons that show ?thesis
        by (auto intro!: reads_bind [OF e] reads_bind [OF p] reads_expect)
    next
      case (TIdent name)
      show ?thesis
      proof (cases r)
        case (Cons t1 r1)
        with TIdent \<open>ts = t # r\<close> that show ?thesis
          by (cases t1)
            (auto split: list.splits tok.splits intro!: reads_bind [OF e] reads_bind [OF a] reads_expect)
      qed (simp add: TIdent \<open>ts = t # r\<close>)
    qed (simp_all add: Cons)
  qed simp
  have 4: "reads (length ts) (p_args cx (Suc n) ts)" if "2 * length ts + 3 \<le> Suc n"
    using that
    by (auto split: list.splits tok.splits intro!: reads_bind [OF e] reads_bind [OF a])
  from 1 2 3 4 show ?case by blast
qed simp

lemma parse_toks_returns: "\<exists>r. parse_toks cx ts = Ret r"
proof -
  have "reads (length ts) (p_expr cx (2 * length ts + 2) 0 ts)"
    using parse_budget by blast
  then obtain r where "p_expr cx (2 * length ts + 2) 0 ts = Ret r" by (auto simp: reads_def)
  then show ?thesis by (cases r) (auto simp: parse_toks_def)
qed

declare p_expr.simps [simp del] p_loop.simps [simp del] p_primary.simps [simp del]
  p_args.simps [simp del]

subsection \<open>More budget does not change the answer\<close>

definition run_le :: "'a run \<Rightarrow> 'a run \<Rightarrow> bool" where
  "run_le m m' \<longleftrightarrow> (\<forall>r. m = Ret r \<longrightarrow> m' = Ret r)"

lemma run_le_refl [simp]: "run_le m m" "run_le (Crash c) m"
  by (simp_all add: run_le_def)

lemma run_le_bind:
  assumes "run_le m m'" "\<And>x y. run_le (f (x, y)) (f' (x, y))"
  shows "run_le (rr_bind m f) (rr_bind m' f')"
  unfolding run_le_def
proof (intro allI impI)
  fix r assume r: "rr_bind m f = Ret r"
  then obtain s where s: "m = Ret s" by (cases m) auto
  with assms(1) have "m' = Ret s" by (simp add: run_le_def)
  with r s assms(2) show "rr_bind m' f' = Ret r" by (cases s) (auto simp: run_le_def)
qed

lemma run_le_expect:
  "(\<And>x. run_le (f x) (f' x)) \<Longrightarrow> run_le (rr_bind (expect_op cx op ts) f) (rr_bind (expect_op cx op ts) f')"
  by (auto simp: expect_op_def split: list.splits tok.splits)

lemma parse_step:
  "run_le (p_expr cx n bp ts) (p_expr cx (Suc n) bp ts)
   \<and> run_le (p_loop cx n bp lhs ts) (p_loop cx (Suc n) bp lhs ts)
   \<and> run_le (p_primary cx n ts) (p_primary cx (Suc n) ts)
   \<and> run_le (p_args cx n ts) (p_args cx (Suc n) ts)"
proof (induction n arbitrary: bp lhs ts)
  case (Suc n)
  note e = Suc.IH [THEN conjunct1]
    and l = Suc.IH [THEN conjunct2, THEN conjunct1]
    and p = Suc.IH [THEN conjunct2, THEN conjunct2, THEN conjunct1]
    and a = Suc.IH [THEN conjunct2, THEN conjunct2, THEN conjunct2]
  have 1: "run_le (p_expr cx (Suc n) bp ts) (p_expr cx (Suc (Suc n)) bp ts)"
    unfolding p_expr.simps(2) [of cx n bp ts] p_expr.simps(2) [of cx "Suc n" bp ts]
    by (auto intro!: run_le_bind p l)
  have 2: "run_le (p_loop cx (Suc n) bp lhs ts) (p_loop cx (Suc (Suc n)) bp lhs ts)"
    unfolding p_loop.simps(2) [of cx n bp lhs ts] p_loop.simps(2) [of cx "Suc n" bp lhs ts]
    by (auto split: list.split tok.split option.split intro!: run_le_bind run_le_expect e l)
  have 3: "run_le (p_primary cx (Suc n) ts) (p_primary cx (Suc (Suc n)) ts)"
    unfolding p_primary.simps(2) [of cx n ts] p_primary.simps(2) [of cx "Suc n" ts]
    by (auto split: list.split tok.split intro!: run_le_bind run_le_expect e p a)
  have 4: "run_le (p_args cx (Suc n) ts) (p_args cx (Suc (Suc n)) ts)"
    unfolding p_args.simps(2) [of cx n ts] p_args.simps(2) [of cx "Suc n" ts]
    by (auto split: list.split tok.split intro!: run_le_bind e a)
  from 1 2 3 4 show ?case by blast
qed (simp add: p_expr.simps p_loop.simps p_primary.simps p_args.simps)

lemma parse_mono:
  assumes "n \<le> m"
  shows "p_expr cx n bp ts = Ret r1 \<Longrightarrow> p_expr cx m bp ts = Ret r1"
    "p_loop cx n bp lhs ts = Ret r1 \<Longrightarrow> p_loop cx m bp lhs ts = Ret r1"
    "p_primary cx n ts = Ret r1 \<Longrightarrow> p_primary cx m ts = Ret r1"
    "p_args cx n ts = Ret r2 \<Longrightarrow> p_args cx m ts = Ret r2"
  using assms
  by (induction m rule: dec_induct) (use parse_step in \<open>auto simp: run_le_def\<close>)

subsection \<open>Parsing what was written\<close>

text \<open>The spelling and the binding power of a binary operator.\<close>

fun op_text :: "bin_op \<Rightarrow> string" where
  "op_text Add = ''+''" | "op_text Sub = ''-''" | "op_text Mul = ''*''" | "op_text Div = ''/''"
| "op_text Rem = ''%''" | "op_text Lt = ''<''" | "op_text Gt = ''>''" | "op_text Le = ''<=''"
| "op_text Ge = ''>=''" | "op_text Eq_op = ''==''" | "op_text Ne = ''!=''" | "op_text And_op = ''&&''"
| "op_text Or_op = ''||''" | "op_text BitAnd = ''&''" | "op_text BitOr = ''|''"
| "op_text BitXor = ''^''" | "op_text Shl = ''<<''" | "op_text Shr = ''>>''"

fun op_level :: "bin_op \<Rightarrow> nat" where
  "op_level Or_op = 1" | "op_level And_op = 2" | "op_level BitOr = 3" | "op_level BitXor = 4"
| "op_level BitAnd = 5" | "op_level Eq_op = 6" | "op_level Ne = 6" | "op_level Lt = 7"
| "op_level Gt = 7" | "op_level Le = 7" | "op_level Ge = 7" | "op_level Shl = 8" | "op_level Shr = 8"
| "op_level Add = 9" | "op_level Sub = 9" | "op_level Mul = 10" | "op_level Div = 10" | "op_level Rem = 10"

lemma lbp_op_text: "lbp (op_text op) = Some (op_level op, op)"
  by (cases op) (simp_all add: lbp_def)

lemma op_text_neq [simp]: "op_text op \<noteq> ''?''" "op_text op \<noteq> ''(''" "op_text op \<noteq> ''[''"
  by (cases op; simp)+

lemma op_level_bounds: "1 \<le> op_level op" "op_level op \<le> 10"
  by (cases op; simp)+

text \<open>
  Level of a tree: 0 a conditional, 1 to 10 a binary operator, 11 anything that needs no
  parentheses.  \<open>toks p e\<close> writes \<open>e\<close> where level \<open>p\<close> or more is expected.
\<close>

fun level :: "expr \<Rightarrow> nat" where
  "level (ETernary c t f) = 0"
| "level (EBinary op a b) = op_level op"
| "level _ = 11"

definition paren :: "bool \<Rightarrow> tok list \<Rightarrow> tok list" where
  "paren b ts = (if b then TOp ''('' # ts @ [TOp '')''] else ts)"

fun toks :: "nat \<Rightarrow> expr \<Rightarrow> tok list" and arg_toks :: "expr list \<Rightarrow> tok list" where
  "toks p (ENum x) = [TNum x]"
| "toks p (EStr s) = [TStr s]"
| "toks p (EIdent v) = [TIdent v]"
| "toks p (EUnary op e) = TOp (case op of Neg \<Rightarrow> ''-'' | Not_op \<Rightarrow> ''!'') # toks 11 e"
| "toks p (EBinary op a b) =
     paren (op_level op < p) (toks (op_level op) a @ TOp (op_text op) # toks (op_level op + 1) b)"
| "toks p (ETernary c t f) =
     paren (0 < p) (toks 1 c @ TOp ''?'' # toks 0 t @ TOp '':'' # toks 0 f)"
| "toks p (ECall f es) = TIdent f # TOp ''('' # arg_toks es"
| "toks p (EIndex a i) = TIdent a # TOp ''['' # toks 0 i @ [TOp '']'']"
| "arg_toks [] = [TOp '')'']"
| "arg_toks (e # es) = toks 0 e @ (case es of [] \<Rightarrow> [TOp '')''] | _ \<Rightarrow> TOp '','' # arg_toks es)"

text \<open>What the parser functions read, for some budget.\<close>

definition expr_reads :: "pctx \<Rightarrow> nat \<Rightarrow> tok list \<Rightarrow> expr \<Rightarrow> tok list \<Rightarrow> bool" where
  "expr_reads cx bp ts e rest \<longleftrightarrow> (\<exists>n. p_expr cx n bp ts = Ret (Inr (e, rest)))"

definition loop_reads :: "pctx \<Rightarrow> nat \<Rightarrow> expr \<Rightarrow> tok list \<Rightarrow> expr \<Rightarrow> tok list \<Rightarrow> bool" where
  "loop_reads cx bp lhs ts e rest \<longleftrightarrow> (\<exists>n. p_loop cx n bp lhs ts = Ret (Inr (e, rest)))"

definition prim_reads :: "pctx \<Rightarrow> tok list \<Rightarrow> expr \<Rightarrow> tok list \<Rightarrow> bool" where
  "prim_reads cx ts e rest \<longleftrightarrow> (\<exists>n. p_primary cx n ts = Ret (Inr (e, rest)))"

definition args_reads :: "pctx \<Rightarrow> tok list \<Rightarrow> expr list \<Rightarrow> tok list \<Rightarrow> bool" where
  "args_reads cx ts es rest \<longleftrightarrow> (\<exists>n. p_args cx n ts = Ret (Inr (es, rest)))"

lemma expr_readsI:
  assumes "prim_reads cx ts lhs r" "loop_reads cx bp lhs r e rest"
  shows "expr_reads cx bp ts e rest"
proof -
  obtain n m where "p_primary cx n ts = Ret (Inr (lhs, r))" "p_loop cx m bp lhs r = Ret (Inr (e, rest))"
    using assms by (auto simp: prim_reads_def loop_reads_def)
  then have "p_expr cx (Suc (max n m)) bp ts = Ret (Inr (e, rest))"
    using parse_mono(3) [of n "max n m"] parse_mono(2) [of m "max n m"] by (simp add: p_expr.simps)
  then show ?thesis unfolding expr_reads_def by blast
qed

text \<open>The binding power of the operator at the head of the remaining tokens.\<close>

definition head_power :: "tok list \<Rightarrow> nat option" where
  "head_power ts = (case ts of
     TOp op # r \<Rightarrow> if op = ''?'' then Some 0 else map_option fst (lbp op) | _ \<Rightarrow> None)"

lemma loop_reads_stop:
  assumes "\<And>h. head_power ts = Some h \<Longrightarrow> h < bp"
  shows "loop_reads cx bp lhs ts lhs ts"
proof -
  have "p_loop cx (Suc 0) bp lhs ts = Ret (Inr (lhs, ts))"
    using assms by (auto simp: head_power_def p_loop.simps split: list.splits tok.splits option.splits)
  then show ?thesis unfolding loop_reads_def by blast
qed

lemma loop_reads_binary:
  assumes "bp \<le> op_level op" "expr_reads cx (op_level op + 1) r rhs r1"
    and "loop_reads cx bp (EBinary op lhs rhs) r1 e rest"
  shows "loop_reads cx bp lhs (TOp (op_text op) # r) e rest"
proof -
  obtain n m where "p_expr cx n (op_level op + 1) r = Ret (Inr (rhs, r1))"
    "p_loop cx m bp (EBinary op lhs rhs) r1 = Ret (Inr (e, rest))"
    using assms(2,3) by (auto simp: expr_reads_def loop_reads_def)
  then have "p_loop cx (Suc (max n m)) bp lhs (TOp (op_text op) # r) = Ret (Inr (e, rest))"
    using parse_mono(1) [of n "max n m"] parse_mono(2) [of m "max n m"] assms(1)
    by (simp add: p_loop.simps lbp_op_text)
  then show ?thesis unfolding loop_reads_def by blast
qed

lemma loop_reads_ternary:
  assumes "expr_reads cx 0 r t (TOp '':'' # r2)" "expr_reads cx 0 r2 f r3"
    and "loop_reads cx 0 (ETernary lhs t f) r3 e rest"
  shows "loop_reads cx 0 lhs (TOp ''?'' # r) e rest"
proof -
  obtain k n m where "p_expr cx k 0 r = Ret (Inr (t, TOp '':'' # r2))" "p_expr cx n 0 r2 = Ret (Inr (f, r3))"
    "p_loop cx m 0 (ETernary lhs t f) r3 = Ret (Inr (e, rest))"
    using assms by (auto simp: expr_reads_def loop_reads_def)
  then have "p_loop cx (Suc (max k (max n m))) 0 lhs (TOp ''?'' # r) = Ret (Inr (e, rest))"
    using parse_mono(1) [of k "max k (max n m)"] parse_mono(1) [of n "max k (max n m)"]
      parse_mono(2) [of m "max k (max n m)"]
    by (simp add: p_loop.simps expect_op_def)
  then show ?thesis unfolding loop_reads_def by blast
qed

lemma prim_reads_atom:
  "prim_reads cx (TNum x # rest) (ENum x) rest" "prim_reads cx (TStr s # rest) (EStr s) rest"
  by (auto simp: prim_reads_def p_primary.simps intro!: exI [of _ "Suc 0"])

definition no_postfix :: "tok list \<Rightarrow> bool" where
  "no_postfix ts \<longleftrightarrow> (case ts of TOp op # r \<Rightarrow> op \<noteq> ''('' \<and> op \<noteq> ''['' | _ \<Rightarrow> True)"

lemma prim_reads_ident: "no_postfix rest \<Longrightarrow> prim_reads cx (TIdent v # rest) (EIdent v) rest"
  by (auto simp: prim_reads_def no_postfix_def p_primary.simps split: list.splits tok.splits
      intro!: exI [of _ "Suc 0"])

lemma prim_reads_paren:
  assumes "expr_reads cx 0 ts e (TOp '')'' # rest)"
  shows "prim_reads cx (TOp ''('' # ts) e rest"
proof -
  obtain n where "p_expr cx n 0 ts = Ret (Inr (e, TOp '')'' # rest))"
    using assms by (auto simp: expr_reads_def)
  then have "p_primary cx (Suc n) (TOp ''('' # ts) = Ret (Inr (e, rest))"
    by (simp add: p_primary.simps expect_op_def)
  then show ?thesis unfolding prim_reads_def by blast
qed

lemma prim_reads_unary:
  assumes "prim_reads cx ts e rest"
  shows "prim_reads cx (TOp (case op of Neg \<Rightarrow> ''-'' | Not_op \<Rightarrow> ''!'') # ts) (EUnary op e) rest"
proof -
  obtain n where "p_primary cx n ts = Ret (Inr (e, rest))" using assms by (auto simp: prim_reads_def)
  then have "p_primary cx (Suc n) (TOp (case op of Neg \<Rightarrow> ''-'' | Not_op \<Rightarrow> ''!'') # ts) =
      Ret (Inr (EUnary op e, rest))"
    by (cases op) (simp_all add: p_primary.simps)
  then show ?thesis unfolding prim_reads_def by blast
qed

lemma prim_reads_index:
  assumes "expr_reads cx 0 ts i (TOp '']'' # rest)"
  shows "prim_reads cx (TIdent a # TOp ''['' # ts) (EIndex a i) rest"
proof -
  obtain n where "p_expr cx n 0 ts = Ret (Inr (i, TOp '']'' # rest))"
    using assms by (auto simp: expr_reads_def)
  then have "p_primary cx (Suc n) (TIdent a # TOp ''['' # ts) = Ret (Inr (EIndex a i, rest))"
    by (simp add: p_primary.simps expect_op_def)
  then show ?thesis unfolding prim_reads_def by blast
qed

lemma prim_reads_call0: "prim_reads cx (TIdent f # TOp ''('' # TOp '')'' # rest) (ECall f []) rest"
  by (auto simp: prim_reads_def p_primary.simps intro!: exI [of _ "Suc 0"])

lemma prim_reads_call:
  assumes "args_reads cx ts es rest" "\<And>r. ts \<noteq> TOp '')'' # r"
  shows "prim_reads cx (TIdent f # TOp ''('' # ts) (ECall f es) rest"
proof -
  obtain n where "p_args cx n ts = Ret (Inr (es, rest))" using assms(1) by (auto simp: args_reads_def)
  then have "p_primary cx (Suc n) (TIdent f # TOp ''('' # ts) = Ret (Inr (ECall f es, rest))"
    using assms(2) by (auto simp: p_primary.simps split: list.splits tok.splits)
  then show ?thesis unfolding prim_reads_def by blast
qed

lemma args_reads_one:
  assumes "expr_reads cx 0 ts e (TOp '')'' # rest)"
  shows "args_reads cx ts [e] rest"
proof -
  obtain n where "p_expr cx n 0 ts = Ret (Inr (e, TOp '')'' # rest))"
    using assms by (auto simp: expr_reads_def)
  then have "p_args cx (Suc n) ts = Ret (Inr ([e], rest))" by (simp add: p_args.simps)
  then show ?thesis unfolding args_reads_def by blast
qed

lemma args_reads_more:
  assumes "expr_reads cx 0 ts e (TOp '','' # r)" "args_reads cx r es rest"
  shows "args_reads cx ts (e # es) rest"
proof -
  obtain n m where "p_expr cx n 0 ts = Ret (Inr (e, TOp '','' # r))" "p_args cx m r = Ret (Inr (es, rest))"
    using assms by (auto simp: expr_reads_def args_reads_def)
  then have "p_args cx (Suc (max n m)) ts = Ret (Inr (e # es, rest))"
    using parse_mono(1) [of n "max n m"] parse_mono(4) [of m "max n m"] by (simp add: p_args.simps)
  then show ?thesis unfolding args_reads_def by blast
qed

text \<open>The tokens that may follow a tree written at level \<open>p\<close>.\<close>

definition follows :: "nat \<Rightarrow> tok list \<Rightarrow> bool" where
  "follows p ts \<longleftrightarrow> no_postfix ts \<and> (\<forall>h. head_power ts = Some h \<longrightarrow> h \<le> p \<and> 0 < p)"

lemma follows_stop: "follows p ts \<Longrightarrow> p < bp \<or> p = 0 \<Longrightarrow> loop_reads cx bp e ts e ts"
  by (rule loop_reads_stop) (auto simp: follows_def)

lemma follows_close [simp]:
  "follows p (TOp '')'' # r)" "follows p (TOp '']'' # r)" "follows p (TOp '','' # r)"
  "follows p (TOp '':'' # r)" "follows p []"
  by (simp_all add: follows_def no_postfix_def head_power_def lbp_def)

lemma follows_op: "follows (op_level op) (TOp (op_text op) # r)"
  using op_level_bounds [of op] by (simp add: follows_def no_postfix_def head_power_def lbp_op_text)

text \<open>A tree is read back: as an operand, and in front of whatever may follow it.\<close>

definition reads_back :: "pctx \<Rightarrow> expr \<Rightarrow> bool" where
  "reads_back cx e \<longleftrightarrow>
     (\<forall>rest. no_postfix rest \<longrightarrow> prim_reads cx (toks 11 e @ rest) e rest)
     \<and> (\<forall>p bp rest e1 r1. p \<le> 11 \<longrightarrow> bp \<le> p \<longrightarrow> follows p rest \<longrightarrow> loop_reads cx bp e rest e1 r1
         \<longrightarrow> expr_reads cx bp (toks p e @ rest) e1 r1)"

lemma reads_backD:
  assumes "reads_back cx e"
  shows "no_postfix rest \<Longrightarrow> prim_reads cx (toks 11 e @ rest) e rest"
    and "p \<le> 11 \<Longrightarrow> bp \<le> p \<Longrightarrow> follows p rest \<Longrightarrow> loop_reads cx bp e rest e1 r1
      \<Longrightarrow> expr_reads cx bp (toks p e @ rest) e1 r1"
  using assms unfolding reads_back_def by blast+

lemma reads_back_closed:
  assumes "reads_back cx e" "follows 0 rest"
  shows "expr_reads cx 0 (toks 0 e @ rest) e rest"
  using reads_backD(2) [OF assms(1), of 0 0 rest] follows_stop [OF assms(2)] assms(2) by simp

lemma reads_back_atom:
  assumes "\<And>p. toks p e = toks 11 e"
    and "\<And>rest. no_postfix rest \<Longrightarrow> prim_reads cx (toks 11 e @ rest) e rest"
  shows "reads_back cx e"
proof -
  have "expr_reads cx bp (toks p e @ rest) e1 r1"
    if "follows p rest" "loop_reads cx bp e rest e1 r1" for p bp rest e1 r1
    unfolding assms(1) [of p] using that by (intro expr_readsI [OF assms(2)]) (auto simp: follows_def)
  with assms(2) show ?thesis unfolding reads_back_def by blast
qed

lemma reads_back_compound:
  assumes paren: "\<And>p. toks p e = paren (level e < p) (toks 0 e)" and "level e < 11"
    and plain: "\<And>p bp rest e1 r1. p \<le> level e \<Longrightarrow> bp \<le> p \<Longrightarrow> follows p rest \<Longrightarrow>
        loop_reads cx bp e rest e1 r1 \<Longrightarrow> expr_reads cx bp (toks 0 e @ rest) e1 r1"
  shows "reads_back cx e"
proof -
  have inner: "expr_reads cx 0 (toks 0 e @ TOp '')'' # rest) e (TOp '')'' # rest)" for rest
    by (rule plain [of 0]) (simp_all add: follows_stop [of 0])
  have prim: "prim_reads cx (toks 11 e @ rest) e rest" for rest
    using prim_reads_paren [OF inner] assms(2) by (simp add: paren [of 11] paren_def)
  have "expr_reads cx bp (toks p e @ rest) e1 r1"
    if "bp \<le> p" "follows p rest" "loop_reads cx bp e rest e1 r1" for p bp rest e1 r1
  proof (cases "level e < p")
    case True
    then have "toks p e = toks 11 e" using assms(2) by (simp add: paren [of p] paren [of 11])
    with expr_readsI [OF prim that(3)] show ?thesis by simp
  next
    case False
    with plain [OF _ that] show ?thesis by (simp add: paren [of p] paren_def)
  qed
  with prim show ?thesis unfolding reads_back_def by blast
qed

lemma toks_head: "\<exists>t r. toks p e = t # r \<and> t \<noteq> TOp '')''"
proof (induction e arbitrary: p)
  case (EBinary op a b)
  then show ?case
    by (auto simp: paren_def) (metis append_Cons)
next
  case (ETernary c t f)
  then show ?case
    by (auto simp: paren_def) (metis append_Cons)
qed (auto split: un_op.splits)

lemma args_read_back:
  "es \<noteq> [] \<Longrightarrow> (\<And>e. e \<in> set es \<Longrightarrow> reads_back cx e) \<Longrightarrow> args_reads cx (arg_toks es @ rest) es rest"
proof (induction es)
  case (Cons e es)
  note e = reads_back_closed [OF Cons.prems(2) [of e]]
  show ?case
  proof (cases es)
    case Nil
    with e [of "TOp '')'' # rest"] show ?thesis by (simp add: args_reads_one)
  next
    case (Cons e2 es2)
    have "args_reads cx (arg_toks es @ rest) es rest"
      using Cons.IH Cons.prems(2) Cons by simp
    with e [of "TOp '','' # arg_toks es @ rest"] Cons show ?thesis
      by (simp add: args_reads_more)
  qed
qed simp

lemma every_tree_reads_back: "reads_back cx e"
proof (induction e)
  case (EUnary op e)
  show ?case
    by (rule reads_back_atom) (simp_all add: prim_reads_unary reads_backD(1) [OF EUnary])
next
  case (EBinary op a b)
  let ?q = "op_level op"
  have "expr_reads cx bp (toks 0 (EBinary op a b) @ rest) e1 r1"
    if p: "p \<le> ?q" "bp \<le> p" "follows p rest" "loop_reads cx bp (EBinary op a b) rest e1 r1"
    for p bp rest e1 r1
  proof -
    have "follows (?q + 1) rest" using p by (auto simp: follows_def)
    moreover have "loop_reads cx (?q + 1) b rest b rest"
      using p by (intro follows_stop) auto
    ultimately have "expr_reads cx (?q + 1) (toks (?q + 1) b @ rest) b rest"
      using op_level_bounds [of op] by (intro reads_backD(2) [OF EBinary(2)]) auto
    with p have "loop_reads cx bp a (TOp (op_text op) # toks (?q + 1) b @ rest) e1 r1"
      by (intro loop_reads_binary) auto
    with p op_level_bounds [of op] follows_op
    have "expr_reads cx bp (toks ?q a @ TOp (op_text op) # toks (?q + 1) b @ rest) e1 r1"
      by (intro reads_backD(2) [OF EBinary(1)]) auto
    then show ?thesis by (simp add: paren_def)
  qed
  then show ?case
    using op_level_bounds [of op] by (intro reads_back_compound) (auto simp: paren_def)
next
  case (ETernary c t f)
  have "expr_reads cx bp (toks 0 (ETernary c t f) @ rest) e1 r1"
    if p: "p \<le> 0" "bp \<le> p" "follows p rest" "loop_reads cx bp (ETernary c t f) rest e1 r1"
    for p bp rest e1 r1
  proof -
    have "expr_reads cx 0 (toks 0 t @ TOp '':'' # toks 0 f @ rest) t (TOp '':'' # toks 0 f @ rest)"
      by (rule reads_back_closed [OF ETernary(2)]) simp
    moreover have "expr_reads cx 0 (toks 0 f @ rest) f rest"
      using p by (intro reads_back_closed [OF ETernary(3)]) simp
    ultimately have "loop_reads cx 0 c (TOp ''?'' # toks 0 t @ TOp '':'' # toks 0 f @ rest) e1 r1"
      using p by (intro loop_reads_ternary) auto
    then have "expr_reads cx 0 (toks 1 c @ TOp ''?'' # toks 0 t @ TOp '':'' # toks 0 f @ rest) e1 r1"
      by (intro reads_backD(2) [OF ETernary(1)])
        (auto simp: follows_def no_postfix_def head_power_def)
    with p show ?thesis by (simp add: paren_def)
  qed
  then show ?case by (intro reads_back_compound) (auto simp: paren_def)
next
  case (ECall f es)
  show ?case
  proof (rule reads_back_atom)
    fix rest
    show "prim_reads cx (toks 11 (ECall f es) @ rest) (ECall f es) rest"
    proof (cases es)
      case Nil
      then show ?thesis by (simp add: prim_reads_call0)
    next
      case (Cons e es2)
      then have "args_reads cx (arg_toks es @ rest) es rest"
        using ECall by (intro args_read_back) auto
      moreover have "arg_toks es @ rest \<noteq> TOp '')'' # r" for r
        using toks_head [of 0 e] Cons by auto
      ultimately show ?thesis by (simp add: prim_reads_call)
    qed
  qed simp
next
  case (EIndex a i)
  show ?case
    by (rule reads_back_atom)
      (simp_all add: prim_reads_index reads_back_closed [OF EIndex, of "TOp '']'' # _", simplified])
qed (auto intro!: reads_back_atom simp: prim_reads_atom prim_reads_ident)

text \<open>
  C32. The expression parser implements the documented precedences: any tree, written
  as tokens with the fewest parentheses they require, is parsed back to that tree
  (left-associative binary operators on ten levels, right-associative conditional,
  unary operators binding tightest, calls and array elements).
\<close>

theorem parse_toks_of_tree: "parse_toks cx (toks 0 e) = Ret (Inr e)"
proof -
  obtain n where n: "p_expr cx n 0 (toks 0 e) = Ret (Inr (e, []))"
    using reads_back_closed [OF every_tree_reads_back [of cx e], of "[]"] by (auto simp: expr_reads_def)
  have "reads (length (toks 0 e)) (p_expr cx (2 * length (toks 0 e) + 2) 0 (toks 0 e))"
    using parse_budget by blast
  then obtain r where r: "p_expr cx (2 * length (toks 0 e) + 2) 0 (toks 0 e) = Ret r"
    by (auto simp: reads_def)
  have "r = Inr (e, [])"
    using parse_mono(1) [OF _ n, of "max n (2 * length (toks 0 e) + 2)"]
      parse_mono(1) [OF _ r, of "max n (2 * length (toks 0 e) + 2)"] by simp
  with r show ?thesis by (simp add: parse_toks_def)
qed

text \<open>
  The expression parser returns on every text, well formed or not: its recursion
  ends, with a tree or a parse error.
\<close>

theorem parse_expr_returns: "\<exists>r. parse_expr source num = Ret r"
  using parse_toks_returns by (auto simp: parse_expr_def split: sum.splits)

end
