(* ===== verification/Lex.thy ===== *)
theory Lex
  imports Expr_Syntax
begin

text \<open>
  The line lexer of \<open>ts-ini/src/lex.rs\<close>: splitting \<open>key = values\<close>, tokenizing the value
  side (commas inside quotes and braces do not split) and shape tokens.  All its
  delimiters are ASCII, so it is modelled on the bytes of the line.

  \<open>render_tokens\<close> writes a token list as a value line; \<open>tokenize\<close> inverts it.
\<close>

datatype token = Bare string | Str_tok string | Expr_tok string

fun token_str :: "token \<Rightarrow> string" where
  "token_str (Bare s) = s"
| "token_str (Str_tok s) = s"
| "token_str (Expr_tok s) = s"

definition expected_number :: "nat \<Rightarrow> string \<Rightarrow> ini_error" where
  "expected_number num s = Parse_error num (''expected a number, got '' @ ticked s)"

definition token_number :: "token \<Rightarrow> nat \<Rightarrow> ini_error + f64" where
  "token_number t num =
     (case t of
        Bare s \<Rightarrow> ok_or (parse_f64 s) (expected_number num s)
      | _ \<Rightarrow> Inl (expected_number num (token_str t)))"

abbreviation quote :: char where "quote \<equiv> CHR 0x22"
abbreviation bslash :: char where "bslash \<equiv> CHR 0x5C"

fun split_at_eq :: "bool \<Rightarrow> string \<Rightarrow> (string \<times> string) option" where
  "split_at_eq in_quote [] = None"
| "split_at_eq in_quote (c # r) =
     (if c = CHR ''='' \<and> \<not> in_quote then Some ([], r)
      else map_option (\<lambda>(k, v). (c # k, v)) (split_at_eq (if c = quote then \<not> in_quote else in_quote) r))"

definition split_kv :: "string \<Rightarrow> (string \<times> string) option" where
  "split_kv line = map_option (\<lambda>(k, v). (trim k, trim v)) (split_at_eq False line)"

definition push_piece :: "nat \<Rightarrow> token list \<Rightarrow> string \<Rightarrow> ini_error + token list" where
  "push_piece num tokens piece0 =
     (let piece = trim piece0
      in case strip_prefix [quote] piece of
           Some rest \<Rightarrow>
             (case strip_suffix [quote] rest of
                None \<Rightarrow> Inl (Parse_error num ''text after closing quote'')
              | Some inner \<Rightarrow> Inr (tokens @ [Str_tok inner]))
         | None \<Rightarrow>
             (case strip_prefix ''{'' piece of
                Some rest \<Rightarrow>
                  (case strip_suffix ''}'' rest of
                     None \<Rightarrow> Inl (Parse_error num (''text after closing '' @ ticked ''}''))
                   | Some inner \<Rightarrow> Inr (tokens @ [Expr_tok (trim inner)]))
              | None \<Rightarrow> Inr (tokens @ [Bare piece])))"

text \<open>The loop over the characters: \<open>quoted\<close> is \<open>in_quote\<close>, \<open>escaped\<close> as in the code.\<close>

fun tokenize_go ::
    "nat \<Rightarrow> string \<Rightarrow> token list \<Rightarrow> string \<Rightarrow> bool \<Rightarrow> bool \<Rightarrow> nat \<Rightarrow> ini_error + token list" where
  "tokenize_go num [] tokens piece quoted escaped depth =
     (if quoted then Inl (Parse_error num ''unterminated string'')
      else if depth \<noteq> 0 then Inl (Parse_error num (''unterminated '' @ ticked ''{'' @ '' expression''))
      else push_piece num tokens piece)"
| "tokenize_go num (c # r) tokens piece quoted escaped depth =
     (if quoted then
        (if escaped then tokenize_go num r tokens (piece @ [c]) True False depth
         else if c = bslash then tokenize_go num r tokens (piece @ [c]) True True depth
         else tokenize_go num r tokens (piece @ [c]) (c \<noteq> quote) False depth)
      else if c = quote then tokenize_go num r tokens (piece @ [c]) True escaped depth
      else if c = CHR ''{'' then
        (if depth = 0 \<and> trim piece \<noteq> [] then
           res_bind (push_piece num tokens piece)
             (\<lambda>ts. tokenize_go num r ts [c] False escaped (depth + 1))
         else tokenize_go num r tokens (piece @ [c]) False escaped (depth + 1))
      else if c = CHR ''}'' then
        (if depth = 0 then Inl (Parse_error num (''unbalanced '' @ ticked ''}''))
         else tokenize_go num r tokens (piece @ [c]) False escaped (depth - 1))
      else if c = CHR '','' \<and> depth = 0 then
        res_bind (push_piece num tokens piece) (\<lambda>ts. tokenize_go num r ts [] False escaped depth)
      else tokenize_go num r tokens (piece @ [c]) False escaped depth)"

definition tokenize :: "string \<Rightarrow> nat \<Rightarrow> ini_error + token list" where
  "tokenize values num =
     res_bind (tokenize_go num values [] [] False False 0)
       (\<lambda>ts. Inr (if ts = [Bare []] then [] else ts))"

subsection \<open>Shapes\<close>

datatype shape = Bits_shape nat nat | Array1D nat | Array2D nat nat

fun element_count :: "shape \<Rightarrow> nat" where
  "element_count (Bits_shape lo hi) = 1"
| "element_count (Array1D n) = n"
| "element_count (Array2D x y) = x * y"

definition parse_shape :: "string \<Rightarrow> nat \<Rightarrow> ini_error + shape" where
  "parse_shape tk num =
     (case Option.bind (strip_prefix ''['' (trim tk)) (strip_suffix '']'') of
        None \<Rightarrow> Inl (Parse_error num (''expected '' @ ticked ''[shape]'' @ '', got '' @ ticked tk))
      | Some inner0 \<Rightarrow>
          (let inner = trim inner0;
               bad = Parse_error num (''malformed shape '' @ ticked (''['' @ inner @ '']''))
           in case split_once (CHR '':'') inner of
                Some (lo, hi) \<Rightarrow>
                  res_bind (ok_or (parse_uint 8 (trim lo)) bad) (\<lambda>l.
                  res_bind (ok_or (parse_uint 8 (trim hi)) bad) (\<lambda>h. Inr (Bits_shape l h)))
              | None \<Rightarrow>
                  (case split_once (CHR ''x'') inner of
                     Some (x, y) \<Rightarrow>
                       res_bind (ok_or (parse_uint 16 (trim x)) bad) (\<lambda>a.
                       res_bind (ok_or (parse_uint 16 (trim y)) bad) (\<lambda>b. Inr (Array2D a b)))
                   | None \<Rightarrow> res_bind (ok_or (parse_uint 16 inner) bad) (\<lambda>n. Inr (Array1D n)))))"

subsection \<open>Tokenizing what was rendered\<close>

fun tok_text :: "token \<Rightarrow> string" where
  "tok_text (Bare s) = s"
| "tok_text (Str_tok s) = quote # s @ [quote]"
| "tok_text (Expr_tok s) = CHR ''{'' # s @ ''}''"

definition render_tokens :: "token list \<Rightarrow> string" where
  "render_tokens ts = str_join '', '' (map tok_text ts)"

text \<open>
  What can stand in a token: a string whose quotes are all escaped and that does not end
  in an escape, an expression with balanced braces and no quotes, a bare word without
  delimiters.
\<close>

fun str_safe :: "bool \<Rightarrow> string \<Rightarrow> bool" where
  "str_safe escaped [] = (\<not> escaped)"
| "str_safe escaped (c # r) =
     (if escaped then str_safe False r
      else if c = bslash then str_safe True r else c \<noteq> quote \<and> str_safe False r)"

fun braces_ok :: "nat \<Rightarrow> string \<Rightarrow> bool" where
  "braces_ok d [] = (d = 0)"
| "braces_ok d (c # r) =
     (if c = CHR ''{'' then braces_ok (d + 1) r
      else if c = CHR ''}'' then 0 < d \<and> braces_ok (d - 1) r
      else c \<noteq> quote \<and> braces_ok d r)"

fun token_ok :: "token \<Rightarrow> bool" where
  "token_ok (Bare s) \<longleftrightarrow> s = [] \<or> solid (hd s) \<and> solid (last s)
     \<and> set s \<inter> {quote, CHR ''{'', CHR ''}'', CHR '',''} = {}"
| "token_ok (Str_tok s) = str_safe False s"
| "token_ok (Expr_tok s) \<longleftrightarrow> braces_ok 0 s \<and> trim s = s"

lemma go_quoted:
  "str_safe escaped s \<Longrightarrow>
     tokenize_go num (s @ quote # r) ts p True escaped d = tokenize_go num r ts (p @ s @ [quote]) False False d"
  by (induction escaped s arbitrary: p rule: str_safe.induct) (auto split: if_splits)

lemma go_braced:
  "braces_ok d s \<Longrightarrow>
     tokenize_go num (s @ CHR ''}'' # r) ts p False False (Suc d)
       = tokenize_go num r ts (p @ s @ ''}'') False False 0"
  by (induction d s arbitrary: p rule: braces_ok.induct) (auto split: if_splits)

lemma go_bare:
  "set s \<inter> {quote, CHR ''{'', CHR ''}'', CHR '',''} = {} \<Longrightarrow>
     tokenize_go num (s @ r) ts p False False 0 = tokenize_go num r ts (p @ s) False False 0"
  by (induction s arbitrary: p) auto

lemma go_token:
  assumes "token_ok t" "trim p = []"
  shows "tokenize_go num (tok_text t @ r) ts p False False 0
    = tokenize_go num r ts (p @ tok_text t) False False 0"
proof (cases t)
  case (Bare s)
  with assms(1) go_bare [of s num r ts p] show ?thesis by (cases "s = []") auto
next
  case (Str_tok s)
  with assms(1) go_quoted [of False s num r ts "p @ [quote]" 0] show ?thesis by simp
next
  case (Expr_tok s)
  with assms go_braced [of 0 s num r ts "p @ ''{''"] show ?thesis by simp
qed

lemma trim_tok_text:
  assumes "token_ok t" "p = [] \<or> p = '' ''"
  shows "trim (p @ tok_text t) = tok_text t"
proof -
  have ends: "tok_text t = [] \<or> solid (hd (tok_text t)) \<and> solid (last (tok_text t))"
    using assms(1) by (cases t) (auto simp: solid_def)
  then have "trim (tok_text t) = tok_text t" using trim_solid by (cases "tok_text t = []") auto
  moreover have "trim (CHR '' '' # tok_text t) = trim (tok_text t)"
    using ends by (intro trim_space) (auto simp: solid_props)
  ultimately show ?thesis using assms(2) by auto
qed

lemma push_token:
  assumes "token_ok t" "p = [] \<or> p = '' ''"
  shows "push_piece num ts (p @ tok_text t) = Inr (ts @ [t])"
proof (cases t)
  case (Bare s)
  with assms(1) have "\<And>c r. s = c # r \<Longrightarrow> c \<noteq> quote \<and> c \<noteq> CHR ''{''" by auto
  then show ?thesis
    using trim_tok_text [OF assms] Bare
    by (auto simp: push_piece_def strip_prefix_single split: list.splits)
next
  case (Str_tok s)
  then show ?thesis
    using trim_tok_text [OF assms] by (simp add: push_piece_def strip_prefix_single)
next
  case (Expr_tok s)
  then show ?thesis
    using trim_tok_text [OF assms] assms(1) by (simp add: push_piece_def strip_prefix_single)
qed

lemma trim_one_space [simp]: "trim '' '' = []"
  using trim_space [of "[]"] by simp

lemma go_tokens:
  assumes "\<And>u. u \<in> set (t # us) \<Longrightarrow> token_ok u" "p = [] \<or> p = '' ''"
  shows "tokenize_go num (render_tokens (t # us)) ts p False False 0 = Inr (ts @ t # us)"
  using assms
proof (induction us arbitrary: t ts p)
  case Nil
  have "trim p = []" using Nil.prems(2) by auto
  then show ?case
    using go_token [of t p num "[]" ts] push_token [of t p num ts] Nil.prems
    by (simp add: render_tokens_def)
next
  case (Cons u us)
  have "trim p = []" using Cons.prems(2) by auto
  have "tokenize_go num (render_tokens (t # u # us)) ts p False False 0
      = tokenize_go num (CHR '','' # CHR '' '' # render_tokens (u # us)) ts (p @ tok_text t) False False 0"
    using go_token [OF _ \<open>trim p = []\<close>, of t num "CHR '','' # CHR '' '' # render_tokens (u # us)" ts]
      Cons.prems(1) by (simp add: render_tokens_def)
  also have "\<dots> = tokenize_go num (render_tokens (u # us)) (ts @ [t]) '' '' False False 0"
    using push_token [of t p num ts] Cons.prems by simp
  also have "\<dots> = Inr ((ts @ [t]) @ u # us)"
    using Cons.prems(1) by (intro Cons.IH) auto
  finally show ?case by simp
qed

text \<open>
  The value lexer reads back what was written: tokens joined by commas, with quoted
  strings (escaped quotes inside), balanced \<open>{ }\<close> expressions and bare words, are
  recovered exactly; commas inside quotes and braces do not split.
\<close>

theorem tokenize_render:
  assumes "\<And>t. t \<in> set ts \<Longrightarrow> token_ok t" "ts \<noteq> [Bare []]" "ts \<noteq> []"
  shows "tokenize (render_tokens ts) num = Inr ts"
proof -
  obtain t us where ts: "ts = t # us" using assms(3) by (cases ts) auto
  have "tokenize_go num (render_tokens ts) [] [] False False 0 = Inr ts"
    using go_tokens [of t us "[]" num "[]"] assms(1) unfolding ts by simp
  with assms(2) show ?thesis by (simp add: tokenize_def)
qed

theorem tokenize_render_witness:
  "tokenize (render_tokens [Bare ''scalar'', Str_tok ''a,b'', Expr_tok ''f(x, {y})'', Bare ''0.5'']) 7
     = Inr [Bare ''scalar'', Str_tok ''a,b'', Expr_tok ''f(x, {y})'', Bare ''0.5'']"
proof (rule tokenize_render)
  fix t assume "t \<in> set [Bare ''scalar'', Str_tok ''a,b'', Expr_tok ''f(x, {y})'', Bare ''0.5'']"
  moreover have "trim ''f(x, {y})'' = ''f(x, {y})''"
    by (rule trim_solid) (simp_all add: solid_def)
  ultimately show "token_ok t" by (auto simp: solid_def)
qed simp_all

end
