(* ===== verification/Preprocess.thy ===== *)
theory Preprocess
  imports Lex
begin

text \<open>
  The preprocessor of \<open>ts-ini/src/preprocess.rs\<close>: comments, \<open>#define\<close> expansion and the
  stack machine for \<open>#if\<close> / \<open>#elif\<close> / \<open>#else\<close> / \<open>#endif\<close>.

  \<open>classify\<close> reads one source line into the directive the loop dispatches on and
  \<open>pp_act\<close> is one pass of the loop; the symbol set, the defines, the stack of open
  conditionals and the output are the record \<open>pp\<close>.

  Specification: \<open>block\<close> is the nested structure a well-formed file has and \<open>den\<close> its
  meaning, where the first branch with a true condition is taken and nothing else is
  even looked at.  The stack machine computes it (\<open>run_block\<close>).
\<close>

record line =
  l_num :: nat
  l_text :: string

record if_frame =
  fr_active :: bool
  fr_taken :: bool
  fr_parent_active :: bool

record pp =
  pp_symbols :: "string set"
  pp_defines :: "string \<rightharpoonup> string"
  pp_stack :: "if_frame list"
  pp_out :: "line list"

subsection \<open>Line-level functions\<close>

text \<open>\<open>strip_comment\<close>: truncate at the first \<open>;\<close> outside double quotes.\<close>

fun strip_comment_go :: "bool \<Rightarrow> bool \<Rightarrow> string \<Rightarrow> string" where
  "strip_comment_go in_quote escaped [] = []"
| "strip_comment_go in_quote escaped (c # r) =
     (if escaped then c # strip_comment_go in_quote False r
      else if c = bslash \<and> in_quote then c # strip_comment_go in_quote True r
      else if c = quote then c # strip_comment_go (\<not> in_quote) False r
      else if c = CHR '';'' \<and> \<not> in_quote then []
      else c # strip_comment_go in_quote False r)"

definition strip_comment :: "string \<Rightarrow> string" where
  "strip_comment s = strip_comment_go False False s"

definition split_word :: "string \<Rightarrow> string \<times> string" where
  "split_word s =
     (let cs = chars_of (trim s)
      in (concat (takeWhile (\<lambda>c. \<not> is_ws c) cs), concat (dropWhile (\<lambda>c. \<not> is_ws c) cs)))"

definition def_char :: "char \<Rightarrow> bool" where
  "def_char c \<longleftrightarrow> is_alpha c \<or> is_digit c \<or> c = CHR ''_''"

text \<open>\<open>expand\<close>; \<open>escaped\<close> says that the previous character was a backslash.\<close>

function expand_go :: "nat \<Rightarrow> (string \<rightharpoonup> string) \<Rightarrow> bool \<Rightarrow> string \<Rightarrow> ini_error + string" where
  "expand_go num defs escaped [] = Inr []"
| "expand_go num defs escaped (c # r) =
     (if c = CHR ''$'' \<and> \<not> escaped then
        (let name = takeWhile def_char r; rest = dropWhile def_char r
         in if name = [] then res_bind (expand_go num defs False rest) (\<lambda>t. Inr (c # t))
            else case defs name of
                None \<Rightarrow> Inl (Parse_error num (''undefined $'' @ name))
              | Some body \<Rightarrow> res_bind (expand_go num defs False rest) (\<lambda>t. Inr (body @ t)))
      else res_bind (expand_go num defs (c = bslash) r) (\<lambda>t. Inr (c # t)))"
  by pat_completeness auto
termination
  by (relation "measure (\<lambda>(num, defs, escaped, s). length s)")
    (auto simp: length_dropWhile_le less_Suc_eq_le)

definition expand :: "string \<Rightarrow> (string \<rightharpoonup> string) \<Rightarrow> nat \<Rightarrow> ini_error + string" where
  "expand s defs num = expand_go num defs False s"

definition eval_condition :: "string \<Rightarrow> string set \<Rightarrow> nat \<Rightarrow> ini_error + bool" where
  "eval_condition cond0 symbols num =
     (let cond = trim cond0
      in case strip_prefix ''!'' cond of
           Some name \<Rightarrow> Inr (trim name \<notin> symbols)
         | None \<Rightarrow>
             if cond = [] then Inl (Parse_error num ''#if with empty condition'')
             else Inr (cond \<in> symbols))"

subsection \<open>The loop\<close>

datatype directive =
    Blank
  | D_if string | D_elif string | D_else | D_endif
  | D_set string | D_unset string | D_define string
  | D_unknown string
  | Content string

definition classify :: "string \<Rightarrow> directive" where
  "classify raw =
     (let trimmed = trim (strip_comment raw)
      in if trimmed = [] then Blank
         else case strip_prefix ''#'' trimmed of
             None \<Rightarrow> Content trimmed
           | Some directive \<Rightarrow>
               (case split_word directive of
                  (word, rest) \<Rightarrow>
                    if word = ''if'' then D_if rest
                    else if word = ''elif'' then D_elif rest
                    else if word = ''else'' then D_else
                    else if word = ''endif'' then D_endif
                    else if word = ''set'' then D_set rest
                    else if word = ''unset'' then D_unset rest
                    else if word = ''define'' then D_define rest
                    else D_unknown word))"

definition active :: "pp \<Rightarrow> bool" where
  "active s \<longleftrightarrow> list_all fr_active (pp_stack s)"

text \<open>\<open>#set\<close>, \<open>#unset\<close>, \<open>#define\<close> and ordinary lines in an active region.\<close>

definition pp_define :: "nat \<Rightarrow> string \<Rightarrow> pp \<Rightarrow> ini_error + pp" where
  "pp_define num rest s =
     (case split_once (CHR ''='') rest of
        None \<Rightarrow> Inl (Parse_error num (''#define without '' @ [CHR 0x27, CHR ''='', CHR 0x27]))
      | Some (name, body) \<Rightarrow>
          res_bind (expand (trim body) (pp_defines s) num)
            (\<lambda>b. Inr (s\<lparr>pp_defines := (pp_defines s)(trim name \<mapsto> b)\<rparr>)))"

definition pp_emit :: "nat \<Rightarrow> string \<Rightarrow> pp \<Rightarrow> ini_error + pp" where
  "pp_emit num trimmed s =
     res_bind (expand trimmed (pp_defines s) num)
       (\<lambda>t. Inr (s\<lparr>pp_out := pp_out s @ [\<lparr>l_num = num, l_text = t\<rparr>]\<rparr>))"

text \<open>The top of the stack is the head of the list (\<open>stack.last_mut()\<close>).\<close>

definition pp_act :: "nat \<Rightarrow> directive \<Rightarrow> pp \<Rightarrow> ini_error + pp" where
  "pp_act num d s =
     (case d of
        Blank \<Rightarrow> Inr s
      | D_if rest \<Rightarrow>
          (let parent = active s
           in res_bind (if parent then eval_condition rest (pp_symbols s) num else Inr False)
             (\<lambda>cond. Inr (s\<lparr>pp_stack := \<lparr>fr_active = cond, fr_taken = cond,
                fr_parent_active = parent\<rparr> # pp_stack s\<rparr>)))
      | D_elif rest \<Rightarrow>
          (case pp_stack s of
             [] \<Rightarrow> Inl (Parse_error num ''#elif without #if'')
           | f # fs \<Rightarrow>
               if fr_taken f then Inr (s\<lparr>pp_stack := f\<lparr>fr_active := False\<rparr> # fs\<rparr>)
               else
                 res_bind (if fr_parent_active f then eval_condition rest (pp_symbols s) num
                           else Inr False)
                   (\<lambda>cond. Inr (s\<lparr>pp_stack := f\<lparr>fr_active := cond, fr_taken := cond\<rparr> # fs\<rparr>)))
      | D_else \<Rightarrow>
          (case pp_stack s of
             [] \<Rightarrow> Inl (Parse_error num ''#else without #if'')
           | f # fs \<Rightarrow>
               Inr (s\<lparr>pp_stack := f\<lparr>fr_active := fr_parent_active f \<and> \<not> fr_taken f,
                 fr_taken := True\<rparr> # fs\<rparr>))
      | D_endif \<Rightarrow>
          (case pp_stack s of
             [] \<Rightarrow> Inl (Parse_error num ''#endif without #if'')
           | f # fs \<Rightarrow> Inr (s\<lparr>pp_stack := fs\<rparr>))
      | D_set rest \<Rightarrow>
          Inr (if active s then s\<lparr>pp_symbols := insert (trim rest) (pp_symbols s)\<rparr> else s)
      | D_unset rest \<Rightarrow>
          Inr (if active s then s\<lparr>pp_symbols := pp_symbols s - {trim rest}\<rparr> else s)
      | D_define rest \<Rightarrow> if active s then pp_define num rest s else Inr s
      | D_unknown word \<Rightarrow> Inl (Parse_error num (''unknown directive #'' @ word))
      | Content trimmed \<Rightarrow> if active s then pp_emit num trimmed s else Inr s)"

fun pp_run :: "(nat \<times> directive) list \<Rightarrow> pp \<Rightarrow> ini_error + pp" where
  "pp_run [] s = Inr s"
| "pp_run ((num, d) # ds) s = res_bind (pp_act num d s) (pp_run ds)"

fun classify_at :: "nat \<times> string \<Rightarrow> nat \<times> directive" where
  "classify_at (i, raw) = (i + 1, classify raw)"

definition preprocess :: "string \<Rightarrow> string set \<Rightarrow> ini_error + (line list \<times> string set)" where
  "preprocess src symbols =
     res_bind (pp_run (map classify_at (enumerate 0 (str_lines src)))
         \<lparr>pp_symbols = symbols, pp_defines = Map.empty, pp_stack = [], pp_out = []\<rparr>)
       (\<lambda>s. if pp_stack s \<noteq> [] then Inl (Parse_error 0 ''unterminated #if'')
            else Inr (pp_out s, pp_symbols s))"

subsection \<open>Structured programs and their meaning\<close>

text \<open>
  A conditional has a first condition and branch, then \<open>#elif\<close> branches, an optional
  \<open>#else\<close> and the \<open>#endif\<close>; numbers are line numbers.
\<close>

datatype block = Leaf nat directive | Cond nat string blocks branches
and blocks = Empty_seq | Seq block blocks
and branches = Fi nat | Elif nat string blocks branches | Else nat blocks nat

fun leaf_ok :: "directive \<Rightarrow> bool" where
  "leaf_ok (D_set r) = True" | "leaf_ok (D_unset r) = True" | "leaf_ok (D_define r) = True"
| "leaf_ok (Content t) = True" | "leaf_ok Blank = True" | "leaf_ok _ = False"

fun block_ok and blocks_ok and branches_ok where
  "block_ok (Leaf num d) = leaf_ok d"
| "block_ok (Cond num c bs r) = (blocks_ok bs \<and> branches_ok r)"
| "blocks_ok Empty_seq = True"
| "blocks_ok (Seq b bs) = (block_ok b \<and> blocks_ok bs)"
| "branches_ok (Fi e) = True"
| "branches_ok (Elif num c bs r) = (blocks_ok bs \<and> branches_ok r)"
| "branches_ok (Else num bs e) = blocks_ok bs"

fun flat and flats and flat_rest where
  "flat (Leaf num d) = [(num, d)]"
| "flat (Cond num c bs r) = (num, D_if c) # flats bs @ flat_rest r"
| "flats Empty_seq = []"
| "flats (Seq b bs) = flat b @ flats bs"
| "flat_rest (Fi e) = [(e, D_endif)]"
| "flat_rest (Elif num c bs r) = (num, D_elif c) # flats bs @ flat_rest r"
| "flat_rest (Else num bs e) = (num, D_else) # flats bs @ [(e, D_endif)]"

fun leaf_act :: "nat \<Rightarrow> directive \<Rightarrow> pp \<Rightarrow> ini_error + pp" where
  "leaf_act num (D_set rest) s = Inr (s\<lparr>pp_symbols := insert (trim rest) (pp_symbols s)\<rparr>)"
| "leaf_act num (D_unset rest) s = Inr (s\<lparr>pp_symbols := pp_symbols s - {trim rest}\<rparr>)"
| "leaf_act num (D_define rest) s = pp_define num rest s"
| "leaf_act num (Content t) s = pp_emit num t s"
| "leaf_act num _ s = Inr s"

fun den and dens and den_rest where
  "den (Leaf num d) s = leaf_act num d s"
| "den (Cond num c bs r) s =
     res_bind (eval_condition c (pp_symbols s) num) (\<lambda>b. if b then dens bs s else den_rest r s)"
| "dens Empty_seq s = Inr s"
| "dens (Seq b bs) s = res_bind (den b s) (dens bs)"
| "den_rest (Fi e) s = Inr s"
| "den_rest (Elif num c bs r) s =
     res_bind (eval_condition c (pp_symbols s) num) (\<lambda>b. if b then dens bs s else den_rest r s)"
| "den_rest (Else num bs e) s = dens bs s"

subsection \<open>The stack machine computes the meaning\<close>

lemma res_bind_cong: "m = m' \<Longrightarrow> (\<And>x. f x = f' x) \<Longrightarrow> res_bind m f = res_bind m' f'"
  by (cases m) auto

lemma pp_run_append: "pp_run (xs @ ys) s = res_bind (pp_run xs s) (pp_run ys)"
  by (induction xs arbitrary: s) (auto simp: res_bind_assoc cong: res_bind_cong)

lemma pp_run_Nil [simp]: "pp_run [] = Inr"
  by (rule ext) simp

abbreviation with_stack :: "if_frame list \<Rightarrow> pp \<Rightarrow> pp" where
  "with_stack st s \<equiv> s\<lparr>pp_stack := st\<rparr>"

definition restack :: "if_frame list \<Rightarrow> ini_error + pp \<Rightarrow> ini_error + pp" where
  "restack st r = (case r of Inl e \<Rightarrow> Inl e | Inr s \<Rightarrow> Inr (with_stack st s))"

lemma restack_simps [simp]:
  "restack st (Inr s) = Inr (with_stack st s)" "restack st (Inl e) = Inl e"
  "restack st (res_bind m f) = res_bind m (\<lambda>x. restack st (f x))"
  by (simp add: restack_def, simp add: restack_def) (cases m; simp add: restack_def)

lemma restack_bind:
  "(\<And>s. g (with_stack st s) = restack st (f s)) \<Longrightarrow>
     res_bind (restack st r) g = restack st (res_bind r f)"
  by (cases r) simp_all

lemma leaf_act_stack: "leaf_act num d (with_stack st s) = restack st (leaf_act num d s)"
  by (cases d; cases s) (auto simp: pp_define_def pp_emit_def split: option.split prod.split)

lemma den_stack:
  "den b (with_stack st s) = restack st (den b s)"
  "dens bs (with_stack st s) = restack st (dens bs s)"
  "den_rest r (with_stack st s) = restack st (den_rest r s)"
proof (induction b and bs and r arbitrary: s and s and s)
  case (Cond num c bs r)
  then show ?case
    by (cases "eval_condition c (pp_symbols s) num") simp_all
next
  case (Seq b bs)
  then show ?case by (simp only: dens.simps restack_bind)
next
  case (Elif num c bs r)
  then show ?case
    by (cases "eval_condition c (pp_symbols s) num") simp_all
qed (simp_all add: leaf_act_stack)

lemma skip:
  "block_ok b \<Longrightarrow> \<not> active s \<Longrightarrow> pp_run (flat b) s = Inr s"
  "blocks_ok bs \<Longrightarrow> \<not> active s \<Longrightarrow> pp_run (flats bs) s = Inr s"
  "branches_ok r \<Longrightarrow> pp_stack s = f # fs \<Longrightarrow> fr_taken f \<or> \<not> fr_parent_active f \<Longrightarrow>
     pp_run (flat_rest r) s = Inr (with_stack fs s)"
proof (induction b and bs and r arbitrary: s and s and s f fs)
  case (Leaf num d)
  then show ?case by (cases d) (simp_all add: pp_act_def)
next
  case (Cond num c bs r)
  let ?f = "\<lparr>fr_active = False, fr_taken = False, fr_parent_active = False\<rparr>"
  have "pp_run (flats bs) (with_stack (?f # pp_stack s) s) = Inr (with_stack (?f # pp_stack s) s)"
    using Cond by (intro Cond.IH) (simp_all add: active_def)
  moreover have "pp_run (flat_rest r) (with_stack (?f # pp_stack s) s) = Inr s"
    using Cond.IH(2) [of "with_stack (?f # pp_stack s) s" ?f "pp_stack s"] Cond.prems(1) by simp
  ultimately show ?case using Cond.prems(2) by (simp add: pp_act_def pp_run_append)
next
  case (Seq b bs)
  then show ?case by (simp add: pp_run_append)
next
  case (Fi e)
  then show ?case by (simp add: pp_act_def)
next
  case (Elif num c bs r)
  define g where "g = f\<lparr>fr_active := False, fr_taken := fr_taken f\<rparr>"
  have a: "pp_act num (D_elif c) s = Inr (with_stack (g # fs) s)"
    using Elif.prems by (auto simp: pp_act_def g_def)
  have "pp_run (flats bs) (with_stack (g # fs) s) = Inr (with_stack (g # fs) s)"
    using Elif.prems by (intro Elif.IH) (simp_all add: active_def g_def)
  moreover have "pp_run (flat_rest r) (with_stack (g # fs) s) = Inr (with_stack fs s)"
    using Elif.IH(2) [of "with_stack (g # fs) s" g fs] Elif.prems by (simp add: g_def)
  ultimately show ?case using a by (simp add: pp_run_append)
next
  case (Else num bs e)
  define g where "g = f\<lparr>fr_active := False, fr_taken := True\<rparr>"
  have a: "pp_act num D_else s = Inr (with_stack (g # fs) s)"
    using Else.prems by (auto simp: pp_act_def g_def)
  have "pp_run (flats bs) (with_stack (g # fs) s) = Inr (with_stack (g # fs) s)"
    using Else.prems by (intro Else.IH) (simp_all add: active_def g_def)
  with a show ?case by (simp add: pp_run_append pp_act_def)
qed simp

text \<open>A taken branch followed by the rest of its conditional.\<close>

lemma taken_branch:
  assumes "branches_ok r" "fr_taken f"
    and "pp_run (flats bs) (with_stack (f # fs) s) = dens bs (with_stack (f # fs) s)"
  shows "res_bind (pp_run (flats bs) (with_stack (f # fs) s)) (pp_run (flat_rest r))
    = dens bs (with_stack fs s)"
proof (cases "dens bs s")
  case (Inl e)
  with assms(3) show ?thesis by (simp add: den_stack)
next
  case (Inr s1)
  then have "pp_run (flat_rest r) (with_stack (f # fs) s1) = Inr (with_stack fs s1)"
    using skip(3) [OF assms(1), of "with_stack (f # fs) s1" f fs] assms(2) by simp
  with Inr assms(3) show ?thesis by (simp add: den_stack)
qed

lemma run_blocks_den:
  "block_ok b \<Longrightarrow> active s \<Longrightarrow> pp_run (flat b) s = den b s"
  "blocks_ok bs \<Longrightarrow> active s \<Longrightarrow> pp_run (flats bs) s = dens bs s"
  "branches_ok r \<Longrightarrow> pp_stack s = f # fs \<Longrightarrow> \<not> fr_taken f \<Longrightarrow> fr_parent_active f \<Longrightarrow>
     list_all fr_active fs \<Longrightarrow> pp_run (flat_rest r) s = den_rest r (with_stack fs s)"
proof (induction b and bs and r arbitrary: s and s and s f fs)
  case (Leaf num d)
  then show ?case by (cases d) (auto simp: pp_act_def)
next
  case (Cond num c bs r)
  show ?case
  proof (cases "eval_condition c (pp_symbols s) num")
    case (Inl e)
    with Cond.prems show ?thesis by (simp add: pp_act_def)
  next
    case (Inr b)
    define f where "f = \<lparr>fr_active = b, fr_taken = b, fr_parent_active = True\<rparr>"
    have a: "pp_act num (D_if c) s = Inr (with_stack (f # pp_stack s) s)"
      using Inr Cond.prems(2) by (simp add: pp_act_def f_def)
    show ?thesis
    proof (cases b)
      case True
      have "pp_run (flats bs) (with_stack (f # pp_stack s) s) = dens bs (with_stack (f # pp_stack s) s)"
        using Cond.prems True by (intro Cond.IH) (simp_all add: active_def f_def)
      from taken_branch [OF _ _ this, of r] Cond.prems(1) True a Inr show ?thesis
        by (simp add: pp_run_append f_def)
    next
      case False
      have "pp_run (flats bs) (with_stack (f # pp_stack s) s) = Inr (with_stack (f # pp_stack s) s)"
        using Cond.prems(1) False by (intro skip) (simp_all add: active_def f_def)
      moreover have "pp_run (flat_rest r) (with_stack (f # pp_stack s) s) = den_rest r s"
        using Cond.IH(2) [of "with_stack (f # pp_stack s) s" f "pp_stack s"] Cond.prems False
        by (simp add: f_def active_def)
      ultimately show ?thesis using a Inr False by (simp add: pp_run_append)
    qed
  qed
next
  case (Seq b bs)
  show ?case
  proof (cases "den b s")
    case (Inr s1)
    have "den b (with_stack (pp_stack s) s) = restack (pp_stack s) (den b s)" by (rule den_stack)
    with Inr have "s1 = with_stack (pp_stack s) s1" by simp
    then have "pp_stack s1 = pp_stack s" by (metis pp.select_convs(3) pp.surjective pp.update_convs(3))
    with Seq Inr show ?thesis by (simp add: pp_run_append active_def)
  qed (use Seq in \<open>simp add: pp_run_append\<close>)
next
  case (Fi e)
  then show ?case by (simp add: pp_act_def)
next
  case (Elif num c bs r)
  show ?case
  proof (cases "eval_condition c (pp_symbols s) num")
    case (Inl e)
    with Elif.prems show ?thesis by (simp add: pp_act_def)
  next
    case (Inr b)
    define g where "g = f\<lparr>fr_active := b, fr_taken := b\<rparr>"
    have a: "pp_act num (D_elif c) s = Inr (with_stack (g # fs) s)"
      using Inr Elif.prems by (simp add: pp_act_def g_def)
    show ?thesis
    proof (cases b)
      case True
      have "pp_run (flats bs) (with_stack (g # fs) s) = dens bs (with_stack (g # fs) s)"
        using Elif.prems True by (intro Elif.IH) (simp_all add: active_def g_def)
      from taken_branch [OF _ _ this, of r] Elif.prems(1) True a Inr show ?thesis
        by (simp add: pp_run_append g_def)
    next
      case False
      have "pp_run (flats bs) (with_stack (g # fs) s) = Inr (with_stack (g # fs) s)"
        using Elif.prems(1) False by (intro skip) (simp_all add: active_def g_def)
      moreover have "pp_run (flat_rest r) (with_stack (g # fs) s) = den_rest r (with_stack fs s)"
        using Elif.IH(2) [of "with_stack (g # fs) s" g fs] Elif.prems False by (simp add: g_def)
      ultimately show ?thesis using a Inr False by (simp add: pp_run_append)
    qed
  qed
next
  case (Else num bs e)
  define g where "g = f\<lparr>fr_active := True, fr_taken := True\<rparr>"
  have a: "pp_act num D_else s = Inr (with_stack (g # fs) s)"
    using Else.prems by (simp add: pp_act_def g_def)
  have "pp_run (flats bs) (with_stack (g # fs) s) = dens bs (with_stack (g # fs) s)"
    using Else.prems by (intro Else.IH) (simp_all add: active_def g_def)
  from taken_branch [of "Fi e", OF _ _ this] a show ?case
    by (simp add: pp_run_append g_def)
qed simp

text \<open>
  C33. The conditional stack machine implements the nested meaning: on the lines of any
  well-nested program, in an active region, the loop does what the structure says. The
  first branch whose condition holds is processed, no other branch has any effect (its
  directives, defines and conditions are not even evaluated), and conditions see the
  symbols set so far.
\<close>

theorem preprocess_blocks:
  assumes "blocks_ok bs" "active s"
  shows "pp_run (flats bs) s = dens bs s"
  using assms by (rule run_blocks_den)

theorem preprocess_blocks_witness:
  "pp_run
    [(1, D_if ''A''), (2, D_set ''B''), (3, D_elif ''''), (4, D_unset ''C''), (5, D_endif)]
    \<lparr>pp_symbols = {''A''}, pp_defines = Map.empty, pp_stack = [], pp_out = []\<rparr>
   = Inr \<lparr>pp_symbols = {''B'', ''A''}, pp_defines = Map.empty, pp_stack = [], pp_out = []\<rparr>"
proof -
  let ?s = "\<lparr>pp_symbols = {''A''}, pp_defines = Map.empty, pp_stack = [], pp_out = []\<rparr>"
  let ?bs = "Seq (Cond 1 ''A'' (Seq (Leaf 2 (D_set ''B'')) Empty_seq)
    (Elif 3 '''' (Seq (Leaf 4 (D_unset ''C'')) Empty_seq) (Fi 5))) Empty_seq"
  have t: "trim ''A'' = ''A''" "trim ''B'' = ''B''"
    by (rule trim_solid; simp add: solid_def)+
  have "pp_run (flats ?bs) ?s = dens ?bs ?s"
    by (rule preprocess_blocks) (simp_all add: active_def)
  then show ?thesis by (simp add: t eval_condition_def)
qed

subsection \<open>Files without directives\<close>

lemma expand_plain: "CHR ''$'' \<notin> set s \<Longrightarrow> expand_go num defs e s = Inr s"
  by (induction s arbitrary: e) auto

lemma run_plain:
  assumes "list_all2 (\<lambda>raw t. classify raw = Content t \<and> CHR ''$'' \<notin> set t) raws ts" "active s"
  shows "pp_run (map classify_at (enumerate n raws)) s =
    Inr (s\<lparr>pp_out := pp_out s @ map (\<lambda>(i, t). \<lparr>l_num = i + 1, l_text = t\<rparr>) (enumerate n ts)\<rparr>)"
  using assms
proof (induction raws ts arbitrary: n s rule: list_all2_induct)
  case (Cons raw raws t ts)
  have "active (s\<lparr>pp_out := pp_out s @ [\<lparr>l_num = Suc n, l_text = t\<rparr>]\<rparr>)"
    using Cons.prems by (simp add: active_def)
  with Cons show ?case
    by (simp add: pp_act_def pp_emit_def expand_def expand_plain)
qed simp

text \<open>A file without directives, comments and \<open>$\<close> is its trimmed lines, numbered.\<close>

lemma preprocess_plain:
  assumes "list_all2 (\<lambda>raw t. classify raw = Content t \<and> CHR ''$'' \<notin> set t) (str_lines src) ts"
  shows "preprocess src symbols =
    Inr (map (\<lambda>(i, t). \<lparr>l_num = i + 1, l_text = t\<rparr>) (enumerate 0 ts), symbols)"
  using run_plain [OF assms, of "\<lparr>pp_symbols = symbols, pp_defines = Map.empty, pp_stack = [], pp_out = []\<rparr>" 0]
  by (simp add: preprocess_def active_def)

lemma plain_source:
  assumes "str_lines src = ts" "list_all (\<lambda>t. classify t = Content t \<and> CHR ''$'' \<notin> set t) ts"
  shows "preprocess src symbols = Inr (map (\<lambda>(i, t). \<lparr>l_num = i + 1, l_text = t\<rparr>) (enumerate 0 ts), symbols)"
  by (rule preprocess_plain) (use assms in \<open>auto simp: list_all2_conv_all_nth list_all_length\<close>)

end
