(* ===== verification/Expr_Eval.thy ===== *)
theory Expr_Eval
  imports Expr_Syntax
begin

text \<open>
  Evaluation of expressions, the second half of \<open>ts-ini/src/expr.rs\<close>.  The
  \<open>SymbolSource\<close> trait is the record \<open>symbols\<close> of its three lookups; a lookup can
  crash (an implementation that evaluates expressions in turn may exhaust the stack),
  so evaluation returns a \<open>run\<close>.  Arithmetic is that of \<open>F64\<close>; the bit operators go
  through \<open>i64\<close>, whose shifts use the low six bits of the count (release build).
\<close>

datatype val = VNum f64 | VStr string

fun as_num :: "val \<Rightarrow> f64 option" where
  "as_num (VNum n) = Some n"
| "as_num (VStr s) = None"

fun truthy :: "val \<Rightarrow> bool" where
  "truthy (VNum n) = (\<not> feq n fzero)"
| "truthy (VStr s) = (s \<noteq> [])"

text \<open>\<open>Display for Value\<close>\<close>

fun show_val :: "val \<Rightarrow> string" where
  "show_val (VNum n) = show_f64 n"
| "show_val (VStr s) = s"

record symbols =
  sy_value :: "string \<Rightarrow> val option run"
  sy_bit_string :: "string \<Rightarrow> nat \<Rightarrow> string option run"
  sy_array_value :: "string \<Rightarrow> nat \<Rightarrow> f64 option run"

text \<open>\<open>EmptySymbols\<close>, with the default methods of the trait.\<close>

definition empty_symbols :: symbols where
  "empty_symbols = \<lparr>sy_value = (\<lambda>n. Ret None), sy_bit_string = (\<lambda>l i. Ret None),
     sy_array_value = (\<lambda>n i. Ret None)\<rparr>"

definition val_num :: "val \<Rightarrow> ini_error + f64" where
  "val_num v = ok_or (as_num v) (Eval_error ''expected a number, got a string'')"

text \<open>\<open>lookup.ok_or_else(...)\<close> on a lookup that can crash.\<close>

fun found :: "'a option run \<Rightarrow> string \<Rightarrow> (ini_error + 'a) run" where
  "found (Ret (Some x)) msg = rr_return x"
| "found (Ret None) msg = rr_fail (Eval_error msg)"
| "found (Crash c) msg = Crash c"

abbreviation lift_res :: "ini_error + 'a \<Rightarrow> (ini_error + 'a) run" where "lift_res r \<equiv> Ret r"

subsection \<open>Operators\<close>

definition shl64 :: "int \<Rightarrow> int \<Rightarrow> int" where
  "shl64 x y = signed_take_bit 63 (x * 2 ^ nat (y mod 64))"

definition shr64 :: "int \<Rightarrow> int \<Rightarrow> int" where
  "shr64 x y = x div 2 ^ nat (y mod 64)"

fun num_op :: "bin_op \<Rightarrow> f64 \<Rightarrow> f64 \<Rightarrow> f64" where
  "num_op Add x y = fadd x y"
| "num_op Sub x y = fsub x y"
| "num_op Mul x y = fmul x y"
| "num_op Div x y = fdiv x y"
| "num_op Rem x y = frem x y"
| "num_op Lt x y = f_of_bool (flt x y)"
| "num_op Gt x y = f_of_bool (flt y x)"
| "num_op Le x y = f_of_bool (fle x y)"
| "num_op Ge x y = f_of_bool (fle y x)"
| "num_op Eq_op x y = f_of_bool (feq x y)"
| "num_op Ne x y = f_of_bool (\<not> feq x y)"
| "num_op BitAnd x y = f_of_int (f_as_i64 x AND f_as_i64 y)"
| "num_op BitOr x y = f_of_int (f_as_i64 x OR f_as_i64 y)"
| "num_op BitXor x y = f_of_int (f_as_i64 x XOR f_as_i64 y)"
| "num_op Shl x y = f_of_int (shl64 (f_as_i64 x) (f_as_i64 y))"
| "num_op Shr x y = f_of_int (shr64 (f_as_i64 x) (f_as_i64 y))"
| "num_op And_op x y = NaN"
| "num_op Or_op x y = NaN"

text \<open>Both operands evaluated; the logical operators never get here (\<open>unreachable!()\<close>).\<close>

definition strict_op :: "bin_op \<Rightarrow> val \<Rightarrow> val \<Rightarrow> (ini_error + val) run" where
  "strict_op op a b =
     (case (a, b) of
        (VStr x, VStr y) \<Rightarrow>
          (if op = Eq_op then rr_return (VNum (f_of_bool (x = y)))
           else if op = Ne then rr_return (VNum (f_of_bool (x \<noteq> y)))
           else rr_fail (Eval_error ''string operands in numeric expression''))
      | _ \<Rightarrow>
          rr_bind (lift_res (val_num a)) (\<lambda>x. rr_bind (lift_res (val_num b)) (\<lambda>y.
            if op = And_op \<or> op = Or_op then Crash Panic else rr_return (VNum (num_op op x y)))))"

subsection \<open>Evaluation\<close>

text \<open>The name that must be the first argument of \<open>bitStringValue\<close> and \<open>arrayValue\<close>.\<close>

definition first_name :: "expr list \<Rightarrow> string option" where
  "first_name args = (case args of EIdent l # r \<Rightarrow> Some l | _ \<Rightarrow> None)"

function eval :: "symbols \<Rightarrow> expr \<Rightarrow> (ini_error + val) run" where
  "eval syms (ENum n) = rr_return (VNum n)"
| "eval syms (EStr s) = rr_return (VStr s)"
| "eval syms (EIdent name) = found (sy_value syms name) (''unknown identifier '' @ ticked name)"
| "eval syms (EUnary op e) =
     rr_bind (eval syms e) (\<lambda>v. case op of
        Neg \<Rightarrow> rr_bind (lift_res (val_num v)) (\<lambda>x. rr_return (VNum (fneg x)))
      | Not_op \<Rightarrow> rr_return (VNum (if truthy v then fzero else fone)))"
| "eval syms (EBinary op a b) =
     (if op = And_op then
        rr_bind (eval syms a) (\<lambda>x.
          if truthy x then rr_bind (eval syms b) (\<lambda>y. rr_return (VNum (f_of_bool (truthy y))))
          else rr_return (VNum (f_of_bool False)))
      else if op = Or_op then
        rr_bind (eval syms a) (\<lambda>x.
          if truthy x then rr_return (VNum (f_of_bool True))
          else rr_bind (eval syms b) (\<lambda>y. rr_return (VNum (f_of_bool (truthy y)))))
      else
        rr_bind (eval syms a) (\<lambda>x. rr_bind (eval syms b) (\<lambda>y. strict_op op x y)))"
| "eval syms (ETernary c t f) =
     rr_bind (eval syms c) (\<lambda>v. if truthy v then eval syms t else eval syms f)"
| "eval syms (EIndex name i) =
     rr_bind (eval syms i) (\<lambda>v. rr_bind (lift_res (val_num v)) (\<lambda>x.
       rr_bind (found (sy_array_value syms name (f_as_usize x))
           (''unknown array '' @ ticked (name @ ''['' @ show_nat (f_as_usize x) @ '']'')))
         (\<lambda>y. rr_return (VNum y))))"
| "eval syms (ECall name args) =
     (if name = ''bitStringValue'' then
        (case first_name args of
           None \<Rightarrow> rr_fail (Eval_error ''bitStringValue: first arg must be a name'')
         | Some l \<Rightarrow>
             (case args of
                a0 # a1 # r \<Rightarrow>
                  rr_bind (eval syms a1) (\<lambda>v. rr_bind (lift_res (val_num v)) (\<lambda>x.
                    rr_bind (found (sy_bit_string syms l (f_as_usize x))
                        (''bitStringValue('' @ l @ '', '' @ show_nat (f_as_usize x) @ '')''))
                      (\<lambda>s. rr_return (VStr s))))
              | _ \<Rightarrow> rr_fail (Eval_error ''bitStringValue: missing index'')))
      else if name = ''arrayValue'' then
        (case first_name args of
           None \<Rightarrow> rr_fail (Eval_error ''arrayValue: first arg must be a name'')
         | Some l \<Rightarrow>
             (case args of
                a0 # a1 # r \<Rightarrow>
                  rr_bind (eval syms a1) (\<lambda>v. rr_bind (lift_res (val_num v)) (\<lambda>x.
                    rr_bind (found (sy_array_value syms l (f_as_usize x))
                        (''arrayValue('' @ l @ '', '' @ show_nat (f_as_usize x) @ '')''))
                      (\<lambda>y. rr_return (VNum y))))
              | _ \<Rightarrow> rr_fail (Eval_error ''arrayValue: missing index'')))
      else if args = [] then
        found (sy_value syms name) (''unknown function '' @ ticked name)
      else rr_fail (Eval_error (''unknown function '' @ ticked name)))"
  by pat_completeness auto
termination
  by (relation "measure (\<lambda>(syms, e). size e)") auto

subsection \<open>The symbols an expression looks up\<close>

datatype sym_use = Use_value string | Use_bits string | Use_array string

function uses :: "expr \<Rightarrow> sym_use set" where
  "uses (ENum n) = {}"
| "uses (EStr s) = {}"
| "uses (EIdent v) = {Use_value v}"
| "uses (EUnary op e) = uses e"
| "uses (EBinary op a b) = uses a \<union> uses b"
| "uses (ETernary c t f) = uses c \<union> uses t \<union> uses f"
| "uses (ECall name args) =
     (if name = ''bitStringValue'' \<or> name = ''arrayValue'' then
        (case args of
           EIdent l # a1 # r \<Rightarrow>
             insert (if name = ''bitStringValue'' then Use_bits l else Use_array l) (uses a1)
         | _ \<Rightarrow> {})
      else {Use_value name})"
| "uses (EIndex name i) = {Use_array name} \<union> uses i"
  by pat_completeness auto
termination
  by (relation "measure size") auto

definition agree :: "symbols \<Rightarrow> symbols \<Rightarrow> sym_use \<Rightarrow> bool" where
  "agree s1 s2 u \<longleftrightarrow>
     (case u of
        Use_value n \<Rightarrow> sy_value s1 n = sy_value s2 n
      | Use_bits l \<Rightarrow> sy_bit_string s1 l = sy_bit_string s2 l
      | Use_array a \<Rightarrow> sy_array_value s1 a = sy_array_value s2 a)"

definition safe :: "symbols \<Rightarrow> sym_use \<Rightarrow> bool" where
  "safe s u \<longleftrightarrow>
     (case u of
        Use_value n \<Rightarrow> returns (sy_value s n)
      | Use_bits l \<Rightarrow> (\<forall>i. returns (sy_bit_string s l i))
      | Use_array a \<Rightarrow> (\<forall>i. returns (sy_array_value s a i)))"

lemma found_returns [simp]: "returns (found m msg) = returns m"
  by (cases "(m, msg)" rule: found.cases) auto

lemma strict_op_returns: "op \<noteq> And_op \<Longrightarrow> op \<noteq> Or_op \<Longrightarrow> returns (strict_op op a b)"
  by (auto simp: strict_op_def split: val.splits intro!: returns_rr_bind)

lemma call_cases:
  obtains (builtin) l a1 r where "args = EIdent l # a1 # r"
  | (no_index) l where "args = [EIdent l]"
  | (no_name) "first_name args = None"
  by (cases args; cases "hd args"; cases "tl args") (auto simp: first_name_def)

lemma eval_call_builtin:
  assumes "args = EIdent l # a1 # r"
  shows "eval syms (ECall name args) =
    (if name = ''bitStringValue'' then
       rr_bind (eval syms a1) (\<lambda>v. rr_bind (lift_res (val_num v)) (\<lambda>x.
         rr_bind (found (sy_bit_string syms l (f_as_usize x))
             (''bitStringValue('' @ l @ '', '' @ show_nat (f_as_usize x) @ '')''))
           (\<lambda>s. rr_return (VStr s))))
     else if name = ''arrayValue'' then
       rr_bind (eval syms a1) (\<lambda>v. rr_bind (lift_res (val_num v)) (\<lambda>x.
         rr_bind (found (sy_array_value syms l (f_as_usize x))
             (''arrayValue('' @ l @ '', '' @ show_nat (f_as_usize x) @ '')''))
           (\<lambda>y. rr_return (VNum y))))
     else rr_fail (Eval_error (''unknown function '' @ ticked name)))"
  by (simp add: assms first_name_def)

lemma eval_agree:
  "(\<And>u. u \<in> uses e \<Longrightarrow> agree s1 s2 u) \<Longrightarrow> eval s1 e = eval s2 e"
proof (induction e rule: uses.induct)
  case (7 name args)
  show ?case
  proof (cases args rule: call_cases)
    case (builtin l a1 r)
    show ?thesis
    proof (cases "name = ''bitStringValue'' \<or> name = ''arrayValue''")
      case True
      have "agree s1 s2 u" if "u \<in> uses a1" for u
        using that True "7.prems" [of u] builtin by simp
      then have "eval s1 a1 = eval s2 a1" using "7.IH" [OF True builtin] by auto
      moreover have "agree s1 s2 (if name = ''bitStringValue'' then Use_bits l else Use_array l)"
        using True "7.prems" builtin by simp
      ultimately show ?thesis
        using True by (auto simp only: eval_call_builtin [OF builtin] agree_def if_True if_False
            sym_use.case split: if_splits)
    next
      case False
      then show ?thesis by (simp only: eval_call_builtin [OF builtin]) simp
    qed
  next
    case no_name
    then show ?thesis using 7 by (auto simp: agree_def)
  next
    case (no_index l)
    then show ?thesis by (simp add: first_name_def)
  qed
next
  case (8 name i)
  have "eval s1 i = eval s2 i" using "8.IH" "8.prems" by simp
  moreover have "agree s1 s2 (Use_array name)" using "8.prems" by simp
  ultimately show ?case by (simp add: agree_def)
qed (simp_all add: agree_def cong: if_cong)

lemma eval_returns:
  "(\<And>u. u \<in> uses e \<Longrightarrow> safe syms u) \<Longrightarrow> returns (eval syms e)"
proof (induction e rule: uses.induct)
  case (7 name args)
  show ?case
  proof (cases args rule: call_cases)
    case (builtin l a1 r)
    show ?thesis
    proof (cases "name = ''bitStringValue'' \<or> name = ''arrayValue''")
      case True
      have "safe syms u" if "u \<in> uses a1" for u
        using that True "7.prems" [of u] builtin by simp
      then have "returns (eval syms a1)" using "7.IH" [OF True builtin] by auto
      moreover have "safe syms (if name = ''bitStringValue'' then Use_bits l else Use_array l)"
        using True "7.prems" builtin by simp
      ultimately show ?thesis
        using True
        by (auto simp only: eval_call_builtin [OF builtin] safe_def if_True if_False
            sym_use.case found_returns returns.simps split: if_splits intro!: returns_rr_bind)
    next
      case False
      then show ?thesis by (simp only: eval_call_builtin [OF builtin]) simp
    qed
  next
    case no_name
    then show ?thesis using 7 by (auto simp: safe_def)
  next
    case (no_index l)
    then show ?thesis by (simp add: first_name_def)
  qed
next
  case (8 name i)
  have "returns (eval syms i)" using "8.IH" "8.prems" by simp
  moreover have "safe syms (Use_array name)" using "8.prems" by simp
  ultimately show ?case by (auto simp: safe_def intro!: returns_rr_bind)
qed (auto simp: safe_def strict_op_returns intro!: returns_rr_bind split: un_op.splits)

text \<open>
  An expression depends only on the symbols it names: two symbol sources that agree
  on them give the same result, errors included.
\<close>

theorem eval_depends_on_uses:
  assumes "\<And>u. u \<in> uses e \<Longrightarrow> agree s1 s2 u"
  shows "eval s1 e = eval s2 e"
  using assms by (rule eval_agree)

theorem eval_depends_on_uses_witness:
  "eval empty_symbols (EIdent ''rpm'') =
     eval (empty_symbols\<lparr>sy_array_value := (\<lambda>n i. Ret (Some fone))\<rparr>) (EIdent ''rpm'')"
  by (rule eval_depends_on_uses) (auto simp: agree_def empty_symbols_def)

text \<open>
  Evaluation never panics of its own accord: when the lookups of the symbols an
  expression names return, so does the evaluation, with a value or an error.
\<close>

theorem eval_safe:
  assumes "\<And>u. u \<in> uses e \<Longrightarrow> safe syms u"
  shows "returns (eval syms e)"
  using assms by (rule eval_returns)

theorem eval_safe_witness: "returns (eval empty_symbols (EUnary Neg (EIdent ''rpm'')))"
  by (rule eval_safe) (auto simp: safe_def empty_symbols_def)

subsection \<open>Bit operators on integral values\<close>

lemma f_as_i64_of_int: "\<bar>i\<bar> < 2 ^ 53 \<Longrightarrow> f_as_i64 (Fin (of_int i)) = i"
  by (auto simp: max_def min_def)

definition fint :: "int \<Rightarrow> f64" where "fint i = Fin (of_int i)"

lemma f_of_int_fint: "\<bar>i\<bar> < 2 ^ 53 \<Longrightarrow> f_of_int i = fint i"
  by (simp add: fint_def f_of_int_exact)

lemma f_as_i64_fint: "\<bar>i\<bar> < 2 ^ 53 \<Longrightarrow> f_as_i64 (fint i) = i"
  unfolding fint_def by (rule f_as_i64_of_int)

text \<open>
  The bit operators are exact on the integers the channels hold: on operands from 0
  to 2^53 - 1 the detour through floating point and \<open>i64\<close> loses nothing, and a shift by
  fewer than 64 places multiplies or divides by the power of two.
\<close>

theorem bit_operators_exact:
  assumes "0 \<le> a" "a < 2 ^ 53" "0 \<le> b" "b < 2 ^ 53"
  shows "num_op BitAnd (fint a) (fint b) = fint (a AND b)
    \<and> num_op BitOr (fint a) (fint b) = fint (a OR b)
    \<and> num_op BitXor (fint a) (fint b) = fint (a XOR b)
    \<and> (b < 64 \<longrightarrow> num_op Shr (fint a) (fint b) = fint (a div 2 ^ nat b))
    \<and> (b < 64 \<longrightarrow> a * 2 ^ nat b < 2 ^ 53 \<longrightarrow> num_op Shl (fint a) (fint b) = fint (a * 2 ^ nat b))"
proof (intro conjI impI)
  have ab: "f_as_i64 (fint a) = a" "f_as_i64 (fint b) = b"
    using assms by (intro f_as_i64_fint; simp)+
  have "0 \<le> a AND b" "a AND b \<le> a" using assms by (simp_all add: AND_upper1)
  then show "num_op BitAnd (fint a) (fint b) = fint (a AND b)"
    using assms ab by (simp add: f_of_int_fint)
  have "0 \<le> a OR b" "a OR b < 2 ^ 53" using assms OR_upper [of a 53 b] by simp_all
  then show "num_op BitOr (fint a) (fint b) = fint (a OR b)"
    using ab by (simp add: f_of_int_fint)
  have "0 \<le> a XOR b" "a XOR b < 2 ^ 53" using assms XOR_upper [of a 53 b] by simp_all
  then show "num_op BitXor (fint a) (fint b) = fint (a XOR b)"
    using ab by (simp add: f_of_int_fint)
  have d: "0 \<le> a div 2 ^ k" "a div 2 ^ k \<le> a" for k
    using assms zdiv_mono2 [of a 1 "2 ^ k"] by (simp_all add: pos_imp_zdiv_nonneg_iff)
  have "\<bar>a div 2 ^ nat b\<bar> < 2 ^ 53" using d [of "nat b"] assms by linarith
  then show "num_op Shr (fint a) (fint b) = fint (a div 2 ^ nat b)" if "b < 64"
    using that assms ab by (simp add: shr64_def f_of_int_fint del: power_numeral)
  show "num_op Shl (fint a) (fint b) = fint (a * 2 ^ nat b)" if "b < 64" "a * 2 ^ nat b < 2 ^ 53"
  proof -
    have "0 \<le> a * 2 ^ nat b" using assms by simp
    with that have "signed_take_bit 63 (a * 2 ^ nat b) = a * 2 ^ nat b"
      by (intro signed_take_bit_int_eq_self) auto
    with that assms ab show ?thesis by (simp add: shl64_def f_of_int_fint)
  qed
qed

theorem bit_operators_exact_witness:
  "num_op BitAnd (fint 6) (fint 3) = fint 2 \<and> num_op Shl (fint 6) (fint 3) = fint 48"
  using bit_operators_exact [of 6 3] by simp

end
