(* ===== verification/Index_Map.thy ===== *)
theory Index_Map
  imports Main
begin

text \<open>
  The insertion-ordered map of the \<open>indexmap\<close> crate as the sources use it.  The crate is
  not part of the repository; the interface \<open>ordered_map\<close> states the documented
  behaviour (an insert under a present key replaces the value and keeps the position, a
  new key goes to the end) and the association list \<open>imap\<close> realises it.
\<close>

type_synonym ('k, 'v) imap = "('k \<times> 'v) list"

locale ordered_map =
  fixes empty_map :: "'m" and insert_map :: "'k \<Rightarrow> 'v \<Rightarrow> 'm \<Rightarrow> 'm"
    and get_map :: "'m \<Rightarrow> 'k \<Rightarrow> 'v option" and keys_map :: "'m \<Rightarrow> 'k list" and ok :: "'m \<Rightarrow> bool"
  assumes ok_empty: "ok empty_map"
    and ok_insert: "ok m \<Longrightarrow> ok (insert_map k v m)"
    and get_empty: "get_map empty_map k = None"
    and get_insert: "ok m \<Longrightarrow> get_map (insert_map k v m) k' = (if k' = k then Some v else get_map m k')"
    and keys_distinct: "ok m \<Longrightarrow> distinct (keys_map m)"
    and keys_dom: "ok m \<Longrightarrow> set (keys_map m) = {k. get_map m k \<noteq> None}"
    and keys_empty: "keys_map empty_map = []"
    and keys_insert: "ok m \<Longrightarrow>
      keys_map (insert_map k v m) = (if get_map m k = None then keys_map m @ [k] else keys_map m)"
begin

text \<open>Inserting a list of entries: the last entry of a key wins, the first one places it.\<close>

fun insert_all :: "('k \<times> 'v) list \<Rightarrow> 'm \<Rightarrow> 'm" where
  "insert_all [] m = m"
| "insert_all ((k, v) # es) m = insert_all es (insert_map k v m)"

lemma ok_insert_all: "ok m \<Longrightarrow> ok (insert_all es m)"
  by (induction es m rule: insert_all.induct) (auto intro: ok_insert)

lemma get_insert_all:
  "ok m \<Longrightarrow> get_map (insert_all es m) k = (case map_of (rev es) k of None \<Rightarrow> get_map m k | Some v \<Rightarrow> Some v)"
proof (induction es m rule: insert_all.induct)
  case (2 k1 v es m)
  then show ?case
    by (auto simp: get_insert ok_insert map_add_def split: option.splits)
qed simp

lemma keys_insert_new:
  "ok m \<Longrightarrow> distinct (map fst es) \<Longrightarrow> set (map fst es) \<inter> set (keys_map m) = {} \<Longrightarrow>
     keys_map (insert_all es m) = keys_map m @ map fst es"
proof (induction es m rule: insert_all.induct)
  case (2 k v es m)
  have "get_map m k = None" using 2 keys_dom by auto
  with 2 show ?case by (auto simp: keys_insert ok_insert)
qed simp

end

fun im_insert :: "'k \<Rightarrow> 'v \<Rightarrow> ('k, 'v) imap \<Rightarrow> ('k, 'v) imap" where
  "im_insert k v [] = [(k, v)]"
| "im_insert k v ((k1, v1) # m) = (if k1 = k then (k, v) # m else (k1, v1) # im_insert k v m)"

definition im_get :: "('k, 'v) imap \<Rightarrow> 'k \<Rightarrow> 'v option" where "im_get m k = map_of m k"

definition im_ok :: "('k, 'v) imap \<Rightarrow> bool" where "im_ok m \<longleftrightarrow> distinct (map fst m)"

text \<open>\<open>last()\<close> and updating the value of the last entry through \<open>last_mut()\<close>.\<close>

definition im_last :: "('k, 'v) imap \<Rightarrow> ('k \<times> 'v) option" where
  "im_last m = (if m = [] then None else Some (last m))"

definition im_update_last :: "('v \<Rightarrow> 'v) \<Rightarrow> ('k, 'v) imap \<Rightarrow> ('k, 'v) imap" where
  "im_update_last f m = (if m = [] then [] else butlast m @ [(fst (last m), f (snd (last m)))])"

lemma im_get_insert [simp]: "im_get (im_insert k v m) k' = (if k' = k then Some v else im_get m k')"
  by (induction k v m rule: im_insert.induct) (auto simp: im_get_def)

lemma im_keys_insert:
  "map fst (im_insert k v m) = (if im_get m k = None then map fst m @ [k] else map fst m)"
  by (induction k v m rule: im_insert.induct) (auto simp: im_get_def)

lemma im_get_None: "im_get m k = None \<longleftrightarrow> k \<notin> fst ` set m"
  by (simp add: im_get_def map_of_eq_None_iff)

lemma im_ok_insert [simp]: "im_ok m \<Longrightarrow> im_ok (im_insert k v m)"
  by (auto simp: im_ok_def im_keys_insert im_get_None image_iff)

lemma im_ok_Nil [simp]: "im_ok []"
  by (simp add: im_ok_def)

interpretation imap: ordered_map "[]" im_insert im_get "map fst" im_ok
proof unfold_locales
  fix m :: "('k, 'v) imap"
  show "set (map fst m) = {k. im_get m k \<noteq> None}" by (auto simp: im_get_None)
qed (auto simp: im_keys_insert, auto simp: im_get_def im_ok_def)

end
