(* ===== verification/Model.thy ===== *)
theory Model
  imports Preprocess Expr_Eval Index_Map
begin

text \<open>
  The typed definition model of \<open>ts-ini/src/model.rs\<close>: constants, channels, tables,
  curves, gauges, menus, dialogs, and \<open>IniDef\<close> that holds them all.
\<close>

text \<open>\<open>Display\<close> of an error.\<close>

fun show_error :: "ini_error \<Rightarrow> string" where
  "show_error (Parse_error n m) = ''line '' @ show_nat n @ '': '' @ m"
| "show_error (Eval_error m) = m"

datatype num_or_expr = Num_lit f64 | Num_expr expr
datatype str_or_expr = Str_lit string | Str_expr expr

fun num_or_expr_eval :: "symbols \<Rightarrow> num_or_expr \<Rightarrow> (ini_error + f64) run" where
  "num_or_expr_eval syms (Num_lit n) = rr_return n"
| "num_or_expr_eval syms (Num_expr e) =
     rr_bind (eval syms e) (\<lambda>v.
       Ret (ok_or (as_num v) (Eval_error ''expression yielded a string, expected number'')))"

fun num_literal :: "num_or_expr \<Rightarrow> f64 option" where
  "num_literal (Num_lit n) = Some n"
| "num_literal (Num_expr e) = None"

fun str_or_expr_eval :: "symbols \<Rightarrow> str_or_expr \<Rightarrow> (ini_error + string) run" where
  "str_or_expr_eval syms (Str_lit s) = rr_return s"
| "str_or_expr_eval syms (Str_expr e) =
     rr_bind (eval syms e) (\<lambda>v. rr_return (case v of VStr s \<Rightarrow> s | VNum n \<Rightarrow> show_f64 n))"

datatype data_type = U08 | S08 | U16 | S16 | U32 | S32 | Ascii

definition data_type_parse :: "string \<Rightarrow> nat \<Rightarrow> ini_error + data_type" where
  "data_type_parse s num =
     (if s = ''U08'' then Inr U08 else if s = ''S08'' then Inr S08
      else if s = ''U16'' then Inr U16 else if s = ''S16'' then Inr S16
      else if s = ''U32'' then Inr U32 else if s = ''S32'' then Inr S32
      else if s = ''ASCII'' then Inr Ascii
      else Inl (Parse_error num (''unknown data type '' @ ticked s)))"

fun ty_size :: "data_type \<Rightarrow> nat" where
  "ty_size U08 = 1" | "ty_size S08 = 1" | "ty_size Ascii = 1"
| "ty_size U16 = 2" | "ty_size S16 = 2" | "ty_size U32 = 4" | "ty_size S32 = 4"

fun ty_signed :: "data_type \<Rightarrow> bool" where
  "ty_signed S08 = True" | "ty_signed S16 = True" | "ty_signed S32 = True" | "ty_signed _ = False"

datatype constant_class = Scalar | Bits | Array_class | String_class

record constant_def =
  cd_name :: string
  cd_class :: constant_class
  cd_ty :: data_type
  cd_page :: "nat option"
  cd_offset :: "nat option"
  cd_shape :: "shape option"
  cd_units :: "str_or_expr option"
  cd_scale :: num_or_expr
  cd_translate :: num_or_expr
  cd_lo :: "num_or_expr option"
  cd_hi :: "num_or_expr option"
  cd_digits :: "num_or_expr option"
  cd_labels :: "string list"
  cd_string_len :: "nat option"
  cd_no_msq_save :: bool
  cd_line :: nat

text \<open>The \<open>u32\<close> product wraps in a release build.\<close>

definition byte_size :: "constant_def \<Rightarrow> nat" where
  "byte_size c =
     (case cd_class c of
        Scalar \<Rightarrow> ty_size (cd_ty c)
      | Bits \<Rightarrow> ty_size (cd_ty c)
      | Array_class \<Rightarrow>
          ((case cd_shape c of None \<Rightarrow> 0 | Some s \<Rightarrow> element_count s) * ty_size (cd_ty c)) mod 2 ^ 32
      | String_class \<Rightarrow> (case cd_string_len c of None \<Rightarrow> 0 | Some n \<Rightarrow> n))"

record constants_header =
  h_endianness :: string
  h_n_pages :: nat
  h_page_sizes :: "nat list"
  h_page_identifiers :: "string list"
  h_page_read_command :: "string list"
  h_page_value_write :: "string list"
  h_page_chunk_write :: "string list"
  h_crc32_check_command :: "string list"
  h_burn_command :: "string list"
  h_table_crc_command :: "string option"
  h_blocking_factor :: "nat option"
  h_delay_after_port_open :: "nat option"
  h_block_read_timeout :: "nat option"
  h_ts_write_blocks :: bool
  h_inter_write_delay :: "nat option"
  h_page_activation_delay :: "nat option"
  h_message_envelope_format :: "string option"
  h_misc :: "(string, string) imap"

definition header_default :: constants_header where
  "header_default = \<lparr>h_endianness = [], h_n_pages = 0, h_page_sizes = [], h_page_identifiers = [],
     h_page_read_command = [], h_page_value_write = [], h_page_chunk_write = [],
     h_crc32_check_command = [], h_burn_command = [], h_table_crc_command = None,
     h_blocking_factor = None, h_delay_after_port_open = None, h_block_read_timeout = None,
     h_ts_write_blocks = False, h_inter_write_delay = None, h_page_activation_delay = None,
     h_message_envelope_format = None, h_misc = []\<rparr>"

datatype output_channel =
    Ch_scalar data_type nat "str_or_expr option" num_or_expr num_or_expr
  | Ch_bits data_type nat nat nat
  | Ch_derived expr "string option"

record table_def =
  td_id :: string
  td_map_id :: string
  td_title :: string
  td_page :: nat
  td_x_bins :: "string \<times> string option"
  td_y_bins :: "string \<times> string option"
  td_z_bins :: string
  td_xy_labels :: "string list"
  td_grid_height :: "f64 option"
  td_grid_orient :: "f64 list"
  td_up_down_label :: "string list"
  td_topic_help :: "string option"
  td_misc :: "(string \<times> string) list"
  td_line :: nat

record curve_def =
  cu_id :: string
  cu_title :: string
  cu_column_label :: "string list"
  cu_x_axis :: "num_or_expr list"
  cu_y_axis :: "num_or_expr list"
  cu_x_bins :: "string \<times> string option"
  cu_y_bins :: "string list"
  cu_misc :: "(string \<times> string) list"
  cu_line :: nat

record gauge_def =
  g_name :: string
  g_channel :: string
  g_title :: string
  g_units :: string
  g_lo :: num_or_expr
  g_hi :: num_or_expr
  g_lo_danger :: num_or_expr
  g_lo_warn :: num_or_expr
  g_hi_warn :: num_or_expr
  g_hi_danger :: num_or_expr
  g_value_digits :: nat
  g_label_digits :: nat
  g_category :: string

record indicator =
  in_condition :: expr
  in_off_label :: string
  in_on_label :: string
  in_colors :: "string list"

record front_page =
  fp_gauges :: "string list"
  fp_indicators :: "indicator list"

datatype datalog_type = Dl_int | Dl_float

record datalog_entry =
  dl_channel :: string
  dl_label :: string
  dl_ty :: datalog_type
  dl_format :: string
  dl_condition :: "expr option"

record menu_entry =
  me_target :: string
  me_label :: string
  me_enable :: "expr option"

datatype menu_item = Menu_entry menu_entry | Separator | Group string "menu_entry list"

record menu_def =
  mn_title :: string
  mn_items :: "menu_item list"

datatype dialog_item =
    Field_item string "string option" "expr option" "expr option"
  | Display_only string "string option" "expr option" "expr option"
  | Panel string "expr option"

record dialog_def =
  di_name :: string
  di_title :: string
  di_items :: "dialog_item list"
  di_topic_help :: "string option"
  di_line :: nat

record setting_group =
  sg_keyword :: string
  sg_display_name :: string
  sg_options :: "(string \<times> string) list"

record afr_calibration =
  ac_write_command :: string
  ac_blocking_factor :: nat
  ac_identifier :: nat
  ac_adc_count :: nat
  ac_bytes_per_adc :: nat
  ac_scale :: f64
  ac_solutions :: "(string \<times> expr) list"

definition afr_default :: afr_calibration where
  "afr_default = \<lparr>ac_write_command = [], ac_blocking_factor = 0, ac_identifier = 0,
     ac_adc_count = 0, ac_bytes_per_adc = 0, ac_scale = fzero, ac_solutions = []\<rparr>"

record ini_def =
  i_mt_version :: "f64 option"
  i_query_command :: string
  i_signature :: string
  i_version_info :: string
  i_setting_groups :: "setting_group list"
  i_pc_variables :: "(string, constant_def) imap"
  i_header :: constants_header
  i_constants :: "(string, constant_def) imap"
  i_requires_power_cycle :: "string list"
  i_default_values :: "(string \<times> string) list"
  i_controller_priority :: "string list"
  i_och_get_command :: string
  i_och_block_size :: nat
  i_output_channels :: "(string, output_channel) imap"
  i_tables :: "(string, table_def) imap"
  i_curves :: "(string, curve_def) imap"
  i_gauges :: "(string, gauge_def) imap"
  i_front_page :: front_page
  i_datalog :: "datalog_entry list"
  i_menus :: "menu_def list"
  i_dialogs :: "(string, dialog_def) imap"
  i_afr_calibration :: "afr_calibration option"
  i_warnings :: "string list"

definition ini_default :: ini_def where
  "ini_default = \<lparr>i_mt_version = None, i_query_command = [], i_signature = [],
     i_version_info = [], i_setting_groups = [], i_pc_variables = [], i_header = header_default,
     i_constants = [], i_requires_power_cycle = [], i_default_values = [],
     i_controller_priority = [], i_och_get_command = [], i_och_block_size = 0,
     i_output_channels = [], i_tables = [], i_curves = [], i_gauges = [],
     i_front_page = \<lparr>fp_gauges = [], fp_indicators = []\<rparr>, i_datalog = [], i_menus = [],
     i_dialogs = [], i_afr_calibration = None, i_warnings = []\<rparr>"

definition page_constants :: "ini_def \<Rightarrow> nat \<Rightarrow> constant_def list" where
  "page_constants def page = filter (\<lambda>c. cd_page c = Some page) (map snd (i_constants def))"

end
