(* ===== verification/Sections_Tuning.thy ===== *)
theory Sections_Tuning
  imports Model
begin

text \<open>
  The section parsers of \<open>ts-ini/src/sections.rs\<close> that define tuning data: [MegaTune],
  [SettingGroups], [Constants], [PcVariables], [ConstantsExtensions], [OutputChannels],
  [TableEditor] and [CurveEditor].

  Each parser is a loop over the section's lines on the definition built so far
  (\<open>Ctx\<close>) and the parser's local variables.  Indexing a token that is not there
  (\<open>tokens[0]\<close>) is a panic, hence a \<open>Crash\<close>; every other oddity is a warning or an
  error with its line.
\<close>

subsection \<open>Shared helpers\<close>

definition warn :: "nat \<Rightarrow> string \<Rightarrow> ini_def \<Rightarrow> ini_def" where
  "warn num msg d = d\<lparr>i_warnings := i_warnings d @ [''line '' @ show_nat num @ '': '' @ msg]\<rparr>"

definition kv :: "line \<Rightarrow> ini_def \<Rightarrow> (string \<times> token list) option \<times> ini_def" where
  "kv l d =
     (case split_kv (l_text l) of
        None \<Rightarrow> (None, warn (l_num l) (''expected '' @ ticked ''key = ...'' @ '': '' @ l_text l) d)
      | Some (key, rest) \<Rightarrow>
          (case tokenize rest (l_num l) of
             Inr tokens \<Rightarrow> (Some (key, tokens), d)
           | Inl e \<Rightarrow> (None, warn (l_num l) (show_error e) d)))"

text \<open>\<open>let Some((key, tokens)) = kv(line, ctx) else { continue }\<close>\<close>

definition on_kv :: "line \<Rightarrow> ini_def \<Rightarrow> (ini_def \<Rightarrow> 'r) \<Rightarrow> (string \<Rightarrow> token list \<Rightarrow> ini_def \<Rightarrow> 'r) \<Rightarrow> 'r" where
  "on_kv l d skip k =
     (case kv l d of
        (None, d1) \<Rightarrow> skip d1
      | (Some (key, tokens), d1) \<Rightarrow> k key tokens d1)"

lemma on_kv_cong: "d = d' \<Longrightarrow> on_kv l d s k = on_kv l d' s k"
  by simp

definition str_tok :: "token list \<Rightarrow> nat \<Rightarrow> nat \<Rightarrow> ini_error + string" where
  "str_tok tokens i num =
     (case list_get tokens i of
        Some t \<Rightarrow> Inr (token_str t)
      | None \<Rightarrow> Inl (Parse_error num (''missing value #'' @ show_nat (i + 1))))"

text \<open>\<open>unwrap_or_default()\<close> on a string result.\<close>

definition or_empty :: "ini_error + string \<Rightarrow> string" where
  "or_empty r = (case r of Inl e \<Rightarrow> [] | Inr s \<Rightarrow> s)"

definition num_or_expr_tok :: "token list \<Rightarrow> nat \<Rightarrow> nat \<Rightarrow> (ini_error + num_or_expr) run" where
  "num_or_expr_tok tokens i num =
     (case list_get tokens i of
        Some (Expr_tok src) \<Rightarrow> rr_bind (parse_expr src num) (\<lambda>e. rr_return (Num_expr e))
      | Some t \<Rightarrow> rr_bind (Ret (token_number t num)) (\<lambda>x. rr_return (Num_lit x))
      | None \<Rightarrow> rr_fail (Parse_error num (''missing numeric value #'' @ show_nat (i + 1))))"

definition strings :: "token list \<Rightarrow> string list" where "strings = map token_str"

definition joined :: "token list \<Rightarrow> string" where "joined tokens = str_join '', '' (strings tokens)"

text \<open>\<open>tokens[0]\<close>, \<open>tokens[k..]\<close>: panics when out of range.\<close>

definition index0 :: "token list \<Rightarrow> (ini_error + token) run" where
  "index0 tokens = (case tokens of [] \<Rightarrow> Crash Panic | t # r \<Rightarrow> rr_return t)"

definition slice_from :: "nat \<Rightarrow> token list \<Rightarrow> (ini_error + token list) run" where
  "slice_from k tokens = (if k \<le> length tokens then rr_return (drop k tokens) else Crash Panic)"

definition number0 :: "token list \<Rightarrow> nat \<Rightarrow> (ini_error + f64) run" where
  "number0 tokens num = rr_bind (index0 tokens) (\<lambda>t. Ret (token_number t num))"

subsection \<open>[MegaTune]\<close>

definition megatune_line :: "line \<Rightarrow> ini_def \<Rightarrow> (ini_error + ini_def) run" where
  "megatune_line l d0 = on_kv l d0 rr_return (\<lambda>key tokens d.
     let num = l_num l
     in if key = ''MTversion'' then
          rr_return (d\<lparr>i_mt_version :=
            Option.bind (list_get tokens 0) (\<lambda>t. res_ok (token_number t num))\<rparr>)
        else if key = ''queryCommand'' then
          rr_bind (Ret (str_tok tokens 0 num)) (\<lambda>s. rr_return (d\<lparr>i_query_command := s\<rparr>))
        else if key = ''signature'' then
          rr_bind (Ret (str_tok tokens 0 num)) (\<lambda>s. rr_return (d\<lparr>i_signature := s\<rparr>))
        else if key = ''versionInfo'' then
          rr_bind (Ret (str_tok tokens 0 num)) (\<lambda>s. rr_return (d\<lparr>i_version_info := s\<rparr>))
        else rr_return (warn num (''unknown [MegaTune] key '' @ ticked key) d))"

definition megatune :: "line list \<Rightarrow> ini_def \<Rightarrow> (ini_error + ini_def) run" where
  "megatune = rr_fold megatune_line"

subsection \<open>[SettingGroups]\<close>

definition setting_groups_line :: "line \<Rightarrow> ini_def \<Rightarrow> (ini_error + ini_def) run" where
  "setting_groups_line l d0 = on_kv l d0 rr_return (\<lambda>key tokens d.
     let num = l_num l
     in if key = ''settingGroup'' then
          rr_bind (Ret (str_tok tokens 0 num)) (\<lambda>kw.
            rr_return (d\<lparr>i_setting_groups := i_setting_groups d @
              [\<lparr>sg_keyword = kw, sg_display_name = or_empty (str_tok tokens 1 num), sg_options = []\<rparr>]\<rparr>))
        else if key = ''settingOption'' then
          rr_bind (Ret (str_tok tokens 0 num)) (\<lambda>sym.
            let opt = (sym, or_empty (str_tok tokens 1 num)); gs = i_setting_groups d
            in if gs = [] then rr_return (warn num ''settingOption before settingGroup'' d)
               else rr_return (d\<lparr>i_setting_groups :=
                 butlast gs @ [(last gs)\<lparr>sg_options := sg_options (last gs) @ [opt]\<rparr>]\<rparr>))
        else rr_return (warn num (''unknown [SettingGroups] key '' @ ticked key) d))"

definition setting_groups :: "line list \<Rightarrow> ini_def \<Rightarrow> (ini_error + ini_def) run" where
  "setting_groups = rr_fold setting_groups_line"

subsection \<open>Constant definitions\<close>

definition class_of_tokens :: "token list \<Rightarrow> constant_class option" where
  "class_of_tokens tokens =
     (case tokens of
        Bare s # r \<Rightarrow>
          if s = ''scalar'' then Some Scalar else if s = ''bits'' then Some Bits
          else if s = ''array'' then Some Array_class else if s = ''string'' then Some String_class
          else None
      | _ \<Rightarrow> None)"

text \<open>\<open>tokens.get(idx).map(as_str).unwrap_or("")\<close>\<close>

definition tok_or_empty :: "token list \<Rightarrow> nat \<Rightarrow> string" where
  "tok_or_empty tokens i = (case list_get tokens i of None \<Rightarrow> [] | Some t \<Rightarrow> token_str t)"

definition constant_base :: "string \<Rightarrow> constant_class \<Rightarrow> data_type \<Rightarrow> nat option \<Rightarrow> nat \<Rightarrow> constant_def" where
  "constant_base name class0 ty page lno =
     \<lparr>cd_name = name, cd_class = class0, cd_ty = ty, cd_page = page, cd_offset = None,
      cd_shape = None, cd_units = None, cd_scale = Num_lit fone, cd_translate = Num_lit fzero,
      cd_lo = None, cd_hi = None, cd_digits = None, cd_labels = [], cd_string_len = None,
      cd_no_msq_save = False, cd_line = lno\<rparr>"

definition f_u32 :: "f64 \<Rightarrow> nat" where "f_u32 x = nat (f_as_u32 x)"

text \<open>The offset field, present when an offset is expected; \<open>lastOffset\<close> repeats the previous one.\<close>

definition read_offset :: "token list \<Rightarrow> nat option \<Rightarrow> nat \<Rightarrow> ini_error + nat option" where
  "read_offset tokens offset_ctx lno =
     (case offset_ctx of
        None \<Rightarrow> Inr None
      | Some last_offset \<Rightarrow>
          (case list_get tokens 2 of
             None \<Rightarrow> Inl (Parse_error lno ''missing offset'')
           | Some t \<Rightarrow>
               if t = Bare ''lastOffset'' then Inr (Some last_offset)
               else res_bind (token_number t lno) (\<lambda>x. Inr (Some (f_u32 x)))))"

text \<open>A numeric field that is read only when the line is long enough.\<close>

definition opt_field :: "token list \<Rightarrow> nat \<Rightarrow> nat \<Rightarrow> (ini_error + num_or_expr option) run" where
  "opt_field tokens i lno =
     (if i < length tokens then rr_bind (num_or_expr_tok tokens i lno) (\<lambda>v. rr_return (Some v))
      else rr_return None)"

definition tail_flag :: "nat \<Rightarrow> token \<Rightarrow> constant_def \<Rightarrow> (ini_error + constant_def) run" where
  "tail_flag lno tk c =
     (if tk = Bare ''noMsqSave'' then rr_return (c\<lparr>cd_no_msq_save := True\<rparr>)
      else if cd_digits c \<noteq> None then rr_return c
      else case tk of
          Expr_tok src \<Rightarrow> rr_bind (parse_expr src lno) (\<lambda>e. rr_return (c\<lparr>cd_digits := Some (Num_expr e)\<rparr>))
        | t \<Rightarrow> rr_bind (Ret (token_number t lno)) (\<lambda>x. rr_return (c\<lparr>cd_digits := Some (Num_lit x)\<rparr>)))"

text \<open>The tail of scalar and array lines: units, scale, translate, lo, hi, digits, flags.\<close>

definition constant_tail ::
    "token list \<Rightarrow> nat \<Rightarrow> nat \<Rightarrow> constant_def \<Rightarrow> (ini_error + constant_def) run" where
  "constant_tail tokens i lno c =
     rr_bind (case list_get tokens i of
         None \<Rightarrow> rr_return None
       | Some (Expr_tok src) \<Rightarrow> rr_bind (parse_expr src lno) (\<lambda>e. rr_return (Some (Str_expr e)))
       | Some t \<Rightarrow> rr_return (Some (Str_lit (token_str t)))) (\<lambda>units.
     rr_bind (opt_field tokens (i + 1) lno) (\<lambda>scale.
     rr_bind (opt_field tokens (i + 2) lno) (\<lambda>translate.
     rr_bind (opt_field tokens (i + 3) lno) (\<lambda>lo.
     rr_bind (opt_field tokens (i + 4) lno) (\<lambda>hi.
       rr_fold (tail_flag lno) (drop (i + 5) tokens)
         (c\<lparr>cd_units := units,
            cd_scale := (case scale of None \<Rightarrow> cd_scale c | Some v \<Rightarrow> v),
            cd_translate := (case translate of None \<Rightarrow> cd_translate c | Some v \<Rightarrow> v),
            cd_lo := lo, cd_hi := hi\<rparr>))))))"

definition constant_def_parse ::
    "string \<Rightarrow> constant_class \<Rightarrow> token list \<Rightarrow> nat option \<Rightarrow> nat option \<Rightarrow> nat \<Rightarrow> (ini_error + constant_def) run" where
  "constant_def_parse name class0 tokens page offset_ctx lno =
     rr_bind (Ret (data_type_parse (tok_or_empty tokens 1) lno)) (\<lambda>ty.
     rr_bind (Ret (read_offset tokens offset_ctx lno)) (\<lambda>offset.
       let c = (constant_base name class0 ty page lno)\<lparr>cd_offset := offset\<rparr>;
           i = (if offset_ctx = None then 2 else 3)
       in case class0 of
            String_class \<Rightarrow>
              (case list_get tokens i of
                 None \<Rightarrow> rr_fail (Parse_error lno ''missing string length'')
               | Some t \<Rightarrow> rr_bind (Ret (token_number t lno))
                   (\<lambda>x. rr_return (c\<lparr>cd_string_len := Some (f_u32 x)\<rparr>)))
          | Bits \<Rightarrow>
              rr_bind (Ret (parse_shape (tok_or_empty tokens i) lno)) (\<lambda>shape.
                case shape of
                  Bits_shape lo hi \<Rightarrow>
                    rr_bind (slice_from (i + 1) tokens) (\<lambda>labels.
                      rr_return (c\<lparr>cd_shape := Some shape, cd_labels := strings labels\<rparr>))
                | _ \<Rightarrow> rr_fail (Parse_error lno ''bits constant needs a [lo:hi] range''))
          | Array_class \<Rightarrow>
              rr_bind (Ret (parse_shape (tok_or_empty tokens i) lno)) (\<lambda>shape.
                constant_tail tokens (i + 1) lno (c\<lparr>cd_shape := Some shape\<rparr>))
          | Scalar \<Rightarrow> constant_tail tokens i lno c))"

subsection \<open>[Constants]\<close>

definition upd_header :: "(constants_header \<Rightarrow> constants_header) \<Rightarrow> ini_def \<Rightarrow> ini_def" where
  "upd_header f d = d\<lparr>i_header := f (i_header d)\<rparr>"

definition header_u32 ::
    "token list \<Rightarrow> nat \<Rightarrow> (nat \<Rightarrow> constants_header \<Rightarrow> constants_header) \<Rightarrow> ini_def \<Rightarrow> (ini_error + ini_def) run" where
  "header_u32 tokens num f d =
     rr_bind (number0 tokens num) (\<lambda>x. rr_return (upd_header (f (f_u32 x)) d))"

definition header_str ::
    "token list \<Rightarrow> nat \<Rightarrow> (string \<Rightarrow> constants_header \<Rightarrow> constants_header) \<Rightarrow> ini_def \<Rightarrow> (ini_error + ini_def) run" where
  "header_str tokens num f d =
     rr_bind (Ret (str_tok tokens 0 num)) (\<lambda>s. rr_return (upd_header (f s) d))"

definition header_strs ::
    "token list \<Rightarrow> (string list \<Rightarrow> constants_header \<Rightarrow> constants_header) \<Rightarrow> ini_def \<Rightarrow> (ini_error + ini_def) run" where
  "header_strs tokens f d = rr_return (upd_header (f (strings tokens)) d)"

definition header_key :: "string \<Rightarrow> token list \<Rightarrow> nat \<Rightarrow> ini_def \<Rightarrow> (ini_error + ini_def) run" where
  "header_key key tokens num d =
     (if key = ''endianness'' then header_str tokens num (\<lambda>s. h_endianness_update (\<lambda>_. s)) d
      else if key = ''nPages'' then
        rr_bind (number0 tokens num)
          (\<lambda>x. rr_return (upd_header (h_n_pages_update (\<lambda>_. f_as_usize x)) d))
      else if key = ''pageSize'' then
        rr_bind (Ret (res_mapM (\<lambda>t. token_number t num) tokens))
          (\<lambda>xs. rr_return (upd_header (h_page_sizes_update (\<lambda>_. map f_u32 xs)) d))
      else if key = ''pageIdentifier'' then header_strs tokens (\<lambda>s. h_page_identifiers_update (\<lambda>_. s)) d
      else if key = ''pageReadCommand'' then header_strs tokens (\<lambda>s. h_page_read_command_update (\<lambda>_. s)) d
      else if key = ''pageValueWrite'' then header_strs tokens (\<lambda>s. h_page_value_write_update (\<lambda>_. s)) d
      else if key = ''pageChunkWrite'' then header_strs tokens (\<lambda>s. h_page_chunk_write_update (\<lambda>_. s)) d
      else if key = ''crc32CheckCommand'' then header_strs tokens (\<lambda>s. h_crc32_check_command_update (\<lambda>_. s)) d
      else if key = ''burnCommand'' then header_strs tokens (\<lambda>s. h_burn_command_update (\<lambda>_. s)) d
      else if key = ''tableCrcCommand'' then
        header_str tokens num (\<lambda>s. h_table_crc_command_update (\<lambda>_. Some s)) d
      else if key = ''blockingFactor'' then
        header_u32 tokens num (\<lambda>n. h_blocking_factor_update (\<lambda>_. Some n)) d
      else if key = ''delayAfterPortOpen'' then
        header_u32 tokens num (\<lambda>n. h_delay_after_port_open_update (\<lambda>_. Some n)) d
      else if key = ''blockReadTimeout'' then
        header_u32 tokens num (\<lambda>n. h_block_read_timeout_update (\<lambda>_. Some n)) d
      else if key = ''tsWriteBlocks'' then
        rr_bind (index0 tokens)
          (\<lambda>t. rr_return (upd_header (h_ts_write_blocks_update (\<lambda>_. token_str t = ''on'')) d))
      else if key = ''interWriteDelay'' then
        header_u32 tokens num (\<lambda>n. h_inter_write_delay_update (\<lambda>_. Some n)) d
      else if key = ''pageActivationDelay'' then
        header_u32 tokens num (\<lambda>n. h_page_activation_delay_update (\<lambda>_. Some n)) d
      else if key = ''messageEnvelopeFormat'' then
        header_str tokens num (\<lambda>s. h_message_envelope_format_update (\<lambda>_. Some s)) d
      else rr_return (upd_header (h_misc_update (im_insert key (joined tokens))) d))"

text \<open>The local variables of the loop: the current page and the offset of the last constant.\<close>

record constants_state =
  cs_page :: "nat option"
  cs_last_offset :: "nat option"
  cs_def :: ini_def

definition constants_line :: "line \<Rightarrow> constants_state \<Rightarrow> (ini_error + constants_state) run" where
  "constants_line l s =
     on_kv l (cs_def s) (\<lambda>d. rr_return (s\<lparr>cs_def := d\<rparr>)) (\<lambda>key tokens d.
       let num = l_num l
       in if key = ''page'' then
            (case tokens of
               [] \<Rightarrow> rr_fail (Parse_error num ''page = <n>'')
             | t # r \<Rightarrow> rr_bind (Ret (token_number t num)) (\<lambda>x.
                 rr_return \<lparr>cs_page = Some (nat (f_as_u8 x)), cs_last_offset = None, cs_def = d\<rparr>))
          else case class_of_tokens tokens of
              Some class0 \<Rightarrow>
                (case cs_page s of
                   None \<Rightarrow> rr_fail (Parse_error num (''constant before '' @ ticked ''page = n''))
                 | Some page \<Rightarrow>
                     rr_bind (constant_def_parse key class0 tokens (Some page)
                         (Some (case cs_last_offset s of None \<Rightarrow> 0 | Some n \<Rightarrow> n)) num) (\<lambda>c.
                       rr_return \<lparr>cs_page = Some page, cs_last_offset = cd_offset c,
                         cs_def = d\<lparr>i_constants := im_insert key c (i_constants d)\<rparr>\<rparr>))
            | None \<Rightarrow> rr_bind (header_key key tokens num d) (\<lambda>d1. rr_return (s\<lparr>cs_def := d1\<rparr>)))"

definition constants :: "line list \<Rightarrow> ini_def \<Rightarrow> (ini_error + ini_def) run" where
  "constants lines d =
     rr_bind (rr_fold constants_line lines \<lparr>cs_page = None, cs_last_offset = None, cs_def = d\<rparr>)
       (\<lambda>s. rr_return (cs_def s))"

subsection \<open>[PcVariables]\<close>

definition pc_variables_line :: "line \<Rightarrow> ini_def \<Rightarrow> (ini_error + ini_def) run" where
  "pc_variables_line l d0 = on_kv l d0 rr_return (\<lambda>key tokens d.
     case class_of_tokens tokens of
       Some class0 \<Rightarrow>
         rr_bind (constant_def_parse key class0 tokens None None (l_num l)) (\<lambda>c.
           rr_return (d\<lparr>i_pc_variables := im_insert key c (i_pc_variables d)\<rparr>))
     | None \<Rightarrow> rr_return (warn (l_num l) (''unrecognized [PcVariables] entry '' @ ticked key) d))"

definition pc_variables :: "line list \<Rightarrow> ini_def \<Rightarrow> (ini_error + ini_def) run" where
  "pc_variables = rr_fold pc_variables_line"

subsection \<open>[ConstantsExtensions]\<close>

definition constants_extensions_line :: "line \<Rightarrow> ini_def \<Rightarrow> (ini_error + ini_def) run" where
  "constants_extensions_line l d0 = on_kv l d0 rr_return (\<lambda>key tokens d.
     let num = l_num l
     in if key = ''requiresPowerCycle'' then
          rr_bind (Ret (str_tok tokens 0 num)) (\<lambda>s.
            rr_return (d\<lparr>i_requires_power_cycle := i_requires_power_cycle d @ [s]\<rparr>))
        else if key = ''defaultValue'' then
          rr_bind (Ret (str_tok tokens 0 num)) (\<lambda>name.
          rr_bind (slice_from 1 tokens) (\<lambda>rest.
            rr_return (d\<lparr>i_default_values := i_default_values d @ [(name, joined rest)]\<rparr>)))
        else if key = ''controllerPriority'' then
          rr_bind (Ret (str_tok tokens 0 num)) (\<lambda>s.
            rr_return (d\<lparr>i_controller_priority := i_controller_priority d @ [s]\<rparr>))
        else rr_return (warn num (''unhandled [ConstantsExtensions] key '' @ ticked key) d))"

definition constants_extensions :: "line list \<Rightarrow> ini_def \<Rightarrow> (ini_error + ini_def) run" where
  "constants_extensions = rr_fold constants_extensions_line"

subsection \<open>[OutputChannels]\<close>

text \<open>The channel a constant definition stands for.\<close>

definition channel_of :: "constant_class \<Rightarrow> constant_def \<Rightarrow> nat \<Rightarrow> ini_error + output_channel" where
  "channel_of class0 c num =
     (let offset = (case cd_offset c of None \<Rightarrow> 0 | Some n \<Rightarrow> n)
      in if class0 = Bits then
           (case cd_shape c of
              Some (Bits_shape lo hi) \<Rightarrow> Inr (Ch_bits (cd_ty c) offset lo hi)
            | _ \<Rightarrow> Inl (Parse_error num ''bits channel needs [lo:hi]''))
         else Inr (Ch_scalar (cd_ty c) offset (cd_units c) (cd_scale c) (cd_translate c)))"

definition output_channels_line :: "line \<Rightarrow> ini_def \<Rightarrow> (ini_error + ini_def) run" where
  "output_channels_line l d0 = on_kv l d0 rr_return (\<lambda>key tokens d.
     let num = l_num l
     in if key = ''ochGetCommand'' then
          rr_bind (Ret (str_tok tokens 0 num)) (\<lambda>s. rr_return (d\<lparr>i_och_get_command := s\<rparr>))
        else if key = ''ochBlockSize'' then
          rr_bind (number0 tokens num) (\<lambda>x. rr_return (d\<lparr>i_och_block_size := f_u32 x\<rparr>))
        else case list_get tokens 0 of
            Some (Expr_tok src) \<Rightarrow>
              rr_bind (parse_expr src num) (\<lambda>e.
                rr_return (d\<lparr>i_output_channels := im_insert key
                  (Ch_derived e (map_option token_str (list_get tokens 1))) (i_output_channels d)\<rparr>))
          | _ \<Rightarrow>
              (case class_of_tokens tokens of
                 None \<Rightarrow> rr_return (warn num (''unrecognized [OutputChannels] entry '' @ ticked key) d)
               | Some class0 \<Rightarrow>
                   rr_bind (constant_def_parse key class0 tokens None (Some 0) num) (\<lambda>c.
                   rr_bind (Ret (channel_of class0 c num)) (\<lambda>ch.
                     rr_return (d\<lparr>i_output_channels := im_insert key ch (i_output_channels d)\<rparr>)))))"

definition output_channels :: "line list \<Rightarrow> ini_def \<Rightarrow> (ini_error + ini_def) run" where
  "output_channels = rr_fold output_channels_line"

subsection \<open>[TableEditor]\<close>

text \<open>The loop carries the table being read; \<open>finish\<close> files it under its id.\<close>

definition finish_table :: "table_def option \<Rightarrow> ini_def \<Rightarrow> ini_def" where
  "finish_table current d =
     (case current of None \<Rightarrow> d | Some t \<Rightarrow> d\<lparr>i_tables := im_insert (td_id t) t (i_tables d)\<rparr>)"

definition table_new :: "token list \<Rightarrow> nat \<Rightarrow> ini_error + table_def" where
  "table_new tokens num =
     res_bind (str_tok tokens 0 num) (\<lambda>ident.
     res_bind (str_tok tokens 1 num) (\<lambda>map_id.
     res_bind (str_tok tokens 2 num) (\<lambda>title.
     res_bind (ok_or (list_get tokens 3) (Parse_error num ''table without page'')) (\<lambda>t.
     res_bind (token_number t num) (\<lambda>page.
       Inr \<lparr>td_id = ident, td_map_id = map_id, td_title = title, td_page = nat (f_as_u8 page),
         td_x_bins = ([], None), td_y_bins = ([], None), td_z_bins = [], td_xy_labels = [],
         td_grid_height = None, td_grid_orient = [], td_up_down_label = [],
         td_topic_help = None, td_misc = [], td_line = num\<rparr>)))))"

definition bins_pair :: "token list \<Rightarrow> nat \<Rightarrow> ini_error + (string \<times> string option)" where
  "bins_pair tokens num =
     res_bind (str_tok tokens 0 num) (\<lambda>s. Inr (s, map_option token_str (list_get tokens 1)))"

definition table_key :: "string \<Rightarrow> token list \<Rightarrow> nat \<Rightarrow> table_def \<Rightarrow> (ini_error + table_def) run" where
  "table_key key tokens num t =
     (if key = ''xBins'' then rr_bind (Ret (bins_pair tokens num)) (\<lambda>p. rr_return (t\<lparr>td_x_bins := p\<rparr>))
      else if key = ''yBins'' then rr_bind (Ret (bins_pair tokens num)) (\<lambda>p. rr_return (t\<lparr>td_y_bins := p\<rparr>))
      else if key = ''zBins'' then rr_bind (Ret (str_tok tokens 0 num)) (\<lambda>s. rr_return (t\<lparr>td_z_bins := s\<rparr>))
      else if key = ''xyLabels'' then rr_return (t\<lparr>td_xy_labels := strings tokens\<rparr>)
      else if key = ''gridHeight'' then
        rr_bind (number0 tokens num) (\<lambda>x. rr_return (t\<lparr>td_grid_height := Some x\<rparr>))
      else if key = ''gridOrient'' then
        rr_bind (Ret (res_mapM (\<lambda>tk. token_number tk num) tokens))
          (\<lambda>xs. rr_return (t\<lparr>td_grid_orient := xs\<rparr>))
      else if key = ''upDownLabel'' then rr_return (t\<lparr>td_up_down_label := strings tokens\<rparr>)
      else if key = ''topicHelp'' then
        rr_bind (Ret (str_tok tokens 0 num)) (\<lambda>s. rr_return (t\<lparr>td_topic_help := Some s\<rparr>))
      else rr_return (t\<lparr>td_misc := td_misc t @ [(key, joined tokens)]\<rparr>))"

definition table_editor_line ::
    "line \<Rightarrow> table_def option \<times> ini_def \<Rightarrow> (ini_error + table_def option \<times> ini_def) run" where
  "table_editor_line l s = on_kv l (snd s) (\<lambda>d. rr_return (fst s, d)) (\<lambda>key tokens d.
     let num = l_num l
     in if key = ''table'' then
          rr_bind (Ret (table_new tokens num)) (\<lambda>t. rr_return (Some t, finish_table (fst s) d))
        else case fst s of
            None \<Rightarrow> rr_return (None,
              warn num (''[TableEditor] key '' @ ticked key @ '' outside a table'') d)
          | Some t \<Rightarrow> rr_bind (table_key key tokens num t) (\<lambda>t1. rr_return (Some t1, d)))"

definition table_editor :: "line list \<Rightarrow> ini_def \<Rightarrow> (ini_error + ini_def) run" where
  "table_editor lines d =
     rr_bind (rr_fold table_editor_line lines (None, d)) (\<lambda>s. rr_return (finish_table (fst s) (snd s)))"

subsection \<open>[CurveEditor]\<close>

definition finish_curve :: "curve_def option \<Rightarrow> ini_def \<Rightarrow> ini_def" where
  "finish_curve current d =
     (case current of None \<Rightarrow> d | Some c \<Rightarrow> d\<lparr>i_curves := im_insert (cu_id c) c (i_curves d)\<rparr>)"

definition curve_new :: "token list \<Rightarrow> nat \<Rightarrow> ini_error + curve_def" where
  "curve_new tokens num =
     res_bind (str_tok tokens 0 num) (\<lambda>ident.
       Inr \<lparr>cu_id = ident, cu_title = or_empty (str_tok tokens 1 num), cu_column_label = [],
         cu_x_axis = [], cu_y_axis = [], cu_x_bins = ([], None), cu_y_bins = [], cu_misc = [],
         cu_line = num\<rparr>)"

definition axis_of :: "token list \<Rightarrow> nat \<Rightarrow> (ini_error + num_or_expr list) run" where
  "axis_of tokens num = rr_mapM (\<lambda>i. num_or_expr_tok tokens i num) [0 ..< length tokens]"

definition curve_key :: "string \<Rightarrow> token list \<Rightarrow> nat \<Rightarrow> curve_def \<Rightarrow> (ini_error + curve_def) run" where
  "curve_key key tokens num c =
     (if key = ''columnLabel'' then rr_return (c\<lparr>cu_column_label := strings tokens\<rparr>)
      else if key = ''xAxis'' then rr_bind (axis_of tokens num) (\<lambda>a. rr_return (c\<lparr>cu_x_axis := a\<rparr>))
      else if key = ''yAxis'' then rr_bind (axis_of tokens num) (\<lambda>a. rr_return (c\<lparr>cu_y_axis := a\<rparr>))
      else if key = ''xBins'' then rr_bind (Ret (bins_pair tokens num)) (\<lambda>p. rr_return (c\<lparr>cu_x_bins := p\<rparr>))
      else if key = ''yBins'' then
        rr_bind (Ret (str_tok tokens 0 num)) (\<lambda>s. rr_return (c\<lparr>cu_y_bins := cu_y_bins c @ [s]\<rparr>))
      else rr_return (c\<lparr>cu_misc := cu_misc c @ [(key, joined tokens)]\<rparr>))"

definition curve_editor_line ::
    "line \<Rightarrow> curve_def option \<times> ini_def \<Rightarrow> (ini_error + curve_def option \<times> ini_def) run" where
  "curve_editor_line l s = on_kv l (snd s) (\<lambda>d. rr_return (fst s, d)) (\<lambda>key tokens d.
     let num = l_num l
     in if key = ''curve'' then
          rr_bind (Ret (curve_new tokens num)) (\<lambda>c. rr_return (Some c, finish_curve (fst s) d))
        else case fst s of
            None \<Rightarrow> rr_return (None,
              warn num (''[CurveEditor] key '' @ ticked key @ '' outside a curve'') d)
          | Some c \<Rightarrow> rr_bind (curve_key key tokens num c) (\<lambda>c1. rr_return (Some c1, d)))"

definition curve_editor :: "line list \<Rightarrow> ini_def \<Rightarrow> (ini_error + ini_def) run" where
  "curve_editor lines d =
     rr_bind (rr_fold curve_editor_line lines (None, d)) (\<lambda>s. rr_return (finish_curve (fst s) (snd s)))"

end
