(* ===== verification/Constant_Lines.thy ===== *)
theory Constant_Lines
  imports Sections_Tuning
begin

text \<open>
  Round trip of a constant line: what \<open>[Constants]\<close> makes of a scalar written in the
  definition file's syntax.
\<close>

subsection \<open>Reading a constant line\<close>

lemma split_at_eq_key:
  "quote \<notin> set k \<Longrightarrow> CHR ''='' \<notin> set k \<Longrightarrow> split_at_eq False (k @ CHR ''='' # r) = Some (k, r)"
  by (induction k) auto

lemma trim_padded:
  assumes "s \<noteq> []" "solid (hd s)" "solid (last s)"
  shows "trim (CHR '' '' # s) = s" "trim (s @ '' '') = s"
proof -
  show "trim (CHR '' '' # s) = s"
    using trim_space [of s] solid_props [OF assms(2)] trim_solid [OF assms] by simp
  obtain u c where s: "s = u @ [c]" using assms(1) by (cases s rule: rev_cases) auto
  have "chars_of (s @ '' '') = chars_of s @ ['' '']"
    by (subst chars_of_append) (simp_all add: is_cont_def)
  moreover have "trim_start (s @ '' '') = s @ '' ''"
    by (rule trim_start_id) (use assms solid_props in auto)
  moreover have "trim_end s = s" using trim_end_id [of c u] solid_props [of c] assms(3) s by simp
  ultimately show "trim (s @ '' '') = s"
    using is_ws_space by (simp add: trim_def trim_end_def)
qed

lemma kv_rendered:
  assumes "name \<noteq> []" "solid (hd name)" "solid (last name)" "quote \<notin> set name" "CHR ''='' \<notin> set name"
    and ts: "\<And>t. t \<in> set ts \<Longrightarrow> token_ok t" "ts \<noteq> [Bare []]" "ts \<noteq> []"
    and ends: "render_tokens ts \<noteq> []" "solid (hd (render_tokens ts))" "solid (last (render_tokens ts))"
  shows "kv \<lparr>l_num = n, l_text = name @ '' = '' @ render_tokens ts\<rparr> d = (Some (name, ts), d)"
proof -
  have "split_at_eq False ((name @ '' '') @ CHR ''='' # CHR '' '' # render_tokens ts)
      = Some (name @ '' '', CHR '' '' # render_tokens ts)"
    using assms(4,5) by (intro split_at_eq_key) auto
  then show ?thesis
    using trim_padded [OF assms(1-3)] trim_padded [OF ends] tokenize_render [OF ts]
    by (simp add: kv_def split_kv_def)
qed

lemma str_join_snoc: "str_join sep (ps @ [p]) = (if ps = [] then p else str_join sep ps @ sep @ p)"
  by (induction sep ps rule: str_join.induct) (auto simp: str_join_Cons)

lemma render_ends:
  assumes "tok_text t \<noteq> []" "solid (hd (tok_text t))" "tok_text u \<noteq> []" "solid (last (tok_text u))"
  shows "render_tokens (t # ts @ [u]) \<noteq> []" "solid (hd (render_tokens (t # ts @ [u])))"
    "solid (last (render_tokens (t # ts @ [u])))"
proof -
  have "render_tokens (t # ts @ [u]) = tok_text t @ '', '' @ render_tokens (ts @ [u])"
    by (simp add: render_tokens_def str_join_Cons)
  with assms show "render_tokens (t # ts @ [u]) \<noteq> []" "solid (hd (render_tokens (t # ts @ [u])))"
    by simp_all
  have "render_tokens (t # ts @ [u]) = render_tokens (t # ts) @ '', '' @ tok_text u"
    using str_join_snoc [of "'', ''" "map tok_text (t # ts)" "tok_text u"]
    by (simp add: render_tokens_def)
  with assms show "solid (last (render_tokens (t # ts @ [u])))" by simp
qed

text \<open>
  A scalar constant as a definition file writes it: class, type, offset (or
  \<open>lastOffset\<close>), units, then scale, translate, low and high limit and digits.
\<close>

definition scalar_tokens :: "string \<Rightarrow> string \<Rightarrow> string \<Rightarrow> string list \<Rightarrow> token list" where
  "scalar_tokens ty off units nums =
     Bare ''scalar'' # Bare ty # Bare off # Str_tok units # map Bare nums"

definition word_ok :: "string \<Rightarrow> bool" where
  "word_ok s \<longleftrightarrow> s \<noteq> [] \<and> solid (hd s) \<and> solid (last s) \<and> set s \<inter> {quote, CHR ''{'', CHR ''}'', CHR '',''} = {}"

text \<open>
  A scalar constant written as \<open>name = scalar, type, offset, units, scale, translate,
  low, high, digits\<close> is filed under its name with exactly those fields, on the current
  page; \<open>lastOffset\<close> puts it where the previous constant of the page was.
\<close>

theorem scalar_line_parsed:
  assumes name: "word_ok name" "CHR ''='' \<notin> set name" "name \<noteq> ''page''"
    and words: "list_all word_ok [ty, off, sc, tr, lo, hi, dg]" "str_safe False units"
    and ty: "data_type_parse ty n = Inr dt"
    and off: "off = ''lastOffset'' \<and> offv = (case cs_last_offset s of None \<Rightarrow> 0 | Some k \<Rightarrow> k)
      \<or> off \<noteq> ''lastOffset'' \<and> parse_f64 off = Some x \<and> offv = f_u32 x"
    and nums: "map parse_f64 [sc, tr, lo, hi, dg] = map Some [scv, trv, lov, hiv, dgv]" "dg \<noteq> ''noMsqSave''"
    and page: "cs_page s = Some p"
  shows "constants_line \<lparr>l_num = n,
        l_text = name @ '' = '' @ render_tokens (scalar_tokens ty off units [sc, tr, lo, hi, dg])\<rparr> s
    = Ret (Inr \<lparr>cs_page = Some p, cs_last_offset = Some offv,
        cs_def = (cs_def s)\<lparr>i_constants := im_insert name
          \<lparr>cd_name = name, cd_class = Scalar, cd_ty = dt, cd_page = Some p, cd_offset = Some offv,
           cd_shape = None, cd_units = Some (Str_lit units), cd_scale = Num_lit scv,
           cd_translate = Num_lit trv, cd_lo = Some (Num_lit lov), cd_hi = Some (Num_lit hiv),
           cd_digits = Some (Num_lit dgv), cd_labels = [], cd_string_len = None,
           cd_no_msq_save = False, cd_line = n\<rparr> (i_constants (cs_def s))\<rparr>\<rparr>)"
proof -
  let ?ts = "scalar_tokens ty off units [sc, tr, lo, hi, dg]"
  let ?l = "\<lparr>l_num = n, l_text = name @ '' = '' @ render_tokens ?ts\<rparr>"
  have ts: "?ts = Bare ''scalar'' # [Bare ty, Bare off, Str_tok units, Bare sc, Bare tr, Bare lo, Bare hi] @ [Bare dg]"
    by (simp add: scalar_tokens_def)
  have kv: "kv ?l (cs_def s) = (Some (name, ?ts), cs_def s)"
  proof (rule kv_rendered)
    show "token_ok t" if "t \<in> set ?ts" for t
      using that words by (auto simp: scalar_tokens_def word_ok_def solid_def)
    show "render_tokens ?ts \<noteq> []" "solid (hd (render_tokens ?ts))" "solid (last (render_tokens ?ts))"
      unfolding ts using words by (intro render_ends; simp add: word_ok_def solid_def)+
  qed (use name in \<open>auto simp: word_ok_def scalar_tokens_def\<close>)
  have off1: "read_offset ?ts (Some (case cs_last_offset s of None \<Rightarrow> 0 | Some k \<Rightarrow> k)) n = Inr (Some offv)"
    using off by (auto simp: read_offset_def scalar_tokens_def token_number_def ok_or_def)
  have field: "num_or_expr_tok ?ts (4 + i) n = Ret (Inr (Num_lit ([scv, trv, lov, hiv, dgv] ! i)))" if "i < 5" for i
    using that nums
    by (auto simp: num_or_expr_tok_def scalar_tokens_def token_number_def ok_or_def less_Suc_eq numeral_eq_Suc)
  have tail: "constant_tail ?ts 3 n c = Ret (Inr (c\<lparr>cd_units := Some (Str_lit units), cd_scale := Num_lit scv,
      cd_translate := Num_lit trv, cd_lo := Some (Num_lit lov), cd_hi := Some (Num_lit hiv),
      cd_digits := Some (Num_lit dgv)\<rparr>))" if "cd_digits c = None" for c
    using field [of 0] field [of 1] field [of 2] field [of 3] that nums
    by (simp add: constant_tail_def opt_field_def scalar_tokens_def tail_flag_def token_number_def ok_or_def)
  have cls: "class_of_tokens ?ts = Some Scalar" "tok_or_empty ?ts (Suc 0) = ty"
    by (simp_all add: class_of_tokens_def scalar_tokens_def tok_or_empty_def)
  define l where "l = ?l"
  have l: "l_num l = n" "kv l (cs_def s) = (Some (name, ?ts), cs_def s)" using kv by (simp_all add: l_def)
  have "constants_line l s = Ret (Inr \<lparr>cs_page = Some p, cs_last_offset = Some offv,
      cs_def = (cs_def s)\<lparr>i_constants := im_insert name
        ((constant_base name Scalar dt (Some p) n)\<lparr>cd_offset := Some offv, cd_units := Some (Str_lit units),
          cd_scale := Num_lit scv, cd_translate := Num_lit trv, cd_lo := Some (Num_lit lov),
          cd_hi := Some (Num_lit hiv), cd_digits := Some (Num_lit dgv)\<rparr>) (i_constants (cs_def s))\<rparr>\<rparr>)"
    using name(3) page
    by (simp add: constants_line_def on_kv_def l cls constant_def_parse_def ty off1 tail Let_def
      constant_base_def cong: bind_congs)
  then show ?thesis unfolding l_def constant_base_def by simp
qed

theorem scalar_line_parsed_witness:
  "\<exists>s. constants_line \<lparr>l_num = 7, l_text = ''rpm'' @ '' = '' @
       render_tokens (scalar_tokens ''U16'' ''lastOffset'' ''r/min'' [''1'', ''0'', ''0'', ''9000'', ''2''])\<rparr>
     \<lparr>cs_page = Some 3, cs_last_offset = Some 12, cs_def = ini_default\<rparr> = Ret (Inr s)
   \<and> cs_last_offset s = Some 12
   \<and> map_option (\<lambda>c. (cd_ty c, cd_page c, cd_hi c)) (im_get (i_constants (cs_def s)) ''rpm'')
      = Some (U16, Some 3, Some (Num_lit (Fin 9000)))"
proof -
  have num: "parse_f64 ''0'' = Some (Fin 0)" "parse_f64 ''1'' = Some (Fin 1)"
    "parse_f64 ''2'' = Some (Fin 2)" "parse_f64 ''9000'' = Some (Fin 9000)"
    by (simp_all add: parse_f64_digits is_digit_def dec_val_def digit_val_def)
  show ?thesis
    by (subst scalar_line_parsed [where p = 3 and dt = U16 and offv = 12
          and scv = "Fin 1" and trv = "Fin 0" and lov = "Fin 0" and hiv = "Fin 9000" and dgv = "Fin 2"])
      (simp_all add: num word_ok_def solid_def data_type_parse_def ini_default_def im_get_def)
qed

end
