(* ===== verification/Sections_Ui.thy ===== *)
theory Sections_Ui
  imports Sections_Tuning
begin

text \<open>
  The remaining section parsers of \<open>ts-ini/src/sections.rs\<close>: [GaugeConfigurations],
  [FrontPage], [Datalog], [Menu], [UserDefined] and [ReferenceTables].
\<close>

subsection \<open>[GaugeConfigurations]\<close>

definition digits_field :: "token list \<Rightarrow> nat \<Rightarrow> nat \<Rightarrow> ini_error + nat" where
  "digits_field tokens i num =
     (case list_get tokens i of
        None \<Rightarrow> Inr 0
      | Some t \<Rightarrow> res_bind (token_number t num) (\<lambda>x. Inr (nat (f_as_u8 x))))"

definition gauge_new :: "string \<Rightarrow> string \<Rightarrow> token list \<Rightarrow> nat \<Rightarrow> (ini_error + gauge_def) run" where
  "gauge_new key category tokens num =
     rr_bind (Ret (str_tok tokens 0 num)) (\<lambda>channel.
     rr_bind (Ret (str_tok tokens 1 num)) (\<lambda>title.
     rr_bind (Ret (str_tok tokens 2 num)) (\<lambda>units.
     rr_bind (num_or_expr_tok tokens 3 num) (\<lambda>lo.
     rr_bind (num_or_expr_tok tokens 4 num) (\<lambda>hi.
     rr_bind (num_or_expr_tok tokens 5 num) (\<lambda>lo_danger.
     rr_bind (num_or_expr_tok tokens 6 num) (\<lambda>lo_warn.
     rr_bind (num_or_expr_tok tokens 7 num) (\<lambda>hi_warn.
     rr_bind (num_or_expr_tok tokens 8 num) (\<lambda>hi_danger.
     rr_bind (Ret (digits_field tokens 9 num)) (\<lambda>vd.
     rr_bind (Ret (digits_field tokens 10 num)) (\<lambda>ld.
       rr_return \<lparr>g_name = key, g_channel = channel, g_title = title, g_units = units, g_lo = lo,
         g_hi = hi, g_lo_danger = lo_danger, g_lo_warn = lo_warn, g_hi_warn = hi_warn,
         g_hi_danger = hi_danger, g_value_digits = vd, g_label_digits = ld,
         g_category = category\<rparr>)))))))))))"

definition gauge_line :: "line \<Rightarrow> string \<times> ini_def \<Rightarrow> (ini_error + string \<times> ini_def) run" where
  "gauge_line l s = on_kv l (snd s) (\<lambda>d. rr_return (fst s, d)) (\<lambda>key tokens d.
     let num = l_num l
     in if key = ''gaugeCategory'' then
          rr_bind (Ret (str_tok tokens 0 num)) (\<lambda>c. rr_return (c, d))
        else if length tokens < 9 then
          rr_return (fst s, warn num (''gauge '' @ ticked key @ '' has too few fields'') d)
        else
          rr_bind (gauge_new key (fst s) tokens num) (\<lambda>g.
            rr_return (fst s, d\<lparr>i_gauges := im_insert key g (i_gauges d)\<rparr>)))"

definition gauge_configurations :: "line list \<Rightarrow> ini_def \<Rightarrow> (ini_error + ini_def) run" where
  "gauge_configurations lines d =
     rr_bind (rr_fold gauge_line lines ([], d)) (\<lambda>s. rr_return (snd s))"

subsection \<open>[FrontPage]\<close>

definition add_indicator :: "indicator \<Rightarrow> ini_def \<Rightarrow> ini_def" where
  "add_indicator i d =
     d\<lparr>i_front_page := (i_front_page d)\<lparr>fp_indicators := fp_indicators (i_front_page d) @ [i]\<rparr>\<rparr>"

definition front_page_line ::
    "line \<Rightarrow> (nat \<times> string) list \<times> ini_def \<Rightarrow> (ini_error + (nat \<times> string) list \<times> ini_def) run" where
  "front_page_line l s = on_kv l (snd s) (\<lambda>d. rr_return (fst s, d)) (\<lambda>key tokens d.
     let num = l_num l
     in case Option.bind (strip_prefix ''gauge'' key) (parse_uint 32) of
          Some n \<Rightarrow> rr_bind (Ret (str_tok tokens 0 num)) (\<lambda>g. rr_return (fst s @ [(n, g)], d))
        | None \<Rightarrow>
            if key = ''indicator'' then
              (case list_get tokens 0 of
                 Some (Expr_tok src) \<Rightarrow>
                   rr_bind (parse_expr src num) (\<lambda>cond.
                   rr_bind (Ret (str_tok tokens 1 num)) (\<lambda>off.
                   rr_bind (Ret (str_tok tokens 2 num)) (\<lambda>on.
                   rr_bind (slice_from 3 tokens) (\<lambda>colors.
                     rr_return (fst s, add_indicator \<lparr>in_condition = cond, in_off_label = off,
                       in_on_label = on, in_colors = strings colors\<rparr> d)))))
               | _ \<Rightarrow> rr_return (fst s, warn num ''indicator without { condition }'' d))
            else rr_return (fst s, warn num (''unknown [FrontPage] key '' @ ticked key) d))"

definition front_page :: "line list \<Rightarrow> ini_def \<Rightarrow> (ini_error + ini_def) run" where
  "front_page lines d =
     rr_bind (rr_fold front_page_line lines ([], d)) (\<lambda>s.
       rr_return ((snd s)\<lparr>i_front_page :=
         (i_front_page (snd s))\<lparr>fp_gauges := map snd (sort_key fst (fst s))\<rparr>\<rparr>))"

subsection \<open>[Datalog]\<close>

text \<open>
  \<open>{other:?}\<close> of an optional string, for the text of a warning; the escapes are those of
  \<open>Debug for str\<close> on ASCII, other characters are printed as they are.
\<close>

definition hex_lower :: "nat \<Rightarrow> string" where
  "hex_lower n =
     (let d = (\<lambda>k. if k < 10 then char_of (48 + k) else char_of (87 + k :: nat))
      in if n < 16 then [d n] else [d (n div 16), d (n mod 16)])"

definition debug_char :: "char \<Rightarrow> string" where
  "debug_char c =
     (if c = quote \<or> c = bslash then [bslash, c]
      else if code c = 9 then [bslash, CHR ''t''] else if code c = 10 then [bslash, CHR ''n'']
      else if code c = 13 then [bslash, CHR ''r''] else if code c = 0 then [bslash, CHR ''0'']
      else if code c < 32 \<or> code c = 127 then [bslash] @ ''u{'' @ hex_lower (code c) @ ''}''
      else [c])"

definition debug_opt :: "string option \<Rightarrow> string" where
  "debug_opt s =
     (case s of None \<Rightarrow> ''None''
      | Some t \<Rightarrow> ''Some('' @ [quote] @ concat (map debug_char t) @ [quote] @ '')'')"

definition datalog_line :: "line \<Rightarrow> ini_def \<Rightarrow> (ini_error + ini_def) run" where
  "datalog_line l d0 = on_kv l d0 rr_return (\<lambda>key tokens d.
     let num = l_num l; ty_text = map_option token_str (list_get tokens 2)
     in if key \<noteq> ''entry'' then rr_return (warn num (''unknown [Datalog] key '' @ ticked key) d)
        else if ty_text \<noteq> Some ''int'' \<and> ty_text \<noteq> Some ''float'' then
          rr_return (warn num (''unknown datalog type '' @ debug_opt ty_text) d)
        else
          rr_bind (case list_get tokens 4 of
              Some (Expr_tok src) \<Rightarrow> rr_bind (parse_expr src num) (\<lambda>e. rr_return (Some e))
            | _ \<Rightarrow> rr_return None) (\<lambda>cond.
          rr_bind (Ret (str_tok tokens 0 num)) (\<lambda>channel.
          rr_bind (Ret (str_tok tokens 1 num)) (\<lambda>label.
          rr_bind (Ret (str_tok tokens 3 num)) (\<lambda>format.
            rr_return (d\<lparr>i_datalog := i_datalog d @ [\<lparr>dl_channel = channel, dl_label = label,
              dl_ty = (if ty_text = Some ''int'' then Dl_int else Dl_float), dl_format = format,
              dl_condition = cond\<rparr>]\<rparr>))))))"

definition datalog :: "line list \<Rightarrow> ini_def \<Rightarrow> (ini_error + ini_def) run" where
  "datalog = rr_fold datalog_line"

subsection \<open>[Menu]\<close>

text \<open>
  The \<open>{ expr }\<close> tokens of a line; an empty or unparsable one is no condition (the
  latter with a warning).
\<close>

fun conditions_go :: "nat \<Rightarrow> string list \<Rightarrow> ini_def \<Rightarrow> (ini_error + expr option list \<times> ini_def) run" where
  "conditions_go num [] d = rr_return ([], d)"
| "conditions_go num (src # srcs) d =
     (if src = [] then
        rr_bind (conditions_go num srcs d) (\<lambda>(cs, d1). rr_return (None # cs, d1))
      else case parse_expr src num of
          Crash c \<Rightarrow> Crash c
        | Ret (Inr e) \<Rightarrow> rr_bind (conditions_go num srcs d) (\<lambda>(cs, d1). rr_return (Some e # cs, d1))
        | Ret (Inl e) \<Rightarrow>
            rr_bind (conditions_go num srcs (warn num (''unparsable condition: '' @ show_error e) d))
              (\<lambda>(cs, d1). rr_return (None # cs, d1)))"

fun expr_sources :: "token list \<Rightarrow> string list" where
  "expr_sources [] = []"
| "expr_sources (Expr_tok s # ts) = s # expr_sources ts"
| "expr_sources (_ # ts) = expr_sources ts"

definition conditions :: "token list \<Rightarrow> nat \<Rightarrow> ini_def \<Rightarrow> (ini_error + expr option list \<times> ini_def) run" where
  "conditions tokens num d = conditions_go num (expr_sources tokens) d"

fun first_some :: "'a option list \<Rightarrow> 'a option" where
  "first_some [] = None"
| "first_some (Some x # xs) = Some x"
| "first_some (None # xs) = first_some xs"

definition first_condition :: "token list \<Rightarrow> nat \<Rightarrow> ini_def \<Rightarrow> (ini_error + expr option \<times> ini_def) run" where
  "first_condition tokens num d =
     rr_bind (conditions tokens num d) (\<lambda>(cs, d1). rr_return (first_some cs, d1))"

fun first_str :: "token list \<Rightarrow> string option" where
  "first_str [] = None"
| "first_str (Str_tok s # ts) = Some s"
| "first_str (_ # ts) = first_str ts"

definition menu_entry_of :: "token list \<Rightarrow> nat \<Rightarrow> ini_def \<Rightarrow> (ini_error + menu_entry option \<times> ini_def) run" where
  "menu_entry_of tokens num d =
     (case list_get tokens 0 of
        Some (Bare (c # s)) \<Rightarrow>
          (let (target, inline) = (case split_once quote (c # s) of
                 Some (t, rest) \<Rightarrow> (trim t, Some (trim_end_in {quote} rest))
               | None \<Rightarrow> (c # s, None));
               label = (case inline of Some x \<Rightarrow> x
                 | None \<Rightarrow> (case first_str tokens of Some x \<Rightarrow> x | None \<Rightarrow> target))
           in rr_bind (slice_from 1 tokens) (\<lambda>rest.
              rr_bind (first_condition rest num d) (\<lambda>(en, d1).
                rr_return (Some \<lparr>me_target = target, me_label = label, me_enable = en\<rparr>, d1))))
      | _ \<Rightarrow> rr_return (None, warn num ''menu entry without a target'' d))"

text \<open>Change the items of the last menu.\<close>

definition upd_last_items :: "(menu_item list \<Rightarrow> menu_item list) \<Rightarrow> ini_def \<Rightarrow> ini_def" where
  "upd_last_items f d =
     (let ms = i_menus d
      in if ms = [] then d
         else d\<lparr>i_menus := butlast ms @ [(last ms)\<lparr>mn_items := f (mn_items (last ms))\<rparr>]\<rparr>)"

definition last_items :: "ini_def \<Rightarrow> menu_item list" where
  "last_items d = (if i_menus d = [] then [] else mn_items (last (i_menus d)))"

definition menu_line :: "line \<Rightarrow> ini_def \<Rightarrow> (ini_error + ini_def) run" where
  "menu_line l d0 = on_kv l d0 rr_return (\<lambda>key tokens d.
     let num = l_num l
     in if key = ''menuDialog'' then rr_return d
        else if key = ''menu'' then
          rr_bind (Ret (str_tok tokens 0 num)) (\<lambda>title.
            rr_return (d\<lparr>i_menus := i_menus d @
              [\<lparr>mn_title = replace_char (CHR ''&'') [] title, mn_items = []\<rparr>]\<rparr>))
        else if key \<in> {''subMenu'', ''groupMenu'', ''groupChildMenu''} then
          (if i_menus d = [] then
             rr_return (warn num (ticked key @ '' before any '' @ ticked ''menu'') d)
           else if key = ''groupMenu'' then
             rr_bind (Ret (str_tok tokens 0 num)) (\<lambda>label.
               rr_return (upd_last_items (\<lambda>items. items @ [Group label []]) d))
           else if list_get tokens 0 = Some (Bare ''std_separator'') then
             rr_return (upd_last_items (\<lambda>items. items @ [Separator]) d)
           else
             rr_bind (menu_entry_of tokens num d) (\<lambda>(entry, d1).
               case entry of
                 None \<Rightarrow> rr_return d1
               | Some en \<Rightarrow>
                   if key = ''groupChildMenu'' then
                     (case rev (last_items d1) of
                        Group label children # r \<Rightarrow>
                          rr_return (upd_last_items (\<lambda>items. butlast items @ [Group label (children @ [en])]) d1)
                      | _ \<Rightarrow> rr_return (warn num
                          (ticked ''groupChildMenu'' @ '' outside a '' @ ticked ''groupMenu'') d1))
                   else rr_return (upd_last_items (\<lambda>items. items @ [Menu_entry en]) d1)))
        else rr_return (warn num (''unknown [Menu] key '' @ ticked key) d))"

definition menu :: "line list \<Rightarrow> ini_def \<Rightarrow> (ini_error + ini_def) run" where
  "menu = rr_fold menu_line"

subsection \<open>[UserDefined]\<close>

definition visual_keys :: "string set" where
  "visual_keys = {''commandButton'', ''gauge'', ''liveGraph'', ''graphLine'', ''indicator'',
     ''indicatorPanel'', ''text'', ''settingSelector'', ''settingOption'', ''radio'', ''help'', ''webHelp''}"

definition bare_at :: "token list \<Rightarrow> nat \<Rightarrow> string option" where
  "bare_at tokens i =
     (case list_get tokens i of Some (Bare (c # s)) \<Rightarrow> Some (c # s) | _ \<Rightarrow> None)"

text \<open>\<open>conds.next().flatten()\<close> for the first and the second condition.\<close>

definition nth_condition :: "'a option list \<Rightarrow> nat \<Rightarrow> 'a option" where
  "nth_condition cs i = (case list_get cs i of Some (Some e) \<Rightarrow> Some e | _ \<Rightarrow> None)"

definition dialog_update :: "(dialog_def \<Rightarrow> dialog_def) \<Rightarrow> ini_def \<Rightarrow> ini_def" where
  "dialog_update f d = d\<lparr>i_dialogs := im_update_last f (i_dialogs d)\<rparr>"

definition push_item :: "dialog_item \<Rightarrow> ini_def \<Rightarrow> ini_def" where
  "push_item item = dialog_update (\<lambda>dlg. dlg\<lparr>di_items := di_items dlg @ [item]\<rparr>)"

text \<open>A \<open>field\<close>, \<open>slider\<close> or \<open>displayOnlyField\<close> line; \<open>mk\<close> is the constructor.\<close>

definition field_line ::
    "(string \<Rightarrow> string option \<Rightarrow> expr option \<Rightarrow> expr option \<Rightarrow> dialog_item)
      \<Rightarrow> token list \<Rightarrow> nat \<Rightarrow> ini_def \<Rightarrow> (ini_error + ini_def) run" where
  "field_line mk tokens num d =
     rr_bind (slice_from 1 tokens) (\<lambda>rest.
     rr_bind (conditions rest num d) (\<lambda>(cs, d1).
       rr_return (push_item (mk (or_empty (str_tok tokens 0 num)) (bare_at tokens 1)
         (nth_condition cs 0) (nth_condition cs 1)) d1)))"

definition user_defined_line :: "line \<Rightarrow> ini_def \<Rightarrow> (ini_error + ini_def) run" where
  "user_defined_line l d0 = on_kv l d0 rr_return (\<lambda>key tokens d.
     let num = l_num l
     in if key = ''dialog'' then
          rr_bind (Ret (str_tok tokens 0 num)) (\<lambda>name.
            rr_return (d\<lparr>i_dialogs := im_insert name
              \<lparr>di_name = name, di_title = (case first_str tokens of None \<Rightarrow> [] | Some t \<Rightarrow> t),
               di_items = [], di_topic_help = None, di_line = num\<rparr> (i_dialogs d)\<rparr>))
        else if key \<in> {''field'', ''slider'', ''displayOnlyField'', ''panel'', ''topicHelp''} then
          (if i_dialogs d = [] then
             rr_return (warn num (ticked key @ '' before any '' @ ticked ''dialog'') d)
           else if key = ''field'' \<or> key = ''slider'' then field_line Field_item tokens num d
           else if key = ''displayOnlyField'' then field_line Display_only tokens num d
           else if key = ''panel'' then
             (case bare_at tokens 0 of
                Some target \<Rightarrow>
                  rr_bind (slice_from 1 tokens) (\<lambda>rest.
                  rr_bind (first_condition rest num d) (\<lambda>(en, d1).
                    rr_return (push_item (Panel target en) d1)))
              | None \<Rightarrow> rr_return (warn num ''panel without a target'' d))
           else rr_return (dialog_update (\<lambda>dlg. dlg\<lparr>di_topic_help := res_ok (str_tok tokens 0 num)\<rparr>) d))
        else if key \<in> visual_keys then rr_return d
        else rr_return (warn num (''unknown [UserDefined] key '' @ ticked key) d))"

definition user_defined :: "line list \<Rightarrow> ini_def \<Rightarrow> (ini_error + ini_def) run" where
  "user_defined = rr_fold user_defined_line"

subsection \<open>[ReferenceTables]\<close>

definition calib_number :: "token list \<Rightarrow> nat \<Rightarrow> ini_error + f64" where
  "calib_number tokens num =
     res_bind (ok_or (list_get tokens 0) (Parse_error num ''missing calibration value''))
       (\<lambda>t. token_number t num)"

record ref_state =
  rs_cal :: afr_calibration
  rs_active :: bool
  rs_def :: ini_def

definition calib_field ::
    "token list \<Rightarrow> nat \<Rightarrow> (f64 \<Rightarrow> afr_calibration \<Rightarrow> afr_calibration) \<Rightarrow> ref_state \<Rightarrow> (ini_error + ref_state) run" where
  "calib_field tokens num f s =
     rr_bind (Ret (calib_number tokens num)) (\<lambda>x. rr_return (s\<lparr>rs_cal := f x (rs_cal s)\<rparr>))"

definition reference_line :: "line \<Rightarrow> ref_state \<Rightarrow> (ini_error + ref_state) run" where
  "reference_line l s0 = on_kv l (rs_def s0) (\<lambda>d. rr_return (s0\<lparr>rs_def := d\<rparr>)) (\<lambda>key tokens d.
     let num = l_num l; s = s0\<lparr>rs_def := d\<rparr>
     in if key = ''tableWriteCommand'' then
          rr_bind (Ret (str_tok tokens 0 num)) (\<lambda>c.
            rr_return (s\<lparr>rs_cal := (rs_cal s)\<lparr>ac_write_command := c\<rparr>\<rparr>))
        else if key = ''tableBlockingFactor'' then
          calib_field tokens num (\<lambda>x c. c\<lparr>ac_blocking_factor := f_as_usize x\<rparr>) s
        else if key = ''referenceTable'' then
          rr_bind (Ret (str_tok tokens 0 num)) (\<lambda>c. rr_return (s\<lparr>rs_active := (c = ''std_ms2geno2'')\<rparr>))
        else if \<not> rs_active s then rr_return s
        else if key = ''tableIdentifier'' then
          calib_field tokens num (\<lambda>x c. c\<lparr>ac_identifier := nat (f_as_u16 x)\<rparr>) s
        else if key = ''adcCount'' then
          calib_field tokens num (\<lambda>x c. c\<lparr>ac_adc_count := f_as_usize x\<rparr>) s
        else if key = ''bytesPerAdc'' then
          calib_field tokens num (\<lambda>x c. c\<lparr>ac_bytes_per_adc := f_as_usize x\<rparr>) s
        else if key = ''scale'' then calib_field tokens num (\<lambda>x c. c\<lparr>ac_scale := x\<rparr>) s
        else if key = ''solution'' then
          (case list_get tokens 1 of
             Some (Expr_tok src) \<Rightarrow>
               if trim src = [] then rr_return s
               else
                 rr_bind (Ret (str_tok tokens 0 num)) (\<lambda>label.
                 rr_bind (parse_expr src num) (\<lambda>e.
                   rr_return (s\<lparr>rs_cal := (rs_cal s)\<lparr>ac_solutions := ac_solutions (rs_cal s) @ [(label, e)]\<rparr>\<rparr>)))
           | _ \<Rightarrow> rr_return s)
        else rr_return s)"

definition reference_tables :: "line list \<Rightarrow> ini_def \<Rightarrow> (ini_error + ini_def) run" where
  "reference_tables lines d =
     rr_bind (rr_fold reference_line lines \<lparr>rs_cal = afr_default, rs_active = False, rs_def = d\<rparr>)
       (\<lambda>s. rr_return (if 0 < ac_adc_count (rs_cal s)
         then (rs_def s)\<lparr>i_afr_calibration := Some (rs_cal s)\<rparr> else rs_def s))"

end
