(* ===== verification/Sections_Safe.thy ===== *)
theory Sections_Safe
  imports Sections_Ui
begin

text \<open>
  What every section parser guarantees: no panic on lines whose keys have a value, and
  the well-formedness of the definition it builds (\<open>ini_ok\<close>).
\<close>

subsection \<open>No panic when every key has a value\<close>

text \<open>\<open>valued l\<close>: the value side of the line is not blank (or the line is not \<open>key = ...\<close>).\<close>

definition valued :: "line \<Rightarrow> bool" where
  "valued l = (case split_kv (l_text l) of None \<Rightarrow> True
     | Some (key, rest) \<Rightarrow> tokenize rest (l_num l) \<noteq> Inr [])"

named_theorems section_returns \<open>section parsers that do not panic\<close>

lemma returns_if: "(c \<Longrightarrow> returns a) \<Longrightarrow> (\<not> c \<Longrightarrow> returns b) \<Longrightarrow> returns (if c then a else b)"
  by simp

lemma kv_tokens: "kv l d = (Some (key, tokens), d1) \<Longrightarrow> valued l \<Longrightarrow> tokens \<noteq> []"
  by (auto simp: kv_def valued_def split: option.splits sum.splits)

lemma returns_on_kv:
  assumes "\<And>d1. returns (skip d1)" "\<And>key tokens d1. (valued l \<Longrightarrow> tokens \<noteq> []) \<Longrightarrow> returns (k key tokens d1)"
  shows "returns (on_kv l d skip k)"
  using assms kv_tokens [of l d] by (auto simp: on_kv_def split: prod.splits option.splits)

lemma returns_parse_expr [section_returns]: "returns (parse_expr src num)"
  using parse_expr_returns [of src num] by (simp add: returns_iff)

lemma returns_index0: "tokens \<noteq> [] \<Longrightarrow> returns (index0 tokens)"
  by (auto simp: index0_def split: list.splits)

lemma returns_number0: "tokens \<noteq> [] \<Longrightarrow> returns (number0 tokens num)"
  by (auto simp: number0_def intro!: returns_intros returns_index0)

lemma returns_slice: "k \<le> length tokens \<Longrightarrow> returns (slice_from k tokens)"
  by (simp add: slice_from_def)

lemma str_tok_length: "str_tok tokens i num = Inr s \<Longrightarrow> i < length tokens"
  by (auto simp: str_tok_def list_get_def split: if_splits)

lemma returns_num_or_expr_tok [section_returns]: "returns (num_or_expr_tok tokens i num)"
  by (auto simp: num_or_expr_tok_def split: option.splits token.splits intro!: returns_intros section_returns)

lemma returns_opt_field [section_returns]: "returns (opt_field tokens i num)"
  by (auto simp: opt_field_def intro!: returns_intros section_returns)

lemma returns_tail_flag [section_returns]: "returns (tail_flag num t c)"
  by (auto simp: tail_flag_def split: token.splits intro!: returns_intros section_returns)

lemma returns_constant_tail [section_returns]: "returns (constant_tail tokens i num c)"
  unfolding constant_tail_def
  by (intro returns_intros returns_rr_fold section_returns)
    (auto split: option.splits token.splits intro!: returns_intros section_returns)

lemma shape_tok_length:
  "parse_shape (tok_or_empty tokens i) num = Inr s \<Longrightarrow> i < length tokens"
  by (auto simp: tok_or_empty_def list_get_def parse_shape_def split: if_splits option.splits)

lemma returns_constant_def_parse [section_returns]:
  "returns (constant_def_parse name cl tokens page off num)"
  unfolding constant_def_parse_def Let_def
  by (intro returns_intros)
    (auto split: constant_class.splits option.splits shape.splits
      intro!: returns_intros section_returns returns_slice dest!: shape_tok_length)

lemma returns_header_key:
  assumes "tokens \<noteq> []"
  shows "returns (header_key key tokens num d)"
  unfolding header_key_def header_str_def header_u32_def header_strs_def
  by (intro returns_intros returns_if returns_number0 returns_index0 assms)

lemma returns_constants_line: "valued l \<Longrightarrow> returns (constants_line l s)"
  unfolding constants_line_def Let_def
  by (intro returns_on_kv)
    (auto split: option.splits list.splits intro!: returns_intros section_returns returns_header_key)

lemma returns_table_key: "tokens \<noteq> [] \<Longrightarrow> returns (table_key key tokens num t)"
  by (auto simp: table_key_def intro!: returns_intros returns_number0)

lemma returns_curve_key [section_returns]: "returns (curve_key key tokens num c)"
  by (auto simp: curve_key_def axis_of_def intro!: returns_intros section_returns)

lemma returns_gauge_new [section_returns]: "returns (gauge_new key cat tokens num)"
  unfolding gauge_new_def by (intro returns_intros section_returns)

lemma returns_conditions_go [section_returns]: "returns (conditions_go num srcs d)"
proof (induction num srcs d rule: conditions_go.induct)
  case (2 num src srcs d)
  obtain r where "parse_expr src num = Ret r" using parse_expr_returns by blast
  with 2 show ?case by (cases r) (auto intro!: returns_intros)
qed simp

lemma returns_conditions [section_returns]:
  "returns (conditions tokens num d)" "returns (first_condition tokens num d)"
  by (auto simp: conditions_def first_condition_def intro!: returns_intros section_returns)

lemma returns_menu_entry_of [section_returns]: "returns (menu_entry_of tokens num d)"
  by (auto simp: menu_entry_of_def Let_def list_get_def split: option.splits token.splits list.splits prod.splits
      intro!: returns_intros section_returns returns_slice simp: Suc_le_eq)

lemma returns_field_line: "tokens \<noteq> [] \<Longrightarrow> returns (field_line mk tokens num d)"
  by (auto simp: field_line_def Suc_le_eq intro!: returns_intros section_returns returns_slice)

lemma returns_section_lines:
  assumes "valued l"
  shows "returns (megatune_line l d)" "returns (setting_groups_line l d)"
    "returns (pc_variables_line l d)" "returns (constants_extensions_line l d)"
    "returns (output_channels_line l d)" "returns (table_editor_line l ts)"
    "returns (curve_editor_line l cs)" "returns (gauge_line l gs)" "returns (front_page_line l fs)"
    "returns (datalog_line l d)" "returns (menu_line l d)" "returns (user_defined_line l d)"
    "returns (reference_line l rs)"
  subgoal using assms unfolding megatune_line_def Let_def
    by (intro returns_on_kv returns_if returns_intros)
  subgoal using assms unfolding setting_groups_line_def Let_def
    by (intro returns_on_kv returns_if returns_intros)
  subgoal using assms unfolding pc_variables_line_def Let_def
    by (intro returns_on_kv) (auto split: option.splits intro!: returns_intros section_returns)
  subgoal using assms unfolding constants_extensions_line_def Let_def
    by (intro returns_on_kv returns_if returns_intros returns_slice) (simp add: Suc_le_eq)
  subgoal using assms unfolding output_channels_line_def Let_def
    by (intro returns_on_kv) (auto split: option.splits token.splits intro!: returns_intros section_returns returns_number0)
  subgoal using assms unfolding table_editor_line_def Let_def
    by (intro returns_on_kv) (auto split: option.splits intro!: returns_intros section_returns returns_table_key)
  subgoal using assms unfolding curve_editor_line_def Let_def
    by (intro returns_on_kv) (auto split: option.splits intro!: returns_intros section_returns)
  subgoal using assms unfolding gauge_line_def Let_def
    by (intro returns_on_kv returns_if returns_intros section_returns)
  subgoal using assms unfolding front_page_line_def Let_def
    by (intro returns_on_kv) (auto split: option.splits token.splits intro!: returns_intros section_returns returns_slice dest!: str_tok_length)
  subgoal using assms unfolding datalog_line_def Let_def
    by (intro returns_on_kv returns_if returns_intros) (auto split: option.splits token.splits intro!: returns_intros section_returns)
  subgoal using assms unfolding menu_line_def Let_def
    by (intro returns_on_kv returns_if returns_intros section_returns) (auto split: prod.splits option.splits list.splits menu_item.splits intro!: returns_if)
  subgoal using assms unfolding user_defined_line_def Let_def
    by (intro returns_on_kv returns_if returns_intros section_returns)
     (auto split: option.splits list.splits intro!: returns_intros section_returns returns_field_line returns_slice simp: Suc_le_eq)
  subgoal using assms unfolding reference_line_def Let_def calib_field_def
    by (intro returns_on_kv returns_if returns_intros section_returns) (auto split: option.splits token.splits intro!: returns_if returns_intros section_returns)
  done

subsection \<open>Well-formed definitions\<close>

text \<open>A postcondition on the successful outcomes of a step.\<close>

definition gives :: "('a \<Rightarrow> bool) \<Rightarrow> ('e + 'a) run \<Rightarrow> bool" where
  "gives P m \<longleftrightarrow> (\<forall>x. m = Ret (Inr x) \<longrightarrow> P x)"

named_theorems gives_intros \<open>postconditions of steps\<close>

lemma gives_simps [simp]:
  "gives P (Ret (Inr x)) = P x" "gives P (Ret (Inl e)) = True" "gives P (Crash c) = True"
  by (simp_all add: gives_def)

lemma gives_bind [gives_intros]:
  "(\<And>x. m = Ret (Inr x) \<Longrightarrow> gives P (f x)) \<Longrightarrow> gives P (rr_bind m f)"
  by (auto simp: gives_def run_simps)

lemma gives_bind_post: "gives Q m \<Longrightarrow> (\<And>x. Q x \<Longrightarrow> gives P (f x)) \<Longrightarrow> gives P (rr_bind m f)"
  by (auto simp: gives_def run_simps)

lemma gives_if [gives_intros]:
  "(c \<Longrightarrow> gives P a) \<Longrightarrow> (\<not> c \<Longrightarrow> gives P b) \<Longrightarrow> gives P (if c then a else b)"
  by simp

lemma gives_return [gives_intros]: "P x \<Longrightarrow> gives P (rr_return x)"
  by simp

lemma gives_fail [gives_intros]: "gives P (rr_fail e)"
  by simp

lemma gives_fold:
  assumes "\<And>x s. P s \<Longrightarrow> gives P (f x s)" "P s"
  shows "gives P (rr_fold f xs s)"
  using assms(2) by (induction xs arbitrary: s) (auto intro: gives_bind_post assms(1))

lemma gives_mono: "gives Q m \<Longrightarrow> (\<And>x. Q x \<Longrightarrow> P x) \<Longrightarrow> gives P m"
  by (auto simp: gives_def)

definition imap_all :: "('k \<Rightarrow> 'v \<Rightarrow> bool) \<Rightarrow> ('k, 'v) imap \<Rightarrow> bool" where
  "imap_all P m \<longleftrightarrow> im_ok m \<and> (\<forall>(k, v)\<in>set m. P k v)"

lemma im_insert_set: "e \<in> set (im_insert k v m) \<Longrightarrow> e = (k, v) \<or> e \<in> set m"
  by (induction k v m rule: im_insert.induct) (auto split: if_splits)

lemma imap_all_Nil [simp]: "imap_all P []"
  by (simp add: imap_all_def)

lemma imap_all_insert [intro]: "imap_all P m \<Longrightarrow> P k v \<Longrightarrow> imap_all P (im_insert k v m)"
  by (auto simp: imap_all_def dest!: im_insert_set)

lemma imap_all_update_last [intro]:
  "imap_all P m \<Longrightarrow> (\<And>k v. P k v \<Longrightarrow> P k (f v)) \<Longrightarrow> imap_all P (im_update_last f m)"
  by (cases m rule: rev_cases) (auto simp: imap_all_def im_update_last_def im_ok_def)

lemma imap_all_get: "imap_all P m \<Longrightarrow> im_get m k = Some v \<Longrightarrow> P k v"
  by (auto simp: imap_all_def im_get_def dest: map_of_SomeD)

definition is_bits_shape :: "shape option \<Rightarrow> bool" where
  "is_bits_shape s = (case s of Some (Bits_shape lo hi) \<Rightarrow> True | _ \<Rightarrow> False)"

text \<open>Every class has the data its codec needs.\<close>

definition class_shape_ok :: "constant_def \<Rightarrow> bool" where
  "class_shape_ok c =
     (case cd_class c of
        Scalar \<Rightarrow> cd_shape c = None
      | Bits \<Rightarrow> is_bits_shape (cd_shape c)
      | Array_class \<Rightarrow> cd_shape c \<noteq> None
      | String_class \<Rightarrow> cd_string_len c \<noteq> None)"

definition constant_ok :: "string \<Rightarrow> constant_def \<Rightarrow> bool" where
  "constant_ok k c \<longleftrightarrow> cd_name c = k \<and> class_shape_ok c \<and>
     (\<exists>p off. cd_page c = Some p \<and> p < 256 \<and> cd_offset c = Some off \<and> off < 2 ^ 32)"

definition pc_variable_ok :: "string \<Rightarrow> constant_def \<Rightarrow> bool" where
  "pc_variable_ok k c \<longleftrightarrow> cd_name c = k \<and> class_shape_ok c \<and> cd_page c = None \<and> cd_offset c = None"

text \<open>
  The definition model is well formed: the maps have one entry per key, every entry is
  filed under its own name, an ECU constant has a page and an offset, a PC variable has
  neither, and each class has its shape.
\<close>

definition ini_ok :: "ini_def \<Rightarrow> bool" where
  "ini_ok d \<longleftrightarrow>
     imap_all constant_ok (i_constants d) \<and> imap_all pc_variable_ok (i_pc_variables d) \<and>
     imap_all (\<lambda>k ch. True) (i_output_channels d) \<and> imap_all (\<lambda>k t. td_id t = k) (i_tables d) \<and>
     imap_all (\<lambda>k c. cu_id c = k) (i_curves d) \<and> imap_all (\<lambda>k g. g_name g = k) (i_gauges d) \<and>
     imap_all (\<lambda>k g. di_name g = k) (i_dialogs d)"

lemma ini_ok_default: "ini_ok ini_default"
  by (simp add: ini_ok_def ini_default_def)

lemma ini_ok_warn [simp]: "ini_ok (warn num msg d) = ini_ok d"
  by (simp add: ini_ok_def warn_def)

lemma ini_ok_header [simp]: "ini_ok (upd_header f d) = ini_ok d"
  by (simp add: ini_ok_def upd_header_def)

lemma ini_ok_frame [simp]:
  "ini_ok (d\<lparr>i_mt_version := a\<rparr>) = ini_ok d" "ini_ok (d\<lparr>i_query_command := b\<rparr>) = ini_ok d"
  "ini_ok (d\<lparr>i_signature := b\<rparr>) = ini_ok d" "ini_ok (d\<lparr>i_version_info := b\<rparr>) = ini_ok d"
  "ini_ok (d\<lparr>i_setting_groups := sg\<rparr>) = ini_ok d"
  "ini_ok (d\<lparr>i_requires_power_cycle := ss\<rparr>) = ini_ok d" "ini_ok (d\<lparr>i_default_values := ps\<rparr>) = ini_ok d"
  "ini_ok (d\<lparr>i_controller_priority := ss\<rparr>) = ini_ok d" "ini_ok (d\<lparr>i_och_get_command := b\<rparr>) = ini_ok d"
  "ini_ok (d\<lparr>i_och_block_size := n\<rparr>) = ini_ok d" "ini_ok (d\<lparr>i_front_page := fp\<rparr>) = ini_ok d"
  "ini_ok (d\<lparr>i_datalog := dl\<rparr>) = ini_ok d" "ini_ok (d\<lparr>i_menus := ms\<rparr>) = ini_ok d"
  "ini_ok (d\<lparr>i_afr_calibration := afr\<rparr>) = ini_ok d"
  by (simp_all add: ini_ok_def)

lemma kv_ok: "kv l d = (r, d1) \<Longrightarrow> ini_ok d1 = ini_ok d"
  by (auto simp: kv_def split: option.splits sum.splits)

lemma gives_on_kv:
  assumes "ini_ok d" "\<And>d1. ini_ok d1 \<Longrightarrow> gives P (skip d1)"
    "\<And>key tokens d1. ini_ok d1 \<Longrightarrow> gives P (k key tokens d1)"
  shows "gives P (on_kv l d skip k)"
  using assms kv_ok [of l d] by (auto simp: on_kv_def split: prod.splits option.splits)

definition same_layout :: "constant_def \<Rightarrow> constant_def \<Rightarrow> bool" where
  "same_layout c c1 \<longleftrightarrow> cd_name c1 = cd_name c \<and> cd_class c1 = cd_class c \<and> cd_page c1 = cd_page c \<and>
     cd_offset c1 = cd_offset c \<and> cd_shape c1 = cd_shape c \<and> cd_string_len c1 = cd_string_len c"

lemma tail_flag_layout: "same_layout c c0 \<Longrightarrow> gives (same_layout c) (tail_flag num t c0)"
  by (auto simp: tail_flag_def same_layout_def split: token.splits intro!: gives_intros)

lemma constant_tail_layout: "gives (same_layout c) (constant_tail tokens i num c)"
  unfolding constant_tail_def
  by (intro gives_intros gives_fold tail_flag_layout) (auto simp: same_layout_def)

lemma f_u32_less: "f_u32 x < 2 ^ 32"
  using f_as_range [of 0 "2 ^ 32 - 1" x] by (simp add: f_u32_def nat_less_iff)

lemma f_as_u8_less: "nat (f_as_u8 x) < 256"
  using f_as_range [of 0 255 x] by (simp add: nat_less_iff)

text \<open>What a constant line yields.\<close>

definition def_for :: "string \<Rightarrow> constant_class \<Rightarrow> nat option \<Rightarrow> nat option \<Rightarrow> constant_def \<Rightarrow> bool" where
  "def_for name cl page ctx c \<longleftrightarrow> cd_name c = name \<and> cd_class c = cl \<and> cd_page c = page \<and> class_shape_ok c \<and>
     (case ctx of None \<Rightarrow> cd_offset c = None
      | Some last_off \<Rightarrow> \<exists>off. cd_offset c = Some off \<and> (off = last_off \<or> off < 2 ^ 32))"

lemma read_offset_range:
  "read_offset tokens ctx num = Inr off \<Longrightarrow>
     (case ctx of None \<Rightarrow> off = None
      | Some last_off \<Rightarrow> \<exists>n. off = Some n \<and> (n = last_off \<or> n < 2 ^ 32))"
  by (auto simp: read_offset_def run_simps f_u32_less [simplified] split: option.splits if_splits)

lemma constant_def_parse_for: "gives (def_for name cl page ctx) (constant_def_parse name cl tokens page ctx num)"
  unfolding constant_def_parse_def Let_def
proof (intro gives_bind, goal_cases)
  case (1 ty offset)
  have off: "case ctx of None \<Rightarrow> offset = None
      | Some last_off \<Rightarrow> \<exists>n. offset = Some n \<and> (n = last_off \<or> n < 2 ^ 32)"
    using 1 read_offset_range by blast
  show ?case
  proof (cases cl)
    case Scalar
    have "same_layout ((constant_base name cl ty page num)\<lparr>cd_offset := offset\<rparr>) c \<Longrightarrow>
      def_for name cl page ctx c" for c
      using off by (auto simp: def_for_def same_layout_def constant_base_def class_shape_ok_def Scalar split: option.splits)
    then show ?thesis using gives_mono [OF constant_tail_layout] by (simp add: Scalar)
  next
    case Bits
    then show ?thesis using off
      by (auto simp: def_for_def constant_base_def class_shape_ok_def is_bits_shape_def
          split: option.splits shape.splits intro!: gives_intros)
  next
    case Array_class
    have "same_layout ((constant_base name cl ty page num)\<lparr>cd_offset := offset, cd_shape := Some shape\<rparr>) c \<Longrightarrow>
      def_for name cl page ctx c" for c shape
      using off by (auto simp: def_for_def same_layout_def constant_base_def class_shape_ok_def Array_class split: option.splits)
    then show ?thesis using gives_mono [OF constant_tail_layout] by (simp add: Array_class gives_bind)
  next
    case String_class
    then show ?thesis using off
      by (auto simp: def_for_def constant_base_def class_shape_ok_def
          split: option.splits intro!: gives_intros)
  qed
qed

definition constants_ok :: "constants_state \<Rightarrow> bool" where
  "constants_ok s \<longleftrightarrow> ini_ok (cs_def s) \<and> (\<forall>p. cs_page s = Some p \<longrightarrow> p < 256) \<and>
     (\<forall>n. cs_last_offset s = Some n \<longrightarrow> n < 2 ^ 32)"

lemma header_key_ok: "ini_ok d \<Longrightarrow> gives ini_ok (header_key key tokens num d)"
  unfolding header_key_def header_str_def header_u32_def header_strs_def
  by (intro gives_intros) simp_all

lemma add_constant_ok:
  assumes "def_for name cl (Some p) (Some last_off) c" "p < 256" "last_off < 2 ^ 32" "ini_ok d"
  shows "ini_ok (d\<lparr>i_constants := im_insert name c (i_constants d)\<rparr>)" "\<exists>n. cd_offset c = Some n \<and> n < 2 ^ 32"
  using assms by (auto simp: ini_ok_def def_for_def constant_ok_def)

lemma add_pc_variable_ok:
  assumes "def_for name cl None None c" "ini_ok d"
  shows "ini_ok (d\<lparr>i_pc_variables := im_insert name c (i_pc_variables d)\<rparr>)"
  using assms by (auto simp: ini_ok_def def_for_def pc_variable_ok_def)

lemma constants_line_ok: "constants_ok s \<Longrightarrow> gives constants_ok (constants_line l s)"
  unfolding constants_line_def Let_def
proof (intro gives_on_kv gives_if, goal_cases)
  case (4 key tokens d1)
  show ?case
  proof (cases "class_of_tokens tokens")
    case None
    with 4 show ?thesis
      by (auto intro!: gives_bind_post [OF header_key_ok] simp: constants_ok_def)
  next
    case (Some cl)
    have *: "constants_ok \<lparr>cs_page = Some p, cs_last_offset = cd_offset c,
        cs_def = d1\<lparr>i_constants := im_insert key c (i_constants d1)\<rparr>\<rparr>"
      if "def_for key cl (Some p) (Some (case cs_last_offset s of None \<Rightarrow> 0 | Some n \<Rightarrow> n)) c" "cs_page s = Some p"
      for p c
      using add_constant_ok [OF that(1) _ _ 4(2)] that(2) 4(1)
      by (fastforce simp: constants_ok_def split: option.splits)
    show ?thesis using * 
      by (auto simp: Some split: option.splits intro!: gives_bind_post [OF constant_def_parse_for])
  qed
qed (auto simp: constants_ok_def f_as_u8_less split: list.splits intro!: gives_intros)

lemma add_channel_ok:
  "ini_ok d \<Longrightarrow> ini_ok (d\<lparr>i_output_channels := im_insert name ch (i_output_channels d)\<rparr>)"
  by (auto simp: ini_ok_def)

lemma section_lines_ok:
  assumes "ini_ok d"
  shows "gives ini_ok (megatune_line l d)" "gives ini_ok (setting_groups_line l d)"
    "gives ini_ok (pc_variables_line l d)" "gives ini_ok (constants_extensions_line l d)"
    "gives ini_ok (output_channels_line l d)" "gives ini_ok (datalog_line l d)"
  subgoal using assms unfolding megatune_line_def Let_def
    by (intro gives_on_kv gives_intros) simp_all
  subgoal using assms unfolding setting_groups_line_def Let_def
    by (intro gives_on_kv gives_intros) simp_all
  subgoal using assms unfolding pc_variables_line_def Let_def
    by (intro gives_on_kv)
      (auto split: option.splits intro!: gives_bind_post [OF constant_def_parse_for] intro: add_pc_variable_ok)
  subgoal using assms unfolding constants_extensions_line_def Let_def
    by (intro gives_on_kv gives_intros) simp_all
  subgoal using assms unfolding output_channels_line_def Let_def
    by (intro gives_on_kv) (auto split: option.splits token.splits intro!: gives_bind add_channel_ok)
  subgoal using assms unfolding datalog_line_def Let_def
    by (intro gives_on_kv gives_intros) simp_all
  done

definition table_state_ok :: "table_def option \<times> ini_def \<Rightarrow> bool" where
  "table_state_ok s \<longleftrightarrow> ini_ok (snd s)"

lemma finish_ok: "ini_ok d \<Longrightarrow> ini_ok (finish_table t d)" "ini_ok d \<Longrightarrow> ini_ok (finish_curve c d)"
  by (auto simp: finish_table_def finish_curve_def ini_ok_def split: option.splits)

lemma editor_lines_ok:
  assumes "ini_ok (snd s)"
  shows "gives (\<lambda>s. ini_ok (snd s)) (table_editor_line l s)"
  using assms unfolding table_editor_line_def Let_def
  by (intro gives_on_kv gives_intros) (auto split: option.splits intro!: gives_intros finish_ok)

lemma curve_line_ok:
  assumes "ini_ok (snd s)"
  shows "gives (\<lambda>s. ini_ok (snd s)) (curve_editor_line l s)"
  using assms unfolding curve_editor_line_def Let_def
  by (intro gives_on_kv gives_intros) (auto split: option.splits intro!: gives_intros finish_ok)

lemma gauge_new_name: "gives (\<lambda>g. g_name g = key) (gauge_new key cat tokens num)"
  unfolding gauge_new_def by (intro gives_intros) simp

lemma gauge_line_ok:
  assumes "ini_ok (snd s)"
  shows "gives (\<lambda>s. ini_ok (snd s)) (gauge_line l s)"
  using assms unfolding gauge_line_def Let_def
  by (intro gives_on_kv gives_if gives_bind_post [OF gauge_new_name])
    (auto intro!: gives_intros simp: ini_ok_def warn_def)

lemma front_page_line_ok:
  assumes "ini_ok (snd s)"
  shows "gives (\<lambda>s. ini_ok (snd s)) (front_page_line l s)"
  using assms unfolding front_page_line_def Let_def
  by (intro gives_on_kv) (auto split: option.splits token.splits intro!: gives_intros simp: add_indicator_def)

lemma conditions_go_ok: "ini_ok d \<Longrightarrow> gives (\<lambda>r. ini_ok (snd r)) (conditions_go num srcs d)"
proof (induction srcs arbitrary: d)
  case (Cons src srcs)
  obtain r where "parse_expr src num = Ret r" using parse_expr_returns by blast
  with Cons.prems show ?case
    by (cases r) (auto intro!: gives_bind_post [OF Cons.IH])
qed simp

lemma conditions_ok:
  "ini_ok d \<Longrightarrow> gives (\<lambda>r. ini_ok (snd r)) (conditions tokens num d)"
  "ini_ok d \<Longrightarrow> gives (\<lambda>r. ini_ok (snd r)) (first_condition tokens num d)"
  by (auto simp: conditions_def first_condition_def intro!: gives_bind_post [OF conditions_go_ok] conditions_go_ok)

lemma entry_condition_ok:
  "ini_ok d \<Longrightarrow> gives (\<lambda>r. ini_ok (snd r)) (rr_bind (slice_from k tokens) (\<lambda>rest.
     rr_bind (first_condition rest num d) (\<lambda>(en, d1). rr_return (Some (f en), d1))))"
  by (intro gives_bind gives_bind_post [OF conditions_ok(2)]) auto

lemma menu_entry_ok: "ini_ok d \<Longrightarrow> gives (\<lambda>r. ini_ok (snd r)) (menu_entry_of tokens num d)"
  by (auto simp: menu_entry_of_def Let_def split: option.splits token.splits list.splits prod.splits
      intro!: entry_condition_ok)

lemma upd_last_items_ok [simp]: "ini_ok (upd_last_items f d) = ini_ok d"
  by (simp add: upd_last_items_def Let_def)

lemma menu_push_ok:
  "ini_ok (snd r) \<Longrightarrow> gives ini_ok (case r of (entry, d1) \<Rightarrow>
     case entry of None \<Rightarrow> rr_return d1
     | Some en \<Rightarrow>
         if child then
           (case rev (last_items d1) of
              Group label children # r \<Rightarrow> rr_return (upd_last_items (f label children en) d1)
            | _ \<Rightarrow> rr_return (warn num msg d1))
         else rr_return (upd_last_items (g en) d1))"
  by (cases r) (auto split: option.splits list.splits menu_item.splits)

lemma menu_line_ok: "ini_ok d \<Longrightarrow> gives ini_ok (menu_line l d)"
  unfolding menu_line_def Let_def
  apply (intro gives_on_kv gives_if)
  apply simp_all
  subgoal by (intro gives_bind) simp
  subgoal by (intro gives_bind) simp
  subgoal by (rule gives_bind_post [OF menu_entry_ok]; (rule menu_push_ok)?; assumption)
  done

lemma dialog_update_ok: "ini_ok d \<Longrightarrow> (\<And>g. di_name (f g) = di_name g) \<Longrightarrow> ini_ok (dialog_update f d)"
  by (auto simp: dialog_update_def ini_ok_def)

lemma push_item_ok: "ini_ok d \<Longrightarrow> ini_ok (push_item i d)"
  by (simp add: push_item_def dialog_update_ok)

lemma field_line_ok: "ini_ok d \<Longrightarrow> gives ini_ok (field_line mk tokens num d)"
  unfolding field_line_def
  by (intro gives_bind gives_bind_post [OF conditions_ok(1)]) (auto intro!: push_item_ok)

lemma panel_line_ok:
  "ini_ok d \<Longrightarrow> gives ini_ok (rr_bind (slice_from k tokens) (\<lambda>rest.
     rr_bind (first_condition rest num d) (\<lambda>(en, d1). rr_return (push_item (Panel target en) d1))))"
  by (intro gives_bind gives_bind_post [OF conditions_ok(2)]) (auto intro!: push_item_ok)

lemma new_dialog_ok:
  "ini_ok d \<Longrightarrow> di_name g = name \<Longrightarrow> ini_ok (d\<lparr>i_dialogs := im_insert name g (i_dialogs d)\<rparr>)"
  by (auto simp: ini_ok_def)

lemma user_defined_line_ok: "ini_ok d \<Longrightarrow> gives ini_ok (user_defined_line l d)"
  unfolding user_defined_line_def Let_def
  by (intro gives_on_kv gives_if field_line_ok)
    (auto split: option.splits intro!: gives_bind panel_line_ok new_dialog_ok dialog_update_ok)

lemma reference_line_ok: "ini_ok (rs_def s) \<Longrightarrow> gives (\<lambda>s. ini_ok (rs_def s)) (reference_line l s)"
  unfolding reference_line_def Let_def calib_field_def
  by (intro gives_on_kv gives_if gives_intros) (auto split: option.splits token.splits intro!: gives_intros)

end
