(* ===== verification/Ini_Parse.thy ===== *)
theory Ini_Parse
  imports Sections_Safe Constant_Lines
begin

text \<open>
  The entry points of \<open>ts-ini/src/lib.rs\<close>: preprocessing, grouping of the surviving
  lines by section header and the dispatch to the section parsers.
\<close>

text \<open>A line \<open>[name]\<close> opens a group; a section named twice has two groups.\<close>

definition section_name :: "string \<Rightarrow> string option" where
  "section_name txt =
     map_option trim (Option.bind (strip_prefix ''['' (trim txt)) (strip_suffix '']''))"

fun group_lines :: "line list \<Rightarrow> (string \<times> line list) list \<Rightarrow> (string \<times> line list) list" where
  "group_lines [] groups = groups"
| "group_lines (l # ls) groups =
     (case section_name (l_text l) of
        Some name \<Rightarrow> group_lines ls (groups @ [(name, [])])
      | None \<Rightarrow>
          group_lines ls (if groups = [] then []
            else butlast groups @ [(fst (last groups), snd (last groups) @ [l])]))"

definition parse_group :: "string \<times> line list \<Rightarrow> ini_def \<Rightarrow> (ini_error + ini_def) run" where
  "parse_group g d =
     (let name = fst g; ls = snd g
      in if name = ''MegaTune'' then megatune ls d
         else if name = ''SettingGroups'' then setting_groups ls d
         else if name = ''PcVariables'' then pc_variables ls d
         else if name = ''Constants'' then constants ls d
         else if name = ''ConstantsExtensions'' then constants_extensions ls d
         else if name = ''OutputChannels'' then output_channels ls d
         else if name = ''TableEditor'' then table_editor ls d
         else if name = ''CurveEditor'' then curve_editor ls d
         else if name = ''GaugeConfigurations'' then gauge_configurations ls d
         else if name = ''FrontPage'' then front_page ls d
         else if name = ''Datalog'' then datalog ls d
         else if name = ''Menu'' then menu ls d
         else if name = ''UserDefined'' then user_defined ls d
         else if name = ''ReferenceTables'' then reference_tables ls d
         else rr_return d)"

definition parse_with_symbols :: "string \<Rightarrow> string set \<Rightarrow> (ini_error + ini_def) run" where
  "parse_with_symbols src symbols =
     (case preprocess src symbols of
        Inl e \<Rightarrow> rr_fail e
      | Inr (lines, symbols1) \<Rightarrow> rr_fold parse_group (group_lines lines []) ini_default)"

definition parse_ini :: "string \<Rightarrow> (ini_error + ini_def) run" where
  "parse_ini src = parse_with_symbols src {}"

subsection \<open>Whole files\<close>

lemma returns_sections:
  assumes "\<forall>l\<in>set ls. valued l"
  shows "returns (parse_group (name, ls) d)"
  using assms unfolding parse_group_def Let_def megatune_def setting_groups_def constants_def
    pc_variables_def constants_extensions_def output_channels_def table_editor_def
    curve_editor_def gauge_configurations_def front_page_def datalog_def menu_def
    user_defined_def reference_tables_def
  by (intro returns_if returns_intros returns_rr_fold returns_section_lines returns_constants_line)
    simp_all

lemma group_lines_subset:
  "\<forall>l\<in>set ls. valued l \<Longrightarrow> \<forall>g\<in>set groups. \<forall>l\<in>set (snd g). valued l \<Longrightarrow>
     \<forall>g\<in>set (group_lines ls groups). \<forall>l\<in>set (snd g). valued l"
proof (induction ls groups rule: group_lines.induct)
  case (2 l ls groups)
  show ?case
  proof (cases "section_name (l_text l)")
    case None
    have "\<forall>g\<in>set (if groups = [] then [] else butlast groups @ [(fst (last groups), snd (last groups) @ [l])]).
        \<forall>l\<in>set (snd g). valued l"
      using "2.prems" by (auto dest: in_set_butlastD last_in_set)
    with None "2.IH"(1) "2.prems" show ?thesis by simp
  next
    case (Some name)
    with "2.IH"(2) "2.prems" show ?thesis by (fastforce simp: section_name_def)
  qed
qed simp

lemma section_ok: "ini_ok d \<Longrightarrow> gives ini_ok (parse_group g d)"
  unfolding parse_group_def Let_def megatune_def setting_groups_def constants_def
    pc_variables_def constants_extensions_def output_channels_def table_editor_def
    curve_editor_def gauge_configurations_def front_page_def datalog_def menu_def
    user_defined_def reference_tables_def
  by (intro gives_if gives_fold section_lines_ok menu_line_ok user_defined_line_ok gives_return
      gives_bind_post [OF gives_fold [where P = constants_ok]]
      gives_bind_post [OF gives_fold [where P = "\<lambda>s. ini_ok (snd s)"]]
      gives_bind_post [OF gives_fold [where P = "\<lambda>s. ini_ok (rs_def s)"]]
      constants_line_ok editor_lines_ok curve_line_ok gauge_line_ok front_page_line_ok
      reference_line_ok)
    (auto simp: constants_ok_def intro!: finish_ok)

text \<open>
  C34. A definition file never panics the parser when every key has a value: each section
  parser returns, with a definition or an error that names the line.
\<close>

theorem parse_with_symbols_returns:
  assumes "\<And>lines syms. preprocess src symbols = Inr (lines, syms) \<Longrightarrow> list_all valued lines"
  shows "returns (parse_with_symbols src symbols)"
proof (cases "preprocess src symbols")
  case (Inr r)
  obtain ls syms where r: "r = (ls, syms)" by (cases r)
  have "\<forall>g\<in>set (group_lines ls []). \<forall>l\<in>set (snd g). valued l"
    using assms [of ls syms] Inr by (intro group_lines_subset) (auto simp: r list_all_iff)
  then show ?thesis
    unfolding parse_with_symbols_def using Inr r
    by (auto intro!: returns_rr_fold returns_sections)
qed (simp add: parse_with_symbols_def)


text \<open>
  C38. Whatever text is parsed successfully, the definition is well formed: names are
  unique, entries are filed under their own names, ECU constants have a page below 256 and
  a 32-bit offset, PC variables have neither, and every class has the shape its codec needs.
\<close>

theorem parse_result_ok:
  assumes "parse_with_symbols src symbols = Ret (Inr d)"
  shows "ini_ok d"
proof -
  have "gives ini_ok (parse_with_symbols src symbols)"
    unfolding parse_with_symbols_def
    by (auto split: sum.splits intro!: gives_fold section_ok ini_ok_default)
  with assms show ?thesis by (simp add: gives_def)
qed

subsection \<open>Sample files\<close>

definition sample_constants :: string where
  "sample_constants = ''[Constants]'' @ nl @ ''page = 1'' @ nl @ ''a = bits, U08, 3, [0:1]'' @ nl"

lemma sample_preprocessed:
  "preprocess sample_constants {} = Inr ([\<lparr>l_num = 1, l_text = ''[Constants]''\<rparr>,
      \<lparr>l_num = 2, l_text = ''page = 1''\<rparr>, \<lparr>l_num = 3, l_text = ''a = bits, U08, 3, [0:1]''\<rparr>], {})"
proof -
  let ?ts = "[''[Constants]'', ''page = 1'', ''a = bits, U08, 3, [0:1]'']"
  have "preprocess sample_constants {} = Inr (map (\<lambda>(i, t). \<lparr>l_num = i + 1, l_text = t\<rparr>) (enumerate 0 ?ts), {})"
    by (rule plain_source; code_simp)
  then show ?thesis by simp
qed

lemma sample_kv:
  "kv \<lparr>l_num = 2, l_text = ''page = 1''\<rparr> d = (Some (''page'', [Bare ''1'']), d)"
  "kv \<lparr>l_num = 3, l_text = ''a = bits, U08, 3, [0:1]''\<rparr> d
    = (Some (''a'', [Bare ''bits'', Bare ''U08'', Bare ''3'', Bare ''[0:1]'']), d)"
  by code_simp+

lemma sample_parsed: "\<exists>d. parse_with_symbols sample_constants {} = Ret (Inr d)"
proof -
  have sec: "section_name ''[Constants]'' = Some ''Constants''" "section_name ''page = 1'' = None"
     "section_name ''a = bits, U08, 3, [0:1]'' = None" by code_simp+
  have num: "token_number (Bare ''1'') 2 = Inr (Fin 1)" "token_number (Bare ''3'') 3 = Inr (Fin 3)"
    by (simp_all add: token_number_def parse_f64_digits is_digit_def dec_val_def digit_val_def ok_or_def)
  have rest: "parse_shape ''[0:1]'' 3 = Inr (Bits_shape 0 1)" "data_type_parse ''U08'' 3 = Inr U08"
    by code_simp+
  show ?thesis
    by (simp only: parse_with_symbols_def sample_preprocessed)
      (simp add: sec sample_kv num rest parse_group_def constants_def constants_line_def on_kv_def
        constant_def_parse_def class_of_tokens_def read_offset_def tok_or_empty_def slice_from_def
        strings_def Let_def cong: bind_congs)
qed

theorem parse_with_symbols_returns_witness: "returns (parse_with_symbols sample_constants {})"
proof (rule parse_with_symbols_returns)
  fix lines syms
  assume "preprocess sample_constants {} = Inr (lines, syms)"
  moreover have "valued \<lparr>l_num = 1, l_text = ''[Constants]''\<rparr>" by code_simp
  moreover have "valued \<lparr>l_num = 2, l_text = ''page = 1''\<rparr>"
    "valued \<lparr>l_num = 3, l_text = ''a = bits, U08, 3, [0:1]''\<rparr>"
    using sample_kv by (auto simp: valued_def kv_def split: option.splits sum.splits)
  ultimately show "list_all valued lines" by (auto simp: sample_preprocessed)
qed

theorem parse_result_ok_witness:
  "\<exists>d. parse_with_symbols sample_constants {} = Ret (Inr d) \<and> ini_ok d"
  using sample_parsed parse_result_ok [of sample_constants "{}"] by blast

text \<open>
  A key without a value can crash the parser: \<open>nPages =\<close> indexes the first token of
  an empty list.  (The same holds for every key read through \<open>tokens[0]\<close>.)
\<close>

theorem empty_value_panics: "parse_ini (''[Constants]'' @ nl @ ''nPages ='' @ nl) = Crash Panic"
proof -
  let ?src = "''[Constants]'' @ nl @ ''nPages ='' @ nl"
  have "preprocess ?src {} = Inr (map (\<lambda>(i, t). \<lparr>l_num = i + 1, l_text = t\<rparr>)
      (enumerate 0 [''[Constants]'', ''nPages ='']), {})"
    by (rule plain_source; code_simp)
  then have pre: "preprocess ?src {} = Inr ([\<lparr>l_num = 1, l_text = ''[Constants]''\<rparr>,
      \<lparr>l_num = 2, l_text = ''nPages =''\<rparr>], {})"
    by simp
  have "section_name ''[Constants]'' = Some ''Constants''" by code_simp
  moreover have "section_name ''nPages ='' = None" by code_simp
  moreover have "kv \<lparr>l_num = 2, l_text = ''nPages =''\<rparr> d = (Some (''nPages'', []), d)" for d
    by code_simp
  ultimately show ?thesis
    by (simp only: parse_ini_def parse_with_symbols_def pre)
     (simp add: parse_group_def constants_def constants_line_def on_kv_def
        class_of_tokens_def header_key_def number0_def index0_def cong: bind_congs)
qed


text \<open>
  Declaring a dialog again does not make it the current one: the insertion-ordered
  map keeps its old place, so the items that follow go to the last dialog of the map.
\<close>

theorem redeclared_dialog_misplaces_items:
  assumes "im_get (i_dialogs d) name \<noteq> None" "fst (last (i_dialogs d)) \<noteq> name"
    and dialog: "kv l1 d = (Some (''dialog'', [Bare name]), d)"
    and panel: "\<And>d1. kv l2 d1 = (Some (''panel'', [Bare (c # target)]), d1)"
  shows "\<exists>d1. user_defined [l1, l2] d = Ret (Inr d1) \<and>
    fst (last (i_dialogs d1)) \<noteq> name \<and>
    di_items (snd (last (i_dialogs d1))) = di_items (snd (last (i_dialogs d))) @ [Panel (c # target) None]"
proof -
  define g where "g = \<lparr>di_name = name, di_title = [], di_items = [], di_topic_help = None, di_line = l_num l1\<rparr>"
  have ne: "i_dialogs d \<noteq> []" using assms(1) by (auto simp: im_get_def)
  have "last (im_insert name g m) = last m \<and> im_insert name g m \<noteq> []"
    if "m \<noteq> []" "im_get m name \<noteq> None" "fst (last m) \<noteq> name" for m
    using that by (induction name g m rule: im_insert.induct) (auto simp: im_get_def split: if_splits)
  then have last: "last (im_insert name g (i_dialogs d)) = last (i_dialogs d)" "im_insert name g (i_dialogs d) \<noteq> []"
    using ne assms(1,2) by blast+
  have s1: "user_defined_line l1 d = Ret (Inr (d\<lparr>i_dialogs := im_insert name g (i_dialogs d)\<rparr>))"
    by (simp add: user_defined_line_def on_kv_def dialog str_tok_def g_def)
  show ?thesis
    using last assms(2)
    by (simp add: user_defined_def s1)
      (simp add: user_defined_line_def on_kv_def panel bare_at_def slice_from_def first_condition_def
        conditions_def push_item_def dialog_update_def im_update_last_def)
qed

theorem redeclared_dialog_witness:
  fixes g :: dialog_def
  defines "g \<equiv> \<lparr>di_name = ''a'', di_title = [], di_items = [], di_topic_help = None, di_line = 1\<rparr>"
  defines "d \<equiv> ini_default\<lparr>i_dialogs := [(''a'', g), (''b'', g\<lparr>di_name := ''b''\<rparr>)]\<rparr>"
  shows "\<exists>d1. user_defined [\<lparr>l_num = 3, l_text = ''dialog = a''\<rparr>, \<lparr>l_num = 4, l_text = ''panel = x''\<rparr>] d = Ret (Inr d1) \<and>
    fst (last (i_dialogs d1)) \<noteq> ''a'' \<and>
    di_items (snd (last (i_dialogs d1))) = di_items (snd (last (i_dialogs d))) @ [Panel ''x'' None]"
proof -
  have dialog: "kv \<lparr>l_num = 3, l_text = ''dialog = a''\<rparr> d = (Some (''dialog'', [Bare ''a'']), d)" for d
    by code_simp
  have panel: "kv \<lparr>l_num = 4, l_text = ''panel = x''\<rparr> d = (Some (''panel'', [Bare ''x'']), d)" for d
    by code_simp
  show ?thesis
    by (rule redeclared_dialog_misplaces_items [OF _ _ dialog panel])
      (simp_all add: d_def g_def im_get_def)
qed

end
