(* ===== verification/Raw_Fields.thy ===== *)
theory Raw_Fields
  imports Model
begin

text \<open>
  Raw fields of a page: \<open>read_raw\<close>, \<open>write_raw\<close> and \<open>type_range\<close> of
  \<open>tune-model/src/lib.rs\<close>, and the bit fields inside a raw value.

  Reading what was written gives it back (\<open>read_write\<close>), a write changes no other byte
  (\<open>write_raw_frame\<close>), and storing a bit field keeps every other bit (\<open>field_put_bit\<close>).
\<close>

named_theorems raw_simps \<open>raw fields\<close>

text \<open>The number in \<open>size\<close> little-endian bytes.\<close>

definition decode_raw :: "data_type \<Rightarrow> bytes \<Rightarrow> int option" where
  "decode_raw ty b =
     (case b of
        [b0] \<Rightarrow> Some (if ty_signed ty then sint b0 else uint b0)
      | [b0, b1] \<Rightarrow> Some (if ty_signed ty then sint (from_le16 b0 b1) else uint (from_le16 b0 b1))
      | [b0, b1, b2, b3] \<Rightarrow>
          Some (if ty_signed ty then sint (from_le32 b0 b1 b2 b3) else uint (from_le32 b0 b1 b2 b3))
      | _ \<Rightarrow> None)"

definition read_raw :: "bytes \<Rightarrow> nat \<Rightarrow> data_type \<Rightarrow> int option" where
  "read_raw bytes offset ty = Option.bind (slice_get bytes offset (offset + ty_size ty)) (decode_raw ty)"

definition raw_bytes :: "data_type \<Rightarrow> int \<Rightarrow> bytes" where
  "raw_bytes ty raw =
     (if ty_size ty = 1 then [word_of_int raw]
      else if ty_size ty = 2 then to_le16 (word_of_int raw)
      else to_le32 (word_of_int raw))"

text \<open>The buffer is a \<open>&mut [u8]\<close>: the new buffer, and whether the field was inside it.\<close>

definition write_raw :: "bytes \<Rightarrow> nat \<Rightarrow> data_type \<Rightarrow> int \<Rightarrow> bool \<times> bytes" where
  "write_raw bytes offset ty raw =
     (if offset + ty_size ty \<le> length bytes then (True, splice bytes offset (raw_bytes ty raw))
      else (False, bytes))"

fun type_range :: "data_type \<Rightarrow> int \<times> int" where
  "type_range U08 = (0, 255)"
| "type_range Ascii = (0, 255)"
| "type_range S08 = (- 128, 127)"
| "type_range U16 = (0, 65535)"
| "type_range S16 = (- 32768, 32767)"
| "type_range U32 = (0, 4294967295)"
| "type_range S32 = (- 2147483648, 2147483647)"

definition in_range :: "data_type \<Rightarrow> int \<Rightarrow> bool" where
  "in_range ty raw \<longleftrightarrow> fst (type_range ty) \<le> raw \<and> raw \<le> snd (type_range ty)"

lemma length_raw_bytes [simp]: "length (raw_bytes ty raw) = ty_size ty"
  by (cases ty) (simp_all add: raw_bytes_def)

lemma ty_size_pos [simp]: "0 < ty_size ty" "ty_size ty \<le> 4"
  by (cases ty; simp)+

lemma write_raw_length [simp]: "length (snd (write_raw bytes offset ty raw)) = length bytes"
  by (simp add: write_raw_def)

lemma write_raw_frame:
  "k < offset \<or> offset + ty_size ty \<le> k \<Longrightarrow> k < length bytes \<Longrightarrow>
     snd (write_raw bytes offset ty raw) ! k = bytes ! k"
  by (auto simp: write_raw_def nth_splice)

lemma sint_of_int_range:
  "- (2 ^ (LENGTH('a) - 1)) \<le> k \<Longrightarrow> k < 2 ^ (LENGTH('a) - 1) \<Longrightarrow> sint (word_of_int k :: 'a::len word) = k"
  by (simp add: sint_sbintrunc' signed_take_bit_int_eq_self)

lemma uint_of_int_range: "0 \<le> k \<Longrightarrow> k < 2 ^ LENGTH('a) \<Longrightarrow> uint (word_of_int k :: 'a::len word) = k"
  by (simp add: uint_word_of_int)

lemma decode_raw_bytes: "in_range ty raw \<Longrightarrow> decode_raw ty (raw_bytes ty raw) = Some raw"
  by (cases ty)
    (simp_all add: decode_raw_def raw_bytes_def to_le16_def to_le32_def in_range_def
      sint_of_int_range uint_of_int_range)

lemma bytes_by_size:
  assumes "length b = ty_size ty"
  obtains b0 where "b = [b0]" "ty_size ty = 1"
    | b0 b1 where "b = [b0, b1]" "ty_size ty = 2"
    | b0 b1 b2 b3 where "b = [b0, b1, b2, b3]" "ty_size ty = 4"
  using assms by (cases ty) (auto simp: length_Suc_conv numeral_eq_Suc)

lemma decode_raw_total: "length b = ty_size ty \<Longrightarrow> \<exists>raw. decode_raw ty b = Some raw"
  by (rule bytes_by_size) (auto simp: decode_raw_def)

lemma decode_raw_inverse:
  assumes "decode_raw ty b = Some raw" "length b = ty_size ty"
  shows "raw_bytes ty raw = b"
  using assms(2)
  by (rule bytes_by_size)
    (use assms(1) in \<open>auto simp: decode_raw_def raw_bytes_def to_le16_from to_le32_from\<close>)

lemma decode_raw_range:
  assumes "decode_raw ty b = Some raw" "length b = ty_size ty"
  shows "in_range ty raw"
proof -
  have u8: "0 \<le> uint (x :: u8) \<and> uint x \<le> 255 \<and> - 128 \<le> sint x \<and> sint x \<le> 127" for x
    using uint_lt2p [of x] sint_ge [of x] sint_lt [of x] by auto
  have u16: "0 \<le> uint (x :: u16) \<and> uint x \<le> 65535 \<and> - 32768 \<le> sint x \<and> sint x \<le> 32767" for x
    using uint_lt2p [of x] sint_ge [of x] sint_lt [of x] by auto
  have u32: "0 \<le> uint (x :: u32) \<and> uint x \<le> 4294967295 \<and> - 2147483648 \<le> sint x \<and> sint x \<le> 2147483647" for x
    using uint_lt2p [of x] sint_ge [of x] sint_lt [of x] by auto
  show ?thesis using assms(2)
    by (rule bytes_by_size)
      (use assms(1) u8 u16 u32 in \<open>cases ty; auto simp: decode_raw_def in_range_def\<close>)+
qed

lemma read_raw_eq: "read_raw bytes offset ty = Some raw \<longleftrightarrow>
    (\<exists>b. slice_get bytes offset (offset + ty_size ty) = Some b \<and> length b = ty_size ty \<and> decode_raw ty b = Some raw)"
proof -
  have "length b = ty_size ty" if "slice_get bytes offset (offset + ty_size ty) = Some b" for b
    using slice_get_length [OF that] by simp
  then show ?thesis by (auto simp: read_raw_def Option.bind_eq_Some_conv)
qed

lemma read_raw_in_page: "read_raw bytes offset ty = Some raw \<Longrightarrow> offset + ty_size ty \<le> length bytes"
  by (auto simp: read_raw_eq slice_get_def split: if_splits)

lemma read_raw_Some: "offset + ty_size ty \<le> length bytes \<Longrightarrow> \<exists>raw. read_raw bytes offset ty = Some raw"
  using decode_raw_total by (fastforce simp: read_raw_eq slice_get_def)

lemma read_raw_range: "read_raw bytes offset ty = Some raw \<Longrightarrow> in_range ty raw"
  by (auto simp: read_raw_eq dest: decode_raw_range)

text \<open>A raw value in the range of its type is read back exactly.\<close>

lemma read_write:
  assumes "offset + ty_size ty \<le> length bytes" "in_range ty raw"
  shows "read_raw (snd (write_raw bytes offset ty raw)) offset ty = Some raw"
  using assms decode_raw_bytes slice_splice_same [of offset "raw_bytes ty raw" bytes]
  by (simp add: write_raw_def read_raw_def)

lemma read_write_other:
  assumes "offset2 + ty_size ty2 \<le> offset \<or> offset + ty_size ty \<le> offset2"
  shows "read_raw (snd (write_raw bytes offset ty raw)) offset2 ty2 = read_raw bytes offset2 ty2"
  using assms slice_splice_other [of offset "raw_bytes ty raw" bytes "offset2 + ty_size ty2" offset2]
  by (auto simp: write_raw_def read_raw_def)

text \<open>Writing back what was read changes nothing.\<close>

lemma write_read:
  assumes "read_raw bytes offset ty = Some raw"
  shows "write_raw bytes offset ty raw = (True, bytes)"
proof -
  have l: "offset + ty_size ty \<le> length bytes" using assms by (rule read_raw_in_page)
  with assms have "raw_bytes ty raw = take (ty_size ty) (drop offset bytes)"
    by (auto simp: read_raw_eq slice_get_def intro!: decode_raw_inverse)
  with l splice_same [OF l] show ?thesis by (simp add: write_raw_def)
qed

subsection \<open>Bit fields\<close>

text \<open>
  \<open>hi - lo + 1\<close> is \<open>u8\<close> arithmetic and shift counts use their low six bits, as in a release
  build.
\<close>

definition field_width :: "nat \<Rightarrow> nat \<Rightarrow> nat" where
  "field_width lo hi = (hi + 257 - lo) mod 256"

definition field_mask :: "nat \<Rightarrow> nat \<Rightarrow> u64" where
  "field_mask lo hi = push_bit (field_width lo hi mod 64) 1 - 1"

definition field_get :: "u64 \<Rightarrow> nat \<Rightarrow> nat \<Rightarrow> u64" where
  "field_get raw lo hi = drop_bit (lo mod 64) raw AND field_mask lo hi"

definition field_put :: "u64 \<Rightarrow> nat \<Rightarrow> nat \<Rightarrow> u64 \<Rightarrow> u64" where
  "field_put current lo hi v =
     (let mask = push_bit (lo mod 64) (field_mask lo hi)
      in (current AND NOT mask) OR (push_bit (lo mod 64) v AND mask))"

text \<open>A field inside the 64-bit word: \<open>lo \<le> hi < 64\<close> and not the whole word.\<close>

definition field_ok :: "nat \<Rightarrow> nat \<Rightarrow> bool" where
  "field_ok lo hi \<longleftrightarrow> lo \<le> hi \<and> hi < 64 \<and> hi - lo < 63"

lemma field_width_ok: "field_ok lo hi \<Longrightarrow> field_width lo hi = hi - lo + 1 \<and> hi - lo + 1 < 64"
proof -
  assume ok: "field_ok lo hi"
  then have "hi + 257 - lo = (hi - lo + 1) + 256" by (auto simp: field_ok_def)
  then have "field_width lo hi = (hi - lo + 1) mod 256" by (simp only: field_width_def mod_add_self2)
  with ok show ?thesis by (simp add: field_ok_def)
qed

lemma bit_field_mask: "field_ok lo hi \<Longrightarrow> bit (field_mask lo hi) n \<longleftrightarrow> n \<le> hi - lo"
proof -
  assume ok: "field_ok lo hi"
  then have "field_mask lo hi = mask (hi - lo + 1)"
    using field_width_ok [OF ok] by (simp add: field_mask_def mask_eq_exp_minus_1 push_bit_eq_mult)
  with ok show ?thesis by (auto simp: bit_mask_iff field_ok_def)
qed

lemma field_put_bit:
  assumes "field_ok lo hi" "n < 64"
  shows "bit (field_put current lo hi v) n = (if lo \<le> n \<and> n \<le> hi then bit v (n - lo) else bit current n)"
proof -
  have "lo mod 64 = lo" using assms(1) by (simp add: field_ok_def)
  moreover have "n - lo \<le> hi - lo \<longleftrightarrow> n \<le> hi" if "lo \<le> n"
    using that assms(1) by (auto simp: field_ok_def)
  ultimately show ?thesis
    using assms bit_field_mask [OF assms(1), of "n - lo"]
    by (auto simp: field_put_def Let_def bit_simps)
qed

lemma field_get_bit:
  assumes "field_ok lo hi"
  shows "bit (field_get raw lo hi) n \<longleftrightarrow> n \<le> hi - lo \<and> bit raw (lo + n)"
proof -
  have "lo mod 64 = lo" using assms(1) by (simp add: field_ok_def)
  then show ?thesis
    using bit_field_mask [OF assms(1)] by (auto simp: field_get_def bit_simps)
qed

lemma field_put_bit_at:
  "field_ok lo hi \<Longrightarrow> k \<le> hi - lo \<Longrightarrow> bit (field_put current lo hi v) (lo + k) = bit v k"
proof -
  assume *: "field_ok lo hi" "k \<le> hi - lo"
  then have "lo + k < 64" "lo + k \<le> hi" by (auto simp: field_ok_def)
  with * field_put_bit [of lo hi "lo + k"] show ?thesis by simp
qed

lemma field_get_put:
  assumes "field_ok lo hi" "\<forall>n. hi - lo < n \<longrightarrow> \<not> bit v n"
  shows "field_get (field_put current lo hi v) lo hi = v"
proof (rule bit_word_eqI)
  fix n
  have "bit v n \<Longrightarrow> n \<le> hi - lo" using assms(2) not_le by blast
  then show "bit (field_get (field_put current lo hi v) lo hi) n = bit v n"
    using assms(1) by (auto simp: field_get_bit field_put_bit_at)
qed

lemma field_put_get_other:
  assumes "field_ok lo hi" "field_ok lo2 hi2" "hi < lo2 \<or> hi2 < lo"
  shows "field_get (field_put current lo hi v) lo2 hi2 = field_get current lo2 hi2"
proof (rule bit_word_eqI)
  fix n
  have "bit (field_put current lo hi v) (lo2 + n) = bit current (lo2 + n)" if "n \<le> hi2 - lo2"
  proof -
    have "lo2 + n < 64" "\<not> (lo \<le> lo2 + n \<and> lo2 + n \<le> hi)"
      using that assms(2,3) by (auto simp: field_ok_def)
    then show ?thesis by (subst field_put_bit [OF assms(1)]) auto
  qed
  then show "bit (field_get (field_put current lo hi v) lo2 hi2) n = bit (field_get current lo2 hi2) n"
    using assms(2) by (auto simp: field_get_bit)
qed

lemma field_put_same:
  assumes "field_ok lo hi"
  shows "field_put raw lo hi (field_get raw lo hi) = raw"
proof (rule bit_word_eqI)
  fix n assume "n < LENGTH(64)"
  with assms show "bit (field_put raw lo hi (field_get raw lo hi)) n = bit raw n"
    by (auto simp: field_get_bit field_put_bit field_ok_def)
qed

subsection \<open>Bit fields of a typed raw value\<close>

lemma bit_uint_of_int: "n < LENGTH('a) \<Longrightarrow> bit (uint (word_of_int raw :: 'a::len word)) n = bit raw n"
  by (simp add: bit_simps)

lemma bit_sint_of_int:
  assumes "n < LENGTH('a)"
  shows "bit (sint (word_of_int raw :: 'a::len word)) n = bit raw n"
proof -
  have "min (LENGTH('a) - Suc 0) n = n" using assms by simp
  then show ?thesis using assms by (simp add: bit_simps)
qed

lemma decode_raw_bits:
  "decode_raw ty (raw_bytes ty raw) = Some r \<Longrightarrow> n < 8 * ty_size ty \<Longrightarrow> bit r n = bit raw n"
  by (cases ty) (auto simp: decode_raw_def raw_bytes_def to_le16_def to_le32_def
      bit_uint_of_int bit_sint_of_int)

lemma read_written_bits:
  assumes "offset + ty_size ty \<le> length bytes"
  shows "\<exists>r. read_raw (snd (write_raw bytes offset ty raw)) offset ty = Some r \<and>
    (\<forall>n < 8 * ty_size ty. bit r n = bit raw n)"
proof -
  obtain r where r: "decode_raw ty (raw_bytes ty raw) = Some r"
    using decode_raw_total [of "raw_bytes ty raw" ty] by auto
  then have "read_raw (snd (write_raw bytes offset ty raw)) offset ty = Some r"
    using assms slice_splice_same [of offset "raw_bytes ty raw" bytes]
    by (simp add: write_raw_def read_raw_def)
  with decode_raw_bits [OF r] show ?thesis by blast
qed

lemma field_get_cong:
  assumes "field_ok lo hi" "\<forall>n \<le> hi. bit x n = bit y n"
  shows "field_get x lo hi = field_get y lo hi"
proof (rule bit_word_eqI)
  fix n
  have "bit x (lo + n) = bit y (lo + n)" if "n \<le> hi - lo"
    using assms that by (auto simp: field_ok_def)
  then show "bit (field_get x lo hi) n = bit (field_get y lo hi) n"
    using assms(1) by (auto simp: field_get_bit)
qed

definition sized_field :: "data_type \<Rightarrow> nat \<Rightarrow> nat \<Rightarrow> bool" where
  "sized_field ty lo hi \<longleftrightarrow> lo \<le> hi \<and> hi < 8 * ty_size ty"

lemma sized_field_ok: "sized_field ty lo hi \<Longrightarrow> field_ok lo hi"
  by (cases ty) (auto simp: sized_field_def field_ok_def)

lemma field_after_write:
  assumes "offset + ty_size ty \<le> length bytes" "sized_field ty lo2 hi2"
    "read_raw (snd (write_raw bytes offset ty (sint w))) offset ty = Some r"
  shows "field_get (word_of_int r) lo2 hi2 = field_get w lo2 hi2"
proof (rule field_get_cong [OF sized_field_ok [OF assms(2)]], intro allI impI)
  fix n assume "n \<le> hi2"
  then have n: "n < 8 * ty_size ty" using assms(2) by (simp add: sized_field_def)
  then have "n < 64" "min 63 n = n" by (cases ty; auto)+
  moreover have "bit r n = bit (sint w) n"
    using read_written_bits [OF assms(1), of "sint w"] assms(3) n by auto
  ultimately show "bit (word_of_int r :: u64) n = bit w n" by (simp add: bit_simps)
qed

end
