(* ===== verification/Tune_State.thy ===== *)
theory Tune_State
  imports Raw_Fields
begin

text \<open>
  The tune of \<open>tune-model/src/lib.rs\<close>: the three copies of every page, the PC variables,
  and the decoding of constants.

  A constant's scale may be an expression over other constants, and the tune itself is
  the symbol source of those expressions: \<open>value\<close>, \<open>constant_value\<close>, \<open>array_element\<close>
  and \<open>eval\<close> call each other.  \<open>tune_syms t d\<close> is the tune as a symbol source with room
  for \<open>d\<close> nested lookups on the stack; with no room left a lookup overflows it.
\<close>

datatype tune_error =
    Unknown_constant string
  | Unknown_table string
  | Not_editable string string
  | Index_range string nat nat
  | Tune_eval string string

record page_state =
  pg_data :: bytes
  pg_ecu :: bytes
  pg_burned :: bytes

record tune =
  tn_def :: ini_def
  tn_pages :: "page_state list"
  tn_pc :: "string \<rightharpoonup> f64"
  tn_loaded :: bool

subsection \<open>\<open>Option\<close> results of code that can crash\<close>

fun ro_bind :: "'a option run \<Rightarrow> ('a \<Rightarrow> 'b option run) \<Rightarrow> 'b option run" where
  "ro_bind (Ret (Some x)) f = f x"
| "ro_bind (Ret None) f = Ret None"
| "ro_bind (Crash c) f = Crash c"

abbreviation ro_return :: "'a \<Rightarrow> 'a option run" where "ro_return x \<equiv> Ret (Some x)"

fun ro_mapM :: "('a \<Rightarrow> 'b option run) \<Rightarrow> 'a list \<Rightarrow> 'b list option run" where
  "ro_mapM f [] = ro_return []"
| "ro_mapM f (x # xs) = ro_bind (f x) (\<lambda>y. ro_bind (ro_mapM f xs) (\<lambda>ys. ro_return (y # ys)))"

text \<open>\<open>result.ok()\<close>\<close>

definition run_ok :: "('e + 'a) run \<Rightarrow> 'a option run" where "run_ok m = run_map res_ok m"

lemma returns_ro_bind [returns_intros]:
  "returns m \<Longrightarrow> (\<And>x. m = Ret (Some x) \<Longrightarrow> returns (f x)) \<Longrightarrow> returns (ro_bind m f)"
  by (cases "(m, f)" rule: ro_bind.cases) auto

lemma returns_run_ok [returns_intros]: "returns m \<Longrightarrow> returns (run_ok m)"
  by (simp add: run_ok_def)

lemma returns_ro_mapM [returns_intros]:
  "(\<And>x. x \<in> set xs \<Longrightarrow> returns (f x)) \<Longrightarrow> returns (ro_mapM f xs)"
  by (induction xs) (auto intro!: returns_intros)

lemma ro_bind_Some [run_simps]:
  "ro_bind m f = Ret (Some y) \<longleftrightarrow> (\<exists>x. m = Ret (Some x) \<and> f x = Ret (Some y))"
  by (cases "(m, f)" rule: ro_bind.cases) auto

lemma run_ok_Some [run_simps]: "run_ok m = Ret (Some y) \<longleftrightarrow> m = Ret (Inr y)"
  by (cases m) (auto simp: run_ok_def elim: res_ok.elims)

lemma ro_mapM_Some: "ro_mapM f xs = Ret (Some ys) \<longleftrightarrow> list_all2 (\<lambda>x y. f x = Ret (Some y)) xs ys"
proof (induction xs arbitrary: ys)
  case Nil
  then show ?case by (auto simp: list_all2_Nil)
next
  case (Cons x xs)
  then show ?case by (fastforce simp: run_simps list_all2_Cons1)
qed

subsection \<open>Construction and page copies\<close>

definition page_new :: "nat \<Rightarrow> page_state" where
  "page_new n = \<lparr>pg_data = replicate n 0, pg_ecu = replicate n 0, pg_burned = replicate n 0\<rparr>"

definition tune_new :: "ini_def \<Rightarrow> tune" where
  "tune_new def =
     \<lparr>tn_def = def, tn_pages = map page_new (h_page_sizes (i_header def)),
      tn_pc = map_of (rev (List.map_filter
        (\<lambda>(name, txt). map_option (Pair name) (parse_f64 (trim txt))) (i_default_values def))),
      tn_loaded = False\<rparr>"

definition set_loaded :: "bool \<Rightarrow> tune \<Rightarrow> tune" where
  "set_loaded b t = t\<lparr>tn_loaded := b\<rparr>"

definition tune_page_count :: "tune \<Rightarrow> nat" where "tune_page_count t = length (tn_pages t)"

definition tune_page :: "tune \<Rightarrow> nat \<Rightarrow> page_state option" where
  "tune_page t i = list_get (tn_pages t) i"

text \<open>\<open>if let Some(page) = self.pages.get_mut(i)\<close>\<close>

definition upd_page :: "nat \<Rightarrow> (page_state \<Rightarrow> page_state) \<Rightarrow> tune \<Rightarrow> tune" where
  "upd_page i f t =
     (if i < length (tn_pages t) then t\<lparr>tn_pages := (tn_pages t)[i := f (tn_pages t ! i)]\<rparr> else t)"

definition load_page :: "nat \<Rightarrow> bytes \<Rightarrow> tune \<Rightarrow> tune" where
  "load_page i bs = upd_page i (\<lambda>p. \<lparr>pg_data = bs, pg_ecu = bs, pg_burned = bs\<rparr>)"

definition sync_shadows :: "tune \<Rightarrow> tune" where
  "sync_shadows t =
     t\<lparr>tn_pages := map (\<lambda>p. p\<lparr>pg_ecu := pg_data p, pg_burned := pg_data p\<rparr>) (tn_pages t)\<rparr>"

definition resync_ecu :: "nat \<Rightarrow> bytes \<Rightarrow> tune \<Rightarrow> tune" where
  "resync_ecu i bs = upd_page i (\<lambda>p. p\<lparr>pg_ecu := bs\<rparr>)"

definition mark_burned :: "nat \<Rightarrow> tune \<Rightarrow> tune" where
  "mark_burned i = upd_page i (\<lambda>p. p\<lparr>pg_burned := pg_ecu p\<rparr>)"

text \<open>
  \<open>mark_sent\<close> copies a span of the local data to the ECU shadow; slicing a shadow that is
  too short panics.
\<close>

definition mark_sent :: "nat \<Rightarrow> nat \<Rightarrow> nat \<Rightarrow> tune \<Rightarrow> tune run" where
  "mark_sent i offset n t =
     (case tune_page t i of
        None \<Rightarrow> Ret t
      | Some p \<Rightarrow>
          if offset + n \<le> length (pg_data p) then
            (if offset + n \<le> length (pg_ecu p)
             then Ret (upd_page i (\<lambda>p. p\<lparr>pg_ecu := splice (pg_ecu p) offset (take n (drop offset (pg_data p)))\<rparr>) t)
             else Crash Panic)
          else Ret t)"

subsection \<open>Lookups\<close>

definition tune_constant :: "tune \<Rightarrow> string \<Rightarrow> constant_def option" where
  "tune_constant t name = im_get (i_constants (tn_def t)) name"

text \<open>(page index, absolute offset): pages are numbered from 1.\<close>

definition location :: "constant_def \<Rightarrow> (nat \<times> nat) option" where
  "location c =
     (case cd_page c of
        None \<Rightarrow> None
      | Some p \<Rightarrow> (case cd_offset c of
          None \<Rightarrow> None
        | Some off \<Rightarrow> if p = 0 then None else Some (p - 1, off)))"

definition tune_bytes :: "tune \<Rightarrow> constant_def \<Rightarrow> (bytes \<times> nat) option" where
  "tune_bytes t c =
     (case location c of
        None \<Rightarrow> None
      | Some (i, off) \<Rightarrow> map_option (\<lambda>p. (pg_data p, off)) (tune_page t i))"

definition scaled :: "symbols \<Rightarrow> constant_def \<Rightarrow> int \<Rightarrow> f64 option run" where
  "scaled S c raw =
     ro_bind (run_ok (num_or_expr_eval S (cd_scale c))) (\<lambda>scale.
     ro_bind (run_ok (num_or_expr_eval S (cd_translate c))) (\<lambda>translate.
       ro_return (fmul (fadd (f_of_int raw) translate) scale)))"

text \<open>The decoded value of a constant; \<open>S\<close> evaluates its scale and translate.\<close>

definition constant_value :: "tune \<Rightarrow> symbols \<Rightarrow> string \<Rightarrow> val option run" where
  "constant_value t S name =
     (case tune_constant t name of
        None \<Rightarrow> Ret None
      | Some c \<Rightarrow>
          (case tune_bytes t c of
             None \<Rightarrow> Ret None
           | Some (bs, off) \<Rightarrow>
               (case cd_class c of
                  Scalar \<Rightarrow>
                    ro_bind (Ret (read_raw bs off (cd_ty c))) (\<lambda>raw.
                    ro_bind (scaled S c raw) (\<lambda>x. ro_return (VNum x)))
                | Bits \<Rightarrow>
                    ro_bind (Ret (read_raw bs off (cd_ty c))) (\<lambda>raw.
                      case cd_shape c of
                        Some (Bits_shape lo hi) \<Rightarrow>
                          ro_return (VNum (f_of_int (uint (field_get (word_of_int raw) lo hi))))
                      | _ \<Rightarrow> Ret None)
                | String_class \<Rightarrow>
                    ro_bind (Ret (cd_string_len c)) (\<lambda>n.
                    ro_bind (Ret (slice_get bs off (off + n))) (\<lambda>txt.
                      ro_return (VStr (trim_end_in {CHR 0x00, CHR '' ''} (utf8_lossy txt)))))
                | Array_class \<Rightarrow> Ret None)))"

definition array_element :: "tune \<Rightarrow> symbols \<Rightarrow> string \<Rightarrow> nat \<Rightarrow> f64 option run" where
  "array_element t S name index =
     (case tune_constant t name of
        None \<Rightarrow> Ret None
      | Some c \<Rightarrow>
          if cd_class c \<noteq> Array_class then Ret None
          else
            ro_bind (Ret (cd_shape c)) (\<lambda>shape.
              if element_count shape \<le> index then Ret None
              else
                ro_bind (Ret (tune_bytes t c)) (\<lambda>(bs, off).
                ro_bind (Ret (read_raw bs (off + index * ty_size (cd_ty c)) (cd_ty c))) (\<lambda>raw.
                  scaled S c raw))))"

definition array_values :: "tune \<Rightarrow> symbols \<Rightarrow> string \<Rightarrow> f64 list option run" where
  "array_values t S name =
     ro_bind (Ret (tune_constant t name)) (\<lambda>c.
     ro_bind (Ret (cd_shape c)) (\<lambda>shape.
       ro_mapM (array_element t S name) [0 ..< element_count shape]))"

subsection \<open>The tune as a symbol source\<close>

definition tune_value :: "tune \<Rightarrow> symbols \<Rightarrow> string \<Rightarrow> val option run" where
  "tune_value t S name =
     (if im_get (i_constants (tn_def t)) name \<noteq> None then constant_value t S name
      else case tn_pc t name of
          Some v \<Rightarrow> ro_return (VNum v)
        | None \<Rightarrow>
            (case im_get (i_output_channels (tn_def t)) name of
               Some (Ch_derived e units) \<Rightarrow> run_ok (eval S e)
             | _ \<Rightarrow> Ret None))"

text \<open>The labels of a bits constant or PC variable, shared with the telemetry.\<close>

definition label_at :: "ini_def \<Rightarrow> string \<Rightarrow> nat \<Rightarrow> string option" where
  "label_at def l index =
     (case (case im_get (i_constants def) l of
              Some c \<Rightarrow> Some c | None \<Rightarrow> im_get (i_pc_variables def) l) of
        None \<Rightarrow> None
      | Some c \<Rightarrow> list_get (cd_labels c) index)"

primrec tune_syms :: "tune \<Rightarrow> nat \<Rightarrow> symbols" where
  "tune_syms t 0 =
     \<lparr>sy_value = (\<lambda>n. Crash StackOverflow), sy_bit_string = (\<lambda>l i. Ret (label_at (tn_def t) l i)),
      sy_array_value = (\<lambda>n i. Crash StackOverflow)\<rparr>"
| "tune_syms t (Suc d) =
     \<lparr>sy_value = tune_value t (tune_syms t d),
      sy_bit_string = (\<lambda>l i. Ret (label_at (tn_def t) l i)),
      sy_array_value = array_element t (tune_syms t d)\<rparr>"

definition requires_power_cycle :: "tune \<Rightarrow> string \<Rightarrow> bool" where
  "requires_power_cycle t name \<longleftrightarrow> name \<in> set (i_requires_power_cycle (tn_def t))"

text \<open>Raw values, for exact comparisons.\<close>

definition constant_raw :: "tune \<Rightarrow> string \<Rightarrow> int option" where
  "constant_raw t name =
     (case tune_constant t name of
        None \<Rightarrow> None
      | Some c \<Rightarrow>
          (case tune_bytes t c of
             None \<Rightarrow> None
           | Some (bs, off) \<Rightarrow>
               (case read_raw bs off (cd_ty c) of
                  None \<Rightarrow> None
                | Some raw \<Rightarrow>
                    if cd_class c = Bits then
                      (case cd_shape c of
                         Some (Bits_shape lo hi) \<Rightarrow>
                           Some ((raw div 2 ^ (lo mod 64)) AND sint (field_mask lo hi))
                       | _ \<Rightarrow> None)
                    else Some raw)))"

definition array_raw :: "tune \<Rightarrow> string \<Rightarrow> nat \<Rightarrow> int option" where
  "array_raw t name index =
     (case tune_constant t name of
        None \<Rightarrow> None
      | Some c \<Rightarrow>
          (case tune_bytes t c of
             None \<Rightarrow> None
           | Some (bs, off) \<Rightarrow> read_raw bs (off + index * ty_size (cd_ty c)) (cd_ty c)))"

end
