(* ===== verification/Tune_Edit.thy ===== *)
theory Tune_Edit
  imports Tune_State
begin

text \<open>
  Edits of the tune (\<open>tune-model/src/lib.rs\<close>): encoding of user values, the setters of
  constants, array elements, PC variables and tables, and the table view.

  \<open>d\<close> is the room for nested lookups that the caller's stack leaves (see
  \<open>Tune_State\<close>).  An edit that fails leaves the tune as it was; the page vector is
  indexed (\<open>self.pages[i]\<close>), which panics for a page the header does not declare.
\<close>

subsection \<open>Encoding\<close>

fun eval_as :: "string \<Rightarrow> (ini_error + 'a) run \<Rightarrow> (tune_error + 'a) run" where
  "eval_as label (Ret (Inr x)) = rr_return x"
| "eval_as label (Ret (Inl e)) = rr_fail (Tune_eval label (show_error e))"
| "eval_as label (Crash k) = Crash k"

text \<open>A limit that is present and evaluates applies; otherwise the value stays.\<close>

definition limit_by :: "(f64 \<Rightarrow> f64 \<Rightarrow> f64) \<Rightarrow> symbols \<Rightarrow> num_or_expr option \<Rightarrow> f64 \<Rightarrow> (tune_error + f64) run" where
  "limit_by f S limit user =
     (case limit of
        None \<Rightarrow> rr_return user
      | Some e \<Rightarrow>
          (case num_or_expr_eval S e of
             Ret (Inr x) \<Rightarrow> rr_return (f user x)
           | Ret (Inl err) \<Rightarrow> rr_return user
           | Crash k \<Rightarrow> Crash k))"

definition limit_both :: "symbols \<Rightarrow> constant_def \<Rightarrow> f64 \<Rightarrow> (tune_error + f64) run" where
  "limit_both S c user =
     rr_bind (limit_by fmax S (cd_lo c) user) (\<lambda>u. limit_by fmin S (cd_hi c) u)"

definition clamp_int :: "int \<times> int \<Rightarrow> int \<Rightarrow> int" where
  "clamp_int r x = max (fst r) (min (snd r) x)"

definition to_raw :: "data_type \<Rightarrow> f64 \<Rightarrow> f64 \<Rightarrow> f64 \<Rightarrow> int" where
  "to_raw ty scale translate user =
     clamp_int (type_range ty) (f_as_i64 (fround (fsub (fdiv user scale) translate)))"

definition encode_impl :: "tune \<Rightarrow> nat \<Rightarrow> constant_def \<Rightarrow> f64 \<Rightarrow> bool \<Rightarrow> (tune_error + int) run" where
  "encode_impl t d c user clamp =
     (let S = tune_syms t d
      in rr_bind (eval_as (cd_name c @ '' scale'') (num_or_expr_eval S (cd_scale c))) (\<lambda>scale.
         rr_bind (eval_as (cd_name c @ '' translate'') (num_or_expr_eval S (cd_translate c))) (\<lambda>translate.
           if feq scale fzero then rr_fail (Tune_eval (cd_name c) ''scale is zero'')
           else
             rr_bind (if clamp then limit_both S c user else rr_return user) (\<lambda>u.
               rr_return (to_raw (cd_ty c) scale translate u)))))"

definition encode_user :: "tune \<Rightarrow> nat \<Rightarrow> string \<Rightarrow> f64 \<Rightarrow> (tune_error + int) run" where
  "encode_user t d name user =
     (case tune_constant t name of
        None \<Rightarrow> rr_fail (Unknown_constant name)
      | Some c \<Rightarrow> encode_impl t d c user False)"

subsection \<open>PC variables\<close>

definition pc_value :: "tune \<Rightarrow> string \<Rightarrow> f64 option" where
  "pc_value t name =
     (if im_get (i_pc_variables (tn_def t)) name = None then None
      else Some (case tn_pc t name of None \<Rightarrow> fzero | Some v \<Rightarrow> v))"

definition set_pc_value :: "nat \<Rightarrow> string \<Rightarrow> f64 \<Rightarrow> tune \<Rightarrow> (tune_error + tune) run" where
  "set_pc_value d name user t =
     (case im_get (i_pc_variables (tn_def t)) name of
        None \<Rightarrow> rr_fail (Unknown_constant name)
      | Some c \<Rightarrow>
          rr_bind (limit_both (tune_syms t d) c user) (\<lambda>u.
            rr_return (t\<lparr>tn_pc := (tn_pc t)(name \<mapsto> u)\<rparr>)))"

definition adopt_pc_values :: "tune \<Rightarrow> tune \<Rightarrow> tune" where
  "adopt_pc_values previous t = t\<lparr>tn_pc := tn_pc previous\<rparr>"

subsection \<open>Constants and array elements\<close>

text \<open>\<open>write_raw(&mut self.pages[i].data, ...)\<close>: the result is ignored by the callers.\<close>

definition write_page :: "nat \<Rightarrow> nat \<Rightarrow> data_type \<Rightarrow> int \<Rightarrow> tune \<Rightarrow> (tune_error + tune) run" where
  "write_page i offset ty raw t =
     (if i < length (tn_pages t)
      then rr_return (upd_page i (\<lambda>p. p\<lparr>pg_data := snd (write_raw (pg_data p) offset ty raw)\<rparr>) t)
      else Crash Panic)"

definition put_bits ::
    "string \<Rightarrow> nat \<Rightarrow> nat \<Rightarrow> nat \<Rightarrow> nat \<Rightarrow> data_type \<Rightarrow> f64 \<Rightarrow> tune \<Rightarrow> (tune_error + tune) run" where
  "put_bits name i offset lo hi ty user t =
     (if i < length (tn_pages t) then
        (case read_raw (pg_data (tn_pages t ! i)) offset ty of
           None \<Rightarrow> rr_fail (Not_editable name ''out of page'')
         | Some current \<Rightarrow>
             write_page i offset ty
               (sint (field_put (word_of_int current) lo hi
                 (word_of_int (f_as_u64 (fmax (fround user) fzero))))) t)
      else Crash Panic)"

definition set_constant_impl :: "nat \<Rightarrow> string \<Rightarrow> f64 \<Rightarrow> bool \<Rightarrow> tune \<Rightarrow> (tune_error + tune) run" where
  "set_constant_impl d name user clamp t =
     (case tune_constant t name of
        None \<Rightarrow> rr_fail (Unknown_constant name)
      | Some c \<Rightarrow>
          (case location c of
             None \<Rightarrow> rr_fail (Not_editable name ''not a page constant'')
           | Some (i, offset) \<Rightarrow>
               (case cd_class c of
                  Scalar \<Rightarrow>
                    rr_bind (encode_impl t d c user clamp) (\<lambda>raw. write_page i offset (cd_ty c) raw t)
                | Bits \<Rightarrow>
                    (case cd_shape c of
                       Some (Bits_shape lo hi) \<Rightarrow> put_bits name i offset lo hi (cd_ty c) user t
                     | _ \<Rightarrow> rr_fail (Not_editable name ''malformed bits shape''))
                | _ \<Rightarrow> rr_fail (Not_editable name ''use set_array_element for arrays''))))"

definition set_constant :: "nat \<Rightarrow> string \<Rightarrow> f64 \<Rightarrow> tune \<Rightarrow> (tune_error + tune) run" where
  "set_constant d name user t = set_constant_impl d name user True t"

definition set_constant_unclamped :: "nat \<Rightarrow> string \<Rightarrow> f64 \<Rightarrow> tune \<Rightarrow> (tune_error + tune) run" where
  "set_constant_unclamped d name user t = set_constant_impl d name user False t"

definition set_array_element_impl ::
    "nat \<Rightarrow> string \<Rightarrow> nat \<Rightarrow> f64 \<Rightarrow> bool \<Rightarrow> tune \<Rightarrow> (tune_error + tune) run" where
  "set_array_element_impl d name index user clamp t =
     (case tune_constant t name of
        None \<Rightarrow> rr_fail (Unknown_constant name)
      | Some c \<Rightarrow>
          if cd_class c \<noteq> Array_class then rr_fail (Not_editable name ''not an array'')
          else
            (let len = (case cd_shape c of None \<Rightarrow> 0 | Some s \<Rightarrow> element_count s)
             in if len \<le> index then rr_fail (Index_range name index len)
                else
                  (case location c of
                     None \<Rightarrow> rr_fail (Not_editable name ''not a page constant'')
                   | Some (i, offset) \<Rightarrow>
                       rr_bind (encode_impl t d c user clamp) (\<lambda>raw.
                         write_page i (offset + index * ty_size (cd_ty c)) (cd_ty c) raw t))))"

definition set_array_element :: "nat \<Rightarrow> string \<Rightarrow> nat \<Rightarrow> f64 \<Rightarrow> tune \<Rightarrow> (tune_error + tune) run" where
  "set_array_element d name index user t = set_array_element_impl d name index user True t"

definition set_array_element_unclamped ::
    "nat \<Rightarrow> string \<Rightarrow> nat \<Rightarrow> f64 \<Rightarrow> tune \<Rightarrow> (tune_error + tune) run" where
  "set_array_element_unclamped d name index user t = set_array_element_impl d name index user False t"

subsection \<open>Tables\<close>

record axis_meta =
  am_lo :: "f64 option"
  am_hi :: "f64 option"
  am_digits :: nat
  am_scale :: f64
  am_translate :: f64

record table_data =
  tb_x :: "f64 list"
  tb_y :: "f64 list"
  tb_z :: "f64 list list"
  tb_z_lo :: f64
  tb_z_hi :: f64
  tb_z_digits :: nat
  tb_z_scale :: f64
  tb_z_translate :: f64
  tb_x_meta :: "axis_meta option"
  tb_y_meta :: "axis_meta option"

definition table_of :: "tune \<Rightarrow> string \<Rightarrow> table_def option" where
  "table_of t ident = im_get (i_tables (tn_def t)) ident"

text \<open>Grid dimensions of a table's zBins: (columns, rows).\<close>

definition table_dims :: "tune \<Rightarrow> table_def \<Rightarrow> (nat \<times> nat) option" where
  "table_dims t tab =
     Option.bind (tune_constant t (td_z_bins tab)) (\<lambda>c.
     Option.bind (cd_shape c) (\<lambda>s. case s of
         Array2D x y \<Rightarrow> Some (x, y)
       | Array1D n \<Rightarrow> Some (n, 1)
       | Bits_shape lo hi \<Rightarrow> None))"

text \<open>\<open>field.as_ref().and_then(|v| v.eval(self).ok())\<close>\<close>

definition opt_eval :: "symbols \<Rightarrow> num_or_expr option \<Rightarrow> f64 option run" where
  "opt_eval S f = (case f of None \<Rightarrow> Ret None | Some e \<Rightarrow> run_ok (num_or_expr_eval S e))"

definition or_val :: "'a \<Rightarrow> 'a option \<Rightarrow> 'a" where
  "or_val d x = (case x of None \<Rightarrow> d | Some v \<Rightarrow> v)"

definition f_u8 :: "f64 \<Rightarrow> nat" where "f_u8 x = nat (f_as_u8 x)"

definition axis_meta_of :: "tune \<Rightarrow> symbols \<Rightarrow> string \<Rightarrow> nat \<Rightarrow> axis_meta option run" where
  "axis_meta_of t S name expected_len =
     (case tune_constant t name of
        None \<Rightarrow> Ret None
      | Some c \<Rightarrow>
          if cd_class c \<noteq> Array_class \<or> cd_shape c = None
             \<or> map_option element_count (cd_shape c) \<noteq> Some expected_len \<or> location c = None
          then Ret None
          else
            ro_bind (run_ok (num_or_expr_eval S (cd_scale c))) (\<lambda>scale.
              if \<not> is_finite scale \<or> feq scale fzero then Ret None
              else
                run_bind (opt_eval S (cd_lo c)) (\<lambda>lo.
                run_bind (opt_eval S (cd_hi c)) (\<lambda>hi.
                run_bind (opt_eval S (cd_digits c)) (\<lambda>digits.
                ro_bind (run_ok (num_or_expr_eval S (cd_translate c))) (\<lambda>translate.
                  ro_return \<lparr>am_lo = lo, am_hi = hi, am_digits = f_u8 (or_val fzero digits),
                    am_scale = scale, am_translate = translate\<rparr>))))))"

text \<open>\<open>flat[row * nx..(row + 1) * nx]\<close> for every row.\<close>

definition grid_rows :: "nat \<Rightarrow> nat \<Rightarrow> 'a list \<Rightarrow> 'a list list run" where
  "grid_rows nx ny cells =
     run_mapM (\<lambda>row. case slice_get cells (row * nx) ((row + 1) * nx) of
       None \<Rightarrow> Crash Panic | Some r \<Rightarrow> Ret r) [0 ..< ny]"

definition table_view :: "tune \<Rightarrow> nat \<Rightarrow> string \<Rightarrow> table_data option run" where
  "table_view t d ident =
     (let S = tune_syms t d
      in ro_bind (Ret (table_of t ident)) (\<lambda>tab.
         ro_bind (Ret (table_dims t tab)) (\<lambda>(nx, ny).
         ro_bind (array_values t S (fst (td_x_bins tab))) (\<lambda>x.
         ro_bind (array_values t S (fst (td_y_bins tab))) (\<lambda>y.
         ro_bind (array_values t S (td_z_bins tab)) (\<lambda>cells.
         run_bind (grid_rows nx ny cells) (\<lambda>z.
         ro_bind (Ret (tune_constant t (td_z_bins tab))) (\<lambda>c.
         run_bind (opt_eval S (cd_lo c)) (\<lambda>z_lo.
         run_bind (opt_eval S (cd_hi c)) (\<lambda>z_hi.
         run_bind (opt_eval S (cd_digits c)) (\<lambda>digits.
         run_bind (opt_eval S (Some (cd_scale c))) (\<lambda>z_scale.
         run_bind (opt_eval S (Some (cd_translate c))) (\<lambda>z_translate.
         run_bind (axis_meta_of t S (fst (td_x_bins tab)) nx) (\<lambda>x_meta.
         run_bind (axis_meta_of t S (fst (td_y_bins tab)) ny) (\<lambda>y_meta.
           ro_return \<lparr>tb_x = x, tb_y = y, tb_z = z, tb_z_lo = or_val fzero z_lo,
             tb_z_hi = or_val (f_of_int 255) z_hi, tb_z_digits = f_u8 (or_val fzero digits),
             tb_z_scale = or_val fone z_scale, tb_z_translate = or_val fzero z_translate,
             tb_x_meta = x_meta, tb_y_meta = y_meta\<rparr>)))))))))))))))"

definition set_table_axis :: "nat \<Rightarrow> string \<Rightarrow> string \<Rightarrow> nat \<Rightarrow> f64 \<Rightarrow> tune \<Rightarrow> (tune_error + tune) run" where
  "set_table_axis d ident axis index v t =
     (case table_of t ident of
        None \<Rightarrow> rr_fail (Unknown_table ident)
      | Some tab \<Rightarrow>
          if axis = ''x'' then set_array_element d (fst (td_x_bins tab)) index v t
          else if axis = ''y'' then set_array_element d (fst (td_y_bins tab)) index v t
          else rr_fail (Not_editable axis ''axis must be x or y''))"

definition set_table_cell :: "nat \<Rightarrow> string \<Rightarrow> nat \<Rightarrow> nat \<Rightarrow> f64 \<Rightarrow> tune \<Rightarrow> (tune_error + tune) run" where
  "set_table_cell d ident row col v t =
     (case table_of t ident of
        None \<Rightarrow> rr_fail (Unknown_table ident)
      | Some tab \<Rightarrow>
          (case table_dims t tab of
             None \<Rightarrow> rr_fail (Unknown_table ident)
           | Some (nx, ny) \<Rightarrow>
               if ny \<le> row \<or> nx \<le> col
               then rr_fail (Index_range (td_z_bins tab) (row * nx + col) (nx * ny))
               else set_array_element d (td_z_bins tab) (row * nx + col) v t))"

end
