(* ===== verification/Tune_Codec.thy ===== *)
theory Tune_Codec
  imports Tune_Edit
begin

text \<open>
  The scale/translate codec is lossless: decoding a raw value to user units and encoding
  the result gives the raw value back, with every rounding of the \<open>f64\<close> arithmetic
  accounted for (\<open>to_raw_decoded\<close>).
\<close>

text \<open>Scales and translations as definition files use them, generously bounded.\<close>

definition codec_ok :: "f64 \<Rightarrow> f64 \<Rightarrow> bool" where
  "codec_ok s tr \<longleftrightarrow> is_finite s \<and> is_finite tr \<and>
     1 / 2 ^ 1000 \<le> \<bar>fval s\<bar> \<and> \<bar>fval s\<bar> \<le> 2 ^ 900 \<and> \<bar>fval tr\<bar> \<le> 2 ^ 40"

text \<open>What decoding computes from a raw value.\<close>

definition to_user :: "f64 \<Rightarrow> f64 \<Rightarrow> int \<Rightarrow> f64" where
  "to_user s tr raw = fmul (fadd (f_of_int raw) tr) s"

lemma rnd_near:
  assumes "\<bar>q\<bar> \<le> B"
  shows "\<bar>rnd_rat q - q\<bar> \<le> B / 2 ^ 53 + 1 / 2 ^ 60"
proof -
  have "(1 / 2 ^ 1075 :: rat) \<le> 1 / 2 ^ 60" by (intro divide_left_mono) simp_all
  moreover have "\<bar>q\<bar> / 2 ^ 53 \<le> B / 2 ^ 53" using assms by (intro divide_right_mono) simp_all
  ultimately show ?thesis using rnd_rat_error [of q] by linarith
qed

lemma fval_fneg [simp]: "fval (fneg x) = - fval x" "is_finite (fneg x) = is_finite x"
  by (cases x; simp)+

lemma finite_not_special:
  "is_finite x \<Longrightarrow> x \<noteq> NaN" "is_finite x \<Longrightarrow> x \<noteq> PosInf" "is_finite x \<Longrightarrow> x \<noteq> NegInf"
  by auto

lemma fadd_finite:
  assumes "is_finite x" "is_finite y" "\<bar>fval x + fval y\<bar> \<le> 2 ^ 1023"
  shows "is_finite (fadd x y)" "fval (fadd x y) = rnd_rat (fval x + fval y)"
  using assms to_f64_finite [OF assms(3)] by (auto simp: fadd_def)

lemma fmul_finite:
  assumes "is_finite x" "is_finite y" "\<bar>fval x * fval y\<bar> \<le> 2 ^ 1023"
  shows "is_finite (fmul x y)" "fval (fmul x y) = rnd_rat (fval x * fval y)"
  using assms to_f64_finite [OF assms(3)] by (auto simp: fmul_def Let_def)

lemma fdiv_finite:
  assumes "is_finite x" "is_finite y" "fval y \<noteq> 0" "\<bar>fval x / fval y\<bar> \<le> 2 ^ 1023"
  shows "is_finite (fdiv x y)" "fval (fdiv x y) = rnd_rat (fval x / fval y)"
  using assms to_f64_finite [OF assms(4)] by (auto simp: fdiv_def Let_def)

lemma round_to_int:
  assumes "is_finite w" "\<bar>fval w - of_int i\<bar> < 1 / 2" "- (2 ^ 63) \<le> i" "i \<le> 2 ^ 63 - 1"
  shows "f_as_i64 (fround w) = i"
proof -
  have half: "\<lfloor>1 / 2 :: rat\<rfloor> = 0" by (rule floor_unique) auto
  have "round_away (fval w) = i" using assms(2) by (rule round_away_near)
  then have r: "fround w = mk_fin (fval w < 0) (of_int i) \<or> fround w = NegZero \<and> i = 0"
    using assms(1) half by (cases w) (auto simp: round_away_def)
  have "f_as_i64 (Fin (of_int i)) = i" using assms(3,4) by (intro f_as_of_int) auto
  with r show ?thesis by (auto simp: mk_fin_def split: if_splits)
qed

lemma abs_step: "\<bar>a - b\<bar> \<le> e \<Longrightarrow> \<bar>b\<bar> \<le> B \<Longrightarrow> B + e \<le> C \<Longrightarrow> \<bar>a :: rat\<bar> \<le> C"
  by linarith

lemma codec_error:
  fixes x y S U T :: rat
  assumes "\<bar>r\<bar> \<le> 2 ^ 32" "\<bar>T\<bar> \<le> 2 ^ 40" "1 / 2 ^ 1000 \<le> \<bar>S\<bar>" "\<bar>S\<bar> \<le> 2 ^ 900"
  defines "y \<equiv> rnd_rat (r + T)"
  defines "U \<equiv> rnd_rat (y * S)"
  defines "V \<equiv> rnd_rat (U / S)"
  shows "\<bar>r + T\<bar> \<le> 2 ^ 1023" "\<bar>y * S\<bar> \<le> 2 ^ 1023" "\<bar>U / S\<bar> \<le> 2 ^ 1023" "\<bar>V - T\<bar> \<le> 2 ^ 1023"
    "\<bar>rnd_rat (V - T) - r\<bar> < 1 / 2"
proof -
  have S0: "S \<noteq> 0" using assms(3) by auto
  have big: "(2::rat) ^ 41 \<le> 2 ^ 1023" "(2::rat) ^ 43 \<le> 2 ^ 1023" "(2::rat) ^ 44 \<le> 2 ^ 1023" by simp_all
  have x: "\<bar>r + T\<bar> \<le> 2 ^ 41"
    using abs_triangle_ineq [of r T] assms(1,2) by simp
  have y1: "\<bar>y - (r + T)\<bar> \<le> 1 / 2 ^ 10" using rnd_near [OF x] by (simp add: y_def)
  have y: "\<bar>y\<bar> \<le> 2 ^ 42" by (rule abs_step [OF y1 x]) simp
  have yS: "\<bar>y * S\<bar> \<le> 2 ^ 42 * 2 ^ 900"
    unfolding abs_mult using y assms(4) by (intro mult_mono) auto
  have "\<bar>U - y * S\<bar> \<le> \<bar>y * S\<bar> / 2 ^ 53 + 1 / 2 ^ 1075"
    using rnd_rat_error [of "y * S"] by (simp add: U_def)
  then have "\<bar>U - y * S\<bar> / \<bar>S\<bar> \<le> (\<bar>y * S\<bar> / 2 ^ 53 + 1 / 2 ^ 1075) / \<bar>S\<bar>"
    by (rule divide_right_mono) simp
  also have "\<dots> = \<bar>y\<bar> / 2 ^ 53 + 1 / 2 ^ 1075 / \<bar>S\<bar>"
    using S0 by (simp add: abs_mult add_divide_distrib)
  finally have 1: "\<bar>U - y * S\<bar> / \<bar>S\<bar> \<le> \<bar>y\<bar> / 2 ^ 53 + 1 / 2 ^ 1075 / \<bar>S\<bar>" .
  have "1 / 2 ^ 1075 / \<bar>S\<bar> \<le> 1 / 2 ^ 1075 / (1 / 2 ^ 1000)"
    using assms(3) S0 by (intro divide_left_mono) auto
  also have "\<dots> \<le> 1 / 2 ^ 60" by simp
  finally have 2: "1 / 2 ^ 1075 / \<bar>S\<bar> \<le> 1 / 2 ^ 60" .
  have "U / S - y = (U - y * S) / S" using S0 by (simp add: diff_divide_distrib)
  then have "\<bar>U / S - y\<bar> = \<bar>U - y * S\<bar> / \<bar>S\<bar>" by simp
  moreover have "\<bar>y\<bar> / 2 ^ 53 \<le> 2 ^ 42 / 2 ^ 53" using y by (intro divide_right_mono) simp_all
  ultimately have u1: "\<bar>U / S - y\<bar> \<le> 1 / 2 ^ 9" using 1 2 by (auto simp: field_simps)
  have u: "\<bar>U / S\<bar> \<le> 2 ^ 43" by (rule abs_step [OF u1 y]) simp
  have v1: "\<bar>V - U / S\<bar> \<le> 1 / 2 ^ 8" using rnd_near [OF u] by (simp add: V_def)
  have v2: "\<bar>V\<bar> \<le> 2 ^ 43 + 1" by (rule abs_step [OF v1 u]) simp
  have v: "\<bar>V - T\<bar> \<le> 2 ^ 44" using abs_triangle_ineq4 [of V T] v2 assms(2) by simp
  have w1: "\<bar>rnd_rat (V - T) - (V - T)\<bar> \<le> 1 / 2 ^ 7" using rnd_near [OF v] by simp
  show "\<bar>r + T\<bar> \<le> 2 ^ 1023" "\<bar>U / S\<bar> \<le> 2 ^ 1023" "\<bar>V - T\<bar> \<le> 2 ^ 1023"
    using order_trans [OF x big(1)] order_trans [OF u big(2)] order_trans [OF v big(3)] by blast+
  have "(2::rat) ^ 42 * 2 ^ 900 \<le> 2 ^ 1023" by simp
  with yS show "\<bar>y * S\<bar> \<le> 2 ^ 1023" by (rule order_trans)
  have "(1 / 2 ^ 10 + 1 / 2 ^ 9 + 1 / 2 ^ 8 + 1 / 2 ^ 7 :: rat) < 1 / 2" by simp
  with y1 u1 v1 w1 show "\<bar>rnd_rat (V - T) - r\<bar> < 1 / 2" by linarith
qed

lemma in_range_bound: "in_range ty raw \<Longrightarrow> \<bar>raw\<bar> \<le> 2 ^ 32"
  by (cases ty) (auto simp: in_range_def)

lemma clamp_in_range: "in_range ty raw \<Longrightarrow> clamp_int (type_range ty) raw = raw"
  by (auto simp: clamp_int_def in_range_def)

lemma clamped_in_range: "in_range ty (clamp_int (type_range ty) raw)"
  by (cases ty) (auto simp: clamp_int_def in_range_def)

lemma to_raw_decoded:
  assumes "codec_ok s tr" "in_range ty raw"
  shows "to_raw ty s tr (to_user s tr raw) = raw"
proof -
  let ?r = "of_int raw :: rat" and ?S = "fval s" and ?T = "fval tr"
  have ok: "is_finite s" "is_finite tr" "1 / 2 ^ 1000 \<le> \<bar>?S\<bar>" "\<bar>?S\<bar> \<le> 2 ^ 900" "\<bar>?T\<bar> \<le> 2 ^ 40"
    using assms(1) by (auto simp: codec_ok_def)
  have S0: "?S \<noteq> 0" using ok(3) by auto
  have raw: "\<bar>raw\<bar> \<le> 2 ^ 32" using assms(2) by (rule in_range_bound)
  then have "(of_int \<bar>raw\<bar> :: rat) \<le> of_int (2 ^ 32)" by (simp only: of_int_le_iff)
  then have r: "\<bar>?r\<bar> \<le> 2 ^ 32" by simp
  note bounds = codec_error [OF r ok(5) ok(3) ok(4)]
  have f: "f_of_int raw = Fin ?r" using raw by (intro f_of_int_exact) simp
  have a: "is_finite (fadd (f_of_int raw) tr)" "fval (fadd (f_of_int raw) tr) = rnd_rat (?r + ?T)"
    using fadd_finite [of "Fin ?r" tr] ok bounds(1) by (simp_all add: f)
  have u: "is_finite (to_user s tr raw)" "fval (to_user s tr raw) = rnd_rat (rnd_rat (?r + ?T) * ?S)"
    using fmul_finite [OF a(1) ok(1)] bounds(2) by (simp_all add: to_user_def a(2))
  have v: "is_finite (fdiv (to_user s tr raw) s)"
    "fval (fdiv (to_user s tr raw) s) = rnd_rat (rnd_rat (rnd_rat (?r + ?T) * ?S) / ?S)"
    using fdiv_finite [OF u(1) ok(1) S0] bounds(3) by (simp_all add: u(2))
  have w: "is_finite (fsub (fdiv (to_user s tr raw) s) tr)"
    "fval (fsub (fdiv (to_user s tr raw) s) tr) = rnd_rat (rnd_rat (rnd_rat (rnd_rat (?r + ?T) * ?S) / ?S) - ?T)"
    using fadd_finite [OF v(1), of "fneg tr"] ok(2) bounds(4) by (simp_all add: fsub_def v(2))
  have "f_as_i64 (fround (fsub (fdiv (to_user s tr raw) s) tr)) = raw"
    using bounds(5) raw by (intro round_to_int) (auto simp: w)
  then show ?thesis using assms(2) by (simp add: to_raw_def clamp_in_range)
qed

end
