(* ===== verification/Tune_Lookups.thy ===== *)
theory Tune_Lookups
  imports Tune_Codec
begin

text \<open>
  Termination of the tune's mutually recursive lookups.  A lookup depends on the symbols
  of the expressions it evaluates (\<open>needs\<close>).  When these dependencies are acyclic, a stack
  deeper than the rank of a symbol is enough and the result does not depend on how much
  deeper it is; a constant whose scale refers to itself overflows any stack.
\<close>

fun field_uses :: "num_or_expr \<Rightarrow> sym_use set" where
  "field_uses (Num_lit n) = {}"
| "field_uses (Num_expr e) = uses e"

definition codec_uses :: "constant_def \<Rightarrow> sym_use set" where
  "codec_uses c = field_uses (cd_scale c) \<union> field_uses (cd_translate c)"

text \<open>The symbols whose lookup the lookup of a symbol starts.\<close>

fun needs :: "tune \<Rightarrow> sym_use \<Rightarrow> sym_use set" where
  "needs t (Use_value name) =
     (case tune_constant t name of
        Some c \<Rightarrow> if cd_class c = Scalar then codec_uses c else {}
      | None \<Rightarrow>
          if tn_pc t name \<noteq> None then {}
          else (case im_get (i_output_channels (tn_def t)) name of
              Some (Ch_derived e units) \<Rightarrow> uses e
            | _ \<Rightarrow> {}))"
| "needs t (Use_bits l) = {}"
| "needs t (Use_array name) =
     (case tune_constant t name of
        Some c \<Rightarrow> if cd_class c = Array_class then codec_uses c else {}
      | None \<Rightarrow> {})"

lemma field_eval_agree:
  "(\<And>u. u \<in> field_uses f \<Longrightarrow> agree s1 s2 u) \<Longrightarrow> num_or_expr_eval s1 f = num_or_expr_eval s2 f"
proof (cases f)
  case (Num_expr e)
  assume "\<And>u. u \<in> field_uses f \<Longrightarrow> agree s1 s2 u"
  then have "eval s1 e = eval s2 e" using Num_expr by (intro eval_agree) simp
  then show ?thesis by (simp add: Num_expr)
qed simp

lemma field_eval_returns:
  "(\<And>u. u \<in> field_uses f \<Longrightarrow> safe s u) \<Longrightarrow> returns (num_or_expr_eval s f)"
  by (cases f) (auto intro!: returns_intros eval_returns)

lemma scaled_agree:
  "(\<And>u. u \<in> codec_uses c \<Longrightarrow> agree s1 s2 u) \<Longrightarrow> scaled s1 c = scaled s2 c"
  using field_eval_agree [of "cd_scale c" s1 s2] field_eval_agree [of "cd_translate c" s1 s2]
  by (simp add: scaled_def codec_uses_def fun_eq_iff)

lemma scaled_returns: "(\<And>u. u \<in> codec_uses c \<Longrightarrow> safe s u) \<Longrightarrow> returns (scaled s c raw)"
  by (auto simp: scaled_def codec_uses_def intro!: returns_intros field_eval_returns)

lemma value_agree:
  assumes "\<And>u. u \<in> needs t (Use_value name) \<Longrightarrow> agree s1 s2 u"
  shows "tune_value t s1 name = tune_value t s2 name"
proof (cases "tune_constant t name")
  case None
  then show ?thesis
    using assms eval_agree [of _ s1 s2]
    by (auto simp: tune_value_def tune_constant_def split: option.splits output_channel.splits)
next
  case (Some c)
  then show ?thesis
    using assms scaled_agree [of c s1 s2]
    by (auto simp: tune_value_def constant_value_def tune_constant_def
        split: option.splits constant_class.splits prod.splits)
qed

lemma value_returns:
  assumes "\<And>u. u \<in> needs t (Use_value name) \<Longrightarrow> safe s u"
  shows "returns (tune_value t s name)"
proof (cases "tune_constant t name")
  case None
  then show ?thesis
    using assms
    by (auto simp: tune_value_def tune_constant_def
        split: option.splits output_channel.splits intro!: returns_intros eval_returns)
next
  case (Some c)
  then show ?thesis
    using assms
    by (auto simp: tune_value_def constant_value_def tune_constant_def
        split: option.splits constant_class.splits prod.splits shape.splits
        intro!: returns_intros scaled_returns)
qed

lemma element_agree:
  assumes "\<And>u. u \<in> needs t (Use_array name) \<Longrightarrow> agree s1 s2 u"
  shows "array_element t s1 name = array_element t s2 name"
proof (cases "tune_constant t name")
  case (Some c)
  have "scaled s1 c = scaled s2 c" if "cd_class c = Array_class"
    using assms scaled_agree [of c s1 s2] Some that by simp
  show ?thesis
  proof (cases "cd_class c = Array_class")
    case True
    note eq = \<open>cd_class c = Array_class \<Longrightarrow> scaled s1 c = scaled s2 c\<close> [OF True]
    show ?thesis unfolding array_element_def Some option.case eq ..
  qed (simp add: array_element_def Some fun_eq_iff)
qed (simp add: array_element_def fun_eq_iff)

lemma element_returns:
  assumes "\<And>u. u \<in> needs t (Use_array name) \<Longrightarrow> safe s u"
  shows "returns (array_element t s name i)"
  using assms
  by (auto simp: array_element_def split: option.splits prod.splits intro!: returns_intros scaled_returns)

lemma lookups_settle:
  assumes acyclic: "\<And>u v. v \<in> needs t u \<Longrightarrow> rank v < (rank u :: nat)"
  shows "rank u < d \<Longrightarrow> rank u < d2 \<Longrightarrow>
    safe (tune_syms t d) u \<and> agree (tune_syms t d) (tune_syms t d2) u"
proof (induction "rank u" arbitrary: u d d2 rule: less_induct)
  case less
  obtain k where d: "d = Suc k" using less.prems by (cases d) auto
  obtain k2 where d2: "d2 = Suc k2" using less.prems by (cases d2) auto
  have IH: "safe (tune_syms t k) v \<and> agree (tune_syms t k) (tune_syms t k2) v" if "v \<in> needs t u" for v
    using less.hyps [of v k k2] acyclic [OF that] less.prems by (simp add: d d2)
  show ?case
  proof (cases u)
    case (Use_value name)
    with IH show ?thesis
      using value_agree [of t name "tune_syms t k" "tune_syms t k2"] value_returns [of t name "tune_syms t k"]
      by (simp add: d d2 safe_def agree_def)
  next
    case (Use_bits l)
    then show ?thesis by (simp add: d d2 safe_def agree_def)
  next
    case (Use_array name)
    with IH show ?thesis
      using element_agree [of t name "tune_syms t k" "tune_syms t k2"] element_returns [of t name "tune_syms t k"]
      by (simp add: d d2 safe_def agree_def)
  qed
qed

text \<open>
  C19. When the definitions' expressions do not refer to each other in a cycle, looking a
  symbol up in the tune needs only a bounded stack: above the symbol's rank the lookup
  returns, and always with the same result.
\<close>

theorem tune_lookups_terminate:
  assumes "\<And>u v. v \<in> needs t u \<Longrightarrow> rank v < (rank u :: nat)" "rank (Use_value name) < d"
    "rank (Use_array name) < d"
  shows "returns (sy_value (tune_syms t d) name) \<and>
    sy_value (tune_syms t (d + k)) name = sy_value (tune_syms t d) name \<and>
    returns (sy_array_value (tune_syms t d) name i) \<and>
    sy_array_value (tune_syms t (d + k)) name i = sy_array_value (tune_syms t d) name i"
  using lookups_settle [of t rank, OF assms(1) assms(2), of "d + k"]
    lookups_settle [of t rank, OF assms(1) assms(3), of "d + k"] assms(2,3)
  by (auto simp: safe_def agree_def)

text \<open>Two constants, the scale of the first a reference to the second.\<close>

definition sample_const :: "string \<Rightarrow> num_or_expr \<Rightarrow> nat \<Rightarrow> constant_def" where
  "sample_const name scale off =
     \<lparr>cd_name = name, cd_class = Scalar, cd_ty = U08, cd_page = Some 1, cd_offset = Some off,
      cd_shape = None, cd_units = None, cd_scale = scale, cd_translate = Num_lit fzero, cd_lo = None,
      cd_hi = None, cd_digits = None, cd_labels = [], cd_string_len = None, cd_no_msq_save = False,
      cd_line = 1\<rparr>"

definition sample_tune :: "num_or_expr \<Rightarrow> tune" where
  "sample_tune scale =
     \<lparr>tn_def = ini_default\<lparr>i_constants :=
        [(''a'', sample_const ''a'' scale 0), (''b'', sample_const ''b'' (Num_lit fone) 1)]\<rparr>,
      tn_pages = [\<lparr>pg_data = [7, 8], pg_ecu = [7, 8], pg_burned = [7, 8]\<rparr>],
      tn_pc = Map.empty, tn_loaded = True\<rparr>"

lemma sample_tune_simps [simp]:
  "tune_constant (sample_tune scale) name =
     (if name = ''a'' then Some (sample_const ''a'' scale 0)
      else if name = ''b'' then Some (sample_const ''b'' (Num_lit fone) 1) else None)"
  "tn_pc (sample_tune scale) = Map.empty"
  "i_output_channels (tn_def (sample_tune scale)) = []"
  by (simp_all add: tune_constant_def sample_tune_def im_get_def ini_default_def)

theorem tune_lookups_terminate_witness:
  "returns (sy_value (tune_syms (sample_tune (Num_expr (EIdent ''b''))) 2) ''a'') \<and>
    sy_value (tune_syms (sample_tune (Num_expr (EIdent ''b''))) 9) ''a''
      = sy_value (tune_syms (sample_tune (Num_expr (EIdent ''b''))) 2) ''a''"
proof -
  let ?t = "sample_tune (Num_expr (EIdent ''b''))"
  let ?rank = "\<lambda>u. if u = Use_value ''a'' then 1 else (0::nat)"
  have acyclic: "?rank v < ?rank u" if "v \<in> needs ?t u" for u v
    using that
    by (cases u) (auto simp: sample_const_def codec_uses_def im_get_def split: if_splits)
  show ?thesis
    using tune_lookups_terminate [where t = ?t and rank = ?rank and name = "''a''" and d = 2 and k = 7 and i = 0]
      acyclic by simp
qed

text \<open>
  A scalar constant whose scale refers to itself, which the definition parser accepts,
  overflows the stack whenever it is looked up, however deep the stack is.
\<close>

theorem cyclic_scale_overflows:
  assumes "tune_constant t name = Some c" "cd_class c = Scalar" "cd_scale c = Num_expr (EIdent name)"
    "tune_bytes t c = Some (bs, off)" "read_raw bs off (cd_ty c) = Some raw"
  shows "sy_value (tune_syms t d) name = Crash StackOverflow"
proof (induction d)
  case (Suc d)
  have "eval (tune_syms t d) (EIdent name) = Crash StackOverflow" using Suc.IH by simp
  then have "num_or_expr_eval (tune_syms t d) (cd_scale c) = Crash StackOverflow" by (simp add: assms(3))
  then have "scaled (tune_syms t d) c raw = Crash StackOverflow" by (simp add: scaled_def run_ok_def)
  with assms show ?case by (simp add: tune_value_def constant_value_def tune_constant_def)
qed simp

theorem cyclic_scale_overflows_witness:
  "sy_value (tune_syms (sample_tune (Num_expr (EIdent ''a''))) 100000) ''a'' = Crash StackOverflow"
proof -
  let ?t = "sample_tune (Num_expr (EIdent ''a''))"
  have "tune_bytes ?t (sample_const ''a'' (Num_expr (EIdent ''a'')) 0) = Some ([7, 8], 0)"
    by (simp add: tune_bytes_def location_def sample_const_def tune_page_def sample_tune_def)
  then show ?thesis
    by (rule cyclic_scale_overflows [rotated 3])
      (simp_all add: sample_const_def read_raw_def slice_get_def decode_raw_def)
qed

end
