(* ===== verification/Tune_Dirty.thy ===== *)
theory Tune_Dirty
  imports Tune_State
begin

text \<open>
  Dirty tracking of \<open>tune-model/src/lib.rs\<close>: which bytes of a page the ECU does not have
  yet, grouped into spans for the chunk writer.

  \<open>spans_ok\<close> is the specification of the grouping: the spans are in order, further than
  \<open>max_gap\<close> apart, begin and end at a byte that differs, and cover every byte that
  differs.  Sending them makes the page clean (\<open>send_spans_clean\<close>).
\<close>

definition page_dirty :: "tune \<Rightarrow> nat \<Rightarrow> bool" where
  "page_dirty t i = (case tune_page t i of None \<Rightarrow> False | Some p \<Rightarrow> pg_data p \<noteq> pg_ecu p)"

definition any_dirty :: "tune \<Rightarrow> bool" where
  "any_dirty t \<longleftrightarrow> (\<exists>i \<in> set [0 ..< length (tn_pages t)]. page_dirty t i)"

definition page_burn_pending :: "tune \<Rightarrow> nat \<Rightarrow> bool" where
  "page_burn_pending t i = (case tune_page t i of None \<Rightarrow> False | Some p \<Rightarrow> pg_ecu p \<noteq> pg_burned p)"

definition burn_pending :: "tune \<Rightarrow> bool" where
  "burn_pending t \<longleftrightarrow> (\<exists>i \<in> set [0 ..< length (tn_pages t)]. page_burn_pending t i)"

definition differing :: "bytes \<Rightarrow> bytes \<Rightarrow> nat list" where
  "differing data ecu = filter (\<lambda>i. data ! i \<noteq> ecu ! i) [0 ..< min (length data) (length ecu)]"

text \<open>One differing index; the spans are kept newest first.\<close>

fun span_add :: "nat \<Rightarrow> (nat \<times> nat) list \<Rightarrow> nat \<Rightarrow> (nat \<times> nat) list" where
  "span_add max_gap [] i = [(i, i + 1)]"
| "span_add max_gap ((s, e) # spans) i =
     (if i - e \<le> max_gap then (s, i + 1) # spans else (i, i + 1) # (s, e) # spans)"

definition span_bounds :: "nat \<Rightarrow> bytes \<Rightarrow> bytes \<Rightarrow> (nat \<times> nat) list" where
  "span_bounds max_gap data ecu = rev (foldl (span_add max_gap) [] (differing data ecu))"

definition dirty_spans :: "tune \<Rightarrow> nat \<Rightarrow> nat \<Rightarrow> (nat \<times> bytes) list" where
  "dirty_spans t i max_gap =
     (case tune_page t i of
        None \<Rightarrow> []
      | Some p \<Rightarrow> map (\<lambda>(s, e). (s, take (e - s) (drop s (pg_data p))))
          (span_bounds max_gap (pg_data p) (pg_ecu p)))"

subsection \<open>The grouping of spans\<close>

text \<open>The loop invariant after all differing indices below \<open>k\<close>.\<close>

fun separated :: "nat \<Rightarrow> (nat \<times> nat) list \<Rightarrow> bool" where
  "separated g [] = True"
| "separated g [p] = True"
| "separated g ((s, e) # (s1, e1) # r) \<longleftrightarrow> e1 + g < s \<and> separated g ((s1, e1) # r)"

definition spans_inv :: "nat \<Rightarrow> nat list \<Rightarrow> (nat \<times> nat) list \<Rightarrow> bool" where
  "spans_inv g ds spans \<longleftrightarrow>
     separated g spans \<and>
     (\<forall>(s, e)\<in>set spans. s < e \<and> s \<in> set ds \<and> e - 1 \<in> set ds) \<and>
     (\<forall>i\<in>set ds. \<exists>(s, e)\<in>set spans. s \<le> i \<and> i < e) \<and>
     (spans = [] \<longleftrightarrow> ds = []) \<and> (spans \<noteq> [] \<longrightarrow> snd (hd spans) = last ds + 1)"

lemma spans_inv_step:
  assumes "spans_inv g ds spans" "\<forall>j\<in>set ds. j < i"
  shows "spans_inv g (ds @ [i]) (span_add g spans i)"
proof (cases spans)
  case Nil
  with assms show ?thesis by (simp add: spans_inv_def)
next
  case (Cons p r)
  obtain s e where p: "p = (s, e)" by (cases p)
  have e: "e = last ds + 1" "ds \<noteq> []" using assms(1) by (auto simp: spans_inv_def Cons p)
  then have ei: "e \<le> i" using assms(2) last_in_set by fastforce
  have sep: "separated g ((s, e) # r)" using assms(1) unfolding spans_inv_def Cons p by (rule conjunct1)
  have sep1: "separated g ((s, i + 1) # r)" using sep by (cases r) auto
  have se: "s < e" using assms(1) by (auto simp: spans_inv_def Cons p)
  show ?thesis
  proof (cases "i - e \<le> g")
    case True
    have cover: "\<exists>(s', e')\<in>set ((s, i + 1) # r). s' \<le> j \<and> j < e'" if "j \<in> set (ds @ [i])" for j
    proof (cases "j = i")
      case True
      with se ei show ?thesis by auto
    next
      case False
      with that assms(1) obtain s' e' where "(s', e') \<in> set ((s, e) # r)" "s' \<le> j" "j < e'"
        by (fastforce simp: spans_inv_def Cons p)
      with ei show ?thesis by fastforce
    qed
    have ends: "s' < e' \<and> s' \<in> set (ds @ [i]) \<and> e' - 1 \<in> set (ds @ [i])"
      if "(s', e') \<in> set ((s, i + 1) # r)" for s' e'
    proof -
      have "s' < e'' \<and> s' \<in> set ds \<and> e'' - 1 \<in> set ds" if "(s', e'') \<in> set ((s, e) # r)" for e''
        using assms(1) that unfolding spans_inv_def Cons p by blast
      from this [of e] this [of e'] that se ei show ?thesis by auto
    qed
    have "span_add g spans i = (s, i + 1) # r" using True by (simp add: Cons p)
    moreover have "spans_inv g (ds @ [i]) ((s, i + 1) # r)"
      unfolding spans_inv_def using sep1 ends cover by (intro conjI) (blast | simp)+
    ultimately show ?thesis by simp
  next
    case False
    then have sep2: "separated g ((i, i + 1) # (s, e) # r)" using sep by simp
    have A: "\<forall>(s, e)\<in>set ((s, e) # r). s < e \<and> s \<in> set ds \<and> e - 1 \<in> set ds"
      and B: "\<forall>j\<in>set ds. \<exists>(s, e)\<in>set ((s, e) # r). s \<le> j \<and> j < e"
      using assms(1) unfolding spans_inv_def Cons p by blast+
    have "\<forall>(s, e)\<in>set ((i, i + 1) # (s, e) # r). s < e \<and> s \<in> set (ds @ [i]) \<and> e - 1 \<in> set (ds @ [i])"
      using A by auto
    moreover have "\<forall>j\<in>set (ds @ [i]). \<exists>(s, e)\<in>set ((i, i + 1) # (s, e) # r). s \<le> j \<and> j < e"
      using B by auto
    ultimately have "spans_inv g (ds @ [i]) ((i, i + 1) # (s, e) # r)"
      unfolding spans_inv_def using sep2 by (intro conjI) (assumption | simp)+
    with False show ?thesis by (simp add: Cons p)
  qed
qed

lemma spans_inv_foldl:
  "sorted_wrt (<) ds \<Longrightarrow> spans_inv g ds (foldl (span_add g) [] ds)"
proof (induction ds rule: rev_induct)
  case Nil
  then show ?case by (simp add: spans_inv_def)
next
  case (snoc i ds)
  then show ?case by (simp add: sorted_wrt_append spans_inv_step)
qed

lemma differing_sorted: "sorted_wrt (<) (differing data ecu)"
  by (simp add: differing_def sorted_wrt_filter)

definition spans_ok :: "nat \<Rightarrow> bytes \<Rightarrow> bytes \<Rightarrow> (nat \<times> nat) list \<Rightarrow> bool" where
  "spans_ok g data ecu spans \<longleftrightarrow>
     separated g (rev spans) \<and>
     (\<forall>(s, e)\<in>set spans. s < e \<and> e \<le> length data \<and> e \<le> length ecu \<and>
        data ! s \<noteq> ecu ! s \<and> data ! (e - 1) \<noteq> ecu ! (e - 1)) \<and>
     (\<forall>i < min (length data) (length ecu). data ! i \<noteq> ecu ! i \<longrightarrow> (\<exists>(s, e)\<in>set spans. s \<le> i \<and> i < e))"

lemma span_bounds_ok: "spans_ok g data ecu (span_bounds g data ecu)"
proof -
  have inv: "spans_inv g (differing data ecu) (foldl (span_add g) [] (differing data ecu))"
    by (rule spans_inv_foldl [OF differing_sorted])
  have "s < e \<and> e \<le> length data \<and> e \<le> length ecu \<and> data ! s \<noteq> ecu ! s \<and> data ! (e - 1) \<noteq> ecu ! (e - 1)"
    if "(s, e) \<in> set (span_bounds g data ecu)" for s e
  proof -
    have "s < e" "s \<in> set (differing data ecu)" "e - 1 \<in> set (differing data ecu)"
      using inv that by (auto simp: spans_inv_def span_bounds_def)
    then show ?thesis by (auto simp: differing_def)
  qed
  moreover have "\<exists>(s, e)\<in>set (span_bounds g data ecu). s \<le> i \<and> i < e"
    if "i < min (length data) (length ecu)" "data ! i \<noteq> ecu ! i" for i
  proof -
    have "i \<in> set (differing data ecu)" using that by (simp add: differing_def)
    then show ?thesis using inv by (simp add: spans_inv_def span_bounds_def)
  qed
  ultimately show ?thesis
    using inv by (auto simp: spans_ok_def spans_inv_def span_bounds_def)
qed

subsection \<open>Sending the spans\<close>

text \<open>The flush loop's bookkeeping: every span sent is marked.\<close>

fun mark_all :: "nat \<Rightarrow> (nat \<times> bytes) list \<Rightarrow> tune \<Rightarrow> tune run" where
  "mark_all i [] t = Ret t"
| "mark_all i ((off, bs) # r) t = run_bind (mark_sent i off (length bs) t) (mark_all i r)"

definition copy_span :: "bytes \<Rightarrow> nat \<times> nat \<Rightarrow> bytes \<Rightarrow> bytes" where
  "copy_span data se ecu = splice ecu (fst se) (take (snd se - fst se) (drop (fst se) data))"

lemma copy_spans:
  assumes "length ecu = length data" "\<forall>(s, e)\<in>set spans. s < e \<and> e \<le> length data"
  shows "length (foldl (\<lambda>ecu se. copy_span data se ecu) ecu spans) = length data"
    "k < length data \<Longrightarrow> foldl (\<lambda>ecu se. copy_span data se ecu) ecu spans ! k =
       (if \<exists>(s, e)\<in>set spans. s \<le> k \<and> k < e then data ! k else ecu ! k)"
proof -
  have step: "length (copy_span data (s, e) ecu) = length data \<and>
      (k < length data \<longrightarrow> copy_span data (s, e) ecu ! k = (if s \<le> k \<and> k < e then data ! k else ecu ! k))"
    if "length ecu = length data" "s < e" "e \<le> length data" for s e ecu k
    using that by (auto simp: copy_span_def nth_splice)
  from assms show "length (foldl (\<lambda>ecu se. copy_span data se ecu) ecu spans) = length data"
    by (induction spans arbitrary: ecu) (use step in \<open>fastforce split: prod.splits\<close>)+
  from assms show "k < length data \<Longrightarrow> foldl (\<lambda>ecu se. copy_span data se ecu) ecu spans ! k =
       (if \<exists>(s, e)\<in>set spans. s \<le> k \<and> k < e then data ! k else ecu ! k)"
  proof (induction spans arbitrary: ecu)
    case (Cons p spans)
    obtain s e where p: "p = (s, e)" by (cases p)
    with Cons step [of ecu s e k] show ?case by auto
  qed simp
qed

lemma upd_page_upd_page [simp]: "upd_page i f (upd_page i g t) = upd_page i (\<lambda>p. f (g p)) t"
  by (simp add: upd_page_def)

lemma tune_page_upd_page: "tune_page (upd_page i f t) j =
    (if j = i then map_option f (tune_page t i) else tune_page t j)"
  by (auto simp: upd_page_def tune_page_def list_get_def)

lemma mark_all_spans:
  assumes "tune_page t i = Some p" "length (pg_ecu p) = length (pg_data p)"
    "\<forall>(s, e)\<in>set spans. s < e \<and> e \<le> length (pg_data p)"
  shows "mark_all i (map (\<lambda>(s, e). (s, take (e - s) (drop s (pg_data p)))) spans) t
    = Ret (upd_page i (\<lambda>q. q\<lparr>pg_ecu := foldl (\<lambda>ecu se. copy_span (pg_data q) se ecu) (pg_ecu q) spans\<rparr>) t)"
  using assms
proof (induction spans arbitrary: t p)
  case Nil
  then show ?case by (simp add: upd_page_def tune_page_def list_get_def)
next
  case (Cons q spans)
  obtain s e where q: "q = (s, e)" by (cases q)
  with Cons.prems have se: "s < e" "e \<le> length (pg_data p)" by auto
  let ?t = "upd_page i (\<lambda>p. p\<lparr>pg_ecu := copy_span (pg_data p) (s, e) (pg_ecu p)\<rparr>) t"
  let ?p = "p\<lparr>pg_ecu := copy_span (pg_data p) (s, e) (pg_ecu p)\<rparr>"
  have "mark_sent i s (e - s) t = Ret ?t"
    using Cons.prems(1,2) se by (simp add: mark_sent_def copy_span_def)
  moreover have "tune_page ?t i = Some ?p" using Cons.prems(1) by (simp add: tune_page_upd_page)
  moreover have "length (pg_ecu ?p) = length (pg_data ?p)"
    using Cons.prems(2) se by (simp add: copy_span_def)
  ultimately show ?case
    using Cons.IH [of ?t ?p] Cons.prems(3) se by (simp add: q)
qed

text \<open>Marking any spans that cover every differing byte makes the page clean.\<close>

definition slices :: "bytes \<Rightarrow> (nat \<times> nat) list \<Rightarrow> (nat \<times> bytes) list" where
  "slices data = map (\<lambda>(s, e). (s, take (e - s) (drop s data)))"

lemma mark_cover_clean:
  assumes p: "tune_page t i = Some p" "length (pg_ecu p) = length (pg_data p)"
    and b: "\<forall>(s, e)\<in>set spans. s < e \<and> e \<le> length (pg_data p)"
    and cover: "\<And>k. k < length (pg_data p) \<Longrightarrow> pg_data p ! k \<noteq> pg_ecu p ! k \<Longrightarrow>
      \<exists>(s, e)\<in>set spans. s \<le> k \<and> k < e"
  shows "mark_all i (slices (pg_data p) spans) t = Ret (upd_page i (\<lambda>p. p\<lparr>pg_ecu := pg_data p\<rparr>) t)"
proof -
  let ?ecu = "foldl (\<lambda>ecu se. copy_span (pg_data p) se ecu) (pg_ecu p) spans"
  have "?ecu = pg_data p"
  proof (rule nth_equalityI)
    fix k assume "k < length ?ecu"
    then have k: "k < length (pg_data p)" using copy_spans(1) [OF p(2) b] by simp
    then show "?ecu ! k = pg_data p ! k"
      using copy_spans(2) [OF p(2) b k] cover [OF k] by (cases "pg_data p ! k = pg_ecu p ! k") auto
  qed (use copy_spans(1) [OF p(2) b] in simp)
  then have "upd_page i (\<lambda>q. q\<lparr>pg_ecu := foldl (\<lambda>ecu se. copy_span (pg_data q) se ecu) (pg_ecu q) spans\<rparr>) t
      = upd_page i (\<lambda>p. p\<lparr>pg_ecu := pg_data p\<rparr>) t"
    using p(1) by (simp add: upd_page_def tune_page_def list_get_def split: if_splits)
  then show ?thesis using mark_all_spans [OF p b] by (simp add: slices_def)
qed

text \<open>
  Flushing a page: for every gap limit, marking the dirty spans as sent succeeds and
  leaves the page clean; the local data and the burned copy are untouched.
\<close>

theorem send_spans_clean:
  assumes "tune_page t i = Some p" "length (pg_ecu p) = length (pg_data p)"
  shows "mark_all i (dirty_spans t i g) t = Ret (upd_page i (\<lambda>p. p\<lparr>pg_ecu := pg_data p\<rparr>) t)"
proof -
  let ?spans = "span_bounds g (pg_data p) (pg_ecu p)"
  have ok: "spans_ok g (pg_data p) (pg_ecu p) ?spans" by (rule span_bounds_ok)
  have "mark_all i (slices (pg_data p) ?spans) t = Ret (upd_page i (\<lambda>p. p\<lparr>pg_ecu := pg_data p\<rparr>) t)"
    using ok assms by (intro mark_cover_clean) (auto simp: spans_ok_def)
  then show ?thesis using assms(1) by (simp add: dirty_spans_def slices_def)
qed

definition sample_page :: tune where
  "sample_page = (tune_new ini_default)\<lparr>tn_pages :=
     [\<lparr>pg_data = [1, 2, 3, 4, 5, 6], pg_ecu = [1, 0, 3, 0, 5, 0], pg_burned = [1, 0, 3, 0, 5, 0]\<rparr>]\<rparr>"

theorem send_spans_clean_witness:
  "mark_all 0 (dirty_spans sample_page 0 1) sample_page
     = Ret (upd_page 0 (\<lambda>p. p\<lparr>pg_ecu := pg_data p\<rparr>) sample_page)"
  by (rule send_spans_clean [where p = "hd (tn_pages sample_page)"])
    (simp_all add: sample_page_def tune_page_def)

text \<open>
  The spans are exactly the edited bytes, grouped: every byte that differs from the
  ECU's is in a span, a span begins and ends at such a byte, spans are in order and more
  than the gap limit apart, and a span carries the local bytes of its range.
\<close>

theorem dirty_spans_exact:
  assumes "tune_page t i = Some p"
  shows "\<exists>bounds. spans_ok g (pg_data p) (pg_ecu p) bounds \<and>
    dirty_spans t i g = map (\<lambda>(s, e). (s, take (e - s) (drop s (pg_data p)))) bounds"
  using span_bounds_ok assms by (auto simp: dirty_spans_def)

theorem dirty_spans_exact_witness:
  "\<exists>bounds. spans_ok 0 [1, 2, 3, 4, 5, 6] [1, 0, 3, 0, 5, 0] bounds \<and>
    dirty_spans sample_page 0 0 = map (\<lambda>(s, e). (s, take (e - s) (drop s [1, 2, 3, 4, 5, 6]))) bounds"
  using dirty_spans_exact [of sample_page 0 "hd (tn_pages sample_page)" 0]
  by (simp add: sample_page_def tune_page_def)

end
