(* ===== verification/Tune_Laws.thy ===== *)
theory Tune_Laws
  imports Tune_Lookups Tune_Dirty
begin

text \<open>
  Laws of the tune's edits: what a setter writes and what it leaves alone, that writing a
  decoded value back changes nothing, and the effect of setting a bit field or a scalar on
  every branch.
\<close>

subsection \<open>What a write changes\<close>

lemma write_page_eq:
  "i < length (tn_pages t) \<Longrightarrow> write_page i off ty raw t =
     Ret (Inr (t\<lparr>tn_pages := (tn_pages t)[i := (tn_pages t ! i)\<lparr>pg_data :=
       snd (write_raw (pg_data (tn_pages t ! i)) off ty raw)\<rparr>]\<rparr>))"
  by (simp add: write_page_def upd_page_def)

lemma write_page_unchanged:
  assumes "i < length (tn_pages t)" "snd (write_raw (pg_data (tn_pages t ! i)) off ty raw) = pg_data (tn_pages t ! i)"
  shows "write_page i off ty raw t = Ret (Inr t)"
  using assms by (simp add: write_page_eq)

text \<open>\<open>t1\<close> is \<open>t\<close> with other local data, page for page of the same size.\<close>

definition same_but_data :: "tune \<Rightarrow> tune \<Rightarrow> bool" where
  "same_but_data t t1 \<longleftrightarrow> tn_def t1 = tn_def t \<and> tn_pc t1 = tn_pc t \<and> tn_loaded t1 = tn_loaded t \<and>
     map pg_ecu (tn_pages t1) = map pg_ecu (tn_pages t) \<and>
     map pg_burned (tn_pages t1) = map pg_burned (tn_pages t) \<and>
     map (length \<circ> pg_data) (tn_pages t1) = map (length \<circ> pg_data) (tn_pages t)"

lemma map_list_update_id: "i < length xs \<Longrightarrow> f x = f (xs ! i) \<Longrightarrow> map f (xs[i := x]) = map f xs"
  by (rule nth_equalityI) (auto simp: nth_list_update)

lemma write_page_frame:
  assumes "write_page i off ty raw t = Ret (Inr t1)"
  shows "same_but_data t t1"
    and "j < length (tn_pages t) \<Longrightarrow> j \<noteq> i \<or> off2 + ty_size ty2 \<le> off \<or> off + ty_size ty \<le> off2 \<Longrightarrow>
      read_raw (pg_data (tn_pages t1 ! j)) off2 ty2 = read_raw (pg_data (tn_pages t ! j)) off2 ty2"
    and "off + ty_size ty \<le> length (pg_data (tn_pages t ! i)) \<Longrightarrow> in_range ty raw \<Longrightarrow>
      read_raw (pg_data (tn_pages t1 ! i)) off ty = Some raw"
proof -
  have i: "i < length (tn_pages t)" using assms by (auto simp: write_page_def split: if_splits)
  have t1: "t1 = t\<lparr>tn_pages := (tn_pages t)[i := (tn_pages t ! i)\<lparr>pg_data :=
      snd (write_raw (pg_data (tn_pages t ! i)) off ty raw)\<rparr>]\<rparr>"
    using assms write_page_eq [OF i] by simp
  show "same_but_data t t1"
    using i by (auto simp: t1 same_but_data_def intro!: map_list_update_id)
  show "read_raw (pg_data (tn_pages t1 ! j)) off2 ty2 = read_raw (pg_data (tn_pages t ! j)) off2 ty2"
    if "j < length (tn_pages t)" "j \<noteq> i \<or> off2 + ty_size ty2 \<le> off \<or> off + ty_size ty \<le> off2"
    using that by (cases "j = i") (auto simp: t1 read_write_other)
  show "read_raw (pg_data (tn_pages t1 ! i)) off ty = Some raw"
    if "off + ty_size ty \<le> length (pg_data (tn_pages t ! i))" "in_range ty raw"
    using i that by (simp add: t1 read_write)
qed

lemma encode_in_range: "encode_impl t d c user clamp = Ret (Inr raw) \<Longrightarrow> in_range (cd_ty c) raw"
  by (auto simp: encode_impl_def Let_def run_simps to_raw_def clamped_in_range split: if_splits)

subsection \<open>Writing a decoded value back\<close>

lemma encode_decoded:
  assumes "num_or_expr_eval (tune_syms t d) (cd_scale c) = Ret (Inr s)"
    "num_or_expr_eval (tune_syms t d) (cd_translate c) = Ret (Inr tr)"
    "codec_ok s tr" "in_range (cd_ty c) raw"
  shows "scaled (tune_syms t d) c raw = Ret (Some (to_user s tr raw))"
    "encode_impl t d c (to_user s tr raw) False = Ret (Inr raw)"
proof -
  show "scaled (tune_syms t d) c raw = Ret (Some (to_user s tr raw))"
    using assms(1,2) by (simp add: scaled_def run_ok_def to_user_def)
  have "fval s \<noteq> 0" "is_finite s" using assms(3) by (auto simp: codec_ok_def)
  then have "\<not> feq s fzero" by (cases s) auto
  then show "encode_impl t d c (to_user s tr raw) False = Ret (Inr raw)"
    using assms by (simp add: encode_impl_def to_raw_decoded)
qed

text \<open>
  C13. Restoring is exact: the value read from a scalar constant, written back without the
  limits (as loading a saved tune does), leaves every byte as it was.  The rounding of the
  user value to binary floating point never moves the raw value.
\<close>

theorem scalar_write_back_exact:
  assumes c: "tune_constant t name = Some c" "cd_class c = Scalar" "location c = Some (i, off)"
    and page: "i < length (tn_pages t)" "off + ty_size (cd_ty c) \<le> length (pg_data (tn_pages t ! i))"
    and codec: "num_or_expr_eval (tune_syms t d) (cd_scale c) = Ret (Inr s)"
      "num_or_expr_eval (tune_syms t d) (cd_translate c) = Ret (Inr tr)" "codec_ok s tr"
  shows "\<exists>v. constant_value t (tune_syms t d) name = Ret (Some (VNum v)) \<and>
    set_constant_unclamped d name v t = Ret (Inr t)"
proof -
  obtain raw where raw: "read_raw (pg_data (tn_pages t ! i)) off (cd_ty c) = Some raw"
    using read_raw_Some [OF page(2)] by blast
  note enc = encode_decoded [OF codec read_raw_range [OF raw]]
  have "constant_value t (tune_syms t d) name = Ret (Some (VNum (to_user s tr raw)))"
    using c page raw enc by (simp add: constant_value_def tune_bytes_def tune_page_def)
  moreover have "set_constant_unclamped d name (to_user s tr raw) t = Ret (Inr t)"
    using c enc write_page_unchanged [OF page(1)] write_read [OF raw]
    by (simp add: set_constant_unclamped_def set_constant_impl_def)
  ultimately show ?thesis by blast
qed

lemma codec_ok_one: "codec_ok fone fzero"
  by (simp add: codec_ok_def)

theorem scalar_write_back_witness:
  "\<exists>v. constant_value (sample_tune (Num_lit (Fin (1 / 4)))) (tune_syms (sample_tune (Num_lit (Fin (1 / 4)))) 3) ''a''
      = Ret (Some (VNum v)) \<and>
    set_constant_unclamped 3 ''a'' v (sample_tune (Num_lit (Fin (1 / 4)))) = Ret (Inr (sample_tune (Num_lit (Fin (1 / 4)))))"
  by (rule scalar_write_back_exact [where c = "sample_const ''a'' (Num_lit (Fin (1 / 4))) 0" and i = 0 and off = 0
        and s = "Fin (1 / 4)" and tr = fzero])
    (simp_all add: sample_const_def location_def sample_tune_def codec_ok_def tune_constant_def im_get_def)

text \<open>
  The same for every element of an array constant, hence for every cell of a table.
\<close>

theorem array_write_back_exact:
  assumes c: "tune_constant t name = Some c" "cd_class c = Array_class" "location c = Some (i, off)"
    "cd_shape c = Some shape" "k < element_count shape"
    and page: "i < length (tn_pages t)"
      "off + k * ty_size (cd_ty c) + ty_size (cd_ty c) \<le> length (pg_data (tn_pages t ! i))"
    and codec: "num_or_expr_eval (tune_syms t d) (cd_scale c) = Ret (Inr s)"
      "num_or_expr_eval (tune_syms t d) (cd_translate c) = Ret (Inr tr)" "codec_ok s tr"
  shows "\<exists>v. array_element t (tune_syms t d) name k = Ret (Some v) \<and>
    set_array_element_unclamped d name k v t = Ret (Inr t)"
proof -
  obtain raw where raw: "read_raw (pg_data (tn_pages t ! i)) (off + k * ty_size (cd_ty c)) (cd_ty c) = Some raw"
    using read_raw_Some [OF page(2)] by blast
  note enc = encode_decoded [OF codec read_raw_range [OF raw]]
  have "array_element t (tune_syms t d) name k = Ret (Some (to_user s tr raw))"
    using c page raw enc by (simp add: array_element_def tune_bytes_def tune_page_def)
  moreover have "set_array_element_unclamped d name k (to_user s tr raw) t = Ret (Inr t)"
    using c enc write_page_unchanged [OF page(1)] write_read [OF raw]
    by (simp add: set_array_element_unclamped_def set_array_element_impl_def)
  ultimately show ?thesis by blast
qed

definition sample_array :: tune where
  "sample_array =
     \<lparr>tn_def = ini_default\<lparr>i_constants := [(''z'', (sample_const ''z'' (Num_lit fone) 0)
        \<lparr>cd_class := Array_class, cd_shape := Some (Array2D 2 3)\<rparr>)],
        i_tables := [(''tab'', \<lparr>td_id = ''tab'', td_map_id = ''m'', td_title = [], td_page = 1,
          td_x_bins = (''z'', None), td_y_bins = (''z'', None), td_z_bins = ''z'', td_xy_labels = [],
          td_grid_height = None, td_grid_orient = [], td_up_down_label = [], td_topic_help = None,
          td_misc = [], td_line = 1\<rparr>)]\<rparr>,
      tn_pages = [\<lparr>pg_data = [1, 2, 3, 4, 5, 6], pg_ecu = [1, 2, 3, 4, 5, 6], pg_burned = [1, 2, 3, 4, 5, 6]\<rparr>],
      tn_pc = Map.empty, tn_loaded = True\<rparr>"

lemma sample_array_simps [simp]:
  "tune_constant sample_array name = (if name = ''z'' then Some ((sample_const ''z'' (Num_lit fone) 0)
     \<lparr>cd_class := Array_class, cd_shape := Some (Array2D 2 3)\<rparr>) else None)"
  "length (tn_pages sample_array) = 1" "pg_data (tn_pages sample_array ! 0) = [1, 2, 3, 4, 5, 6]"
  by (simp_all add: tune_constant_def sample_array_def im_get_def)

theorem array_write_back_witness:
  "\<exists>v. array_element sample_array (tune_syms sample_array 1) ''z'' 4 = Ret (Some v) \<and>
    set_array_element_unclamped 1 ''z'' 4 v sample_array = Ret (Inr sample_array)"
  by (rule array_write_back_exact [where i = 0 and off = 0 and shape = "Array2D 2 3" and s = fone and tr = fzero
        and c = "(sample_const ''z'' (Num_lit fone) 0)\<lparr>cd_class := Array_class, cd_shape := Some (Array2D 2 3)\<rparr>"])
    (simp_all add: sample_const_def location_def codec_ok_one)

subsection \<open>Setting a constant\<close>

text \<open>The number in a bit field of a constant's raw value.\<close>

definition field_of :: "tune \<Rightarrow> nat \<Rightarrow> nat \<Rightarrow> data_type \<Rightarrow> nat \<Rightarrow> nat \<Rightarrow> u64 option" where
  "field_of t i off ty lo hi =
     map_option (\<lambda>raw. field_get (word_of_int raw) lo hi) (read_raw (pg_data (tn_pages t ! i)) off ty)"

lemma f_as_u64_of_nat:
  assumes "k < 2 ^ 53"
  shows "f_as_u64 (fmax (fround (f_of_int (int k))) fzero) = int k"
proof -
  have r: "fround (Fin (of_int (int k))) = Fin (of_int (int k))"
    using round_away_near [of "of_int (int k)" "int k"] by (simp add: mk_fin_def)
  have m: "fmax (Fin (of_int (int k))) fzero = Fin (of_int (int k))" by (simp add: fmax_def)
  have f: "f_of_int (int k) = Fin (of_int (int k))" using assms by (intro f_of_int_exact) simp
  show ?thesis
    unfolding f r m using assms by (intro f_as_of_int) auto
qed

text \<open>
  C14. Setting a bit field: a choice that fits the field is stored and read back, and every
  other field of the same raw value keeps its bits.
\<close>

theorem bits_set_then_read:
  assumes c: "tune_constant t name = Some c" "cd_class c = Bits" "location c = Some (i, off)"
      "cd_shape c = Some (Bits_shape lo hi)"
    and page: "i < length (tn_pages t)" "off + ty_size (cd_ty c) \<le> length (pg_data (tn_pages t ! i))"
    and field: "sized_field (cd_ty c) lo hi" "k < 2 ^ (hi - lo + 1)"
  shows "\<exists>t1. set_constant d name (f_of_int (int k)) t = Ret (Inr t1) \<and>
    constant_value t1 S name = Ret (Some (VNum (f_of_int (int k)))) \<and>
    same_but_data t t1 \<and>
    (\<forall>lo2 hi2. sized_field (cd_ty c) lo2 hi2 \<longrightarrow> hi < lo2 \<or> hi2 < lo \<longrightarrow>
      field_of t1 i off (cd_ty c) lo2 hi2 = field_of t i off (cd_ty c) lo2 hi2)"
proof -
  let ?data = "pg_data (tn_pages t ! i)" and ?ty = "cd_ty c"
  have ok: "field_ok lo hi" by (rule sized_field_ok [OF field(1)])
  have hl: "hi - lo < 32" using field(1) by (cases ?ty) (auto simp: sized_field_def)
  have "(2::nat) ^ (hi - lo + 1) \<le> 2 ^ 32" using hl by (intro power_increasing) auto
  then have k32: "k < 2 ^ 32" using field(2) by (rule order_less_le_trans [rotated])
  then have k: "k < 2 ^ 53" by simp
  obtain cur where cur: "read_raw ?data off ?ty = Some cur" using read_raw_Some [OF page(2)] by blast
  define w where "w = field_put (word_of_int cur) lo hi (word_of_int (int k))"
  obtain t1 where t1: "write_page i off ?ty (sint w) t = Ret (Inr t1)"
    using page(1) by (simp add: write_page_def)
  then have t1': "t1 = t\<lparr>tn_pages := (tn_pages t)[i := (tn_pages t ! i)\<lparr>pg_data :=
      snd (write_raw ?data off ?ty (sint w))\<rparr>]\<rparr>"
    using write_page_eq [OF page(1)] by simp
  then have data1: "pg_data (tn_pages t1 ! i) = snd (write_raw ?data off ?ty (sint w))"
    using page(1) by simp
  obtain r where r: "read_raw (snd (write_raw ?data off ?ty (sint w))) off ?ty = Some r"
    using read_written_bits [OF page(2)] by blast
  have set: "set_constant d name (f_of_int (int k)) t = Ret (Inr t1)"
    using c page(1) cur t1 f_as_u64_of_nat [OF k]
    by (simp add: set_constant_def set_constant_impl_def put_bits_def w_def)
  have vbits: "\<not> bit (word_of_int (int k) :: u64) n" if "hi - lo < n" for n
  proof -
    have "(2::nat) ^ (hi - lo + 1) \<le> 2 ^ n" using that by (intro power_increasing) auto
    then have "k < 2 ^ n" using field(2) by (rule order_less_le_trans [rotated])
    then have "\<not> bit k n" by (simp add: bit_iff_odd)
    then show ?thesis by (simp add: bit_simps)
  qed
  have "field_get (word_of_int r) lo hi = word_of_int (int k)"
    using field_after_write [OF page(2) field(1) r] field_get_put [OF ok, of "word_of_int (int k)"] vbits
    by (simp add: w_def)
  moreover have "uint (word_of_int (int k) :: u64) = int k"
    using k32 by (intro uint_of_int_range) auto
  ultimately have "constant_value t1 S name = Ret (Some (VNum (f_of_int (int k))))"
    using c page(1) r
    by (simp add: constant_value_def tune_bytes_def tune_page_def t1' tune_constant_def)
  moreover have "field_of t1 i off ?ty lo2 hi2 = field_of t i off ?ty lo2 hi2"
    if "sized_field ?ty lo2 hi2" "hi < lo2 \<or> hi2 < lo" for lo2 hi2
  proof -
    have "field_get w lo2 hi2 = field_get (word_of_int cur) lo2 hi2"
      unfolding w_def by (rule field_put_get_other [OF ok sized_field_ok [OF that(1)] that(2)])
    then show ?thesis
      using field_after_write [OF page(2) that(1) r] by (simp add: field_of_def data1 r cur)
  qed
  ultimately show ?thesis using set write_page_frame(1) [OF t1] by blast
qed

definition sample_bits :: tune where
  "sample_bits =
     \<lparr>tn_def = ini_default\<lparr>i_constants := [(''m'', (sample_const ''m'' (Num_lit fone) 1)
        \<lparr>cd_class := Bits, cd_shape := Some (Bits_shape 2 4)\<rparr>)]\<rparr>,
      tn_pages = [\<lparr>pg_data = [1, 255], pg_ecu = [1, 255], pg_burned = [1, 255]\<rparr>],
      tn_pc = Map.empty, tn_loaded = True\<rparr>"

theorem bits_set_then_read_witness:
  "\<exists>t1. set_constant 1 ''m'' (f_of_int (int 5)) sample_bits = Ret (Inr t1) \<and>
    constant_value t1 empty_symbols ''m'' = Ret (Some (VNum (f_of_int (int 5))))"
proof -
  have "(5::nat) < 2 ^ (4 - 2 + 1)" by simp
  then show ?thesis
    using bits_set_then_read [of sample_bits "''m''" "(sample_const ''m'' (Num_lit fone) 1)
        \<lparr>cd_class := Bits, cd_shape := Some (Bits_shape 2 4)\<rparr>" 0 1 2 4 5 1 empty_symbols]
    by (auto simp: sample_bits_def sample_const_def location_def sized_field_def tune_constant_def im_get_def)
qed

text \<open>
  C15. Setting a scalar constant, on every branch: without a page of that number the code
  panics; a field outside its page is silently dropped; otherwise exactly the encoded value
  is stored and any field of any page that does not overlap it keeps its raw value.
\<close>

theorem set_scalar_effect:
  assumes c: "tune_constant t name = Some c" "cd_class c = Scalar" "location c = Some (i, off)"
    and enc: "encode_impl t d c user True = Ret (Inr raw)"
  shows "if length (tn_pages t) \<le> i then set_constant d name user t = Crash Panic
    else if length (pg_data (tn_pages t ! i)) < off + ty_size (cd_ty c)
    then set_constant d name user t = Ret (Inr t)
    else \<exists>t1. set_constant d name user t = Ret (Inr t1) \<and> same_but_data t t1 \<and>
      constant_raw t1 name = Some raw \<and>
      (\<forall>j off2 ty2. j < length (tn_pages t) \<longrightarrow>
        j \<noteq> i \<or> off2 + ty_size ty2 \<le> off \<or> off + ty_size (cd_ty c) \<le> off2 \<longrightarrow>
        read_raw (pg_data (tn_pages t1 ! j)) off2 ty2 = read_raw (pg_data (tn_pages t ! j)) off2 ty2)"
proof -
  have eq: "set_constant d name user t = write_page i off (cd_ty c) raw t"
    using c enc by (simp add: set_constant_def set_constant_impl_def)
  consider "length (tn_pages t) \<le> i"
    | "i < length (tn_pages t)" "length (pg_data (tn_pages t ! i)) < off + ty_size (cd_ty c)"
    | "i < length (tn_pages t)" "off + ty_size (cd_ty c) \<le> length (pg_data (tn_pages t ! i))"
    by linarith
  then show ?thesis
  proof cases
    case 1
    then show ?thesis by (simp add: eq write_page_def)
  next
    case 2
    then have "write_page i off (cd_ty c) raw t = Ret (Inr t)"
      by (intro write_page_unchanged) (simp_all add: write_raw_def)
    with 2 show ?thesis by (simp add: eq)
  next
    case 3
    then obtain t1 where t1: "write_page i off (cd_ty c) raw t = Ret (Inr t1)" by (simp add: write_page_def)
    have "length (tn_pages t1) = length (tn_pages t)" "tn_def t1 = tn_def t"
      using write_page_frame(1) [OF t1] by (auto simp: same_but_data_def dest: map_eq_imp_length_eq)
    moreover have "read_raw (pg_data (tn_pages t1 ! i)) off (cd_ty c) = Some raw"
      using write_page_frame(3) [OF t1 3(2) encode_in_range [OF enc]] .
    ultimately have "constant_raw t1 name = Some raw"
      using c 3(1) by (simp add: constant_raw_def tune_bytes_def tune_page_def tune_constant_def)
    with 3 write_page_frame(1,2) [OF t1] show ?thesis by (auto simp: eq t1)
  qed
qed

text \<open>Without a page, and on the page of the sample: the byte next to it stays.\<close>

theorem set_scalar_effect_witness:
  fixes t :: tune
  defines "t \<equiv> sample_tune (Num_lit fone)"
  shows "set_constant 2 ''a'' (Fin 9) (t\<lparr>tn_pages := []\<rparr>) = Crash Panic \<and>
    (\<exists>t1 raw. encode_impl t 2 (sample_const ''a'' (Num_lit fone) 0) (Fin 9) True = Ret (Inr raw) \<and>
      set_constant 2 ''a'' (Fin 9) t = Ret (Inr t1) \<and> constant_raw t1 ''a'' = Some raw \<and>
      read_raw (pg_data (tn_pages t1 ! 0)) 1 U08 = read_raw (pg_data (tn_pages t ! 0)) 1 U08)"
proof -
  let ?c = "sample_const ''a'' (Num_lit fone) 0"
  have c: "tune_constant u ''a'' = Some ?c" if "tn_def u = tn_def t" for u
    using that by (simp add: t_def tune_constant_def sample_tune_def im_get_def)
  have k: "cd_class ?c = Scalar" "location ?c = Some (0, 0)" "cd_ty ?c = U08"
    by (simp_all add: sample_const_def location_def)
  have "\<exists>raw. encode_impl u 2 ?c (Fin 9) True = Ret (Inr raw)" for u
    by (simp add: encode_impl_def sample_const_def limit_both_def limit_by_def)
  then obtain raw raw1 where raw: "encode_impl t 2 ?c (Fin 9) True = Ret (Inr raw)"
    "encode_impl (t\<lparr>tn_pages := []\<rparr>) 2 ?c (Fin 9) True = Ret (Inr raw1)" by blast
  have "set_constant 2 ''a'' (Fin 9) (t\<lparr>tn_pages := []\<rparr>) = Crash Panic"
    using set_scalar_effect [OF c k(1,2) raw(2)] by simp
  moreover have "length (tn_pages t) = 1" "length (pg_data (tn_pages t ! 0)) = 2"
    by (simp_all add: t_def sample_tune_def)
  then obtain t1 where "set_constant 2 ''a'' (Fin 9) t = Ret (Inr t1)" "constant_raw t1 ''a'' = Some raw"
    "read_raw (pg_data (tn_pages t1 ! 0)) 1 U08 = read_raw (pg_data (tn_pages t ! 0)) 1 U08"
    using set_scalar_effect [OF c [OF refl] k(1,2) raw(1)] k(3) by auto
  ultimately show ?thesis using raw(1) by blast
qed

end
