(* ===== verification/Tune_Reach.thy ===== *)
theory Tune_Reach
  imports Tune_Laws
begin

text \<open>
  The operations of a tune as a step relation, the page-size invariant of every reachable
  tune, and the table view and its edits.
\<close>

subsection \<open>Reachable tunes\<close>

text \<open>
  The three copies of every page have the size the definition declares.
\<close>

definition page_sized :: "nat \<Rightarrow> page_state \<Rightarrow> bool" where
  "page_sized n p \<longleftrightarrow> length (pg_data p) = n \<and> length (pg_ecu p) = n \<and> length (pg_burned p) = n"

definition tune_ok :: "ini_def \<Rightarrow> tune \<Rightarrow> bool" where
  "tune_ok def t \<longleftrightarrow> tn_def t = def \<and> list_all2 page_sized (h_page_sizes (i_header def)) (tn_pages t)"

text \<open>
  The operations of the server on a tune.  Page bytes come from the ECU as whole pages
  (\<open>read_page\<close> returns exactly the declared size).
\<close>

definition fits :: "tune \<Rightarrow> nat \<Rightarrow> bytes \<Rightarrow> bool" where
  "fits t i bs \<longleftrightarrow> list_get (h_page_sizes (i_header (tn_def t))) i \<in> {None, Some (length bs)}"

inductive tune_step :: "tune \<Rightarrow> tune \<Rightarrow> bool" where
  load: "fits t i bs \<Longrightarrow> tune_step t (load_page i bs t)"
| resync: "fits t i bs \<Longrightarrow> tune_step t (resync_ecu i bs t)"
| sync: "tune_step t (sync_shadows t)"
| loaded: "tune_step t (set_loaded b t)"
| const: "set_constant_impl d name user clamp t = Ret (Inr t1) \<Longrightarrow> tune_step t t1"
| element: "set_array_element_impl d name k user clamp t = Ret (Inr t1) \<Longrightarrow> tune_step t t1"
| axis: "set_table_axis d ident ax k user t = Ret (Inr t1) \<Longrightarrow> tune_step t t1"
| cell: "set_table_cell d ident row col user t = Ret (Inr t1) \<Longrightarrow> tune_step t t1"
| pc: "set_pc_value d name user t = Ret (Inr t1) \<Longrightarrow> tune_step t t1"
| adopt: "tune_step t (adopt_pc_values previous t)"
| sent: "mark_sent i off n t = Ret t1 \<Longrightarrow> tune_step t t1"
| burned: "tune_step t (mark_burned i t)"

inductive tune_reach :: "ini_def \<Rightarrow> tune \<Rightarrow> bool" for def where
  new: "tune_reach def (tune_new def)"
| step: "tune_reach def t \<Longrightarrow> tune_step t t1 \<Longrightarrow> tune_reach def t1"

lemma map_eq_nth: "map f xs = map f ys \<Longrightarrow> i < length ys \<Longrightarrow> f (xs ! i) = f (ys ! i)"
  by (metis length_map nth_map)

lemma same_but_data_ok:
  assumes "same_but_data t t1" "tune_ok def t"
  shows "tune_ok def t1"
proof -
  have maps: "map pg_ecu (tn_pages t1) = map pg_ecu (tn_pages t)"
      "map pg_burned (tn_pages t1) = map pg_burned (tn_pages t)"
      "map (length \<circ> pg_data) (tn_pages t1) = map (length \<circ> pg_data) (tn_pages t)"
    and d: "tn_def t1 = tn_def t"
    using assms(1) by (simp_all add: same_but_data_def)
  have len: "length (tn_pages t1) = length (tn_pages t)" using maps(1) by (rule map_eq_imp_length_eq)
  have "page_sized n (tn_pages t1 ! i)" if "page_sized n (tn_pages t ! i)" "i < length (tn_pages t)" for n i
    using that map_eq_nth [OF maps(1) that(2)] map_eq_nth [OF maps(2) that(2)] map_eq_nth [OF maps(3) that(2)]
    by (simp add: page_sized_def)
  with assms(2) len d show ?thesis by (simp add: tune_ok_def list_all2_conv_all_nth)
qed

lemma put_bits_frame: "put_bits name i off lo hi ty user t = Ret (Inr t1) \<Longrightarrow> same_but_data t t1"
  by (auto simp: put_bits_def dest: write_page_frame(1) split: if_splits option.splits)

lemma set_constant_frame: "set_constant_impl d name user clamp t = Ret (Inr t1) \<Longrightarrow> same_but_data t t1"
  by (auto simp: set_constant_impl_def run_simps dest: write_page_frame(1) put_bits_frame
      split: option.splits constant_class.splits shape.splits)

lemma set_element_frame: "set_array_element_impl d name k user clamp t = Ret (Inr t1) \<Longrightarrow> same_but_data t t1"
  by (auto simp: set_array_element_impl_def run_simps Let_def dest: write_page_frame(1)
      split: option.splits if_splits)

lemma set_table_frame:
  "set_table_axis d ident ax k user t = Ret (Inr t1) \<Longrightarrow> same_but_data t t1"
  "set_table_cell d ident row col user t = Ret (Inr t1) \<Longrightarrow> same_but_data t t1"
  by (auto simp: set_table_axis_def set_table_cell_def set_array_element_def dest: set_element_frame
      split: option.splits if_splits)

lemma upd_page_ok:
  assumes "tune_ok def t"
    "\<And>p n. page_sized n p \<Longrightarrow> list_get (h_page_sizes (i_header def)) i = Some n \<Longrightarrow> page_sized n (f p)"
  shows "tune_ok def (upd_page i f t)"
proof (cases "i < length (tn_pages t)")
  case True
  let ?sizes = "h_page_sizes (i_header def)"
  have "i < length ?sizes" "page_sized (?sizes ! i) (tn_pages t ! i)"
    using assms(1) True by (auto simp: tune_ok_def list_all2_conv_all_nth)
  then have "page_sized (?sizes ! i) (f (tn_pages t ! i))" using assms(2) by simp
  then have "list_all2 page_sized (?sizes[i := ?sizes ! i]) ((tn_pages t)[i := f (tn_pages t ! i)])"
    using assms(1) by (intro list_all2_update_cong) (auto simp: tune_ok_def)
  then show ?thesis using assms(1) True by (simp add: tune_ok_def upd_page_def)
qed (use assms(1) in \<open>simp add: upd_page_def\<close>)

lemma tune_new_ok: "tune_ok def (tune_new def)"
  by (simp add: tune_ok_def tune_new_def page_new_def page_sized_def list_all2_conv_all_nth)

lemma tune_ok_def_eq: "tune_ok def t \<Longrightarrow> tn_def t = def"
  by (simp add: tune_ok_def)

lemma tune_step_ok:
  assumes "tune_step t t1" "tune_ok def t"
  shows "tune_ok def t1"
  using assms(1)
proof cases
  case (load i bs)
  then show ?thesis unfolding load_page_def
    using assms(2) tune_ok_def_eq [OF assms(2)] by (auto simp: fits_def page_sized_def intro!: upd_page_ok)
next
  case (resync i bs)
  then show ?thesis unfolding resync_ecu_def
    using assms(2) tune_ok_def_eq [OF assms(2)] by (auto simp: fits_def page_sized_def intro!: upd_page_ok)
next
  case sync
  then show ?thesis
    using assms(2) by (simp add: sync_shadows_def tune_ok_def list_all2_conv_all_nth page_sized_def)
next
  case (loaded b)
  then show ?thesis using assms(2) by (simp add: set_loaded_def tune_ok_def)
next
  case (pc d name user)
  then show ?thesis using assms(2) by (auto simp: set_pc_value_def run_simps tune_ok_def split: option.splits)
next
  case (adopt previous)
  then show ?thesis using assms(2) by (simp add: adopt_pc_values_def tune_ok_def)
next
  case (sent i off n)
  then have "t1 = t \<or> (\<exists>p. tune_page t i = Some p \<and> off + n \<le> length (pg_data p) \<and> off + n \<le> length (pg_ecu p) \<and>
      t1 = upd_page i (\<lambda>p. p\<lparr>pg_ecu := splice (pg_ecu p) off (take n (drop off (pg_data p)))\<rparr>) t)"
    by (auto simp: mark_sent_def split: option.splits if_splits)
  then show ?thesis
  proof
    assume "\<exists>p. tune_page t i = Some p \<and> off + n \<le> length (pg_data p) \<and> off + n \<le> length (pg_ecu p) \<and>
      t1 = upd_page i (\<lambda>p. p\<lparr>pg_ecu := splice (pg_ecu p) off (take n (drop off (pg_data p)))\<rparr>) t"
    then obtain p where p: "tune_page t i = Some p" "off + n \<le> length (pg_data p)"
      and t1: "t1 = upd_page i (\<lambda>p. p\<lparr>pg_ecu := splice (pg_ecu p) off (take n (drop off (pg_data p)))\<rparr>) t"
      by blast
    have "list_get (h_page_sizes (i_header def)) i = Some (length (pg_data p))"
      using p(1) assms(2)
      by (auto simp: tune_page_def list_get_eq_Some tune_ok_def list_all2_conv_all_nth page_sized_def)
    with p(2) show ?thesis unfolding t1
      by (intro upd_page_ok [OF assms(2)]) (auto simp: page_sized_def)
  qed (use assms(2) in simp)
next
  case (burned i)
  then show ?thesis unfolding mark_burned_def
    using assms(2) by (auto simp: page_sized_def intro!: upd_page_ok)
qed (use assms(2) in \<open>auto intro: same_but_data_ok dest: set_constant_frame set_element_frame set_table_frame\<close>)

text \<open>
  C12. In every tune the server can reach, the three copies of each page have the size the
  definition file declares; so marking a span as sent never slices out of range.
\<close>

theorem reachable_tune_ok:
  assumes "tune_reach def t"
  shows "tune_ok def t \<and> (\<forall>i off n. returns (mark_sent i off n t))"
proof -
  have ok: "tune_ok def t"
    using assms by (induction rule: tune_reach.induct) (auto intro: tune_new_ok tune_step_ok)
  have "length (pg_ecu p) = length (pg_data p)" if "tune_page t i = Some p" for i p
  proof -
    have i: "i < length (tn_pages t)" "p = tn_pages t ! i"
      using that by (auto simp: tune_page_def list_get_eq_Some)
    then show ?thesis using ok by (auto simp: tune_ok_def list_all2_conv_all_nth page_sized_def)
  qed
  then show ?thesis using ok by (auto simp: mark_sent_def split: option.splits)
qed

theorem reachable_tune_ok_witness:
  fixes def :: ini_def
  defines "def \<equiv> ini_default\<lparr>i_header := header_default\<lparr>h_page_sizes := [2]\<rparr>\<rparr>"
  shows "tune_ok def (load_page 0 [1, 255] (tune_new def))"
proof -
  have "tune_step (tune_new def) (load_page 0 [1, 255] (tune_new def))"
    by (rule tune_step.load) (simp add: fits_def tune_new_def def_def)
  then have "tune_reach def (load_page 0 [1, 255] (tune_new def))"
    by (rule tune_reach.step [OF tune_reach.new])
  then show ?thesis using reachable_tune_ok [of def "load_page 0 [1, 255] (tune_new def)"] by blast
qed

subsection \<open>What an edit can change\<close>

text \<open>\<open>t1\<close> differs from \<open>t\<close> in local data within \<open>R\<close> and in PC variables at most.\<close>

definition only_bytes :: "(nat \<times> nat) set \<Rightarrow> tune \<Rightarrow> tune \<Rightarrow> bool" where
  "only_bytes R t t1 \<longleftrightarrow> tn_def t1 = tn_def t \<and> tn_loaded t1 = tn_loaded t \<and>
     map pg_ecu (tn_pages t1) = map pg_ecu (tn_pages t) \<and>
     map pg_burned (tn_pages t1) = map pg_burned (tn_pages t) \<and>
     map (length \<circ> pg_data) (tn_pages t1) = map (length \<circ> pg_data) (tn_pages t) \<and>
     (\<forall>i < length (tn_pages t). \<forall>b < length (pg_data (tn_pages t ! i)). (i, b) \<notin> R \<longrightarrow>
        pg_data (tn_pages t1 ! i) ! b = pg_data (tn_pages t ! i) ! b)"

lemma only_bytes_refl [simp]: "only_bytes R t t"
  by (simp add: only_bytes_def)

lemma only_bytes_mono: "only_bytes R t t1 \<Longrightarrow> R \<subseteq> S \<Longrightarrow> only_bytes S t t1"
  unfolding only_bytes_def by blast

lemma only_bytes_trans:
  assumes "only_bytes R a b" "only_bytes R b c"
  shows "only_bytes R a c"
proof -
  have len: "length (tn_pages b) = length (tn_pages a)"
    and lens: "length (pg_data (tn_pages b ! i)) = length (pg_data (tn_pages a ! i))"
      if "i < length (tn_pages a)" for i
    using assms(1) that
    by (auto simp: only_bytes_def dest: map_eq_imp_length_eq map_eq_nth [where f = "length \<circ> pg_data"])
  have "length (tn_pages b) = length (tn_pages a)"
    using assms(1) by (auto simp: only_bytes_def dest: map_eq_imp_length_eq)
  with assms lens show ?thesis by (auto simp: only_bytes_def)
qed

lemma write_page_only:
  assumes "write_page i off ty raw t = Ret (Inr t1)"
    "\<And>b. off \<le> b \<Longrightarrow> b < off + ty_size ty \<Longrightarrow> (i, b) \<in> R"
  shows "only_bytes R t t1"
proof -
  have i: "i < length (tn_pages t)" using assms(1) by (auto simp: write_page_def split: if_splits)
  have t1: "t1 = t\<lparr>tn_pages := (tn_pages t)[i := (tn_pages t ! i)\<lparr>pg_data :=
      snd (write_raw (pg_data (tn_pages t ! i)) off ty raw)\<rparr>]\<rparr>"
    using assms(1) write_page_eq [OF i] by simp
  have "snd (write_raw (pg_data (tn_pages t ! i)) off ty raw) ! b = pg_data (tn_pages t ! i) ! b"
    if "b < length (pg_data (tn_pages t ! i))" "(i, b) \<notin> R" for b
    using that assms(2) [of b] by (auto simp: write_raw_def nth_splice not_le not_less)
  then have "pg_data (tn_pages t1 ! j) ! b = pg_data (tn_pages t ! j) ! b"
    if "j < length (tn_pages t)" "b < length (pg_data (tn_pages t ! j))" "(j, b) \<notin> R" for j b
    using that i by (cases "j = i") (simp_all add: t1)
  with write_page_frame(1) [OF assms(1)] show ?thesis
    by (simp add: only_bytes_def same_but_data_def)
qed

subsection \<open>Tables\<close>

lemma run_mapM_Ret: "(\<And>x. x \<in> set xs \<Longrightarrow> f x = Ret (g x)) \<Longrightarrow> run_mapM f xs = Ret (map g xs)"
  by (induction xs) auto

lemma grid_rows_Ret:
  assumes "nx * ny \<le> length cells"
  shows "grid_rows nx ny cells = Ret (map (\<lambda>row. take nx (drop (row * nx) cells)) [0 ..< ny])"
  unfolding grid_rows_def
proof (rule run_mapM_Ret)
  fix row assume "row \<in> set [0 ..< ny]"
  then have "nx + row * nx \<le> nx * ny" using mult_le_mono1 [of "row + 1" ny nx] by (simp add: algebra_simps)
  then show "(case slice_get cells (row * nx) ((row + 1) * nx) of None \<Rightarrow> Crash Panic | Some r \<Rightarrow> Ret r)
      = Ret (take nx (drop (row * nx) cells))"
    using assms by (simp add: slice_get_def)
qed

lemma array_values_nth:
  assumes "array_values t S name = Ret (Some vs)" "tune_constant t name = Some c" "cd_shape c = Some shape"
  shows "length vs = element_count shape"
    "k < element_count shape \<Longrightarrow> array_element t S name k = Ret (Some (vs ! k))"
  using assms by (auto simp: array_values_def ro_mapM_Some list_all2_conv_all_nth)

lemma table_dims_count:
  assumes "table_dims t tab = Some (nx, ny)"
  shows "\<exists>c shape. tune_constant t (td_z_bins tab) = Some c \<and> cd_shape c = Some shape \<and>
    element_count shape = nx * ny"
proof -
  obtain c where c: "tune_constant t (td_z_bins tab) = Some c"
    using assms by (cases "tune_constant t (td_z_bins tab)") (simp_all add: table_dims_def)
  obtain shape where s: "cd_shape c = Some shape"
    using assms c by (cases "cd_shape c") (simp_all add: table_dims_def)
  have "element_count shape = nx * ny"
    using assms c s by (cases shape) (auto simp: table_dims_def)
  with c s show ?thesis by blast
qed

text \<open>
  The table view is the array laid out row by row: the grid has the table's dimensions
  and the cell in a row and column is the element \<open>row * columns + column\<close> of the z array.
\<close>

theorem table_view_cells:
  assumes "table_view t d ident = Ret (Some tb)" "table_of t ident = Some tab" "table_dims t tab = Some (nx, ny)"
  shows "length (tb_z tb) = ny \<and> (\<forall>row < ny. length (tb_z tb ! row) = nx \<and>
    (\<forall>col < nx. array_element t (tune_syms t d) (td_z_bins tab) (row * nx + col)
      = Ret (Some (tb_z tb ! row ! col))))"
proof -
  let ?S = "tune_syms t d"
  obtain c shape where c: "tune_constant t (td_z_bins tab) = Some c" "cd_shape c = Some shape"
    "element_count shape = nx * ny"
    using table_dims_count [OF assms(3)] by blast
  obtain cells where cells: "array_values t ?S (td_z_bins tab) = Ret (Some cells)"
    and z: "grid_rows nx ny cells = Ret (tb_z tb)"
    using assms by (auto simp: table_view_def Let_def run_simps)
  have len: "length cells = nx * ny" using array_values_nth(1) [OF cells c(1,2)] c(3) by simp
  have z1: "tb_z tb = map (\<lambda>row. take nx (drop (row * nx) cells)) [0 ..< ny]"
    using grid_rows_Ret [of nx ny cells] len z by simp
  have "row * nx + col < nx * ny" "row * nx + nx \<le> nx * ny" if "row < ny" "col < nx" for row col
  proof -
    show "row * nx + nx \<le> nx * ny" using that mult_le_mono1 [of "row + 1" ny nx] by (simp add: algebra_simps)
    then show "row * nx + col < nx * ny" using that by linarith
  qed
  moreover have "nx \<le> length cells - row * nx" if "row < ny" for row
    using that mult_le_mono1 [of "row + 1" ny nx] len by (simp add: algebra_simps)
  ultimately show ?thesis
    using array_values_nth(2) [OF cells c(1,2)] len by (simp add: z1 c(3))
qed

text \<open>The write a successful cell edit makes.\<close>

lemma table_cell_write:
  assumes "set_table_cell d ident row col v t = Ret (Inr t1)" "table_of t ident = Some tab"
    "table_dims t tab = Some (nx, ny)" "tune_constant t (td_z_bins tab) = Some c"
  obtains i off raw where "row < ny" "col < nx" "location c = Some (i, off)"
    "encode_impl t d c v True = Ret (Inr raw)"
    "write_page i (off + (row * nx + col) * ty_size (cd_ty c)) (cd_ty c) raw t = Ret (Inr t1)"
proof -
  have "row < ny" "col < nx" "set_array_element_impl d (td_z_bins tab) (row * nx + col) v True t = Ret (Inr t1)"
    using assms by (auto simp: set_table_cell_def set_array_element_def split: if_splits)
  with assms(4) that show thesis
    by (auto simp: set_array_element_impl_def Let_def run_simps split: if_splits option.splits)
qed

lemma other_element_apart:
  assumes "k \<noteq> (j :: nat)"
  shows "off + k * sz + sz \<le> off + j * sz \<or> off + j * sz + sz \<le> off + k * sz"
proof -
  have "k + 1 \<le> j \<or> j + 1 \<le> k" using assms by linarith
  then have "(k + 1) * sz \<le> j * sz \<or> (j + 1) * sz \<le> k * sz" using mult_le_mono1 by blast
  then show ?thesis by (auto simp: algebra_simps)
qed

text \<open>
  C18. Editing a table cell writes one element: when the element lies inside its page, its raw
  value is afterwards the encoding of the user value, limited to the bounds of the array; when
  it does not, nothing changes.  Every other element of the z array keeps its raw value, and in
  the whole tune at most the bytes of the element change.
\<close>

theorem table_cell_edit:
  assumes "set_table_cell d ident row col v t = Ret (Inr t1)" "table_of t ident = Some tab"
    "table_dims t tab = Some (nx, ny)" "tune_constant t (td_z_bins tab) = Some c"
  shows "row < ny \<and> col < nx \<and>
    (\<exists>i off raw. location c = Some (i, off) \<and> encode_impl t d c v True = Ret (Inr raw) \<and>
      i < length (tn_pages t) \<and>
      (let start = off + (row * nx + col) * ty_size (cd_ty c); stop = start + ty_size (cd_ty c)
       in (if stop \<le> length (pg_data (tn_pages t ! i))
           then array_raw t1 (td_z_bins tab) (row * nx + col) = Some raw else t1 = t) \<and>
          only_bytes {(i, b) |b. start \<le> b \<and> b < stop} t t1)) \<and>
    same_but_data t t1 \<and>
    (\<forall>k. k \<noteq> row * nx + col \<longrightarrow> array_raw t1 (td_z_bins tab) k = array_raw t (td_z_bins tab) k)"
proof -
  let ?sz = "ty_size (cd_ty c)"
  obtain i off raw where rc: "row < ny" "col < nx" and loc: "location c = Some (i, off)"
    and enc: "encode_impl t d c v True = Ret (Inr raw)"
    and w: "write_page i (off + (row * nx + col) * ?sz) (cd_ty c) raw t = Ret (Inr t1)"
    using table_cell_write [OF assms] .
  define start where "start = off + (row * nx + col) * ?sz"
  note w = w [folded start_def]
  have i: "i < length (tn_pages t)" using w by (auto simp: write_page_def split: if_splits)
  have frame: "same_but_data t t1" by (rule write_page_frame(1) [OF w])
  then have def: "tn_def t1 = tn_def t" "length (tn_pages t1) = length (tn_pages t)"
    by (auto simp: same_but_data_def dest: map_eq_imp_length_eq)
  have raw: "array_raw u (td_z_bins tab) k = read_raw (pg_data (tn_pages u ! i)) (off + k * ?sz) (cd_ty c)"
    if "tn_def u = tn_def t" "length (tn_pages u) = length (tn_pages t)" for u k
    using assms(4) loc i that by (simp add: array_raw_def tune_bytes_def tune_page_def tune_constant_def list_get_def)
  have "array_raw t1 (td_z_bins tab) k = array_raw t (td_z_bins tab) k" if "k \<noteq> row * nx + col" for k
    using write_page_frame(2) [OF w i] other_element_apart [OF that, of off ?sz] raw def
    by (auto simp: start_def)
  moreover have "if start + ?sz \<le> length (pg_data (tn_pages t ! i))
      then array_raw t1 (td_z_bins tab) (row * nx + col) = Some raw else t1 = t"
  proof (cases "start + ?sz \<le> length (pg_data (tn_pages t ! i))")
    case True
    then have "read_raw (pg_data (tn_pages t1 ! i)) start (cd_ty c) = Some raw"
      by (rule write_page_frame(3) [OF w _ encode_in_range [OF enc]])
    with True raw def show ?thesis by (simp add: start_def)
  next
    case False
    then have "write_page i start (cd_ty c) raw t = Ret (Inr t)"
      by (intro write_page_unchanged [OF i]) (simp add: write_raw_def)
    with w False show ?thesis by simp
  qed
  moreover have "only_bytes {(i, b) |b. start \<le> b \<and> b < start + ?sz} t t1"
    by (rule write_page_only [OF w]) simp
  ultimately show ?thesis using rc loc enc i frame unfolding start_def Let_def by blast
qed

lemma sample_table:
  obtains tab where "table_of sample_array ''tab'' = Some tab" "table_dims sample_array tab = Some (2, 3)"
    "td_z_bins tab = ''z''"
  by (simp add: table_of_def sample_array_def im_get_def table_dims_def tune_constant_def sample_const_def)

theorem table_cell_edit_witness:
  "\<exists>t1. set_table_cell 1 ''tab'' 2 1 (Fin 9) sample_array = Ret (Inr t1) \<and>
    array_raw t1 ''z'' 3 = array_raw sample_array ''z'' 3 \<and>
    (\<exists>raw. encode_impl sample_array 1 ((sample_const ''z'' (Num_lit fone) 0)
        \<lparr>cd_class := Array_class, cd_shape := Some (Array2D 2 3)\<rparr>) (Fin 9) True = Ret (Inr raw) \<and>
      array_raw t1 ''z'' 5 = Some raw)"
proof -
  obtain tab where tab: "table_of sample_array ''tab'' = Some tab" "table_dims sample_array tab = Some (2, 3)"
    "td_z_bins tab = ''z''" by (rule sample_table)
  let ?c = "(sample_const ''z'' (Num_lit fone) 0)\<lparr>cd_class := Array_class, cd_shape := Some (Array2D 2 3)\<rparr>"
  have "\<exists>t1. set_table_cell 1 ''tab'' 2 1 (Fin 9) sample_array = Ret (Inr t1)"
    using tab by (simp add: set_table_cell_def set_array_element_def set_array_element_impl_def
        sample_const_def location_def encode_impl_def limit_both_def limit_by_def write_page_def)
  then obtain t1 where t1: "set_table_cell 1 ''tab'' 2 1 (Fin 9) sample_array = Ret (Inr t1)" by blast
  have c: "tune_constant sample_array (td_z_bins tab) = Some ?c" by (simp add: tab(3))
  have "location ?c = Some (0, 0)" "ty_size (cd_ty ?c) = 1" by (simp_all add: sample_const_def location_def)
  with table_cell_edit [OF t1 tab(1,2) c] t1 tab(3) show ?thesis by (auto simp: Let_def)
qed

lemma sample_array_values: "\<exists>vs. array_values sample_array S ''z'' = Ret (Some vs)"
proof -
  let ?c = "(sample_const ''z'' (Num_lit fone) 0)\<lparr>cd_class := Array_class, cd_shape := Some (Array2D 2 3)\<rparr>"
  have sc: "scaled S ?c raw = Ret (Some (to_user fone fzero raw))" for raw
    by (simp add: scaled_def run_ok_def to_user_def sample_const_def)
  have "\<exists>v. array_element sample_array S ''z'' k = Ret (Some v)" if "k < 6" for k
  proof -
    have "k + ty_size U08 \<le> length ([1, 2, 3, 4, 5, 6] :: bytes)" using that by simp
    from read_raw_Some [OF this]
    obtain raw where "read_raw [1, 2, 3, 4, 5, 6] k U08 = Some raw" by blast
    moreover have "tune_page sample_array 0 = Some (tn_pages sample_array ! 0)"
      by (simp add: tune_page_def list_get_def)
    moreover have "location ?c = Some (0, 0)" by (simp add: sample_const_def location_def)
    ultimately show ?thesis using that sc
      by (simp add: array_element_def tune_bytes_def) (simp add: sample_const_def)
  qed
  then obtain g where "\<And>k. k < 6 \<Longrightarrow> array_element sample_array S ''z'' k = Ret (Some (g k))" by metis
  then have "list_all2 (\<lambda>k v. array_element sample_array S ''z'' k = Ret (Some v)) [0 ..< 6] (map g [0 ..< 6])"
    by (simp add: list_all2_conv_all_nth)
  then have "ro_mapM (array_element sample_array S ''z'') [0 ..< 6] = Ret (Some (map g [0 ..< 6]))"
    by (simp only: ro_mapM_Some)
  then show ?thesis by (simp add: array_values_def)
qed

theorem table_view_cells_witness:
  "\<exists>tb. table_view sample_array 1 ''tab'' = Ret (Some tb) \<and> length (tb_z tb) = 3"
proof -
  obtain tab where tab: "table_of sample_array ''tab'' = Some tab" "table_dims sample_array tab = Some (2, 3)"
    "td_z_bins tab = ''z''" by (rule sample_table)
  have bins: "fst (td_x_bins tab) = ''z''" "fst (td_y_bins tab) = ''z''"
    using tab(1) by (auto simp: table_of_def sample_array_def im_get_def)
  obtain vs where vs: "array_values sample_array (tune_syms sample_array 1) ''z'' = Ret (Some vs)"
    using sample_array_values by blast
  then have "length vs = 6" by (simp add: array_values_nth(1) sample_const_def)
  then have "\<exists>tb. table_view sample_array 1 ''tab'' = Ret (Some tb)"
    using tab bins vs grid_rows_Ret [of 2 3 vs]
    by (simp add: table_view_def opt_eval_def axis_meta_of_def sample_const_def run_ok_def)
  then obtain tb where tb: "table_view sample_array 1 ''tab'' = Ret (Some tb)" by blast
  from table_view_cells [OF tb tab(1,2)] tb show ?thesis by blast
qed

end
