(* ===== verification/Msq_File.thy ===== *)
theory Msq_File
  imports Tune_Reach
begin

text \<open>
  Tune files: the data and the reader of \<open>tune-model/src/msq.rs\<close>.

  The XML tokenizer is the crate \<open>quick_xml\<close>, not part of the repository.  It is the
  parameter \<open>xml\<close> of \<open>msq_parse\<close>: from a source text to the events its \<open>read_event\<close>
  delivers up to the end of the document, an error in place of an event it rejects.  An
  element event carries the tag and its well-formed attributes in order, each with the
  unescaped value if unescaping succeeds; \<open>Start\<close> and \<open>Empty\<close> events are treated alike by the
  source and are one constructor.
\<close>

datatype msq_value = Msq_num f64 | Msq_text string | Msq_array "f64 list"

record msq_file =
  mf_signature :: "string option"
  mf_firmware_info :: "string option"
  mf_author :: "string option"
  mf_write_date :: "string option"
  mf_settings :: "string list"
  mf_constants :: "(string, msq_value) imap"
  mf_pc_variables :: "(string, msq_value) imap"

definition msq_file_default :: msq_file where
  "msq_file_default =
     \<lparr>mf_signature = None, mf_firmware_info = None, mf_author = None, mf_write_date = None,
      mf_settings = [], mf_constants = [], mf_pc_variables = []\<rparr>"

datatype msq_error = Xml_error string

text \<open>\<open>b as char\<close>, as UTF-8: the Latin-1 code points are the first 256 of Unicode.\<close>

definition latin1_char :: "u8 \<Rightarrow> string" where
  "latin1_char b =
     (if b < 128 then [char_of (unat b)]
      else [char_of (192 + unat b div 64), char_of (128 + unat b mod 64)])"

definition decode_latin1 :: "bytes \<Rightarrow> string" where
  "decode_latin1 bs = concat (map latin1_char bs)"

definition parse_body :: "string \<Rightarrow> msq_value" where
  "parse_body txt =
     (let trimmed = trim txt
      in case strip_prefix [CHR 0x22] trimmed of
           Some stripped \<Rightarrow> Msq_text (trim_end_in {CHR 0x22} stripped)
         | None \<Rightarrow>
             (case opt_mapM parse_f64 (split_whitespace trimmed) of
                Some [n] \<Rightarrow> Msq_num n
              | Some (n # m # ns) \<Rightarrow> Msq_array (n # m # ns)
              | _ \<Rightarrow> Msq_text trimmed))"

subsection \<open>The event loop\<close>

datatype xml_event =
    Xml_start string "(string \<times> string option) list"
  | Xml_text "string + string"
  | Xml_end string
  | Xml_other

text \<open>The first attribute of that key whose value unescapes.\<close>

fun attr_of :: "(string \<times> string option) list \<Rightarrow> string \<Rightarrow> string option" where
  "attr_of [] key = None"
| "attr_of ((k, v) # as) key = (if k = key \<and> v \<noteq> None then v else attr_of as key)"

text \<open>The locals of \<open>parse\<close>: the file so far, the open element, its body, and the page flag.\<close>

record msq_reader =
  mr_file :: msq_file
  mr_element :: "(string \<times> string) option"
  mr_body :: string
  mr_in_page :: bool

definition msq_reader_new :: msq_reader where
  "msq_reader_new =
     \<lparr>mr_file = msq_file_default, mr_element = None, mr_body = [], mr_in_page = False\<rparr>"

definition on_start :: "string \<Rightarrow> (string \<times> string option) list \<Rightarrow> msq_reader \<Rightarrow> msq_reader" where
  "on_start tag as r =
     (if tag = ''bibliography'' then
        r\<lparr>mr_file := (mr_file r)\<lparr>mf_author := attr_of as ''author'', mf_write_date := attr_of as ''writeDate''\<rparr>\<rparr>
      else if tag = ''versionInfo'' then
        r\<lparr>mr_file := (mr_file r)\<lparr>mf_signature := attr_of as ''signature'',
          mf_firmware_info := attr_of as ''firmwareInfo''\<rparr>\<rparr>
      else if tag = ''page'' then r\<lparr>mr_in_page := attr_of as ''number'' \<noteq> None\<rparr>
      else if tag = ''setting'' then
        (case attr_of as ''name'' of
           None \<Rightarrow> r
         | Some name \<Rightarrow> r\<lparr>mr_file := (mr_file r)\<lparr>mf_settings := mf_settings (mr_file r) @ [name]\<rparr>\<rparr>)
      else if tag = ''constant'' \<or> tag = ''pcVariable'' then
        (case attr_of as ''name'' of
           None \<Rightarrow> r
         | Some name \<Rightarrow> r\<lparr>mr_element := Some (tag, name), mr_body := []\<rparr>)
      else r)"

definition on_end :: "string \<Rightarrow> msq_reader \<Rightarrow> msq_reader" where
  "on_end tag r =
     (if tag = ''constant'' \<or> tag = ''pcVariable'' then
        (case mr_element r of
           None \<Rightarrow> r
         | Some (open_tag, name) \<Rightarrow>
             (let f = mr_file r; v = parse_body (mr_body r)
              in r\<lparr>mr_element := None, mr_file :=
                   (if open_tag = ''pcVariable''
                    then f\<lparr>mf_pc_variables := im_insert name v (mf_pc_variables f)\<rparr>
                    else if mr_in_page r then f\<lparr>mf_constants := im_insert name v (mf_constants f)\<rparr>
                    else f)\<rparr>))
      else r)"

fun on_event :: "xml_event \<Rightarrow> msq_reader \<Rightarrow> msq_error + msq_reader" where
  "on_event (Xml_start tag as) r = Inr (on_start tag as r)"
| "on_event (Xml_text txt) r =
     (if mr_element r = None then Inr r
      else case txt of
          Inl e \<Rightarrow> Inl (Xml_error e)
        | Inr s \<Rightarrow> Inr (r\<lparr>mr_body := mr_body r @ s @ '' ''\<rparr>))"
| "on_event (Xml_end tag) r = Inr (on_end tag r)"
| "on_event Xml_other r = Inr r"

fun on_events :: "(string + xml_event) list \<Rightarrow> msq_reader \<Rightarrow> msq_error + msq_file" where
  "on_events [] r = Inr (mr_file r)"
| "on_events (Inl e # es) r = Inl (Xml_error e)"
| "on_events (Inr ev # es) r = res_bind (on_event ev r) (on_events es)"

definition msq_parse :: "(string \<Rightarrow> (string + xml_event) list) \<Rightarrow> string \<Rightarrow> msq_error + msq_file" where
  "msq_parse xml src = on_events (xml src) msq_reader_new"

subsection \<open>Reading a document\<close>

text \<open>
  A document as pages of entries: the attributes of the page element, and for each entry
  whether it is a PC variable, its name and the pieces of text inside it.
\<close>

type_synonym msq_entry = "bool \<times> string \<times> string list"

definition entry_tag :: "bool \<Rightarrow> string" where
  "entry_tag pc = (if pc then ''pcVariable'' else ''constant'')"

fun entry_events :: "msq_entry \<Rightarrow> xml_event list" where
  "entry_events (pc, name, txts) =
     Xml_start (entry_tag pc) [(''name'', Some name)] # map (\<lambda>s. Xml_text (Inr s)) txts @
     [Xml_end (entry_tag pc)]"

fun page_events :: "(string \<times> string option) list \<times> msq_entry list \<Rightarrow> xml_event list" where
  "page_events (as, es) = Xml_start ''page'' as # concat (map entry_events es) @ [Xml_end ''page'']"

fun entry_value :: "msq_entry \<Rightarrow> string \<times> msq_value" where
  "entry_value (pc, name, txts) = (name, parse_body (concat (map (\<lambda>s. s @ '' '') txts)))"

definition values_of :: "bool \<Rightarrow> msq_entry list \<Rightarrow> (string \<times> msq_value) list" where
  "values_of pc es = map entry_value (filter (\<lambda>e. fst e = pc) es)"

definition numbered :: "(string \<times> string option) list \<times> msq_entry list \<Rightarrow> bool" where
  "numbered p \<longleftrightarrow> attr_of (fst p) ''number'' \<noteq> None"

text \<open>The file with the entries of a page added.\<close>

definition add_values :: "bool \<Rightarrow> msq_entry list \<Rightarrow> msq_file \<Rightarrow> msq_file" where
  "add_values in_page es f =
     f\<lparr>mf_constants := (if in_page then imap.insert_all (values_of False es) (mf_constants f) else mf_constants f),
       mf_pc_variables := imap.insert_all (values_of True es) (mf_pc_variables f)\<rparr>"

lemma read_texts:
  "on_events (map (\<lambda>s. Inr (Xml_text (Inr s))) txts @ rest)
     \<lparr>mr_file = f, mr_element = Some e, mr_body = b, mr_in_page = p\<rparr> =
   on_events rest \<lparr>mr_file = f, mr_element = Some e, mr_body = b @ concat (map (\<lambda>s. s @ '' '') txts), mr_in_page = p\<rparr>"
  by (induction txts arbitrary: b) simp_all

lemma read_entry:
  "\<exists>b1. on_events (map Inr (entry_events e) @ rest) \<lparr>mr_file = f, mr_element = None, mr_body = b, mr_in_page = p\<rparr> =
     on_events rest \<lparr>mr_file = add_values p [e] f, mr_element = None, mr_body = b1, mr_in_page = p\<rparr>"
proof (cases e)
  case (fields pc name txts)
  have "map Inr (entry_events e) = Inr (Xml_start (entry_tag pc) [(''name'', Some name)]) #
      map (\<lambda>s. Inr (Xml_text (Inr s))) txts @ [Inr (Xml_end (entry_tag pc))]"
    by (simp add: fields)
  then show ?thesis
    using read_texts [of txts "Inr (Xml_end (entry_tag pc)) # rest" f "(entry_tag pc, name)" "[]" p]
    by (auto simp: fields on_start_def on_end_def entry_tag_def add_values_def values_of_def Let_def comp_def)
qed

lemma insert_all_append: "imap.insert_all (xs @ ys) m = imap.insert_all ys (imap.insert_all xs m)"
  by (induction xs m rule: imap.insert_all.induct) simp_all

lemma add_values_append: "add_values p (es @ es') f = add_values p es' (add_values p es f)"
  by (simp add: add_values_def values_of_def insert_all_append)

lemma read_entries:
  "\<exists>b1. on_events (map Inr (concat (map entry_events es)) @ rest)
       \<lparr>mr_file = f, mr_element = None, mr_body = b, mr_in_page = p\<rparr> =
     on_events rest \<lparr>mr_file = add_values p es f, mr_element = None, mr_body = b1, mr_in_page = p\<rparr>"
proof (induction es arbitrary: f b)
  case Nil
  show ?case by (auto simp: add_values_def values_of_def)
next
  case (Cons e es)
  obtain b1 where b1: "on_events (map Inr (entry_events e) @ map Inr (concat (map entry_events es)) @ rest)
      \<lparr>mr_file = f, mr_element = None, mr_body = b, mr_in_page = p\<rparr> =
    on_events (map Inr (concat (map entry_events es)) @ rest)
      \<lparr>mr_file = add_values p [e] f, mr_element = None, mr_body = b1, mr_in_page = p\<rparr>"
    using read_entry by blast
  then show ?case
    using Cons.IH [of "add_values p [e] f" b1] add_values_append [of p "[e]" es f] by simp
qed

lemma read_pages:
  "on_events (map Inr (concat (map page_events ps))) \<lparr>mr_file = f, mr_element = None, mr_body = b, mr_in_page = p\<rparr> =
     Inr (foldl (\<lambda>f (as, es). add_values (numbered (as, es)) es f) f ps)"
proof (induction ps arbitrary: f b p)
  case (Cons pg ps)
  obtain as es where pg: "pg = (as, es)" by (cases pg)
  let ?rest = "Inr (Xml_end ''page'') # map Inr (concat (map page_events ps))"
  obtain b1 where b1: "on_events (map Inr (concat (map entry_events es)) @ ?rest)
      \<lparr>mr_file = f, mr_element = None, mr_body = b, mr_in_page = numbered (as, es)\<rparr> =
    on_events ?rest \<lparr>mr_file = add_values (numbered (as, es)) es f, mr_element = None, mr_body = b1,
      mr_in_page = numbered (as, es)\<rparr>"
    using read_entries by blast
  then show ?case
    using Cons.IH [of "add_values (numbered (as, es)) es f" b1 "numbered (as, es)"]
    by (simp add: pg on_start_def on_end_def numbered_def)
qed simp

lemma add_values_pages:
  "foldl (\<lambda>f (as, es). add_values (numbered (as, es)) es f) f ps =
     f\<lparr>mf_constants := imap.insert_all (values_of False (concat (map snd (filter numbered ps)))) (mf_constants f),
       mf_pc_variables := imap.insert_all (values_of True (concat (map snd ps))) (mf_pc_variables f)\<rparr>"
proof (induction ps arbitrary: f)
  case (Cons pg ps)
  then show ?case
    by (cases pg) (simp add: add_values_def values_of_def insert_all_append)
qed (simp add: values_of_def)

text \<open>
  Reading a tune file: from any document of pages, the reader collects the constants of
  the numbered pages and the PC variables of all pages, each with the value of its text, in
  document order; when a name occurs again its last value counts, at its first position.
\<close>

theorem msq_parse_document:
  assumes "xml src = map Inr (concat (map page_events ps))"
  shows "\<exists>file. msq_parse xml src = Inr file \<and>
    mf_constants file = imap.insert_all (values_of False (concat (map snd (filter numbered ps)))) [] \<and>
    mf_pc_variables file = imap.insert_all (values_of True (concat (map snd ps))) [] \<and>
    (\<forall>name. im_get (mf_constants file) name =
       map_of (rev (values_of False (concat (map snd (filter numbered ps))))) name)"
proof -
  let ?cs = "values_of False (concat (map snd (filter numbered ps)))"
  have "im_get (imap.insert_all ?cs []) name = map_of (rev ?cs) name" for name
    using imap.get_insert_all [of "[]" ?cs name] by (simp add: im_get_def split: option.splits)
  then show ?thesis
    by (simp add: msq_parse_def assms msq_reader_new_def read_pages add_values_pages msq_file_default_def)
qed

text \<open>One page with a number, two entries of the same name; and a page without a number.\<close>

theorem msq_parse_document_witness:
  fixes ps :: "((string \<times> string option) list \<times> msq_entry list) list"
  defines "ps \<equiv> [([(''number'', Some ''0'')], [(False, ''a'', [[CHR 0x22, CHR ''x'']]), (True, ''p'', []), (False, ''a'', [])]),
    ([], [(False, ''b'', [])])]"
  shows "\<exists>file. msq_parse (\<lambda>src. map Inr (concat (map page_events ps))) [] = Inr file \<and>
    im_get (mf_constants file) ''a'' = Some (Msq_text []) \<and> im_get (mf_constants file) ''b'' = None"
proof -
  have "parse_body [] = Msq_text []"
    by (simp add: parse_body_def split_whitespace_def split_ws.simps [of "[]"])
  then have "map_of (rev (values_of False (concat (map snd (filter numbered ps))))) ''a'' = Some (Msq_text [])"
    "map_of (rev (values_of False (concat (map snd (filter numbered ps))))) ''b'' = None"
    by (simp_all add: ps_def values_of_def numbered_def)
  with msq_parse_document [of "\<lambda>src. map Inr (concat (map page_events ps))" "[]" ps] show ?thesis by auto
qed

end
