(* ===== verification/Msq_Apply.thy ===== *)
theory Msq_Apply
  imports Msq_File
begin

text \<open>
  Comparing a tune file with the tune and writing it into the tune: \<open>diff\<close> and \<open>apply\<close>
  of \<open>tune-model/src/msq.rs\<close>.  Both work by constant name and at the level of raw values.

  \<open>d\<close> is the room for nested lookups, as in \<open>Tune_State\<close>.
\<close>

text \<open>A loop over a list that threads a state.\<close>

fun run_fold :: "('a \<Rightarrow> 's \<Rightarrow> 's run) \<Rightarrow> 'a list \<Rightarrow> 's \<Rightarrow> 's run" where
  "run_fold f [] s = Ret s"
| "run_fold f (x # xs) s = run_bind (f x s) (run_fold f xs)"

subsection \<open>Combo labels\<close>

text \<open>\<open>index as usize\<close> turns a negative index into one beyond any list.\<close>

definition bits_label :: "tune \<Rightarrow> string \<Rightarrow> int \<Rightarrow> string" where
  "bits_label t name index =
     (case Option.bind (tune_constant t name)
         (\<lambda>c. if index < 0 then None else list_get (cd_labels c) (nat index)) of
        Some l \<Rightarrow> l
      | None \<Rightarrow> show_int index)"

fun position :: "string \<Rightarrow> string list \<Rightarrow> nat option" where
  "position l [] = None"
| "position l (x # xs) = (if x = l then Some 0 else map_option Suc (position l xs))"

definition file_bits_index :: "tune \<Rightarrow> string \<Rightarrow> msq_value \<Rightarrow> int option" where
  "file_bits_index t name v =
     (case v of
        Msq_num n \<Rightarrow> Some (f_as_i64 n)
      | Msq_text l \<Rightarrow>
          if l = ''INVALID'' then None
          else Option.bind (tune_constant t name) (\<lambda>c. map_option int (position l (cd_labels c)))
      | Msq_array vs \<Rightarrow> None)"

subsection \<open>Diff\<close>

datatype diff_kind =
    Diff_scalar f64 f64
  | Diff_bits string string
  | Diff_array "nat list" nat

record diff_entry =
  de_name :: string
  de_page :: "nat option"
  de_kind :: diff_kind

record msq_diff =
  md_entries :: "diff_entry list"
  md_only_in_file :: "string list"
  md_unresolved :: "(string \<times> string) list"

definition msq_diff_default :: msq_diff where
  "msq_diff_default = \<lparr>md_entries = [], md_only_in_file = [], md_unresolved = []\<rparr>"

definition add_entry :: "string \<Rightarrow> constant_def \<Rightarrow> diff_kind \<Rightarrow> msq_diff \<Rightarrow> msq_diff" where
  "add_entry name c k out =
     out\<lparr>md_entries := md_entries out @ [\<lparr>de_name = name, de_page = cd_page c, de_kind = k\<rparr>]\<rparr>"

definition add_unresolved :: "string \<Rightarrow> string \<Rightarrow> msq_diff \<Rightarrow> msq_diff" where
  "add_unresolved name reason out = out\<lparr>md_unresolved := md_unresolved out @ [(name, reason)]\<rparr>"

definition diff_scalar :: "nat \<Rightarrow> tune \<Rightarrow> string \<Rightarrow> constant_def \<Rightarrow> f64 \<Rightarrow> msq_diff \<Rightarrow> msq_diff run" where
  "diff_scalar d t name c user_file out =
     run_bind (encode_user t d name user_file) (\<lambda>enc.
       case (constant_raw t name, enc) of
         (Some raw_cur, Inr raw_file) \<Rightarrow>
           if raw_cur = raw_file then Ret out
           else run_map
             (\<lambda>v. add_entry name c
                (Diff_scalar (case v of Some (VNum n) \<Rightarrow> n | _ \<Rightarrow> NaN) user_file) out)
             (constant_value t (tune_syms t d) name)
       | _ \<Rightarrow> Ret (add_unresolved name ''scale did not resolve'' out))"

definition diff_bits :: "tune \<Rightarrow> string \<Rightarrow> constant_def \<Rightarrow> msq_value \<Rightarrow> msq_diff \<Rightarrow> msq_diff" where
  "diff_bits t name c v out =
     (case (constant_raw t name, file_bits_index t name v) of
        (Some raw_cur, Some idx_file) \<Rightarrow>
          if raw_cur = idx_file then out
          else add_entry name c (Diff_bits (bits_label t name raw_cur) (bits_label t name idx_file)) out
      | _ \<Rightarrow> add_unresolved name ''label not in combo list'' out)"

text \<open>
  The element loop: an element that cannot be compared clears the indices found so far and
  ends it.
\<close>

fun changed_elements :: "nat \<Rightarrow> tune \<Rightarrow> string \<Rightarrow> nat \<Rightarrow> f64 list \<Rightarrow> nat list \<Rightarrow> nat list run" where
  "changed_elements d t name i [] changed = Ret changed"
| "changed_elements d t name i (v # vs) changed =
     run_bind (encode_user t d name v) (\<lambda>enc.
       case (array_raw t name i, enc) of
         (Some raw_cur, Inr raw_file) \<Rightarrow>
           changed_elements d t name (i + 1) vs
             (if raw_cur \<noteq> raw_file then changed @ [i] else changed)
       | _ \<Rightarrow> Ret [])"

definition diff_array ::
    "nat \<Rightarrow> tune \<Rightarrow> string \<Rightarrow> constant_def \<Rightarrow> f64 list \<Rightarrow> msq_diff \<Rightarrow> msq_diff run" where
  "diff_array d t name c values out =
     (let len = (case cd_shape c of None \<Rightarrow> 0 | Some s \<Rightarrow> element_count s)
      in if length values \<noteq> len then Ret (add_unresolved name ''array length mismatch'' out)
         else run_map
           (\<lambda>changed. if changed = [] then out else add_entry name c (Diff_array changed len) out)
           (changed_elements d t name 0 values []))"

definition diff_string ::
    "nat \<Rightarrow> tune \<Rightarrow> string \<Rightarrow> constant_def \<Rightarrow> string \<Rightarrow> msq_diff \<Rightarrow> msq_diff run" where
  "diff_string d t name c txt out =
     run_map
       (\<lambda>v. case v of
           Some (VStr current) \<Rightarrow>
             if current \<noteq> txt then add_entry name c (Diff_bits current txt) out else out
         | _ \<Rightarrow> out)
       (constant_value t (tune_syms t d) name)"

definition diff_one :: "nat \<Rightarrow> tune \<Rightarrow> string \<times> msq_value \<Rightarrow> msq_diff \<Rightarrow> msq_diff run" where
  "diff_one d t nv out =
     (case nv of (name, v) \<Rightarrow>
       (case tune_constant t name of
          None \<Rightarrow> Ret (out\<lparr>md_only_in_file := md_only_in_file out @ [name]\<rparr>)
        | Some c \<Rightarrow>
            (case (cd_class c, v) of
               (Scalar, Msq_num n) \<Rightarrow> diff_scalar d t name c n out
             | (Bits, _) \<Rightarrow> Ret (diff_bits t name c v out)
             | (Array_class, Msq_array vs) \<Rightarrow> diff_array d t name c vs out
             | (String_class, Msq_text txt) \<Rightarrow> diff_string d t name c txt out
             | _ \<Rightarrow> Ret (add_unresolved name ''value shape mismatch'' out))))"

definition msq_diff_of :: "nat \<Rightarrow> msq_file \<Rightarrow> tune \<Rightarrow> msq_diff run" where
  "msq_diff_of d file t = run_fold (diff_one d t) (mf_constants file) msq_diff_default"

subsection \<open>Apply\<close>

record apply_report =
  ar_applied :: nat
  ar_skipped :: "(string \<times> string) list"

definition apply_report_default :: apply_report where
  "apply_report_default = \<lparr>ar_applied = 0, ar_skipped = []\<rparr>"

text \<open>\<open>Display\<close> of \<open>TuneError\<close>.\<close>

fun show_tune_error :: "tune_error \<Rightarrow> string" where
  "show_tune_error (Unknown_constant n) = ''unknown constant `'' @ n @ ''`''"
| "show_tune_error (Unknown_table n) = ''unknown table `'' @ n @ ''`''"
| "show_tune_error (Not_editable n why) = ''`'' @ n @ ''` is not editable ('' @ why @ '')''"
| "show_tune_error (Index_range n i len) =
     ''index '' @ show_nat i @ '' out of range for `'' @ n @ ''` ('' @ show_nat len @ '' elements)''"
| "show_tune_error (Tune_eval n why) = ''evaluating `'' @ n @ ''`: '' @ why"

text \<open>
  A write that fails leaves the tune as it was; in \<open>try_for_each\<close> the elements before a
  failing one stay written.  The result is the error, if any, and the tune.
\<close>

definition keep_on_error :: "(tune_error + tune) run \<Rightarrow> tune \<Rightarrow> (tune_error option \<times> tune) run" where
  "keep_on_error m t =
     run_map (\<lambda>r. case r of Inl e \<Rightarrow> (Some e, t) | Inr t1 \<Rightarrow> (None, t1)) m"

fun set_elements ::
    "nat \<Rightarrow> string \<Rightarrow> nat \<Rightarrow> f64 list \<Rightarrow> tune \<Rightarrow> (tune_error option \<times> tune) run" where
  "set_elements d name i [] t = Ret (None, t)"
| "set_elements d name i (v # vs) t =
     run_bind (set_array_element_unclamped d name i v t) (\<lambda>r.
       case r of
         Inl e \<Rightarrow> Ret (Some e, t)
       | Inr t1 \<Rightarrow> set_elements d name (i + 1) vs t1)"

definition apply_value ::
    "nat \<Rightarrow> string \<Rightarrow> constant_def \<Rightarrow> msq_value \<Rightarrow> tune \<Rightarrow> (tune_error option \<times> tune) run" where
  "apply_value d name c v t =
     (case (cd_class c, v) of
        (Scalar, Msq_num n) \<Rightarrow> keep_on_error (set_constant_unclamped d name n t) t
      | (Bits, _) \<Rightarrow>
          (case file_bits_index t name v of
             Some idx \<Rightarrow> keep_on_error (set_constant_unclamped d name (f_of_int idx) t) t
           | None \<Rightarrow> Ret (Some (Not_editable name ''label not found''), t))
      | (Array_class, Msq_array vs) \<Rightarrow>
          if length vs \<noteq> (case cd_shape c of None \<Rightarrow> 0 | Some s \<Rightarrow> element_count s)
          then Ret (Some (Not_editable name ''array length mismatch''), t)
          else set_elements d name 0 vs t
      | (String_class, _) \<Rightarrow> Ret (Some (Not_editable name ''string constant''), t)
      | _ \<Rightarrow> Ret (Some (Not_editable name ''value shape mismatch''), t))"

definition selected :: "string set option \<Rightarrow> string \<Rightarrow> bool" where
  "selected names name = (case names of None \<Rightarrow> True | Some s \<Rightarrow> name \<in> s)"

definition report_result :: "string \<Rightarrow> tune_error option \<Rightarrow> apply_report \<Rightarrow> apply_report" where
  "report_result name e r =
     (case e of
        None \<Rightarrow> r\<lparr>ar_applied := ar_applied r + 1\<rparr>
      | Some e \<Rightarrow> r\<lparr>ar_skipped := ar_skipped r @ [(name, show_tune_error e)]\<rparr>)"

definition apply_one ::
    "nat \<Rightarrow> string set option \<Rightarrow> string \<times> msq_value \<Rightarrow> apply_report \<times> tune \<Rightarrow> (apply_report \<times> tune) run" where
  "apply_one d names nv rt =
     (case (nv, rt) of ((name, v), (r, t)) \<Rightarrow>
        if \<not> selected names name then Ret (r, t)
        else (case tune_constant t name of
            None \<Rightarrow> Ret (r\<lparr>ar_skipped := ar_skipped r @ [(name, ''not in definition'')]\<rparr>, t)
          | Some c \<Rightarrow> run_map (\<lambda>(e, t1). (report_result name e r, t1)) (apply_value d name c v t)))"

definition pc_user :: "constant_def \<Rightarrow> msq_value \<Rightarrow> f64 option" where
  "pc_user c v =
     (case (cd_class c, v) of
        (Scalar, Msq_num n) \<Rightarrow> Some n
      | (Bits, Msq_num n) \<Rightarrow> Some n
      | (Bits, Msq_text l) \<Rightarrow> map_option (\<lambda>i. f_of_int (int i)) (position l (cd_labels c))
      | _ \<Rightarrow> None)"

definition apply_pc ::
    "nat \<Rightarrow> string set option \<Rightarrow> string \<times> msq_value \<Rightarrow> apply_report \<times> tune \<Rightarrow> (apply_report \<times> tune) run" where
  "apply_pc d names nv rt =
     (case (nv, rt) of ((name, v), (r, t)) \<Rightarrow>
        if \<not> selected names name then Ret (r, t)
        else (case Option.bind (im_get (i_pc_variables (tn_def t)) name) (\<lambda>c. pc_user c v) of
            None \<Rightarrow> Ret (r, t)
          | Some user \<Rightarrow> run_map
              (\<lambda>x. case x of Inl e \<Rightarrow> (r, t) | Inr t1 \<Rightarrow> (r\<lparr>ar_applied := ar_applied r + 1\<rparr>, t1))
              (set_pc_value d name user t)))"

definition msq_apply ::
    "nat \<Rightarrow> msq_file \<Rightarrow> string set option \<Rightarrow> tune \<Rightarrow> (apply_report \<times> tune) run" where
  "msq_apply d file names t =
     run_bind (run_fold (apply_one d names) (mf_constants file) (apply_report_default, t))
       (run_fold (apply_pc d names) (mf_pc_variables file))"

end
