(* ===== verification/Msq_Laws.thy ===== *)
theory Msq_Laws
  imports Msq_Apply
begin

text \<open>
  Laws of \<open>diff\<close> and \<open>apply\<close>: a file without differences changes nothing, \<open>apply\<close> touches
  only the bytes of the selected constants and accounts for each of them, and the case in
  which \<open>diff\<close> drops an array.
\<close>

subsection \<open>Writing the current value\<close>

lemma tune_bytes_Some:
  "tune_bytes t c = Some (bs, off) \<longleftrightarrow>
     (\<exists>i. location c = Some (i, off) \<and> i < length (tn_pages t) \<and> bs = pg_data (tn_pages t ! i))"
  by (auto simp: tune_bytes_def tune_page_def list_get_eq_Some split: option.splits)

lemma write_back:
  assumes "i < length (tn_pages t)" "read_raw (pg_data (tn_pages t ! i)) off ty = Some raw"
  shows "write_page i off ty raw t = Ret (Inr t)"
  using write_page_unchanged [OF assms(1)] write_read [OF assms(2)] by simp

lemma scalar_noop:
  assumes "tune_constant t name = Some c" "cd_class c = Scalar"
    "constant_raw t name = Some raw" "encode_user t d name v = Ret (Inr raw)"
  shows "set_constant_unclamped d name v t = Ret (Inr t)"
  using assms write_back [of _ t _ "cd_ty c" raw]
  by (auto simp: constant_raw_def encode_user_def set_constant_unclamped_def set_constant_impl_def
      tune_bytes_Some split: option.splits)

lemma constant_raw_bits:
  assumes "tune_constant t name = Some c" "cd_class c = Bits" "constant_raw t name = Some k"
  obtains i off lo hi raw where "location c = Some (i, off)" "i < length (tn_pages t)"
    "cd_shape c = Some (Bits_shape lo hi)" "read_raw (pg_data (tn_pages t ! i)) off (cd_ty c) = Some raw"
    "k = (raw div 2 ^ (lo mod 64)) AND sint (field_mask lo hi)"
  using assms
  by (auto simp: constant_raw_def tune_bytes_Some split: option.splits shape.splits)

lemma raw_field:
  assumes "sized_field ty lo hi"
  shows "(raw div 2 ^ (lo mod 64)) AND sint (field_mask lo hi) = uint (field_get (word_of_int raw) lo hi)"
proof (rule bit_eqI)
  fix n
  have ok: "field_ok lo hi" by (rule sized_field_ok [OF assms])
  have lo: "lo mod 64 = lo" and hl: "hi - lo < 32" "lo + (hi - lo) < 64"
    using assms by (cases ty; auto simp: sized_field_def)+
  have "bit (sint (field_mask lo hi)) n \<longleftrightarrow> n \<le> hi - lo"
    using hl by (auto simp: bit_sint_iff bit_field_mask [OF ok])
  moreover have "bit (raw div 2 ^ (lo mod 64)) n = bit raw (lo + n)"
    by (simp add: lo flip: drop_bit_eq_div) (simp add: bit_simps add.commute)
  moreover have "bit (uint (field_get (word_of_int raw) lo hi)) n \<longleftrightarrow> n \<le> hi - lo \<and> bit raw (lo + n)"
    using field_get_bit [OF ok, of "word_of_int raw" n] hl by (auto simp: bit_simps)
  ultimately show "bit ((raw div 2 ^ (lo mod 64)) AND sint (field_mask lo hi)) n
      = bit (uint (field_get (word_of_int raw) lo hi)) n"
    by (auto simp: bit_simps)
qed

lemma field_value_small:
  assumes "sized_field ty lo hi"
  shows "unat (field_get raw lo hi) < 2 ^ 53"
proof -
  have ok: "field_ok lo hi" by (rule sized_field_ok [OF assms])
  have hl: "hi - lo < 32" using assms by (cases ty; auto simp: sized_field_def)
  have "uint (field_get raw lo hi) = take_bit 53 (uint (field_get raw lo hi))"
    using hl by (intro bit_eqI) (auto simp: bit_simps field_get_bit [OF ok])
  then have "uint (field_get raw lo hi) < 2 ^ 53" using take_bit_int_less_exp [of 53] by metis
  then have "int (unat (field_get raw lo hi)) < int (2 ^ 53)" by simp
  then show ?thesis by (simp only: of_nat_less_iff)
qed

lemma bits_noop:
  assumes c: "tune_constant t name = Some c" "cd_class c = Bits" "constant_raw t name = Some k"
    and sized: "\<And>lo hi. cd_shape c = Some (Bits_shape lo hi) \<Longrightarrow> sized_field (cd_ty c) lo hi"
  shows "set_constant_unclamped d name (f_of_int k) t = Ret (Inr t)"
proof -
  obtain i off lo hi raw where loc: "location c = Some (i, off)" "i < length (tn_pages t)"
    and shape: "cd_shape c = Some (Bits_shape lo hi)"
    and raw: "read_raw (pg_data (tn_pages t ! i)) off (cd_ty c) = Some raw"
    and k: "k = (raw div 2 ^ (lo mod 64)) AND sint (field_mask lo hi)"
    using constant_raw_bits [OF c] by blast
  note sf = sized [OF shape]
  define f where "f = field_get (word_of_int raw) lo hi"
  have k': "k = int (unat f)" using raw_field [OF sf] by (simp add: k f_def)
  have u: "f_as_u64 (fmax (fround (f_of_int k)) fzero) = k"
    unfolding k' using field_value_small [OF sf] by (intro f_as_u64_of_nat) (simp add: f_def)
  have "word_of_int k = f" by (simp add: k')
  then have "field_put (word_of_int raw) lo hi (word_of_int k) = word_of_int raw"
    using field_put_same [OF sized_field_ok [OF sf]] by (simp add: f_def)
  moreover have "sint (word_of_int raw :: u64) = raw"
    using read_raw_range [OF raw]
    by (cases "cd_ty c"; simp add: in_range_def sint_sbintrunc' signed_take_bit_int_eq_self)
  ultimately show ?thesis
    using c loc shape raw u write_back [OF loc(2) raw]
    by (simp add: set_constant_unclamped_def set_constant_impl_def put_bits_def)
qed

subsection \<open>A file without differences\<close>

text \<open>Whether a user value can be encoded does not depend on the value.\<close>

lemma encode_uniform:
  assumes "encode_user t d name v = Ret (Inr raw)"
  shows "\<exists>raw'. encode_user t d name v' = Ret (Inr raw')"
  using assms
  by (auto simp: encode_user_def encode_impl_def Let_def run_simps split: option.splits if_splits)

lemma changed_elements_exact:
  assumes "\<forall>v \<in> set vs. \<exists>raw. encode_user t d name v = Ret (Inr raw)"
    "\<forall>k < length vs. array_raw t name (i + k) \<noteq> None"
  shows "\<exists>new. changed_elements d t name i vs changed = Ret (changed @ new) \<and>
    (new = [] \<longrightarrow> (\<forall>k < length vs. \<exists>raw. array_raw t name (i + k) = Some raw \<and>
       encode_user t d name (vs ! k) = Ret (Inr raw)))"
  using assms
proof (induction vs arbitrary: i changed)
  case (Cons v vs)
  obtain raw where raw: "encode_user t d name v = Ret (Inr raw)" using Cons.prems(1) by auto
  obtain cur where cur: "array_raw t name i = Some cur" using Cons.prems(2) by force
  have "\<forall>k < length vs. array_raw t name (i + 1 + k) \<noteq> None"
    using Cons.prems(2) by (auto dest: spec [of _ "Suc _"])
  from Cons.IH [OF _ this, of "if cur \<noteq> raw then changed @ [i] else changed"] Cons.prems(1)
  obtain new where new: "changed_elements d t name (i + 1) vs (if cur \<noteq> raw then changed @ [i] else changed)
      = Ret ((if cur \<noteq> raw then changed @ [i] else changed) @ new)"
    "new = [] \<longrightarrow> (\<forall>k < length vs. \<exists>raw. array_raw t name (i + 1 + k) = Some raw \<and>
       encode_user t d name (vs ! k) = Ret (Inr raw))" by auto
  show ?case
  proof (cases "cur = raw")
    case True
    have "\<exists>r. array_raw t name (i + k) = Some r \<and> encode_user t d name ((v # vs) ! k) = Ret (Inr r)"
      if "new = []" "k < length (v # vs)" for k
      using that new(2) raw cur True by (cases k) auto
    then show ?thesis using new(1) raw cur True by (intro exI [of _ new]) simp
  next
    case False
    then show ?thesis using new(1) raw cur by (intro exI [of _ "i # new"]) simp
  qed
qed simp

lemma element_noop:
  assumes "tune_constant t name = Some c" "cd_class c = Array_class" "cd_shape c = Some s" "i < element_count s"
    "array_raw t name i = Some raw" "encode_user t d name v = Ret (Inr raw)"
  shows "set_array_element_unclamped d name i v t = Ret (Inr t)"
  using assms write_back [of _ t _ "cd_ty c" raw]
  by (auto simp: array_raw_def encode_user_def set_array_element_unclamped_def set_array_element_impl_def
      tune_bytes_Some split: option.splits)

lemma elements_noop:
  assumes c: "tune_constant t name = Some c" "cd_class c = Array_class" "cd_shape c = Some s"
    and "i + length vs \<le> element_count s"
    "\<forall>k < length vs. \<exists>raw. array_raw t name (i + k) = Some raw \<and> encode_user t d name (vs ! k) = Ret (Inr raw)"
  shows "set_elements d name i vs t = Ret (None, t)"
  using assms(4,5)
proof (induction vs arbitrary: i)
  case (Cons v vs)
  have "set_array_element_unclamped d name i v t = Ret (Inr t)"
    using element_noop [OF c, of i _ d v] Cons.prems by force
  moreover have "\<forall>k < length vs. \<exists>raw. array_raw t name (i + 1 + k) = Some raw \<and>
      encode_user t d name (vs ! k) = Ret (Inr raw)"
    using Cons.prems(2) by (auto dest: spec [of _ "Suc _"])
  ultimately show ?case using Cons.IH [of "i + 1"] Cons.prems(1) by simp
qed simp

text \<open>
  The entries \<open>diff\<close> can compare completely: a bit field lies inside its type and every
  element of an array inside its page.
\<close>

definition comparable :: "tune \<Rightarrow> string \<times> msq_value \<Rightarrow> bool" where
  "comparable t nv \<longleftrightarrow>
     (\<forall>c. tune_constant t (fst nv) = Some c \<longrightarrow>
       (\<forall>lo hi. cd_class c = Bits \<longrightarrow> cd_shape c = Some (Bits_shape lo hi) \<longrightarrow> sized_field (cd_ty c) lo hi) \<and>
       (\<forall>s k. cd_class c = Array_class \<longrightarrow> cd_shape c = Some s \<longrightarrow> k < element_count s \<longrightarrow>
          array_raw t (fst nv) k \<noteq> None))"

lemma apply_array_noop:
  assumes c: "tune_constant t name = Some c" "cd_class c = Array_class"
    and cmp: "comparable t (name, Msq_array vs)" and diff: "diff_array d t name c vs out = Ret out"
    and len: "length vs = (case cd_shape c of None \<Rightarrow> 0 | Some s \<Rightarrow> element_count s)"
  shows "\<exists>e. set_elements d name 0 vs t = Ret (e, t)"
proof (cases vs)
  case (Cons v vs')
  then obtain s where s: "cd_shape c = Some s" "length vs = element_count s"
    using len by (cases "cd_shape c") auto
  have raws: "\<forall>k < length vs. array_raw t name (0 + k) \<noteq> None"
    using cmp c s by (auto simp: comparable_def)
  obtain r where r: "encode_user t d name v = Ret r"
    using diff len Cons by (cases "encode_user t d name v") (auto simp: diff_array_def)
  show ?thesis
  proof (cases r)
    case (Inl e)
    then have "\<exists>e. set_array_element_unclamped d name 0 v t = Ret (Inl e)"
      using r c s raws Cons
      by (auto simp: encode_user_def set_array_element_unclamped_def set_array_element_impl_def
          array_raw_def tune_bytes_Some split: option.splits)
    then show ?thesis using Cons by auto
  next
    case (Inr raw)
    have all: "\<forall>v \<in> set vs. \<exists>raw. encode_user t d name v = Ret (Inr raw)"
      using encode_uniform r Inr by blast
    obtain new where new: "changed_elements d t name 0 vs [] = Ret new"
      "new = [] \<longrightarrow> (\<forall>k < length vs. \<exists>raw. array_raw t name (0 + k) = Some raw \<and>
         encode_user t d name (vs ! k) = Ret (Inr raw))"
      using changed_elements_exact [OF all raws, of "[]"] by auto
    have "new = []"
      using diff len new(1) by (auto simp: diff_array_def add_entry_def dest: arg_cong [of _ _ md_entries] split: if_splits)
    then show ?thesis using elements_noop [OF c s(1), of 0 vs d] new(2) s(2) by auto
  qed
qed simp

text \<open>A diff only grows.\<close>

definition diff_grows :: "msq_diff \<Rightarrow> msq_diff \<Rightarrow> bool" where
  "diff_grows out out1 \<longleftrightarrow>
     (\<exists>es. md_entries out1 = md_entries out @ es) \<and>
     (\<exists>ns. md_only_in_file out1 = md_only_in_file out @ ns) \<and>
     (\<exists>us. md_unresolved out1 = md_unresolved out @ us)"

lemma diff_grows_basic [simp]:
  "diff_grows out out" "diff_grows out (add_entry name c k out)"
  "diff_grows out (add_unresolved name why out)"
  "diff_grows out (out\<lparr>md_only_in_file := md_only_in_file out @ ns\<rparr>)"
  by (simp_all add: diff_grows_def add_entry_def add_unresolved_def)

lemma diff_grows_trans: "diff_grows a b \<Longrightarrow> diff_grows b c \<Longrightarrow> diff_grows a c"
  by (auto simp: diff_grows_def)

lemma diff_grows_default: "diff_grows out msq_diff_default \<Longrightarrow> out = msq_diff_default"
  by (simp add: diff_grows_def msq_diff_default_def)

lemma diff_scalar_cases:
  assumes "diff_scalar d t name c v out = Ret out1"
  obtains raw where "out1 = out" "constant_raw t name = Some raw" "encode_user t d name v = Ret (Inr raw)"
    | k where "out1 = add_entry name c k out" | why where "out1 = add_unresolved name why out"
proof -
  obtain enc where enc: "encode_user t d name v = Ret enc"
    using assms by (auto simp: diff_scalar_def run_simps)
  show ?thesis
    using assms enc that
    by (cases enc; cases "constant_raw t name") (auto simp: diff_scalar_def run_simps split: if_splits)
qed

lemma diff_parts_grow:
  "diff_scalar d t name c v out = Ret out1 \<Longrightarrow> diff_grows out out1"
  "diff_array d t name c vs out = Ret out1 \<Longrightarrow> diff_grows out out1"
  "diff_string d t name c txt out = Ret out1 \<Longrightarrow> diff_grows out out1"
  "diff_grows out (diff_bits t name c mv out)"
proof -
  show "diff_scalar d t name c v out = Ret out1 \<Longrightarrow> diff_grows out out1"
    by (erule diff_scalar_cases) simp_all
  show "diff_array d t name c vs out = Ret out1 \<Longrightarrow> diff_grows out out1"
    by (auto simp: diff_array_def Let_def run_simps split: if_splits)
  show "diff_string d t name c txt out = Ret out1 \<Longrightarrow> diff_grows out out1"
    by (auto simp: diff_string_def run_simps split: option.split val.split)
  show "diff_grows out (diff_bits t name c mv out)"
    by (auto simp: diff_bits_def split: option.split)
qed

lemma diff_one_grows:
  assumes "diff_one d t (name, v) out = Ret out1"
  shows "diff_grows out out1"
proof (cases "tune_constant t name")
  case None
  then show ?thesis using assms by (auto simp: diff_one_def)
next
  case (Some c)
  then show ?thesis
    using assms diff_parts_grow
    by (cases "cd_class c"; cases v) (auto simp: diff_one_def)
qed

lemma run_fold_rel:
  assumes "\<And>x s s1. x \<in> set xs \<Longrightarrow> f x s = Ret s1 \<Longrightarrow> R s s1" "\<And>s. R s s" "\<And>a b c. R a b \<Longrightarrow> R b c \<Longrightarrow> R a c"
    "run_fold f xs s = Ret s1"
  shows "R s s1"
  using assms(1,4)
proof (induction xs arbitrary: s)
  case Nil
  then show ?case using assms(2) by simp
next
  case (Cons x xs)
  then obtain s2 where "f x s = Ret s2" "run_fold f xs s2 = Ret s1" by (auto simp: run_simps)
  with Cons show ?case by (meson assms(3) list.set_intros)
qed

lemma diff_fold_default:
  assumes "run_fold (diff_one d t) nvs out = Ret msq_diff_default"
  shows "out = msq_diff_default \<and> (\<forall>nv \<in> set nvs. diff_one d t nv msq_diff_default = Ret msq_diff_default)"
  using assms
proof (induction nvs arbitrary: out)
  case (Cons nv nvs)
  obtain name v where nv: "nv = (name, v)" by (cases nv)
  from Cons.prems obtain out1 where o1: "diff_one d t nv out = Ret out1"
    "run_fold (diff_one d t) nvs out1 = Ret msq_diff_default" by (auto simp: run_simps)
  from Cons.IH [OF o1(2)] have "out1 = msq_diff_default" by simp
  with diff_one_grows o1(1) nv have "out = msq_diff_default" using diff_grows_default by blast
  with Cons.IH [OF o1(2)] o1(1) show ?case by auto
qed simp

lemma add_not_default: "add_entry name c k out \<noteq> msq_diff_default" "add_unresolved name why out \<noteq> msq_diff_default"
  by (auto simp: add_entry_def add_unresolved_def msq_diff_default_def dest: arg_cong [of _ _ md_entries] arg_cong [of _ _ md_unresolved])

text \<open>One constant without difference: writing it back fails or changes nothing.\<close>

lemma apply_value_noop:
  assumes c: "tune_constant t name = Some c"
    and diff: "diff_one d t (name, v) msq_diff_default = Ret msq_diff_default" and cmp: "comparable t (name, v)"
  shows "\<exists>e. apply_value d name c v t = Ret (e, t)"
proof (cases "cd_class c")
  case Scalar
  then obtain n where v: "v = Msq_num n"
    using diff c add_not_default by (cases v) (auto simp: diff_one_def)
  have ds: "diff_scalar d t name c n msq_diff_default = Ret msq_diff_default"
    using diff c Scalar v by (simp add: diff_one_def)
  then obtain raw where "constant_raw t name = Some raw" "encode_user t d name n = Ret (Inr raw)"
    using add_not_default by (elim diff_scalar_cases) metis+
  from scalar_noop [OF c Scalar this] show ?thesis
    by (simp add: apply_value_def Scalar v keep_on_error_def)
next
  case Bits
  have "diff_bits t name c v msq_diff_default = msq_diff_default" using diff c Bits by (simp add: diff_one_def)
  then obtain k where k: "constant_raw t name = Some k" "file_bits_index t name v = Some k"
    using add_not_default
    by (cases "constant_raw t name"; cases "file_bits_index t name v") (auto simp: diff_bits_def split: if_splits)
  have "sized_field (cd_ty c) lo hi" if "cd_shape c = Some (Bits_shape lo hi)" for lo hi
    using cmp c Bits that by (simp add: comparable_def)
  from bits_noop [OF c Bits k(1) this] show ?thesis
    by (simp add: apply_value_def Bits k(2) keep_on_error_def)
next
  case Array_class
  then obtain vs where v: "v = Msq_array vs"
    using diff c add_not_default by (cases v) (auto simp: diff_one_def)
  have da: "diff_array d t name c vs msq_diff_default = Ret msq_diff_default"
    using diff c Array_class v by (simp add: diff_one_def)
  then have len: "length vs = (case cd_shape c of None \<Rightarrow> 0 | Some s \<Rightarrow> element_count s)"
    using add_not_default by (auto simp: diff_array_def Let_def split: if_splits)
  from apply_array_noop [OF c Array_class _ da len] cmp v len show ?thesis
    by (simp add: apply_value_def Array_class)
next
  case String_class
  then show ?thesis by (simp add: apply_value_def)
qed

lemma run_map_sum:
  "run_map f m = Ret y \<longleftrightarrow> (\<exists>e. m = Ret (Inl e) \<and> y = f (Inl e)) \<or> (\<exists>x. m = Ret (Inr x) \<and> y = f (Inr x))"
  by (auto simp: run_map_Ret) (metis sum.exhaust)

text \<open>PC variables are not in the pages; \<open>diff\<close> does not look at them.\<close>

lemma apply_pcs_only:
  assumes "run_fold (apply_pc d names) nvs (r, t) = Ret (r1, t1)"
  shows "\<exists>pc. t1 = t\<lparr>tn_pc := pc\<rparr> \<and>
    (\<forall>name. pc name \<noteq> tn_pc t name \<longrightarrow> selected names name \<and> name \<in> fst ` set nvs)"
  using assms
proof (induction nvs arbitrary: r t)
  case Nil
  then show ?case by (intro exI [of _ "tn_pc t"]) simp
next
  case (Cons nv nvs)
  obtain name v where nv: "nv = (name, v)" by (cases nv)
  obtain r2 t2 where s: "apply_pc d names nv (r, t) = Ret (r2, t2)"
    "run_fold (apply_pc d names) nvs (r2, t2) = Ret (r1, t1)"
    using Cons.prems by (auto simp: run_simps)
  have "\<exists>pc. t2 = t\<lparr>tn_pc := pc\<rparr> \<and> (\<forall>n. pc n \<noteq> tn_pc t n \<longrightarrow> selected names n \<and> n = name)"
  proof (cases "t2 = t")
    case True
    then show ?thesis by (intro exI [of _ "tn_pc t"]) simp
  next
    case False
    with s(1) obtain user where sel: "selected names name" and set: "set_pc_value d name user t = Ret (Inr t2)"
      by (auto simp: apply_pc_def nv run_map_sum split: if_splits option.splits)
    then obtain u where "t2 = t\<lparr>tn_pc := (tn_pc t)(name \<mapsto> u)\<rparr>"
      by (auto simp: set_pc_value_def run_simps split: option.splits)
    with sel show ?thesis by (intro exI [of _ "(tn_pc t)(name \<mapsto> u)"]) auto
  qed
  then obtain pc where pc: "t2 = t\<lparr>tn_pc := pc\<rparr>" "\<forall>n. pc n \<noteq> tn_pc t n \<longrightarrow> selected names n \<and> n = name" by blast
  from Cons.IH [OF s(2)] obtain pc1 where "t1 = t2\<lparr>tn_pc := pc1\<rparr>"
    "\<forall>n. pc1 n \<noteq> tn_pc t2 n \<longrightarrow> selected names n \<and> n \<in> fst ` set nvs" by blast
  with pc nv show ?case by (intro exI [of _ pc1]) (auto, metis+)
qed

text \<open>
  C21. A file whose constants \<open>diff\<close> reports as equal to the tune, and whose entries it can
  compare (bit fields inside their type, array elements inside their page): \<open>apply\<close> changes no
  byte of any page, and of the PC variables, which \<open>diff\<close> does not compare, only selected ones
  that the file sets.  What \<open>apply\<close> does is what its pass over the PC variables does to the
  unchanged tune; without PC variables it returns the tune as it was.
\<close>

theorem no_diff_no_change:
  assumes "msq_diff_of d file t = Ret msq_diff_default" "\<forall>nv \<in> set (mf_constants file). comparable t nv"
  shows "\<exists>r. msq_apply d file names t = run_fold (apply_pc d names) (mf_pc_variables file) (r, t) \<and>
    (mf_pc_variables file = [] \<longrightarrow> msq_apply d file names t = Ret (r, t)) \<and>
    (\<forall>r1 t1. msq_apply d file names t = Ret (r1, t1) \<longrightarrow>
      (\<exists>pc. t1 = t\<lparr>tn_pc := pc\<rparr> \<and>
        (\<forall>name. pc name \<noteq> tn_pc t name \<longrightarrow> selected names name \<and> name \<in> fst ` set (mf_pc_variables file))))"
proof -
  have "\<exists>r1. run_fold (apply_one d names) nvs (r, t) = Ret (r1, t)"
    if "\<forall>nv \<in> set nvs. diff_one d t nv msq_diff_default = Ret msq_diff_default \<and> comparable t nv" for nvs r
    using that
  proof (induction nvs arbitrary: r)
    case (Cons nv nvs)
    obtain name v where nv: "nv = (name, v)" by (cases nv)
    have "\<exists>r1. apply_one d names nv (r, t) = Ret (r1, t)"
    proof (cases "tune_constant t name")
      case (Some c)
      then obtain e where "apply_value d name c v t = Ret (e, t)"
        using apply_value_noop [OF Some, of d v] Cons.prems nv by auto
      then show ?thesis by (simp add: apply_one_def nv Some)
    qed (simp add: apply_one_def nv)
    with Cons show ?case by auto
  qed simp
  moreover have "\<forall>nv \<in> set (mf_constants file). diff_one d t nv msq_diff_default = Ret msq_diff_default"
    using diff_fold_default assms(1) unfolding msq_diff_of_def by blast
  ultimately obtain r where "run_fold (apply_one d names) (mf_constants file) (apply_report_default, t) = Ret (r, t)"
    using assms(2) by blast
  then have eq: "msq_apply d file names t = run_fold (apply_pc d names) (mf_pc_variables file) (r, t)"
    by (simp add: msq_apply_def)
  with apply_pcs_only [of d names "mf_pc_variables file" r t] show ?thesis by (intro exI [of _ r]) auto
qed

theorem no_diff_no_change_witness:
  "\<exists>v r. msq_apply 2 (msq_file_default\<lparr>mf_constants := [(''a'', Msq_num v)]\<rparr>) None (sample_tune (Num_lit fone))
    = Ret (r, sample_tune (Num_lit fone))"
proof -
  let ?t = "sample_tune (Num_lit fone)" and ?c = "sample_const ''a'' (Num_lit fone) 0"
  let ?v = "to_user fone fzero 7"
  let ?f = "msq_file_default\<lparr>mf_constants := [(''a'', Msq_num ?v)]\<rparr>"
  have c: "tune_constant ?t ''a'' = Some ?c" by (simp add: tune_constant_def sample_tune_def im_get_def)
  have "encode_impl ?t 2 ?c ?v False = Ret (Inr 7)"
    by (rule encode_decoded(2)) (simp_all add: sample_const_def codec_ok_one in_range_def)
  then have e: "encode_user ?t 2 ''a'' ?v = Ret (Inr 7)" by (simp add: encode_user_def c)
  have "tune_bytes ?t ?c = Some ([7, 8], 0)"
    by (simp add: tune_bytes_def location_def sample_const_def tune_page_def sample_tune_def)
  then have "constant_raw ?t ''a'' = Some 7"
    unfolding constant_raw_def c
    by (simp add: sample_const_def read_raw_def slice_get_def decode_raw_def)
  moreover have "cd_class ?c = Scalar" by (simp add: sample_const_def)
  ultimately have "msq_diff_of 2 ?f ?t = Ret msq_diff_default"
    using e c by (simp add: msq_diff_of_def msq_file_default_def diff_one_def diff_scalar_def)
  moreover have "\<forall>nv \<in> set (mf_constants ?f). comparable ?t nv"
    using c by (simp add: comparable_def) (simp add: sample_const_def)
  ultimately show ?thesis
    using no_diff_no_change [of 2 ?f ?t None] by (auto simp: msq_file_default_def)
qed

subsection \<open>An array that is dropped\<close>

lemma changed_elements_dropped:
  assumes "\<forall>v \<in> set vs. returns (encode_user t d name v)" "k < length vs" "array_raw t name (i + k) = None"
  shows "changed_elements d t name i vs changed = Ret []"
  using assms
proof (induction vs arbitrary: i k changed)
  case (Cons v vs)
  obtain enc where enc: "encode_user t d name v = Ret enc" using Cons.prems(1) by (auto simp: returns_iff)
  show ?case
  proof (cases k)
    case 0
    then show ?thesis using Cons.prems(3) enc by simp
  next
    case (Suc j)
    have IH: "changed_elements d t name (i + 1) vs ch = Ret []" for ch
      using Cons.IH [of j "i + 1"] Cons.prems Suc by simp
    show ?thesis using enc IH by (cases enc) (auto split: option.split)
  qed
qed simp

text \<open>
  An array of which one element lies outside its page is dropped from the comparison:
  whatever the other elements hold, \<open>diff\<close> lists it neither as different nor as unresolved,
  so it looks equal to the tune.
\<close>

theorem diff_drops_array:
  assumes "tune_constant t name = Some c" "cd_class c = Array_class" "cd_shape c = Some s"
    "length vs = element_count s" "\<forall>v \<in> set vs. returns (encode_user t d name v)"
    "k < length vs" "array_raw t name k = None"
  shows "diff_one d t (name, Msq_array vs) out = Ret out"
  using assms changed_elements_dropped [of vs t d name k 0 "[]"]
  by (simp add: diff_one_def diff_array_def)

text \<open>A 2 by 3 array in a page of one byte: the first element, 1, is compared with 5.\<close>

theorem diff_drops_array_witness:
  fixes t :: tune
  defines "t \<equiv> sample_array\<lparr>tn_pages := [\<lparr>pg_data = [1], pg_ecu = [1], pg_burned = [1]\<rparr>]\<rparr>"
  shows "\<forall>out. diff_one 1 t (''z'', Msq_array (replicate 6 (Fin 5))) out = Ret out"
proof -
  let ?c = "(sample_const ''z'' (Num_lit fone) 0)\<lparr>cd_class := Array_class, cd_shape := Some (Array2D 2 3)\<rparr>"
  have c: "tune_constant t ''z'' = Some ?c" by (simp add: t_def tune_constant_def sample_array_def im_get_def)
  have "returns (encode_user t 1 ''z'' (Fin 5))"
    by (simp add: encode_user_def c encode_impl_def) (simp add: sample_const_def)
  moreover have "tune_bytes t ?c = Some ([1], 0)"
    by (simp add: tune_bytes_Some t_def) (simp add: sample_const_def location_def)
  then have "array_raw t ''z'' 1 = None"
    by (simp add: array_raw_def c read_raw_def slice_get_def) (simp add: sample_const_def)
  ultimately show ?thesis
    by (intro allI diff_drops_array [where c = ?c and s = "Array2D 2 3" and k = 1]) (simp_all add: c)
qed

end
