(* ===== verification/Decimal_Text.thy ===== *)
theory Decimal_Text
  imports RustStr
begin

text \<open>
  Decimal text of numbers: \<open>Display\<close> and \<open>{:.p}\<close> output is read back by \<open>parse\<close> as the
  value rounded to the printed digits.  Shared by the tune files and the data logs.
\<close>

subsection \<open>Digits\<close>

definition digits :: "string \<Rightarrow> bool" where
  "digits s \<longleftrightarrow> s \<noteq> [] \<and> list_all is_digit s"

lemma digits_append: "digits a \<Longrightarrow> list_all is_digit b \<Longrightarrow> digits (a @ b)"
  by (simp add: digits_def)

lemma dec_val_snoc [simp]: "dec_val (s @ [c]) = 10 * dec_val s + digit_val c"
  by (simp add: dec_val_def)

lemma dec_val_Nil [simp]: "dec_val [] = 0"
  by (simp add: dec_val_def)

lemma digit_char: "n < 10 \<Longrightarrow> is_digit (char_of (48 + n)) \<and> digit_val (char_of (48 + n)) = n"
  by (simp add: is_digit_def digit_val_def)

lemma show_nat_digits: "digits (show_nat n) \<and> dec_val (show_nat n) = n"
proof (induction n rule: show_nat.induct)
  case (1 n)
  show ?case
  proof (cases "n < 10")
    case True
    then have "show_nat n = [] @ [char_of (48 + n)]" by (subst show_nat.simps) simp
    then show ?thesis using digit_char [OF True] by (simp add: digits_def dec_val_def)
  next
    case False
    then have "show_nat n = show_nat (n div 10) @ [char_of (48 + n mod 10)]"
      by (subst show_nat.simps) simp
    moreover have "is_digit (char_of (48 + n mod 10)) \<and> digit_val (char_of (48 + n mod 10)) = n mod 10"
      by (rule digit_char) simp
    ultimately show ?thesis using 1 [OF False] by (simp add: digits_def)
  qed
qed

lemma dec_val_zeros: "dec_val (replicate k (CHR ''0'') @ s) = dec_val s"
proof (induction s rule: rev_induct)
  case Nil
  have "dec_val (replicate k (CHR ''0'')) = 0"
    by (induction k) (simp_all add: replicate_append_same [symmetric] digit_val_def)
  then show ?case by simp
next
  case (snoc c s)
  then show ?case by (simp flip: append_assoc)
qed

lemma pad_left_digits:
  assumes "digits s"
  shows "digits (pad_left k s)" "dec_val (pad_left k s) = dec_val s" "k \<le> length (pad_left k s)"
  using assms by (auto simp: pad_left_def digits_def dec_val_zeros list_all_iff is_digit_def)

subsection \<open>Reading\<close>

lemma span_digits_append:
  "list_all is_digit a \<Longrightarrow> (r = [] \<or> \<not> is_digit (hd r)) \<Longrightarrow> span_digits (a @ r) = (a, r)"
  by (cases r) (auto simp: span_digits_def list_all_iff takeWhile_append2 dropWhile_append2)

lemma parse_decimal_point:
  assumes "digits ip" "list_all is_digit fp"
  shows "parse_decimal (ip @ CHR ''.'' # fp) = Some (of_nat (dec_val (ip @ fp)) / 10 ^ length fp)"
proof -
  have "span_digits (ip @ CHR ''.'' # fp) = (ip, CHR ''.'' # fp)"
    using assms(1) by (intro span_digits_append) (simp_all add: digits_def is_digit_def)
  moreover have "span_digits fp = (fp, [])"
    using span_digits_append [of fp "[]"] assms(2) by simp
  ultimately show ?thesis
    using assms(1) by (simp add: parse_decimal_def digits_def power_int_minus divide_inverse)
qed

lemma parse_decimal_digits: "digits s \<Longrightarrow> parse_decimal s = Some (of_nat (dec_val s))"
  using span_digits_append [of s "[]"] by (simp add: parse_decimal_def digits_def)

text \<open>Text that starts with a digit, or a minus sign and a digit, is read as a decimal.\<close>

lemma parse_f64_decimal:
  assumes "s \<noteq> []" "is_digit (hd s)" "parse_decimal s = Some q"
  shows "parse_f64 s = Some (to_f64 False q)" "parse_f64 (CHR ''-'' # s) = Some (to_f64 True (- q))"
proof -
  obtain c t where s: "s = c # t" using assms(1) by (cases s) auto
  have c: "is_digit c" using assms(2) s by simp
  then have "c \<noteq> CHR ''-''" "c \<noteq> CHR ''+''" "to_lower_char c = c" "c \<noteq> CHR ''i''" "c \<noteq> CHR ''n''"
    by (auto simp: is_digit_def to_lower_char_def)
  then show "parse_f64 s = Some (to_f64 False q)" "parse_f64 (CHR ''-'' # s) = Some (to_f64 True (- q))"
    using assms(3) by (simp_all add: parse_f64_def s to_ascii_lowercase_def)
qed

subsection \<open>Fixed-point output\<close>

text \<open>The value that \<open>{:.p}\<close> prints.\<close>

definition fixed_val :: "nat \<Rightarrow> f64 \<Rightarrow> rat" where
  "fixed_val p x = of_int (round_half_even (\<bar>fval x\<bar> * 10 ^ p)) / 10 ^ p"

lemma round_half_even_nonneg: "0 \<le> q \<Longrightarrow> 0 \<le> round_half_even q"
  by (auto simp: round_half_even_def Let_def)

definition fixed_digits :: "nat \<Rightarrow> f64 \<Rightarrow> string" where
  "fixed_digits p x =
     (let ds = pad_left (p + 1) (show_nat (nat (round_half_even (\<bar>fval x\<bar> * 10 ^ p)))); k = length ds - p
      in take k ds @ (if p = 0 then [] else CHR ''.'' # drop k ds))"

lemma show_fixed_finite:
  "is_finite x \<Longrightarrow> show_fixed p x = (if is_neg x then ''-'' else []) @ fixed_digits p x"
  by (cases x) (auto simp: show_fixed_def fixed_digits_def Let_def)

lemma fixed_digits_props:
  "fixed_digits p x \<noteq> []" "is_digit (hd (fixed_digits p x))"
  "parse_decimal (fixed_digits p x) = Some (fixed_val p x)"
  "list_all (\<lambda>c. is_digit c \<or> c = CHR ''.'') (fixed_digits p x)"
proof -
  define n where "n = nat (round_half_even (\<bar>fval x\<bar> * 10 ^ p))"
  define ds where "ds = pad_left (p + 1) (show_nat n)"
  define ip where "ip = take (length ds - p) ds"
  define fp where "fp = drop (length ds - p) ds"
  have ds: "digits ds" "dec_val ds = n" "p + 1 \<le> length ds"
    using pad_left_digits show_nat_digits by (auto simp: ds_def)
  have split: "ip @ fp = ds" "length fp = p" using ds(3) by (auto simp: ip_def fp_def)
  have ip: "digits ip" and fp: "list_all is_digit fp"
    using ds by (auto simp: digits_def ip_def fp_def list_all_iff dest: in_set_takeD in_set_dropD)
  have fd: "fixed_digits p x = (if p = 0 then ds else ip @ CHR ''.'' # fp)"
    using ds(3) by (auto simp: fixed_digits_def Let_def n_def ds_def ip_def fp_def)
  have "0 \<le> round_half_even (\<bar>fval x\<bar> * 10 ^ p)" by (intro round_half_even_nonneg) simp
  then have v: "fixed_val p x = of_nat n / 10 ^ p" by (simp add: fixed_val_def n_def)
  show "fixed_digits p x \<noteq> []" "is_digit (hd (fixed_digits p x))"
    using ds ip by (auto simp: fd digits_def neq_Nil_conv)
  show "parse_decimal (fixed_digits p x) = Some (fixed_val p x)"
    using parse_decimal_digits [OF ds(1)] parse_decimal_point [OF ip fp] split ds(2) by (simp add: fd v)
  show "list_all (\<lambda>c. is_digit c \<or> c = CHR ''.'') (fixed_digits p x)"
    using ds ip fp by (auto simp: fd digits_def list_all_iff)
qed

lemma parse_show_fixed:
  assumes "is_finite x"
  shows "parse_f64 (show_fixed p x) =
    Some (if is_neg x then to_f64 True (- fixed_val p x) else to_f64 False (fixed_val p x))"
  using parse_f64_decimal [OF fixed_digits_props(1,2,3), of p x] assms by (simp add: show_fixed_finite)

lemma parse_show_int: "parse_f64 (show_int i) = Some (to_f64 (i < 0) (of_int i))"
proof -
  have d: "digits (show_nat n)" "dec_val (show_nat n) = n" for n using show_nat_digits by blast+
  have h: "show_nat n \<noteq> []" "is_digit (hd (show_nat n))" for n
    using d(1) [of n] by (auto simp: digits_def neq_Nil_conv)
  note r = parse_f64_decimal [OF h parse_decimal_digits [OF d(1)]]
  show ?thesis
    using r(1) [of "nat i"] r(2) [of "nat (- i)"] by (simp add: show_int_def d(2))
qed

subsection \<open>Single tokens\<close>

text \<open>The characters of printed numbers.\<close>

definition number_text :: "string \<Rightarrow> bool" where
  "number_text s \<longleftrightarrow> s \<noteq> [] \<and> list_all (\<lambda>c. is_digit c \<or> c = CHR ''.'' \<or> c = CHR ''-'') s"

lemma number_text_fixed: "is_finite x \<Longrightarrow> number_text (show_fixed p x)"
  using fixed_digits_props(1,4) [of p x]
  by (auto simp: number_text_def show_fixed_finite list_all_iff)

lemma number_text_int: "number_text (show_int i)"
  using show_nat_digits [of "nat i"] show_nat_digits [of "nat (- i)"]
  by (auto simp: number_text_def show_int_def digits_def list_all_iff)

lemma number_text_solid: "number_text s \<Longrightarrow> list_all solid s"
  by (auto simp: number_text_def list_all_iff is_digit_def solid_def)

lemma trim_number: "number_text s \<Longrightarrow> trim s = s"
  using number_text_solid [of s] by (intro trim_solid) (auto simp: number_text_def list_all_iff)

lemma chars_of_solid: "list_all solid s \<Longrightarrow> chars_of s = map (\<lambda>c. [c]) s"
proof (induction s)
  case (Cons c s)
  then have "takeWhile is_cont s = []" "dropWhile is_cont s = s"
    using solid_props(1) by (cases s; auto)+
  with Cons show ?case by simp
qed simp

lemma split_whitespace_number:
  assumes "number_text s"
  shows "split_whitespace s = [s]"
proof -
  have cs: "chars_of s = map (\<lambda>c. [c]) s" by (rule chars_of_solid [OF number_text_solid [OF assms]])
  have nw: "\<forall>c \<in> set (chars_of s). \<not> is_ws c"
    using number_text_solid [OF assms] solid_props(2) by (auto simp: cs list_all_iff)
  have "s \<noteq> []" using assms by (simp add: number_text_def)
  then have "dropWhile is_ws (chars_of s) = chars_of s" "chars_of s \<noteq> []"
    using nw by (cases s; simp add: cs)+
  moreover have "takeWhile (\<lambda>c. \<not> is_ws c) (chars_of s) = chars_of s" "dropWhile (\<lambda>c. \<not> is_ws c) (chars_of s) = []"
    using nw by (simp_all add: takeWhile_eq_all_conv dropWhile_eq_Nil_conv)
  moreover have "split_ws [] = []" by (subst split_ws.simps) simp
  ultimately show ?thesis
    unfolding split_whitespace_def
    by (subst split_ws.simps) (simp only: Let_def if_False concat_chars_of)
qed

end
