(* ===== verification/Msq_Save.thy ===== *)
theory Msq_Save
  imports Msq_Laws Decimal_Text
begin

text \<open>
  Writing a tune file: \<open>save\<close> of \<open>tune-model/src/msq.rs\<close>.  The text is built line by line
  as the code pushes it; \<open>d\<close> is the room for nested lookups.

  The number format is proved to survive for integers (\<open>saved_integer_restored\<close>) and to
  lose small values (\<open>small_value_lost\<close>); overlapping constants are written once
  (\<open>saved_once\<close>).
\<close>

definition xml_escape :: "string \<Rightarrow> string" where
  "xml_escape s =
     replace_char CHR 0x22 ''&quot;'' (replace_char CHR ''>'' ''&gt;''
       (replace_char CHR ''<'' ''&lt;'' (replace_char CHR ''&'' ''&amp;'' s)))"

definition round_micro :: "f64 \<Rightarrow> f64" where
  "round_micro v = fdiv (fround (fmul v (f_of_int 1000000))) (f_of_int 1000000)"

definition fmt_num :: "f64 \<Rightarrow> string" where
  "fmt_num v =
     (let r = round_micro v
      in if feq r (ftrunc r) \<and> flt (fabs r) (f_of_int (10 ^ 15)) then show_fixed 1 r else show_f64 r)"

subsection \<open>Pieces of text\<close>

definition quoted :: "string \<Rightarrow> string" where "quoted s = CHR 0x22 # s @ [CHR 0x22]"

definition attr :: "string \<Rightarrow> string \<Rightarrow> string" where "attr k v = '' '' @ k @ ''='' @ quoted v"

definition tag_close :: "string \<Rightarrow> string" where "tag_close tag = ''</'' @ tag @ ''>'' @ nl"

definition quot_text :: "string \<Rightarrow> string" where "quot_text s = ''&quot;'' @ xml_escape s @ ''&quot;''"

definition digits_of :: "symbols \<Rightarrow> constant_def \<Rightarrow> nat run" where
  "digits_of S c = run_map (\<lambda>x. f_u8 (or_val fzero x)) (opt_eval S (cd_digits c))"

definition units_attr :: "symbols \<Rightarrow> constant_def \<Rightarrow> string run" where
  "units_attr S c =
     (case cd_units c of
        None \<Rightarrow> Ret []
      | Some u \<Rightarrow> run_map
          (\<lambda>r. case r of None \<Rightarrow> [] | Some s \<Rightarrow> attr ''units'' (xml_escape (trim_in {CHR 0x22} s)))
          (run_ok (str_or_expr_eval S u)))"

text \<open>The label of a combo index, unless there is none or it is the placeholder.\<close>

definition good_label :: "constant_def \<Rightarrow> nat \<Rightarrow> string option" where
  "good_label c i =
     (case list_get (cd_labels c) i of
        Some l \<Rightarrow> if l \<noteq> ''INVALID'' then Some l else None
      | None \<Rightarrow> None)"

subsection \<open>PC variables\<close>

definition save_pc :: "nat \<Rightarrow> tune \<Rightarrow> string \<times> constant_def \<Rightarrow> string run" where
  "save_pc d t nc =
     (case nc of (name, c) \<Rightarrow>
       if cd_no_msq_save c \<or> \<not> (cd_class c = Scalar \<or> cd_class c = Bits) then Ret []
       else (case tn_pc t name of
           None \<Rightarrow> Ret []
         | Some v \<Rightarrow>
             if cd_class c = Scalar then
               run_bind (digits_of (tune_syms t d) c) (\<lambda>dg.
               run_bind (units_attr (tune_syms t d) c) (\<lambda>units.
                 Ret (''<pcVariable'' @ attr ''digits'' (show_nat dg) @ attr ''name'' name @ units @ ''>'' @
                   fmt_num v @ tag_close ''pcVariable'')))
             else Ret (''<pcVariable'' @ attr ''name'' name @ ''>'' @
               (case good_label c (f_as_usize v) of
                  Some l \<Rightarrow> quot_text l
                | None \<Rightarrow> show_int (f_as_i64 v)) @ tag_close ''pcVariable'')))"

subsection \<open>Constants\<close>

text \<open>
  The constants of a page that are written: a byte range is written by the first constant
  that has it; bit fields share bytes freely.
\<close>

definition byte_range :: "constant_def \<Rightarrow> nat \<times> nat" where
  "byte_range c =
     (let start = (case cd_offset c of None \<Rightarrow> 0 | Some o1 \<Rightarrow> o1)
      in (start, (start + byte_size c) mod 2 ^ 32))"

definition overlaps :: "nat \<times> nat \<Rightarrow> nat \<times> nat \<Rightarrow> bool" where
  "overlaps a b \<longleftrightarrow> fst b < snd a \<and> fst a < snd b"

fun written :: "(nat \<times> nat) list \<Rightarrow> (string \<times> constant_def) list \<Rightarrow> (string \<times> constant_def) list" where
  "written owned [] = []"
| "written owned ((name, c) # r) =
     (if cd_class c = Bits then (name, c) # written owned r
      else if list_ex (\<lambda>o1. overlaps (byte_range c) o1) owned then written owned r
      else (name, c) # written (owned @ [byte_range c]) r)"

definition page_constants :: "tune \<Rightarrow> nat \<Rightarrow> (string \<times> constant_def) list" where
  "page_constants t page_idx =
     filter (\<lambda>(n, c). cd_page c = Some ((page_idx + 1) mod 256) \<and> \<not> cd_no_msq_save c)
       (i_constants (tn_def t))"

definition grid_dims :: "constant_def \<Rightarrow> (nat \<times> nat) option" where
  "grid_dims c =
     (case cd_shape c of
        Some (Array2D x y) \<Rightarrow> Some (x, y)
      | Some (Array1D n) \<Rightarrow> Some (1, n)
      | _ \<Rightarrow> None)"

definition save_row :: "f64 list \<Rightarrow> string" where
  "save_row row = replicate 9 (CHR '' '') @ concat (map (\<lambda>v. fmt_num v @ '' '') row) @ nl"

definition save_array :: "string \<Rightarrow> nat \<Rightarrow> string \<Rightarrow> nat \<times> nat \<Rightarrow> f64 list \<Rightarrow> string" where
  "save_array name dg units dims vs =
     (case dims of (cols, rows) \<Rightarrow>
        ''<constant'' @ attr ''cols'' (show_nat cols) @ attr ''digits'' (show_nat dg) @ attr ''name'' name @
        attr ''rows'' (show_nat rows) @ units @ ''>'' @ nl @
        concat (map save_row (chunks (max cols 1) vs)) @
        replicate 6 (CHR '' '') @ tag_close ''constant'')"

definition save_constant :: "nat \<Rightarrow> tune \<Rightarrow> string \<times> constant_def \<Rightarrow> string run" where
  "save_constant d t nc =
     (case nc of (name, c) \<Rightarrow>
       let S = tune_syms t d
       in run_bind (digits_of S c) (\<lambda>dg.
          run_bind (units_attr S c) (\<lambda>units.
            case cd_class c of
              Scalar \<Rightarrow>
                run_map (\<lambda>v. case v of
                    Some (VNum n) \<Rightarrow> ''<constant'' @ attr ''digits'' (show_nat dg) @ attr ''name'' name @ units @
                      ''>'' @ fmt_num n @ tag_close ''constant''
                  | _ \<Rightarrow> []) (constant_value t S name)
            | Bits \<Rightarrow>
                run_map (\<lambda>v. case v of
                    Some (VNum n) \<Rightarrow> ''<constant'' @ attr ''name'' name @ ''>'' @
                      (case (if f_as_i64 n < 0 then None else good_label c (nat (f_as_i64 n))) of
                         Some l \<Rightarrow> quot_text l
                       | None \<Rightarrow> show_int (f_as_i64 n)) @ tag_close ''constant''
                  | _ \<Rightarrow> []) (constant_value t S name)
            | Array_class \<Rightarrow>
                run_map (\<lambda>vs. case (vs, grid_dims c) of
                    (Some vs, Some dims) \<Rightarrow> save_array name dg units dims vs
                  | _ \<Rightarrow> []) (array_values t S name)
            | String_class \<Rightarrow>
                run_map (\<lambda>v. case v of
                    Some (VStr s) \<Rightarrow>
                      ''<constant'' @ attr ''name'' name @ ''>'' @ quot_text s @ tag_close ''constant''
                  | _ \<Rightarrow> []) (constant_value t S name))))"

subsection \<open>The document\<close>

definition save_page :: "nat \<Rightarrow> tune \<Rightarrow> nat \<Rightarrow> string run" where
  "save_page d t page_idx =
     run_map (\<lambda>parts. ''<page'' @ attr ''number'' (show_nat page_idx) @ ''>'' @ nl @ concat parts @ tag_close ''page'')
       (run_mapM (save_constant d t) (written [] (page_constants t page_idx)))"

definition save_head :: "tune \<Rightarrow> string \<Rightarrow> string \<Rightarrow> string" where
  "save_head t author write_date =
     (let sig = i_signature (tn_def t)
      in ''<?xml'' @ attr ''version'' ''1.0'' @ attr ''encoding'' ''ISO-8859-1'' @ ''?>'' @ nl @
         ''<msq'' @ attr ''xmlns'' ''http://www.msefi.com/:msq'' @ ''>'' @ nl @
         ''<bibliography'' @ attr ''author'' (xml_escape author) @ attr ''tuneComment'' [] @
           attr ''writeDate'' (xml_escape write_date) @ ''/>'' @ nl @
         ''<versionInfo'' @ attr ''fileFormat'' ''5.0'' @
           attr ''firmwareInfo'' (xml_escape (replace_char CHR '' '' ''+'' sig)) @
           attr ''nPages'' (show_nat (tune_page_count t)) @ attr ''signature'' (xml_escape sig) @ ''/>'' @ nl)"

definition save_settings :: "string list \<Rightarrow> string" where
  "save_settings symbols =
     ''<settings'' @ attr ''Comment'' ''These setting are only used if this msq is opened without a project.'' @
       ''>'' @ nl @
     concat (map (\<lambda>s. ''<setting'' @ attr ''name'' (xml_escape s) @ attr ''value'' (xml_escape s) @ ''/>'' @ nl)
       symbols) @
     tag_close ''settings'' @ tag_close ''msq''"

definition msq_save :: "nat \<Rightarrow> tune \<Rightarrow> string list \<Rightarrow> string \<Rightarrow> string \<Rightarrow> string run" where
  "msq_save d t symbols author write_date =
     run_bind (run_mapM (save_pc d t) (i_pc_variables (tn_def t))) (\<lambda>pcs.
     run_bind (run_mapM (save_page d t) [0 ..< tune_page_count t]) (\<lambda>pages.
       Ret (save_head t author write_date @ concat pcs @ concat pages @ save_settings symbols)))"

subsection \<open>Numbers that survive\<close>

lemma parse_body_number:
  assumes "number_text s" "parse_f64 s = Some v"
  shows "parse_body s = Msq_num v"
proof -
  obtain c r where s: "s = c # r" using assms(1) by (cases s) (auto simp: number_text_def)
  have "code c \<noteq> 34" using assms(1) s by (auto simp: number_text_def is_digit_def)
  then have "c \<noteq> CHR 0x22" by auto
  with s have "strip_prefix [CHR 0x22] s = None" by simp
  then show ?thesis
    using assms trim_number [OF assms(1)] split_whitespace_number [OF assms(1)]
    by (simp add: parse_body_def Let_def)
qed

lemma round_micro_int:
  assumes "\<bar>k\<bar> < 2 ^ 33"
  shows "round_micro (f_of_int k) = Fin (of_int k)"
proof -
  have m: "\<bar>k * 1000000\<bar> < 2 ^ 53" using assms by (simp add: abs_mult)
  have f: "f_of_int k = Fin (of_int k)" "f_of_int 1000000 = Fin 1000000"
    using assms f_of_int_exact [of k] f_of_int_exact [of 1000000] by simp_all
  have "fmul (f_of_int k) (f_of_int 1000000) = Fin (of_int (k * 1000000))"
    using to_f64_int [OF m, of "k < 0"] by (simp add: f fmul_def)
  moreover have "fround (Fin (of_int (k * 1000000))) = Fin (of_int (k * 1000000))"
    using round_away_near [of "of_int (k * 1000000)" "k * 1000000"] by (simp add: mk_fin_def)
  moreover have "fdiv (Fin (of_int (k * 1000000))) (f_of_int 1000000) = Fin (of_int k)"
    using to_f64_int [of k "k < 0"] assms by (simp add: f fdiv_def)
  ultimately show ?thesis by (simp add: round_micro_def)
qed

lemma saved_integer:
  assumes "\<bar>k\<bar> < 2 ^ 33"
  shows "parse_body (fmt_num (f_of_int k)) = Msq_num (f_of_int k)"
proof -
  let ?r = "Fin (of_int k)"
  have k53: "\<bar>k\<bar> < 2 ^ 53" using assms by simp
  have r: "round_micro (f_of_int k) = ?r" by (rule round_micro_int [OF assms])
  have "f_of_int (10 ^ 15) = Fin (10 ^ 15)" using f_of_int_exact [of "10 ^ 15"] by simp
  moreover have "\<bar>of_int k :: rat\<bar> < 10 ^ 15"
  proof -
    have "(of_int \<bar>k\<bar> :: rat) < of_int (2 ^ 33)" using assms by (simp only: of_int_less_iff)
    then show ?thesis by simp
  qed
  ultimately have fmt: "fmt_num (f_of_int k) = show_fixed 1 ?r"
    unfolding fmt_num_def r by (simp add: mk_fin_def Let_def)
  have "\<bar>of_int k :: rat\<bar> * 10 = of_int (\<bar>k\<bar> * 10)" by simp
  then have "fixed_val 1 ?r = of_int \<bar>k\<bar>"
    unfolding fixed_val_def fval.simps power_one_right by (simp only: round_half_even_int)
  moreover have "to_f64 True (of_int k) = Fin (of_int k)" if "k < 0"
    using that k53 to_f64_int [of k True] by simp
  moreover have "to_f64 False (of_int k) = Fin (of_int k)" using k53 to_f64_int [of k False] by simp
  ultimately have "parse_f64 (show_fixed 1 ?r) = Some ?r" by (simp add: parse_show_fixed)
  moreover have "number_text (show_fixed 1 ?r)" by (rule number_text_fixed) simp
  ultimately have "parse_body (show_fixed 1 ?r) = Msq_num ?r" by (intro parse_body_number)
  then show ?thesis using fmt by (simp add: f_of_int_exact [OF k53])
qed

lemma to_user_one: "\<bar>raw\<bar> < 2 ^ 53 \<Longrightarrow> to_user fone fzero raw = f_of_int raw"
  using to_f64_int [of raw False] to_f64_int [of raw "raw < 0"]
  by (auto simp: to_user_def f_of_int_exact fadd_def fmul_def)

text \<open>
  C22. A saved scalar is restored.  A scalar constant whose scale is the literal 1 and whose
  translation is the literal 0 has a value in the tune that is saved; the number the file
  writes for it, applied to any tune of the same definition, whatever that tune held, leaves
  exactly the saved raw value there, and no byte but the constant's own changes.
\<close>

theorem unscaled_constant_survives_file:
  assumes c: "tune_constant t name = Some c" "cd_class c = Scalar" "location c = Some (i, off)"
    "cd_scale c = Num_lit fone" "cd_translate c = Num_lit fzero"
    and page: "i < length (tn_pages t)" "off + ty_size (cd_ty c) \<le> length (pg_data (tn_pages t ! i))"
    and other: "tn_def t2 = tn_def t" "i < length (tn_pages t2)"
      "off + ty_size (cd_ty c) \<le> length (pg_data (tn_pages t2 ! i))"
  shows "\<exists>v raw t3. constant_value t (tune_syms t d) name = Ret (Some (VNum v)) \<and>
    constant_raw t name = Some raw \<and>
    apply_value d name c (parse_body (fmt_num v)) t2 = Ret (None, t3) \<and>
    constant_raw t3 name = Some raw \<and>
    only_bytes {(i, b) |b. off \<le> b \<and> b < off + ty_size (cd_ty c)} t2 t3 \<and> same_but_data t2 t3 \<and>
    (constant_raw t2 name = Some raw \<longrightarrow> t3 = t2)"
proof -
  obtain raw where raw: "read_raw (pg_data (tn_pages t ! i)) off (cd_ty c) = Some raw"
    using read_raw_Some [OF page(2)] by blast
  have range: "in_range (cd_ty c) raw" by (rule read_raw_range [OF raw])
  then have small: "\<bar>raw\<bar> < 2 ^ 33" by (cases "cd_ty c") (auto simp: in_range_def)
  note enc = encode_decoded [of _ d c fone fzero raw, OF _ _ codec_ok_one range]
  have u: "to_user fone fzero raw = f_of_int raw" using small by (intro to_user_one) simp
  have val: "constant_value t (tune_syms t d) name = Ret (Some (VNum (f_of_int raw)))"
    using c page raw enc u by (simp add: constant_value_def tune_bytes_def tune_page_def)
  have rd: "constant_raw x name = read_raw (pg_data (tn_pages x ! i)) off (cd_ty c)"
    if "tn_def x = tn_def t" "i < length (tn_pages x)" for x
    using c that
    by (simp add: constant_raw_def tune_bytes_def tune_page_def tune_constant_def list_get_def split: option.split)
  obtain t3 where w: "write_page i off (cd_ty c) raw t2 = Ret (Inr t3)"
    using other(2) by (simp add: write_page_def)
  have frame: "same_but_data t2 t3" by (rule write_page_frame(1) [OF w])
  then have t3: "tn_def t3 = tn_def t" "i < length (tn_pages t3)"
    using other by (auto simp: same_but_data_def dest: map_eq_imp_length_eq)
  have "set_constant_unclamped d name (f_of_int raw) t2 = Ret (Inr t3)"
    using c enc u w other(1)
    by (simp add: set_constant_unclamped_def set_constant_impl_def tune_constant_def)
  then have ap: "apply_value d name c (parse_body (fmt_num (f_of_int raw))) t2 = Ret (None, t3)"
    using c(2) by (simp add: saved_integer [OF small] apply_value_def keep_on_error_def)
  have new: "constant_raw t3 name = Some raw"
    using rd [OF t3] write_page_frame(3) [OF w other(3) range] by simp
  have same: "t3 = t2" if "constant_raw t2 name = Some raw"
  proof -
    have "read_raw (pg_data (tn_pages t2 ! i)) off (cd_ty c) = Some raw" using that rd [OF other(1,2)] by simp
    with write_back [OF other(2)] w show ?thesis by simp
  qed
  have only: "only_bytes {(i, b) |b. off \<le> b \<and> b < off + ty_size (cd_ty c)} t2 t3"
    by (rule write_page_only [OF w]) simp
  from val rd [OF refl page(1)] raw ap new only frame same show ?thesis by auto
qed

text \<open>The value 7 of the sample tune, applied to a tune that holds 200 there.\<close>

theorem unscaled_constant_survives_file_witness:
  fixes t2 :: tune
  defines "t2 \<equiv> (sample_tune (Num_lit fone))\<lparr>tn_pages := [\<lparr>pg_data = [200, 8], pg_ecu = [7, 8], pg_burned = [7, 8]\<rparr>]\<rparr>"
  shows "\<exists>v raw t3. constant_value (sample_tune (Num_lit fone)) (tune_syms (sample_tune (Num_lit fone)) 2) ''a''
      = Ret (Some (VNum v)) \<and> constant_raw (sample_tune (Num_lit fone)) ''a'' = Some raw \<and>
    apply_value 2 ''a'' (sample_const ''a'' (Num_lit fone) 0) (parse_body (fmt_num v)) t2 = Ret (None, t3) \<and>
    constant_raw t3 ''a'' = Some raw"
proof -
  let ?c = "sample_const ''a'' (Num_lit fone) 0" and ?t = "sample_tune (Num_lit fone)"
  have c: "tune_constant ?t ''a'' = Some ?c" by simp
  have k: "cd_class ?c = Scalar" "location ?c = Some (0, 0)" "cd_scale ?c = Num_lit fone"
      "cd_translate ?c = Num_lit fzero" "ty_size (cd_ty ?c) = 1"
    by (simp_all add: sample_const_def location_def)
  have p: "0 < length (tn_pages ?t)" "0 + ty_size (cd_ty ?c) \<le> length (pg_data (tn_pages ?t ! 0))"
    using k(5) by (simp_all add: sample_tune_def)
  have o1: "tn_def t2 = tn_def ?t" "0 < length (tn_pages t2)" "0 + ty_size (cd_ty ?c) \<le> length (pg_data (tn_pages t2 ! 0))"
    using k(5) by (simp_all add: t2_def)
  show ?thesis using unscaled_constant_survives_file [OF c k(1-4) p o1, of 2] by blast
qed

subsection \<open>Numbers that do not\<close>

text \<open>
  The file keeps six decimals: a user value below half of that is written as 0, so a
  constant with a smaller scale does not come back from a saved file.
\<close>

theorem small_value_lost:
  assumes "0 \<le> q" "q \<le> 49 / 10 ^ 8"
  shows "parse_body (fmt_num (Fin q)) = Msq_num fzero"
proof -
  have f: "f_of_int 1000000 = Fin 1000000" using f_of_int_exact [of 1000000] by simp
  define p where "p = q * 1000000"
  have p: "0 \<le> p" "p \<le> 49 / 100" using assms by (simp_all add: p_def field_simps)
  have big: "\<bar>p\<bar> \<le> 2 ^ 1023"
    using p order_trans [of p 1 "2 ^ 1023"] by simp
  have "\<bar>rnd_rat p - p\<bar> \<le> \<bar>p\<bar> / 2 ^ 53 + 1 / 2 ^ 1075" by (rule rnd_rat_error)
  also have "\<bar>p\<bar> / 2 ^ 53 \<le> 1 / 1000" using p by (simp add: field_simps)
  also have "(1 :: rat) / 2 ^ 1075 \<le> 1 / 1000" by (simp add: field_simps)
  finally have "\<bar>rnd_rat p - p\<bar> \<le> 1 / 500" by simp
  then have "\<bar>rnd_rat p\<bar> < 1 / 2" using p by linarith
  then have "round_away (rnd_rat p) = 0" using round_away_near [of "rnd_rat p" 0] by simp
  moreover have "0 \<le> rnd_rat p"
    using p by (simp add: rnd_rat_def Let_def round_half_even_nonneg)
  moreover obtain r where r: "to_f64 False p = Fin r" "r = rnd_rat p"
    using to_f64_finite [OF big, of False] p by (cases "to_f64 False p") (auto simp: to_f64_def Let_def mk_fin_def split: if_splits)
  ultimately have "fround (to_f64 False p) = Fin 0" by (simp add: mk_fin_def)
  moreover have "fmul (Fin q) (Fin 1000000) = to_f64 False p" using assms(1) by (simp add: fmul_def p_def)
  moreover have "fdiv (Fin 0) (Fin 1000000) = Fin 0" using to_f64_int [of 0 False] by (simp add: fdiv_def)
  ultimately have "round_micro (Fin q) = f_of_int 0" by (simp add: round_micro_def f f_of_int_exact)
  moreover have "round_micro (f_of_int 0) = f_of_int 0" using round_micro_int [of 0] by (simp add: f_of_int_exact)
  ultimately have "fmt_num (Fin q) = fmt_num (f_of_int 0)" by (simp add: fmt_num_def)
  then show ?thesis
    using saved_integer [of 0] by (simp add: f_of_int_exact)
qed

theorem small_value_lost_witness: "parse_body (fmt_num (Fin (1 / 4000000))) = Msq_num fzero"
  by (rule small_value_lost) simp_all

subsection \<open>Overlapping constants\<close>

lemma written_subset: "set (written owned ncs) \<subseteq> set ncs"
  by (induction owned ncs rule: written.induct) auto

text \<open>The byte ranges owned by the value constants of a list.\<close>

definition ranges :: "(string \<times> constant_def) list \<Rightarrow> (nat \<times> nat) list" where
  "ranges ncs = map (byte_range \<circ> snd) (filter (\<lambda>(n, c). cd_class c \<noteq> Bits) ncs)"

lemma ranges_simps [simp]:
  "ranges [] = []" "ranges ((n, c) # r) = (if cd_class c = Bits then ranges r else byte_range c # ranges r)"
  by (simp_all add: ranges_def)

lemma written_ranges:
  "sorted_wrt (\<lambda>a b. \<not> overlaps b a) owned \<Longrightarrow>
     sorted_wrt (\<lambda>a b. \<not> overlaps b a) (owned @ ranges (written owned ncs))"
proof (induction owned ncs rule: written.induct)
  case (2 owned name c r)
  show ?case
  proof (cases "cd_class c = Bits \<or> list_ex (overlaps (byte_range c)) owned")
    case True
    with 2 show ?thesis by auto
  next
    case False
    then have "sorted_wrt (\<lambda>a b. \<not> overlaps b a) (owned @ [byte_range c])"
      using "2.prems" by (auto simp: sorted_wrt_append list_ex_iff)
    with 2 False show ?thesis by simp
  qed
qed simp

lemma written_covers:
  "(name, c) \<in> set ncs \<Longrightarrow> (name, c) \<notin> set (written owned ncs) \<Longrightarrow> cd_class c \<noteq> Bits \<and>
     (\<exists>o1 \<in> set (owned @ ranges (written owned ncs)). overlaps (byte_range c) o1)"
proof (induction owned ncs rule: written.induct)
  case (2 owned n k r)
  then show ?case by (auto simp: list_ex_iff split: if_splits)
qed simp

lemma overlaps_sym: "overlaps a b = overlaps b a"
  by (auto simp: overlaps_def)

text \<open>
  On a page, \<open>save\<close> writes every byte range once: the ranges of the written value
  constants are pairwise disjoint, every bit field is written, and a constant is left out
  only if its range overlaps a written one.
\<close>

theorem saved_once:
  fixes t :: tune
  defines "out i \<equiv> written [] (page_constants t i)"
  shows "sorted_wrt (\<lambda>a b. \<not> overlaps a b) (ranges (out i)) \<and> set (out i) \<subseteq> set (page_constants t i) \<and>
    (\<forall>(name, c) \<in> set (page_constants t i). (name, c) \<in> set (out i) \<or>
       cd_class c \<noteq> Bits \<and> (\<exists>r \<in> set (ranges (out i)). overlaps (byte_range c) r))"
  using written_ranges [of "[]" "page_constants t i"] written_subset [of "[]" "page_constants t i"]
    written_covers [of _ _ "page_constants t i" "[]"]
  by (auto simp: out_def overlaps_sym)

text \<open>A 16-bit value at offset 0 and its overlaid low byte: only the first is written.\<close>

theorem saved_once_witness:
  fixes t :: tune
  defines "t \<equiv> (sample_tune (Num_lit fone))\<lparr>tn_def := ini_default\<lparr>i_constants :=
      [(''w'', (sample_const ''w'' (Num_lit fone) 0)\<lparr>cd_ty := U16\<rparr>), (''l'', sample_const ''l'' (Num_lit fone) 1)]\<rparr>\<rparr>"
  shows "map fst (written [] (page_constants t 0)) = [''w''] \<and>
    sorted_wrt (\<lambda>a b. \<not> overlaps a b) (ranges (written [] (page_constants t 0)))"
proof
  show "map fst (written [] (page_constants t 0)) = [''w'']"
    by (simp add: t_def page_constants_def sample_const_def overlaps_def byte_range_def byte_size_def Let_def)
  show "sorted_wrt (\<lambda>a b. \<not> overlaps a b) (ranges (written [] (page_constants t 0)))"
    using saved_once [of t 0] by blast
qed

end
