(* ===== verification/Envelope.thy ===== *)
theory Envelope
  imports Prelude
begin

text \<open>
  The "msEnvelope 1.0" framing of \<open>ecu-proto/src/envelope.rs\<close>: the encoder, and
  the byte-at-a-time decoder with its resynchronisation on implausible headers.

  The checksum comes from the \<open>crc32fast\<close> crate, so it is the parameter \<open>crc\<close>
  of every definition that uses it; nothing is assumed of it.  \<open>crc32_ieee\<close> is
  the documented function, used to instantiate the parameter in examples.

  Lemmas: the decoder invariant and absence of panics (\<open>push_inv\<close>), the frame
  step (\<open>feed_encode\<close>), the history invariant behind the soundness of emitted
  frames (\<open>push_hist\<close>).
\<close>

definition MAX_PAYLOAD :: nat where "MAX_PAYLOAD = 2048"
definition RC_OK :: u8 where "RC_OK = 0"

definition encode :: "(bytes \<Rightarrow> u32) \<Rightarrow> bytes \<Rightarrow> bytes" where
  "encode crc payload =
     to_be16 (of_nat (length payload)) @ payload @ to_be32 (crc payload)"

datatype event = Frame bytes | CrcBad

datatype dec_state = Header | Payload

record decoder =
  d_state :: dec_state
  d_header :: "u8 \<times> u8"
  d_header_len :: nat
  d_payload_len :: nat
  d_buf :: bytes

definition decoder_new :: decoder where
  "decoder_new = \<lparr>d_state = Header, d_header = (0, 0), d_header_len = 0,
     d_payload_len = 0, d_buf = []\<rparr>"

definition decoder_reset :: "decoder \<Rightarrow> decoder" where
  "decoder_reset d = d\<lparr>d_state := Header, d_header_len := 0, d_buf := []\<rparr>"

text \<open>\<open>self.header[i] = byte\<close> on the two-byte array.\<close>

fun header_set :: "u8 \<times> u8 \<Rightarrow> nat \<Rightarrow> u8 \<Rightarrow> (u8 \<times> u8) option" where
  "header_set (h0, h1) i b =
     (if i = 0 then Some (b, h1) else if i = 1 then Some (h0, b) else None)"

definition push_header :: "decoder \<Rightarrow> u8 \<Rightarrow> (event option \<times> decoder) run" where
  "push_header d b =
     (case header_set (d_header d) (d_header_len d) b of
        None \<Rightarrow> Crash Panic
      | Some h \<Rightarrow>
          (let d1 = d\<lparr>d_header := h, d_header_len := d_header_len d + 1\<rparr>
           in if d_header_len d1 = 2 then
                (let len = unat (from_be16 (fst h) (snd h))
                 in if 0 < len \<and> len \<le> MAX_PAYLOAD
                    then Ret (None, d1\<lparr>d_payload_len := len, d_buf := [], d_state := Payload\<rparr>)
                    else Ret (None, d1\<lparr>d_header := (snd h, snd h), d_header_len := 1\<rparr>))
              else Ret (None, d1)))"

definition push_payload :: "(bytes \<Rightarrow> u32) \<Rightarrow> decoder \<Rightarrow> u8 \<Rightarrow> (event option \<times> decoder) run" where
  "push_payload crc d b =
     (let d1 = d\<lparr>d_buf := d_buf d @ [b]\<rparr>
      in if length (d_buf d1) < d_payload_len d1 + 4 then Ret (None, d1)
         else
           (let d2 = d1\<lparr>d_state := Header, d_header_len := 0\<rparr>;
                payload = take (d_payload_len d2) (d_buf d2)
            in case drop (d_payload_len d2) (d_buf d2) of
                 [t0, t1, t2, t3] \<Rightarrow>
                   (if crc payload = from_be32 t0 t1 t2 t3
                    then Ret (Some (Frame payload), d2) else Ret (Some CrcBad, d2))
               | _ \<Rightarrow> Crash Panic))"

definition push :: "(bytes \<Rightarrow> u32) \<Rightarrow> decoder \<Rightarrow> u8 \<Rightarrow> (event option \<times> decoder) run" where
  "push crc d b = (case d_state d of Header \<Rightarrow> push_header d b | Payload \<Rightarrow> push_payload crc d b)"

text \<open>Feeding a stream: the events in order, as the callers' loops collect them.\<close>

fun feed :: "(bytes \<Rightarrow> u32) \<Rightarrow> decoder \<Rightarrow> bytes \<Rightarrow> (event list \<times> decoder) run" where
  "feed crc d [] = Ret ([], d)"
| "feed crc d (b # bs) =
     run_bind (push crc d b) (\<lambda>(ev, d1).
       run_map (\<lambda>(evs, d2). (case ev of None \<Rightarrow> evs | Some e \<Rightarrow> e # evs, d2)) (feed crc d1 bs))"

subsection \<open>The documented checksum, for examples\<close>

definition crc_step :: "u32 \<Rightarrow> u32" where
  "crc_step c = (if bit c 0 then drop_bit 1 c XOR 0xEDB88320 else drop_bit 1 c)"

definition crc_byte :: "u32 \<Rightarrow> u8 \<Rightarrow> u32" where
  "crc_byte c b = (crc_step ^^ 8) (c XOR ucast b)"

definition crc32_ieee :: "bytes \<Rightarrow> u32" where
  "crc32_ieee bs = foldl crc_byte 0xFFFFFFFF bs XOR 0xFFFFFFFF"

lemma crc32_ieee_vector: "crc32_ieee [0x41] = 0xD3D99E8B"
  by code_simp

subsection \<open>Invariant and absence of panics\<close>

definition dec_inv :: "decoder \<Rightarrow> bool" where
  "dec_inv d \<longleftrightarrow>
     (case d_state d of
        Header \<Rightarrow> d_header_len d \<le> 1
      | Payload \<Rightarrow> 0 < d_payload_len d \<and> d_payload_len d \<le> MAX_PAYLOAD
          \<and> length (d_buf d) < d_payload_len d + 4)"

definition idle :: "decoder \<Rightarrow> bool" where
  "idle d \<longleftrightarrow> d_state d = Header \<and> d_header_len d = 0"

lemma idle_new [simp]: "idle decoder_new"
  by (simp add: idle_def decoder_new_def)

lemma idle_reset [simp]: "idle (decoder_reset d)"
  by (simp add: idle_def decoder_reset_def)

lemma idle_inv: "idle d \<Longrightarrow> dec_inv d"
  by (simp add: idle_def dec_inv_def)

lemma header_set_ok: "i \<le> 1 \<Longrightarrow> \<exists>h'. header_set h i b = Some h'"
  by (cases h) auto

lemma length4_cases:
  assumes "length xs = 4"
  obtains a b c d where "xs = [a, b, c, d]"
  using assms by (auto simp: numeral_eq_Suc length_Suc_conv)

lemma push_inv:
  assumes "dec_inv d"
  shows "\<exists>ev d'. push crc d b = Ret (ev, d') \<and> dec_inv d'"
proof (cases "d_state d")
  case Header
  with assms have l: "d_header_len d \<le> 1" by (simp add: dec_inv_def)
  then obtain h where "header_set (d_header d) (d_header_len d) b = Some h"
    using header_set_ok by blast
  with Header l show ?thesis
    by (auto simp: push_def push_header_def dec_inv_def Let_def)
next
  case Payload
  show ?thesis
  proof (cases "length (d_buf d) + 1 < d_payload_len d + 4")
    case True
    with Payload assms show ?thesis
      by (auto simp: push_def push_payload_def dec_inv_def Let_def)
  next
    case False
    with Payload assms have "length (drop (d_payload_len d) (d_buf d @ [b])) = 4"
      by (auto simp: dec_inv_def)
    then obtain t0 t1 t2 t3 where "drop (d_payload_len d) (d_buf d @ [b]) = [t0, t1, t2, t3]"
      by (rule length4_cases)
    with Payload False show ?thesis
      by (auto simp: push_def push_payload_def dec_inv_def Let_def)
  qed
qed

lemma feed_inv: "dec_inv d \<Longrightarrow> \<exists>evs d'. feed crc d bs = Ret (evs, d') \<and> dec_inv d'"
proof (induction bs arbitrary: d)
  case Nil
  then show ?case by simp
next
  case (Cons b bs)
  then obtain ev d1 where p: "push crc d b = Ret (ev, d1)" "dec_inv d1"
    using push_inv by blast
  with Cons.IH obtain evs d2 where "feed crc d1 bs = Ret (evs, d2)" "dec_inv d2" by blast
  with p show ?case by auto
qed

lemma feed_append:
  "feed crc d (xs @ ys) =
     run_bind (feed crc d xs) (\<lambda>(e1, d1). run_map (\<lambda>(e2, d2). (e1 @ e2, d2)) (feed crc d1 ys))"
proof (induction xs arbitrary: d)
  case Nil
  show ?case by (cases "feed crc d ys") auto
next
  case (Cons x xs)
  show ?case
  proof (cases "push crc d x")
    case (Ret r)
    obtain ev d1 where "r = (ev, d1)" by (cases r)
    then show ?thesis
      by (cases "feed crc d1 xs"; cases "feed crc (snd (case feed crc d1 xs of Ret z \<Rightarrow> z)) ys")
        (auto simp: Ret Cons.IH split: option.splits)
  qed simp
qed

lemma feed_seq:
  assumes "feed crc d xs = Ret (e1, d1)" "feed crc d1 ys = Ret (e2, d2)"
  shows "feed crc d (xs @ ys) = Ret (e1 @ e2, d2)"
  by (simp add: feed_append assms)

subsection \<open>Decoding what the encoder wrote\<close>

lemma from_be16_to: "from_be16 (ucast (drop_bit 8 w)) (ucast w) = w"
  by (simp add: from_be16_def)

lemma feed_buffer:
  assumes "d_state d = Payload" "length (d_buf d) + length bs < d_payload_len d + 4"
  shows "feed crc d bs = Ret ([], d\<lparr>d_buf := d_buf d @ bs\<rparr>)"
  using assms
proof (induction bs arbitrary: d)
  case (Cons b bs)
  have "push crc d b = Ret (None, d\<lparr>d_buf := d_buf d @ [b]\<rparr>)"
    using Cons.prems by (simp add: push_def push_payload_def Let_def)
  with Cons.IH [of "d\<lparr>d_buf := d_buf d @ [b]\<rparr>"] Cons.prems show ?case by simp
qed simp

lemma push_complete:
  assumes "d_state d = Payload" "d_payload_len d = length p"
    and "d_buf d = p @ [t0, t1, t2]"
  shows "push crc d t3 =
    Ret (Some (if crc p = from_be32 t0 t1 t2 t3 then Frame p else CrcBad),
         d\<lparr>d_buf := p @ [t0, t1, t2, t3], d_state := Header, d_header_len := 0\<rparr>)"
  using assms by (simp add: push_def push_payload_def Let_def)

text \<open>A header, a body of the announced length and any trailer, fed to an idle decoder.\<close>

lemma feed_frame:
  assumes "idle d" "0 < length p" "length p \<le> MAX_PAYLOAD"
  shows "\<exists>d'. feed crc d (to_be16 (of_nat (length p)) @ p @ [t0, t1, t2, t3]) =
      Ret ([if crc p = from_be32 t0 t1 t2 t3 then Frame p else CrcBad], d') \<and> idle d'"
proof -
  define w where "w = (of_nat (length p) :: u16)"
  have w: "unat w = length p"
    using assms(3) by (simp add: w_def MAX_PAYLOAD_def unat_of_nat)
  define d1 where "d1 = d\<lparr>d_header := (ucast (drop_bit 8 w), ucast w), d_header_len := 2,
    d_payload_len := length p, d_buf := [], d_state := Payload\<rparr>"
  obtain h0 h1 where h: "d_header d = (h0, h1)" by (cases "d_header d")
  have hd1: "feed crc d (to_be16 w) = Ret ([], d1)"
    using assms h w
    by (simp add: to_be16_def idle_def push_def push_header_def Let_def from_be16_to d1_def)
  have f: "d_state d1 = Payload" "d_payload_len d1 = length p" "d_buf d1 = []"
    by (simp_all add: d1_def)
  have b: "feed crc d1 (p @ [t0, t1, t2]) = Ret ([], d1\<lparr>d_buf := p @ [t0, t1, t2]\<rparr>)"
    using feed_buffer [of d1 "p @ [t0, t1, t2]" crc] f by simp
  have c: "push crc (d1\<lparr>d_buf := p @ [t0, t1, t2]\<rparr>) t3 =
      Ret (Some (if crc p = from_be32 t0 t1 t2 t3 then Frame p else CrcBad),
        d1\<lparr>d_buf := p @ [t0, t1, t2, t3], d_state := Header, d_header_len := 0\<rparr>)"
    by (subst push_complete) (simp_all add: f)
  then have "feed crc (d1\<lparr>d_buf := p @ [t0, t1, t2]\<rparr>) [t3] =
      Ret ([if crc p = from_be32 t0 t1 t2 t3 then Frame p else CrcBad],
        d1\<lparr>d_buf := p @ [t0, t1, t2, t3], d_state := Header, d_header_len := 0\<rparr>)"
    by simp
  from feed_seq [OF hd1 feed_seq [OF b this]]
  have "feed crc d (to_be16 w @ p @ [t0, t1, t2, t3]) =
      Ret ([if crc p = from_be32 t0 t1 t2 t3 then Frame p else CrcBad],
        d1\<lparr>d_buf := p @ [t0, t1, t2, t3], d_state := Header, d_header_len := 0\<rparr>)"
    by simp
  then show ?thesis by (auto simp: w_def idle_def)
qed

lemma feed_encode:
  assumes "idle d" "0 < length p" "length p \<le> MAX_PAYLOAD"
  shows "\<exists>d'. feed crc d (encode crc p) = Ret ([Frame p], d') \<and> idle d'"
proof -
  have "length (to_be32 (crc p)) = 4" by simp
  then obtain t0 t1 t2 t3 where t: "to_be32 (crc p) = [t0, t1, t2, t3]" by (rule length4_cases)
  have "from_be32 t0 t1 t2 t3 = crc p"
    using t by (auto simp: to_be32_def from_be32_def)
  with feed_frame [OF assms, of crc t0 t1 t2 t3] t show ?thesis
    by (simp add: encode_def)
qed

subsection \<open>Properties of the decoder\<close>

text \<open>
  C11. A decoder at rest that receives any sequence of encoded payloads, each of
  1 to 2048 bytes, emits exactly those payloads in order and is at rest again.
\<close>

theorem feed_stream:
  assumes "idle d" and "\<And>p. p \<in> set ps \<Longrightarrow> 0 < length p \<and> length p \<le> MAX_PAYLOAD"
  shows "\<exists>d'. feed crc d (concat (map (encode crc) ps)) = Ret (map Frame ps, d') \<and> idle d'"
  using assms
proof (induction ps arbitrary: d)
  case Nil
  then show ?case by simp
next
  case (Cons p ps)
  have "0 < length p" "length p \<le> MAX_PAYLOAD" using Cons.prems by auto
  from feed_encode [OF Cons.prems(1) this]
  obtain d1 where 1: "feed crc d (encode crc p) = Ret ([Frame p], d1)" "idle d1" by blast
  from Cons.IH [OF 1(2)] Cons.prems
  obtain d2 where "feed crc d1 (concat (map (encode crc) ps)) = Ret (map Frame ps, d2)" "idle d2"
    by auto
  with 1 show ?case by (auto simp: feed_append)
qed

theorem feed_stream_witness:
  "\<exists>d'. feed crc32_ieee decoder_new (encode crc32_ieee [0, 1, 2] @ encode crc32_ieee [4]) =
     Ret ([Frame [0, 1, 2], Frame [4]], d') \<and> idle d'"
proof -
  have "0 < length p \<and> length p \<le> MAX_PAYLOAD" if "p \<in> set [[0, 1, 2], [4]]" for p :: bytes
    using that by (auto simp: MAX_PAYLOAD_def)
  from feed_stream [where ps = "[[0, 1, 2], [4]]" and crc = crc32_ieee, OF idle_new this]
  show ?thesis by simp
qed

text \<open>
  The decoder never panics and keeps its invariant on any byte stream from the
  transport: the header index stays inside the two-byte array, the announced
  length stays between 1 and 2048 and the buffer never outgrows one frame.
\<close>

theorem feed_never_panics:
  "\<exists>evs d'. feed crc decoder_new bs = Ret (evs, d') \<and> dec_inv d'"
  by (intro feed_inv idle_inv idle_new)

text \<open>
  The history of a decoder: in the header state the pending header byte, in the
  payload state header and buffer, are the last bytes received.
\<close>

definition hist :: "bytes \<Rightarrow> decoder \<Rightarrow> bool" where
  "hist bs d \<longleftrightarrow>
     (case d_state d of
        Header \<Rightarrow> d_header_len d = 1 \<longrightarrow> (\<exists>pre. bs = pre @ [fst (d_header d)])
      | Payload \<Rightarrow> \<exists>pre h0 h1. bs = pre @ [h0, h1] @ d_buf d
          \<and> d_payload_len d = unat (from_be16 h0 h1))"

lemma push_hist:
  assumes "hist bs d" "dec_inv d" "push crc d b = Ret (ev, d')"
  shows "hist (bs @ [b]) d'"
proof (cases "d_state d")
  case Header
  obtain h0 h1 where h: "d_header d = (h0, h1)" by (cases "d_header d")
  have "d_header_len d = 0 \<or> d_header_len d = 1"
    using assms(2) Header by (auto simp: dec_inv_def)
  then show ?thesis
  proof
    assume "d_header_len d = 0"
    with assms(3) Header h show ?thesis
      by (auto simp: push_def push_header_def hist_def Let_def split: if_splits)
  next
    assume l: "d_header_len d = 1"
    with assms(1) Header h obtain pre where "bs = pre @ [h0]" by (auto simp: hist_def)
    with assms(3) Header h l show ?thesis
      by (auto simp: push_def push_header_def hist_def Let_def split: if_splits)
  qed
next
  case Payload
  with assms(1) obtain pre h0 h1 where
    "bs = pre @ [h0, h1] @ d_buf d" "d_payload_len d = unat (from_be16 h0 h1)"
    by (auto simp: hist_def)
  with assms(3) Payload show ?thesis
    by (auto simp: push_def push_payload_def hist_def Let_def split: if_splits list.splits)
qed

lemma feed_hist:
  assumes "hist bs d" "dec_inv d" "feed crc d cs = Ret (evs, d')"
  shows "hist (bs @ cs) d' \<and> dec_inv d'"
  using assms
proof (induction cs arbitrary: bs d evs)
  case (Cons c cs)
  obtain ev d1 where p: "push crc d c = Ret (ev, d1)" "dec_inv d1"
    using push_inv [OF Cons.prems(2)] by blast
  with Cons.prems(3) obtain evs' where f: "feed crc d1 cs = Ret (evs', d')"
    by (cases "feed crc d1 cs") auto
  from push_hist [OF Cons.prems(1,2) p(1)] p(2) f show ?case
    using Cons.IH [of "bs @ [c]" d1 evs'] by simp
qed simp

lemma be16_parts: "to_be16 (from_be16 h0 h1) = [h0, h1]"
  using to_le16_from [of h1 h0] by (simp add: to_be16_def to_le16_def from_be16_def)

lemma push_frame_sound:
  assumes h: "hist bs d" and i: "dec_inv d" and p: "push crc d b = Ret (Some (Frame p), d')"
  shows "(\<exists>pre. bs @ [b] = pre @ encode crc p) \<and> 0 < length p \<and> length p \<le> MAX_PAYLOAD"
proof -
  have s: "d_state d = Payload"
    using p by (cases "d_state d") (auto simp: push_def push_header_def Let_def split: option.splits if_splits)
  with h obtain pre h0 h1 where bs: "bs = pre @ [h0, h1] @ d_buf d"
    and l: "d_payload_len d = unat (from_be16 h0 h1)" by (auto simp: hist_def)
  obtain t0 t1 t2 t3 where
    t: "drop (d_payload_len d) (d_buf d @ [b]) = [t0, t1, t2, t3]"
    and p: "p = take (d_payload_len d) (d_buf d @ [b])" "crc p = from_be32 t0 t1 t2 t3"
    using p s by (auto simp: push_def push_payload_def Let_def split: if_splits list.splits)
  have "length (drop (d_payload_len d) (d_buf d @ [b])) = 4" using t by simp
  then have len: "length p = d_payload_len d" using p(1) by simp
  have w: "(of_nat (length p) :: u16) = from_be16 h0 h1" by (simp add: len l)
  have "d_buf d @ [b] = p @ [t0, t1, t2, t3]"
    using t p(1) append_take_drop_id [of "d_payload_len d" "d_buf d @ [b]"] by simp
  then have "bs @ [b] = pre @ encode crc p"
    by (simp add: bs encode_def w be16_parts p(2) to_be32_from)
  with i s len show ?thesis by (auto simp: dec_inv_def)
qed

lemma hist_new: "hist [] decoder_new" and dec_inv_new: "dec_inv decoder_new"
  by (simp_all add: hist_def decoder_new_def dec_inv_def)

text \<open>
  Soundness of emitted frames: when a byte makes a fresh decoder emit a frame,
  the bytes received so far end with exactly the encoding of that payload, whose
  length is between 1 and 2048.  No line noise is ever reported as a frame.
\<close>

theorem emitted_frame_sound:
  assumes "feed crc decoder_new bs = Ret (evs, d)" "push crc d b = Ret (Some (Frame p), d')"
  shows "(\<exists>pre. bs @ [b] = pre @ encode crc p) \<and> 0 < length p \<and> length p \<le> MAX_PAYLOAD"
  using push_frame_sound [OF _ _ assms(2), of bs] feed_hist [OF hist_new dec_inv_new assms(1)]
  by simp

theorem emitted_frame_sound_witness:
  "(\<exists>pre. [0xFF, 0xFE, 0, 1, 0x41, 0xD3, 0xD9, 0x9E] @ [0x8B] = pre @ encode crc32_ieee [0x41])
    \<and> 0 < length [0x41 :: u8] \<and> length [0x41 :: u8] \<le> MAX_PAYLOAD"
proof -
  define d where "d = \<lparr>d_state = Payload, d_header = (0, 1), d_header_len = 2,
    d_payload_len = 1, d_buf = [0x41, 0xD3, 0xD9, 0x9E :: u8]\<rparr>"
  have f: "feed crc32_ieee decoder_new [0xFF, 0xFE, 0, 1, 0x41, 0xD3, 0xD9, 0x9E] = Ret ([], d)"
    by (simp add: d_def decoder_new_def push_def push_header_def push_payload_def Let_def
        from_be16_def from_le16_def MAX_PAYLOAD_def)
  have "push crc32_ieee d 0x8B = Ret (Some (Frame [0x41]),
      d\<lparr>d_buf := [0x41, 0xD3, 0xD9, 0x9E, 0x8B], d_state := Header, d_header_len := 0\<rparr>)"
    by (simp add: d_def push_def push_payload_def crc32_ieee_vector from_be32_def from_le32_def)
  from emitted_frame_sound [OF f this] show ?thesis .
qed

text \<open>
  A frame of the right length whose trailer is not the checksum of its body is
  reported as a CRC mismatch, exactly once, and leaves the decoder at rest.
\<close>

theorem corrupt_frame_reported:
  assumes "idle d" "0 < length p" "length p \<le> MAX_PAYLOAD" "from_be32 t0 t1 t2 t3 \<noteq> crc p"
  shows "\<exists>d'. feed crc d (to_be16 (of_nat (length p)) @ p @ [t0, t1, t2, t3]) =
    Ret ([CrcBad], d') \<and> idle d'"
  using feed_frame [OF assms(1,2,3), of crc t0 t1 t2 t3] assms(4) by auto

theorem corrupt_frame_reported_witness:
  "\<exists>d'. feed crc32_ieee decoder_new (to_be16 (of_nat (length [0x41 :: u8])) @ [0x41] @ [0, 0, 0, 0]) =
    Ret ([CrcBad], d') \<and> idle d'"
proof (rule corrupt_frame_reported)
  show "from_be32 0 0 0 0 \<noteq> crc32_ieee [0x41]" by code_simp
qed (simp_all add: MAX_PAYLOAD_def)

text \<open>
  A pair of bytes is plausible when the decoder takes it as the length of a frame.  Noise in
  which no two adjacent bytes are plausible is skipped byte by byte.
\<close>

definition plausible :: "u8 \<Rightarrow> u8 \<Rightarrow> bool" where
  "plausible a b \<longleftrightarrow> 0 < unat (from_be16 a b) \<and> unat (from_be16 a b) \<le> MAX_PAYLOAD"

definition skippable :: "bytes \<Rightarrow> bool" where
  "skippable bs \<longleftrightarrow> successively (\<lambda>a b. \<not> plausible a b) bs"

lemma skippable_Cons2 [simp]: "skippable (a # b # bs) \<longleftrightarrow> \<not> plausible a b \<and> skippable (b # bs)"
  and skippable_short [simp]: "skippable []" "skippable [a]"
  by (simp_all add: skippable_def)

lemma plausible_high: "9 \<le> a \<Longrightarrow> \<not> plausible a b"
  by (simp add: plausible_def MAX_PAYLOAD_def from_be16_def unat_from_le16 word_le_nat_alt)

lemma high_skippable: "\<forall>b \<in> set noise. 9 \<le> b \<Longrightarrow> skippable (noise @ take 1 (encode crc p))"
proof (induction noise)
  case (Cons a noise)
  then show ?case by (cases noise) (simp_all add: plausible_high encode_def to_be16_def)
qed (simp add: encode_def to_be16_def)

lemma push_noise:
  assumes "d_state d = Header" "d_header_len d = 1" "\<not> plausible (fst (d_header d)) b"
  shows "push crc d b = Ret (None, d\<lparr>d_header := (b, b)\<rparr>)"
  using assms by (cases "d_header d") (auto simp: push_def push_header_def Let_def plausible_def)

lemma feed_noise:
  assumes "d_state d = Header" "d_header_len d = 1" "skippable (fst (d_header d) # bs)"
  shows "\<exists>h. feed crc d bs = Ret ([], d\<lparr>d_header := h\<rparr>) \<and> fst h = last (fst (d_header d) # bs)"
  using assms
proof (induction bs arbitrary: d)
  case Nil
  then show ?case by (intro exI [of _ "d_header d"]) simp
next
  case (Cons b bs)
  have "push crc d b = Ret (None, d\<lparr>d_header := (b, b)\<rparr>)"
    using Cons.prems by (intro push_noise) auto
  moreover from Cons.IH [of "d\<lparr>d_header := (b, b)\<rparr>"] Cons.prems
  obtain h where "feed crc (d\<lparr>d_header := (b, b)\<rparr>) bs = Ret ([], d\<lparr>d_header := h\<rparr>)" "fst h = last (b # bs)"
    by auto
  ultimately show ?case by (intro exI [of _ h]) simp
qed

lemma skippable_append: "skippable (xs @ ys) \<Longrightarrow> skippable xs"
  by (simp add: skippable_def successively_append_iff)

lemma skippable_last: "skippable (xs @ [x, y]) \<Longrightarrow> \<not> plausible x y"
  by (simp add: skippable_def successively_append_iff)

lemma feed_after_noise:
  assumes "idle d" "skippable (noise @ take 1 (encode crc p))" "0 < length p" "length p \<le> MAX_PAYLOAD"
  shows "\<exists>d'. feed crc d (noise @ encode crc p) = Ret ([Frame p], d') \<and> idle d'"
proof (cases noise)
  case Nil
  with feed_encode [OF assms(1,3,4)] show ?thesis by simp
next
  case (Cons n ns)
  obtain h0 h1 where h: "d_header d = (h0, h1)" by (cases "d_header d")
  define d1 where "d1 = d\<lparr>d_header := (n, h1), d_header_len := 1\<rparr>"
  obtain e0 e1 where e: "to_be16 (of_nat (length p) :: u16) = [e0, e1]"
    by (simp add: to_be16_def)
  then have skip: "skippable ((n # ns) @ [e0])" using assms(2) Cons by (simp add: encode_def)
  have 1: "feed crc d [n] = Ret ([], d1)"
    using assms(1) h by (simp add: idle_def push_def push_header_def Let_def d1_def)
  have "d_state d1 = Header" "d_header_len d1 = 1" "skippable (fst (d_header d1) # ns)"
    using assms(1) skippable_append [OF skip] by (auto simp: d1_def idle_def)
  from feed_noise [OF this, of crc] obtain h where
    2: "feed crc d1 ns = Ret ([], d1\<lparr>d_header := h\<rparr>)" "fst h = last (fst (d_header d1) # ns)" by blast
  define d2 where "d2 = d1\<lparr>d_header := h\<rparr>"
  have "\<not> plausible (last (n # ns)) e0"
    using skip skippable_last [of "butlast (n # ns)" "last (n # ns)" e0]
    by (metis append.assoc append_Cons append_Nil append_butlast_last_id list.distinct(1))
  then have 3: "push crc d2 e0 = Ret (None, d2\<lparr>d_header := (e0, e0)\<rparr>)"
    using assms(1) 2(2) by (intro push_noise) (simp_all add: d2_def d1_def idle_def)
  define d3 where "d3 = d2\<lparr>d_header_len := 0\<rparr>"
  have "idle d3" using assms(1) by (simp add: d3_def d2_def d1_def idle_def)
  from feed_encode [OF this assms(3,4)] obtain d' where
    4: "feed crc d3 (encode crc p) = Ret ([Frame p], d')" "idle d'" by blast
  have 5: "feed crc d2 (encode crc p) = feed crc d3 (encode crc p)"
  proof -
    have "push crc d3 e0 = Ret (None, d3\<lparr>d_header := (e0, snd h), d_header_len := 1\<rparr>)"
      using assms(1) by (cases h) (simp add: d3_def d2_def d1_def idle_def push_def push_header_def Let_def)
    moreover have "push crc (d3\<lparr>d_header := (e0, snd h), d_header_len := 1\<rparr>) e1
        = push crc (d2\<lparr>d_header := (e0, e0)\<rparr>) e1"
      using assms(1) by (simp add: d3_def d2_def d1_def idle_def push_def push_header_def Let_def)
    ultimately show ?thesis using 3 by (simp add: encode_def e)
  qed
  have "feed crc d1 (ns @ encode crc p) = Ret ([Frame p], d')"
    using feed_seq [OF 2(1), of "encode crc p"] 4 5 by (simp add: d2_def)
  from feed_seq [OF 1 this] 4(2) show ?thesis by (simp add: Cons)
qed

text \<open>
  The condition matters: a noise byte from 1 to 7 is taken as the high byte of a length of
  several hundred bytes, and a shorter frame behind it is swallowed without an event.
\<close>

theorem noise_swallows_frame:
  assumes "idle d" "1 \<le> unat n" "unat n \<le> 7" "length p + 5 < 256 * unat n + 4"
  shows "\<exists>d'. feed crc d (n # encode crc p) = Ret ([], d') \<and> d_state d' = Payload"
proof -
  obtain h0 h1 where h: "d_header d = (h0, h1)" by (cases "d_header d")
  obtain e0 e1 where e: "to_be16 (of_nat (length p) :: u16) = [e0, e1]" by (simp add: to_be16_def)
  define len where "len = unat (from_be16 n e0)"
  have len: "len = 256 * unat n + unat e0" by (simp add: len_def from_be16_def unat_from_le16)
  have "unat e0 < 256" using unsigned_less [of e0] by simp
  then have pl: "0 < len" "len \<le> MAX_PAYLOAD" using assms(2,3) len by (simp_all add: MAX_PAYLOAD_def)
  define d1 where "d1 = d\<lparr>d_header := (n, e0), d_header_len := 2, d_payload_len := len, d_buf := [], d_state := Payload\<rparr>"
  have 1: "feed crc d [n, e0] = Ret ([], d1)"
    using assms(1) h pl by (simp add: idle_def push_def push_header_def Let_def d1_def len_def)
  have 2: "feed crc d1 (e1 # p @ to_be32 (crc p)) = Ret ([], d1\<lparr>d_buf := e1 # p @ to_be32 (crc p)\<rparr>)"
    using assms(4) len feed_buffer [of d1 "e1 # p @ to_be32 (crc p)" crc] by (simp add: d1_def)
  from feed_seq [OF 1 2] show ?thesis by (simp add: encode_def e d1_def)
qed

theorem noise_swallows_frame_witness:
  "\<exists>d'. feed crc32_ieee decoder_new (5 # encode crc32_ieee [0, 7]) = Ret ([], d') \<and> d_state d' = Payload"
  by (rule noise_swallows_frame) simp_all

text \<open>
  Resynchronisation: noise before a frame in which no two adjacent bytes, the first byte of
  the frame included, form a plausible length is skipped byte by byte and the frame behind
  it is still decoded.
\<close>

theorem resync_after_noise:
  assumes "idle d" "skippable (noise @ take 1 (encode crc p))" "0 < length p" "length p \<le> MAX_PAYLOAD"
  shows "\<exists>d'. feed crc d (noise @ encode crc p) = Ret ([Frame p], d') \<and> idle d'"
  using assms by (rule feed_after_noise)

theorem resync_after_noise_witness:
  "\<exists>d'. feed crc32_ieee decoder_new ([0xFF, 0x10] @ encode crc32_ieee [7]) = Ret ([Frame [7]], d')
    \<and> idle d'"
  by (rule resync_after_noise [OF _ high_skippable]) (auto simp: MAX_PAYLOAD_def)

end
