(* ===== verification/Secondary.thy ===== *)
theory Secondary
  imports Prelude
begin

text \<open>
  The response decoder of the secondary serial port, \<open>ecu-proto/src/secondary.rs\<close>:
  no envelope and no checksum, an echo \<open>'r' 0x30\<close> followed by the announced
  number of bytes.  \<open>sec_feed\<close> is the loop of the callers, which stops at the
  first complete payload.
\<close>

datatype sec_state = CmdEcho | CanCmd | SecPayload

record sec_decoder =
  sd_state :: sec_state
  sd_expect :: nat
  sd_buf :: bytes

definition sec_new :: "nat \<Rightarrow> sec_decoder" where
  "sec_new expect = \<lparr>sd_state = CmdEcho, sd_expect = expect, sd_buf = []\<rparr>"

definition sec_reset :: "nat \<Rightarrow> sec_decoder \<Rightarrow> sec_decoder" where
  "sec_reset expect d = d\<lparr>sd_state := CmdEcho, sd_expect := expect, sd_buf := []\<rparr>"

abbreviation byte_r :: u8 where "byte_r \<equiv> 0x72"

definition sec_push :: "sec_decoder \<Rightarrow> u8 \<Rightarrow> bytes option \<times> sec_decoder" where
  "sec_push d b =
     (case sd_state d of
        CmdEcho \<Rightarrow> (None, if b = byte_r then d\<lparr>sd_state := CanCmd\<rparr> else d)
      | CanCmd \<Rightarrow>
          (None,
           if b = 0x30 then d\<lparr>sd_buf := [], sd_state := SecPayload\<rparr>
           else if b \<noteq> byte_r then d\<lparr>sd_state := CmdEcho\<rparr>
           else d)
      | SecPayload \<Rightarrow>
          (let d1 = d\<lparr>sd_buf := sd_buf d @ [b]\<rparr>
           in if length (sd_buf d1) = sd_expect d1
              then (Some (sd_buf d1), d1\<lparr>sd_state := CmdEcho, sd_buf := []\<rparr>)
              else (None, d1)))"

fun sec_feed :: "sec_decoder \<Rightarrow> bytes \<Rightarrow> bytes option \<times> sec_decoder" where
  "sec_feed d [] = (None, d)"
| "sec_feed d (b # bs) =
     (case sec_push d b of
        (Some p, d1) \<Rightarrow> (Some p, d1)
      | (None, d1) \<Rightarrow> sec_feed d1 bs)"

subsection \<open>Decoding an answer\<close>

lemma sec_feed_append:
  "sec_feed d (xs @ ys) =
     (case sec_feed d xs of (Some p, d1) \<Rightarrow> (Some p, d1) | (None, d1) \<Rightarrow> sec_feed d1 ys)"
  by (induction xs arbitrary: d) (auto split: prod.splits option.splits)

lemma sec_feed_payload:
  assumes "sd_state d = SecPayload" "length (sd_buf d) < sd_expect d"
    and "length (sd_buf d) + length p = sd_expect d"
  shows "sec_feed d p = (Some (sd_buf d @ p), d\<lparr>sd_state := CmdEcho, sd_buf := []\<rparr>)"
  using assms
proof (induction p arbitrary: d)
  case (Cons b p)
  show ?case
  proof (cases "p = []")
    case True
    with Cons.prems show ?thesis by (simp add: sec_push_def Let_def)
  next
    case False
    define d1 where "d1 = d\<lparr>sd_buf := sd_buf d @ [b]\<rparr>"
    have "Suc (length (sd_buf d)) \<noteq> sd_expect d"
      using Cons.prems(3) False by (cases p) simp_all
    then have "sec_push d b = (None, d1)"
      using Cons.prems(1) by (simp add: sec_push_def Let_def d1_def)
    moreover have "sec_feed d1 p = (Some (sd_buf d1 @ p), d1\<lparr>sd_state := CmdEcho, sd_buf := []\<rparr>)"
      using Cons.prems False by (intro Cons.IH) (cases p; simp add: d1_def)+
    ultimately show ?thesis by (simp add: d1_def)
  qed
qed simp

text \<open>Bytes that contain no echo: no byte \<open>'r'\<close> directly followed by \<open>0x30\<close>.\<close>

fun no_echo :: "bytes \<Rightarrow> bool" where
  "no_echo [] = True"
| "no_echo [b] = True"
| "no_echo (a # b # bs) = (\<not> (a = byte_r \<and> b = 0x30) \<and> no_echo (b # bs))"

definition hunting :: "bool \<Rightarrow> sec_decoder \<Rightarrow> bool" where
  "hunting r d \<longleftrightarrow> sd_state d = (if r then CanCmd else CmdEcho)"

text \<open>Noise keeps the decoder hunting; it has half an echo exactly when the last byte was \<open>'r'\<close>.\<close>

lemma sec_feed_noise:
  assumes "hunting r d" "no_echo noise" "r \<longrightarrow> noise = [] \<or> hd noise \<noteq> 0x30"
  shows "\<exists>d'. sec_feed d noise = (None, d') \<and> sd_expect d' = sd_expect d
    \<and> hunting (if noise = [] then r else last noise = byte_r) d'"
  using assms
proof (induction noise arbitrary: r d rule: no_echo.induct)
  case (1 r d)
  then show ?case by auto
next
  case (2 b r d)
  then show ?case by (auto simp: hunting_def sec_push_def)
next
  case (3 a b bs r d)
  obtain d1 where d1: "sec_push d a = (None, d1)" "sd_expect d1 = sd_expect d"
    "hunting (a = byte_r) d1"
    using "3.prems" by (cases r) (auto simp: hunting_def sec_push_def)
  from "3.IH" [OF d1(3)] "3.prems" obtain d' where
    "sec_feed d1 (b # bs) = (None, d')" "sd_expect d' = sd_expect d1"
    "hunting (last (b # bs) = byte_r) d'"
    by auto
  with d1 show ?case by (auto simp del: sec_feed.simps(2) simp: sec_feed.simps(2) [of d])
qed

text \<open>
  The secondary decoder finds an answer behind any noise that holds no complete
  echo and does not itself end the echo (a stray \<open>'r'\<close> before the real one included),
  and returns exactly the announced number of bytes.
\<close>

theorem secondary_resync:
  assumes "no_echo noise" "0 < length p"
  shows "fst (sec_feed (sec_new (length p)) (noise @ [byte_r, 0x30] @ p)) = Some p"
proof -
  have "hunting False (sec_new (length p))" by (simp add: hunting_def sec_new_def)
  from sec_feed_noise [OF this assms(1)] obtain r d where
    d: "sec_feed (sec_new (length p)) noise = (None, d)" "sd_expect d = length p" "hunting r d"
    by (auto simp: sec_new_def)
  define d2 where "d2 = d\<lparr>sd_buf := [], sd_state := SecPayload\<rparr>"
  have "sec_feed d [byte_r, 0x30] = (None, d2)"
    using d(3) by (cases r) (auto simp: hunting_def sec_push_def d2_def)
  moreover have "fst (sec_feed d2 p) = Some p"
    using sec_feed_payload [of d2 p] assms(2) d(2) by (simp add: d2_def)
  ultimately show ?thesis using d(1) by (simp only: sec_feed_append) simp
qed

theorem secondary_resync_witness:
  "fst (sec_feed (sec_new (length [7, 8 :: u8])) ([0xAA, byte_r] @ [byte_r, 0x30] @ [7, 8])) = Some [7, 8]"
  by (rule secondary_resync) simp_all

end
