(* ===== verification/Command.thy ===== *)
theory Command
  imports RustStr
begin

text \<open>
  The command templates of \<open>ecu-proto/src/command.rs\<close>: parsing the template
  strings of the INI and building command bytes from them.  \<open>render\<close> writes a
  template back in the documented syntax (every literal byte as \<open>\xNN\<close>); the
  parser inverts it.
\<close>

datatype part = Literal bytes | Var string | PageId | Offset | Count | Value_part

type_synonym template = "part list"

record args =
  can_id :: u8
  page_id :: "bytes option"
  a_offset :: "u16 option"
  a_count :: "u16 option"
  a_value :: "bytes option"

definition args_default :: args where
  "args_default = \<lparr>can_id = 0, page_id = None, a_offset = None, a_count = None, a_value = None\<rparr>"

text \<open>Errors carry the message the code formats.\<close>

abbreviation backslash :: char where "backslash \<equiv> CHR 0x5C"
abbreviation backtick :: char where "backtick \<equiv> CHR 0x60"

definition in_text :: "string \<Rightarrow> string" where
  "in_text text = '' in '' @ [backtick] @ text @ [backtick]"

definition flush_literal :: "bytes \<Rightarrow> template \<Rightarrow> template" where
  "flush_literal lit parts = (if lit = [] then parts else parts @ [Literal lit])"

definition name_char :: "rchar \<Rightarrow> bool" where
  "name_char c = (case c of [b] \<Rightarrow> is_alpha b \<or> is_digit b \<or> b = CHR ''_'' | _ \<Rightarrow> False)"

definition part_of_spec :: "rchar \<Rightarrow> part option" where
  "part_of_spec c =
     (if c = ''i'' then Some PageId else if c = ''o'' then Some Offset
      else if c = ''c'' then Some Count else None)"

function parse_go :: "string \<Rightarrow> rchar list \<Rightarrow> bytes \<Rightarrow> template \<Rightarrow> string + template" where
  "parse_go text cs lit parts =
     (case cs of
        [] \<Rightarrow> Inr (flush_literal lit parts)
      | c # r \<Rightarrow>
          if c = [backslash] then
            (case r of
               [] \<Rightarrow> Inl (''trailing backslash'' @ in_text text)
             | d # r1 \<Rightarrow>
                 if d = ''x'' then
                   (case r1 of
                      hi # lo # r2 \<Rightarrow>
                        (case u8_from_hex2 hi lo of
                           None \<Rightarrow> Inl (''bad '' @ [backslash] @ ''x'' @ hi @ lo @ in_text text)
                         | Some b \<Rightarrow> parse_go text r2 (lit @ [b]) parts)
                    | _ \<Rightarrow> Inl (''truncated '' @ [backslash] @ ''x escape'' @ in_text text))
                 else if d = ''$'' then
                   parse_go text (dropWhile name_char r1) []
                     (flush_literal lit parts @ [Var (concat (takeWhile name_char r1))])
                 else parse_go text r1 (lit @ [rchar_u8 d]) parts)
          else if c = ''%'' then
            (case r of
               [] \<Rightarrow> Inl (''unknown %'' @ in_text text)
             | d # r1 \<Rightarrow>
                 if d = ''v'' then parse_go text r1 [] (flush_literal lit parts @ [Value_part])
                 else
                   (case r1 of
                      [] \<Rightarrow> Inl (''unknown %'' @ d @ in_text text)
                    | e # r2 \<Rightarrow>
                        (case if d = ''2'' then part_of_spec e else None of
                           Some p \<Rightarrow> parse_go text r2 [] (flush_literal lit parts @ [p])
                         | None \<Rightarrow> Inl (''unknown %'' @ d @ e @ in_text text))))
          else parse_go text r (lit @ [rchar_u8 c]) parts)"
  by pat_completeness auto
termination
  by (relation "measure (\<lambda>(text, cs, lit, parts). length cs)")
    (auto simp: length_dropWhile_le less_Suc_eq_le le_SucI)

declare parse_go.simps [simp del]

definition template_parse :: "string \<Rightarrow> string + template" where
  "template_parse text = parse_go text (chars_of text) [] []"

definition needs :: "string \<Rightarrow> string" where "needs what = ''template needs '' @ what"

definition build_part :: "args \<Rightarrow> part \<Rightarrow> string + bytes" where
  "build_part a p =
     (case p of
        Literal bs \<Rightarrow> Inr bs
      | Var name \<Rightarrow>
          if name = ''tsCanId'' then Inr [can_id a] else Inl (needs (''unknown variable $'' @ name))
      | PageId \<Rightarrow> ok_or (page_id a) (needs ''page id'')
      | Offset \<Rightarrow> res_bind (ok_or (a_offset a) (needs ''offset'')) (\<lambda>o1. Inr (to_le16 o1))
      | Count \<Rightarrow> res_bind (ok_or (a_count a) (needs ''count'')) (\<lambda>c. Inr (to_le16 c))
      | Value_part \<Rightarrow> ok_or (a_value a) (needs ''value''))"

fun build :: "args \<Rightarrow> template \<Rightarrow> string + bytes" where
  "build a [] = Inr []"
| "build a (p # ps) =
     res_bind (build_part a p) (\<lambda>bs. res_bind (build a ps) (\<lambda>rest. Inr (bs @ rest)))"

subsection \<open>Rendering\<close>

definition hex_digit :: "nat \<Rightarrow> char" where
  "hex_digit n = (if n < 10 then char_of (48 + n) else char_of (87 + n))"

definition render_byte :: "u8 \<Rightarrow> string" where
  "render_byte b = [backslash, CHR ''x'', hex_digit (unat b div 16), hex_digit (unat b mod 16)]"

fun render_part :: "part \<Rightarrow> string" where
  "render_part (Literal bs) = concat (map render_byte bs)"
| "render_part (Var name) = [backslash, CHR ''$''] @ name"
| "render_part PageId = ''%2i''"
| "render_part Offset = ''%2o''"
| "render_part Count = ''%2c''"
| "render_part Value_part = ''%v''"

definition render :: "template \<Rightarrow> string" where
  "render ps = concat (map render_part ps)"

text \<open>The templates the parser produces: no empty literal, no two literals in a row.\<close>

fun part_ok :: "part \<Rightarrow> bool" where
  "part_ok (Literal bs) = (bs \<noteq> [])"
| "part_ok (Var name) = (\<forall>c \<in> set name. name_char [c])"
| "part_ok _ = True"

fun is_literal :: "part \<Rightarrow> bool" where
  "is_literal (Literal bs) = True"
| "is_literal _ = False"

fun template_ok :: "template \<Rightarrow> bool" where
  "template_ok [] = True"
| "template_ok [p] = part_ok p"
| "template_ok (p # q # ps) =
     (part_ok p \<and> \<not> (is_literal p \<and> is_literal q) \<and> template_ok (q # ps))"

subsection \<open>Parsing what was rendered\<close>

abbreviation single :: "string \<Rightarrow> rchar list" where "single \<equiv> map (\<lambda>c. [c])"

lemma chars_of_ascii: "list_all ascii s \<Longrightarrow> chars_of s = single s"
proof (induction s)
  case (Cons c s)
  have "takeWhile is_cont s = [] \<and> dropWhile is_cont s = s"
    using Cons.prems by (cases s) (auto simp: ascii_def is_cont_def)
  with Cons show ?case by simp
qed simp

lemma code_hex_digit: "n < 16 \<Longrightarrow> code (hex_digit n) = (if n < 10 then 48 + n else 87 + n)"
  by (simp add: hex_digit_def)

lemma hex_digit_props:
  assumes "n < 16"
  shows "hex_val (hex_digit n) = Some n" "hex_digit n \<noteq> CHR ''+''" "ascii (hex_digit n)"
  using code_hex_digit [OF assms] assms
  by (auto simp: hex_val_def is_digit_def ascii_def split: if_splits)

lemma u8_from_hex2_digits:
  "u8_from_hex2 [hex_digit (unat b div 16)] [hex_digit (unat b mod 16)] = Some b"
proof -
  have "unat b div 16 < 16" using u8_lt [of b] by (simp add: div_less_iff_less_mult)
  then show ?thesis
    by (simp add: u8_from_hex2_def hex_digit_props)
qed

lemma parse_byte:
  "parse_go text (single (render_byte b) @ cs) lit parts = parse_go text cs (lit @ [b]) parts"
  by (subst parse_go.simps) (simp add: render_byte_def u8_from_hex2_digits)

lemma parse_bytes:
  "parse_go text (single (concat (map render_byte bs)) @ cs) lit parts
     = parse_go text cs (lit @ bs) parts"
  by (induction bs arbitrary: lit) (simp_all add: parse_byte)

lemma render_byte_ascii: "list_all ascii (render_byte b)"
proof -
  have "unat b div 16 < 16" using u8_lt [of b] by (simp add: div_less_iff_less_mult)
  then show ?thesis by (simp add: render_byte_def hex_digit_props) (simp add: ascii_def)
qed

lemma name_char_ascii: "name_char [c] \<Longrightarrow> ascii c"
  by (auto simp: name_char_def is_alpha_def is_digit_def ascii_def)

lemma render_part_ascii: "part_ok p \<Longrightarrow> list_all ascii (render_part p)"
proof (cases p)
  case (Literal bs)
  then show ?thesis using render_byte_ascii by (auto simp: list_all_iff)
next
  case (Var name)
  assume "part_ok p"
  with Var show ?thesis by (auto simp: list_all_iff name_char_ascii) (simp_all add: ascii_def)
qed (simp_all add: ascii_def)

lemma template_ok_parts: "template_ok ps \<Longrightarrow> p \<in> set ps \<Longrightarrow> part_ok p"
  by (induction ps rule: template_ok.induct) auto

lemma template_ok_Cons: "template_ok (p # ps) \<Longrightarrow> part_ok p \<and> template_ok ps"
  by (cases ps) auto

lemma render_ascii: "template_ok ps \<Longrightarrow> list_all ascii (render ps)"
  using render_part_ascii template_ok_parts
  by (fastforce simp: render_def list_all_iff)

lemma render_head:
  assumes "template_ok ps" "render ps = c # s"
  shows "\<not> name_char [c]"
proof -
  obtain p qs where ps: "ps = p # qs" using assms(2) by (cases ps) (auto simp: render_def)
  with assms(1) have "part_ok p" using template_ok_Cons by blast
  with assms(2) ps have "c = backslash \<or> c = CHR ''%''"
    by (cases p) (auto simp: render_def render_byte_def neq_Nil_conv)
  then show ?thesis by (auto simp: name_char_def is_alpha_def is_digit_def)
qed

lemma parse_name:
  assumes "\<forall>c \<in> set name. name_char [c]" "\<And>c s. rest = c # s \<Longrightarrow> \<not> name_char [c]"
  shows "takeWhile name_char (single (name @ rest)) = single name"
    and "dropWhile name_char (single (name @ rest)) = single rest"
  using assms by (induction name) (cases rest; auto)+

lemma concat_single [simp]: "concat (single s) = s"
  by (induction s) auto

lemma parse_part:
  assumes "part_ok p" "\<not> is_literal p" "\<And>c s. rest = c # s \<Longrightarrow> \<not> name_char [c]"
  shows "parse_go text (single (render_part p @ rest)) lit parts
    = parse_go text (single rest) [] (flush_literal lit parts @ [p])"
proof (cases p)
  case (Literal bs)
  with assms show ?thesis by simp
next
  case (Var name)
  with assms show ?thesis
    using parse_name [of name rest]
    by (subst parse_go.simps) (simp del: map_append)
qed (subst parse_go.simps, simp add: part_of_spec_def)+

lemma parse_go_render:
  assumes "template_ok ps" "lit = [] \<or> ps = [] \<or> \<not> is_literal (hd ps)"
  shows "parse_go text (single (render ps)) lit parts = Inr (flush_literal lit parts @ ps)"
  using assms
proof (induction ps arbitrary: lit parts)
  case Nil
  then show ?case by (simp add: render_def parse_go.simps)
next
  case (Cons p ps)
  have ok: "part_ok p" "template_ok ps" using template_ok_Cons [OF Cons.prems(1)] by auto
  have r: "render (p # ps) = render_part p @ render ps" by (simp add: render_def)
  show ?case
  proof (cases "is_literal p")
    case True
    then obtain bs where p: "p = Literal bs" by (cases p) auto
    have "ps = [] \<or> \<not> is_literal (hd ps)"
      using Cons.prems(1) True by (cases ps) auto
    with Cons.IH [OF ok(2), of bs parts] Cons.prems(2) ok(1) show ?thesis
      by (simp add: r [unfolded p] p parse_bytes flush_literal_def)
  next
    case False
    have "parse_go text (single (render_part p @ render ps)) lit parts
        = parse_go text (single (render ps)) [] (flush_literal lit parts @ [p])"
      using ok False render_head by (intro parse_part) auto
    also have "\<dots> = Inr (flush_literal [] (flush_literal lit parts @ [p]) @ ps)"
      using Cons.IH ok(2) by blast
    finally show ?thesis by (simp add: r flush_literal_def)
  qed
qed

lemma template_parse_rendered: "template_ok ps \<Longrightarrow> template_parse (render ps) = Inr ps"
  using parse_go_render [of ps "[]" "render ps" "[]"] render_ascii [of ps]
  by (simp add: template_parse_def chars_of_ascii flush_literal_def)

text \<open>
  The template parser accepts exactly what the documented syntax says: a template
  written out (literal bytes as hex escapes, runtime variables by name, the page id,
  offset, count and value placeholders) is read back as that template.
\<close>

theorem template_parse_render:
  assumes "template_ok ps"
  shows "template_parse (render ps) = Inr ps"
  using assms by (rule template_parse_rendered)

theorem template_parse_render_witness:
  "template_parse (render [Literal [0x70, 0], Var ''tsCanId'', PageId, Offset, Count])
     = Inr [Literal [0x70, 0], Var ''tsCanId'', PageId, Offset, Count]"
  by (rule template_parse_render)
    (simp add: name_char_def is_alpha_def is_digit_def)

subsection \<open>Building\<close>

lemma build_append:
  "build a (ps @ qs) = res_bind (build a ps) (\<lambda>xs. res_bind (build a qs) (\<lambda>ys. Inr (xs @ ys)))"
proof (induction ps)
  case Nil
  then show ?case by (cases "build a qs") auto
next
  case (Cons p ps)
  then show ?case by (cases "build_part a p"; cases "build a ps"; cases "build a qs") auto
qed

lemma build_Inr_iff:
  "(\<exists>bs. build a ps = Inr bs) \<longleftrightarrow> (\<forall>p \<in> set ps. \<exists>bs. build_part a p = Inr bs)"
proof (induction ps)
  case (Cons p ps)
  then show ?case by (cases "build_part a p"; cases "build a ps") auto
qed simp

end
