(* ===== verification/Transport.thy ===== *)
theory Transport
  imports Command
begin

text \<open>
  The byte transports of \<open>ecu-proto/src/transport.rs\<close>.  The \<open>Transport\<close> trait is
  the record \<open>transport_ops\<close> of its three methods over any state type.

  \<open>transport_laws\<close> states what the trait's documentation promises (a read never
  returns more than the buffer holds), \<open>transport_queue\<close> that a transport hands
  out its pending input in order without losing a byte, and
  \<open>transport_live\<close> that pending input is handed out at all.  The scripted
  \<open>MockTransport\<close> of the source satisfies all three.  Of \<open>SerialTransport\<close> the
  part above the operating system is modelled: the baud table, the write loop and
  the read with its timeout, over the parameters \<open>f_write\<close>, \<open>f_read\<close> and \<open>poll\<close>
  that stand for the file descriptor.  \<open>serial_port\<close> connects the two: over a device that
  goes on taking bytes the serial port satisfies \<open>transport_laws\<close>.
\<close>

datatype io_kind = InvalidInput | BrokenPipe | WouldBlock | OtherKind nat

datatype io_error = IoError io_kind string

subsection \<open>The trait\<close>

record 't transport_ops =
  t_write_all :: "'t \<Rightarrow> bytes \<Rightarrow> (io_error + unit) \<times> 't"
  t_read :: "'t \<Rightarrow> nat \<Rightarrow> (io_error + bytes) \<times> 't"
  t_flush_input :: "'t \<Rightarrow> (io_error + unit) \<times> 't"

locale transport_laws =
  fixes T :: "'t transport_ops"
  assumes read_bound: "t_read T t n = (Inr bs, t') \<Longrightarrow> length bs \<le> n"

locale transport_queue = transport_laws T for T :: "'t transport_ops" +
  fixes pending :: "'t \<Rightarrow> bytes"
  assumes read_in_order: "t_read T t n = (Inr bs, t') \<Longrightarrow> pending t = bs @ pending t'"
    and flush_empties: "t_flush_input T t = (Inr u, t') \<Longrightarrow> pending t' = []"

locale transport_live = transport_queue T pending
  for T :: "'t transport_ops" and pending +
  fixes ready :: "'t \<Rightarrow> bool"
  assumes read_ready: "ready t \<Longrightarrow> pending t \<noteq> [] \<Longrightarrow> 0 < n \<Longrightarrow>
      \<exists>bs t'. t_read T t n = (Inr bs, t') \<and> bs \<noteq> [] \<and> ready t'"

subsection \<open>MockTransport\<close>

record mock =
  m_sent :: "bytes list"
  m_responses :: "bytes list"

definition mock_new :: mock where
  "mock_new = \<lparr>m_sent = [], m_responses = []\<rparr>"

definition mock_queue :: "bytes \<Rightarrow> mock \<Rightarrow> mock" where
  "mock_queue r m = m\<lparr>m_responses := m_responses m @ [r]\<rparr>"

definition mock_write_all :: "mock \<Rightarrow> bytes \<Rightarrow> (io_error + unit) \<times> mock" where
  "mock_write_all m buf = (Inr (), m\<lparr>m_sent := m_sent m @ [buf]\<rparr>)"

definition mock_read :: "mock \<Rightarrow> nat \<Rightarrow> (io_error + bytes) \<times> mock" where
  "mock_read m len =
     (case m_responses m of
        r # rest \<Rightarrow>
          (let n = min (length r) len
           in (Inr (take n r),
               m\<lparr>m_responses := (if n < length r then drop n r # rest else rest)\<rparr>))
      | [] \<Rightarrow> (Inr [], m))"

definition mock_flush_input :: "mock \<Rightarrow> (io_error + unit) \<times> mock" where
  "mock_flush_input m = (Inr (), m\<lparr>m_responses := []\<rparr>)"

definition mock_ops :: "mock transport_ops" where
  "mock_ops = \<lparr>t_write_all = mock_write_all, t_read = mock_read, t_flush_input = mock_flush_input\<rparr>"

definition mock_pending :: "mock \<Rightarrow> bytes" where
  "mock_pending m = concat (m_responses m)"

definition mock_ready :: "mock \<Rightarrow> bool" where
  "mock_ready m \<longleftrightarrow> [] \<notin> set (m_responses m)"

lemma mock_ops_simps [simp]:
  "t_write_all mock_ops = mock_write_all" "t_read mock_ops = mock_read"
  "t_flush_input mock_ops = mock_flush_input"
  by (simp_all add: mock_ops_def)

interpretation mock_laws: transport_laws mock_ops
  by unfold_locales (auto simp: mock_read_def Let_def split: list.splits)

interpretation mock_q: transport_queue mock_ops mock_pending
  by unfold_locales
    (auto simp: mock_read_def mock_pending_def mock_flush_input_def Let_def min_def
      split: list.splits if_splits)

interpretation mock_live: transport_live mock_ops mock_pending mock_ready
proof unfold_locales
  fix t :: mock and n :: nat
  assume "mock_ready t" "mock_pending t \<noteq> []" "0 < n"
  then show "\<exists>bs t'. t_read mock_ops t n = (Inr bs, t') \<and> bs \<noteq> [] \<and> mock_ready t'"
    by (cases "m_responses t")
      (auto simp: mock_read_def mock_ready_def mock_pending_def Let_def)
qed

subsection \<open>The serial port above the operating system\<close>

text \<open>The termios speed constants by name.\<close>

datatype speed = B9600 | B19200 | B38400 | B57600 | B115200 | B230400

definition baud_constant :: "nat \<Rightarrow> io_error + speed" where
  "baud_constant baud =
     (if baud = 9600 then Inr B9600
      else if baud = 19200 then Inr B19200
      else if baud = 38400 then Inr B38400
      else if baud = 57600 then Inr B57600
      else if baud = 115200 then Inr B115200
      else if baud = 230400 then Inr B230400
      else Inl (IoError InvalidInput (''unsupported baud rate '' @ show_nat baud)))"

text \<open>
  The file descriptor: \<open>write(2)\<close>, \<open>read(2)\<close> and \<open>poll(2)\<close> on a state \<open>'f\<close>.  A
  \<open>poll\<close> reports an operating system error, or whether an event is pending and
  whether the error bits are set.
\<close>

record 'f file_ops =
  f_write :: "'f \<Rightarrow> bytes \<Rightarrow> (io_error + nat) \<times> 'f"
  f_read :: "'f \<Rightarrow> nat \<Rightarrow> (io_error + bytes) \<times> 'f"
  f_poll :: "'f \<Rightarrow> bool \<Rightarrow> (io_error + (bool \<times> bool)) \<times> 'f"
  f_tcflush :: "'f \<Rightarrow> (io_error + unit) \<times> 'f"

fun would_block :: "io_error \<Rightarrow> bool" where
  "would_block (IoError k m) = (k = WouldBlock)"

definition serial_poll :: "'f file_ops \<Rightarrow> 'f \<Rightarrow> bool \<Rightarrow> (io_error + bool) \<times> 'f" where
  "serial_poll F f out =
     (case f_poll F f out of
        (Inl e, f1) \<Rightarrow> (Inl e, f1)
      | (Inr (ready, lost), f1) \<Rightarrow>
          (if lost then Inl (IoError BrokenPipe ''serial device lost'') else Inr ready, f1))"

text \<open>
  The write loop has no deadline of its own: a device that never accepts a byte
  keeps it polling, so not returning is the value \<open>None\<close>.  A count beyond the
  buffer would panic in \<open>&buf[n..]\<close>.
\<close>

partial_function (option) serial_write_all ::
    "'f file_ops \<Rightarrow> 'f \<Rightarrow> bytes \<Rightarrow> ((io_error + unit) \<times> 'f) run option" where
  "serial_write_all F f buf =
     (if buf = [] then Some (Ret (Inr (), f))
      else case f_write F f buf of
          (Inr n, f1) \<Rightarrow>
            if length buf < n then Some (Crash Panic) else serial_write_all F f1 (drop n buf)
        | (Inl e, f1) \<Rightarrow>
            if would_block e then
              (case serial_poll F f1 True of
                 (Inl e2, f2) \<Rightarrow> Some (Ret (Inl e2, f2))
               | (Inr b, f2) \<Rightarrow> serial_write_all F f2 buf)
            else Some (Ret (Inl e, f1)))"

definition serial_read :: "'f file_ops \<Rightarrow> 'f \<Rightarrow> nat \<Rightarrow> (io_error + bytes) \<times> 'f" where
  "serial_read F f len =
     (case serial_poll F f False of
        (Inl e, f1) \<Rightarrow> (Inl e, f1)
      | (Inr b, f1) \<Rightarrow>
          if \<not> b then (Inr [], f1)
          else case f_read F f1 len of
              (Inr bs, f2) \<Rightarrow> (Inr bs, f2)
            | (Inl e, f2) \<Rightarrow> (if would_block e then Inr [] else Inl e, f2))"

definition serial_flush_input :: "'f file_ops \<Rightarrow> 'f \<Rightarrow> (io_error + unit) \<times> 'f" where
  "serial_flush_input F f = f_tcflush F f"

subsection \<open>What the write loop delivers\<close>

text \<open>
  The documented behaviour of the descriptor, with \<open>accepted\<close> the ghost list of
  bytes the device took: \<open>write(2)\<close> accepts a prefix of the buffer and reports its
  length, or fails and accepts nothing; a poll accepts nothing.
\<close>

definition file_ok :: "'f file_ops \<Rightarrow> ('f \<Rightarrow> bytes) \<Rightarrow> bool" where
  "file_ok F accepted \<longleftrightarrow>
     (\<forall>f buf n f'. f_write F f buf = (Inr n, f') \<longrightarrow>
        n \<le> length buf \<and> accepted f' = accepted f @ take n buf)
     \<and> (\<forall>f buf e f'. f_write F f buf = (Inl e, f') \<longrightarrow> accepted f' = accepted f)
     \<and> (\<forall>f out r f'. f_poll F f out = (r, f') \<longrightarrow> accepted f' = accepted f)"

lemma file_okD:
  assumes "file_ok F accepted"
  shows "f_write F f buf = (Inr n, f') \<Longrightarrow>
      n \<le> length buf \<and> accepted f' = accepted f @ take n buf"
    and "f_write F f buf = (Inl e, f') \<Longrightarrow> accepted f' = accepted f"
    and "f_poll F f out = (r, f') \<Longrightarrow> accepted f' = accepted f"
  using assms unfolding file_ok_def by blast+

lemma serial_poll_quiet:
  "file_ok F accepted \<Longrightarrow> serial_poll F f out = (r, f') \<Longrightarrow> accepted f' = accepted f"
  by (auto simp: serial_poll_def split: prod.splits sum.splits dest: file_okD(3))

definition delivered :: "('f \<Rightarrow> bytes) \<Rightarrow> 'f \<Rightarrow> bytes \<Rightarrow> ((io_error + unit) \<times> 'f) run \<Rightarrow> bool" where
  "delivered accepted f buf r \<longleftrightarrow>
     (\<exists>res f' k. r = Ret (res, f') \<and> accepted f' = accepted f @ take k buf
       \<and> (res = Inr () \<longrightarrow> length buf \<le> k))"

lemma deliveredI:
  "r = Ret (res, f') \<Longrightarrow> accepted f' = accepted f @ take k buf \<Longrightarrow>
    (res = Inr () \<Longrightarrow> length buf \<le> k) \<Longrightarrow> delivered accepted f buf r"
  unfolding delivered_def by blast

text \<open>
  The serial write loop never panics, and when it reports success the device has
  accepted the whole buffer, in order; when it reports an error, a prefix of it.
\<close>

theorem serial_write_all_delivers:
  assumes "file_ok F accepted" "serial_write_all F f buf = Some r"
  shows "delivered accepted f buf r"
  using assms(2,1)
proof (induction rule: serial_write_all.raw_induct [rotated 1, consumes 1])
  case (1 W F f buf r)
  show ?case
  proof (cases "buf = []")
    case True
    with "1"(2) show ?thesis by (intro deliveredI [of r "Inr ()" f _ _ 0]) auto
  next
    case False
    obtain w g where w: "f_write F f buf = (w, g)" by (cases "f_write F f buf")
    show ?thesis
    proof (cases w)
      case (Inr n)
      have n: "n \<le> length buf" "accepted g = accepted f @ take n buf"
        using file_okD(1) [OF "1"(3)] w Inr by auto
      with "1"(2) False w Inr have "W F g (drop n buf) = Some r" by simp
      from "1"(1) [OF this "1"(3)] obtain res f' k where
        "r = Ret (res, f')" "accepted f' = accepted g @ take k (drop n buf)"
        "res = Inr () \<longrightarrow> length (drop n buf) \<le> k" by (auto simp: delivered_def)
      with n show ?thesis
        by (intro deliveredI [of r res f' _ _ "n + k"]) (auto simp: take_add)
    next
      case (Inl e)
      obtain p h where p: "serial_poll F g True = (p, h)" by (cases "serial_poll F g True")
      have a: "accepted g = accepted f" "accepted h = accepted g"
        using file_okD(2) [OF "1"(3)] serial_poll_quiet [OF "1"(3)] w Inl p by auto
      show ?thesis
      proof (cases "would_block e \<and> (\<exists>b. p = Inr b)")
        case True
        with "1"(2) False w Inl p have "W F h buf = Some r" by auto
        from "1"(1) [OF this "1"(3)] a show ?thesis by (simp add: delivered_def)
      next
        case stop: False
        then obtain e2 f2 where "r = Ret (Inl e2, f2)" "f2 = g \<or> f2 = h"
          using "1"(2) False w Inl p by (auto split: if_splits sum.splits)
        with a show ?thesis by (intro deliveredI [of r "Inl e2" f2 _ _ 0]) auto
      qed
    qed
  qed
qed

text \<open>
  A device with a ready list of answers, one per call: how many bytes \<open>write\<close> takes
  (\<open>None\<close>: it would block) and what was accepted so far.
\<close>

type_synonym pacer = "nat option list \<times> bytes"

definition pacer_write :: "pacer \<Rightarrow> bytes \<Rightarrow> (io_error + nat) \<times> pacer" where
  "pacer_write p buf =
     (case p of
        (Some n # rest, acc) \<Rightarrow> (Inr (min n (length buf)), rest, acc @ take n buf)
      | (None # rest, acc) \<Rightarrow> (Inl (IoError WouldBlock []), rest, acc)
      | ([], acc) \<Rightarrow> (Inr (length buf), [], acc @ buf))"

definition pacer_ops :: "pacer file_ops" where
  "pacer_ops = \<lparr>f_write = pacer_write, f_read = (\<lambda>p n. (Inr [], p)),
     f_poll = (\<lambda>p out. (Inr (True, False), p)), f_tcflush = (\<lambda>p. (Inr (), p))\<rparr>"

lemma pacer_ok: "file_ok pacer_ops snd"
  unfolding file_ok_def
  by (auto simp: pacer_ops_def pacer_write_def min_def split: prod.splits list.splits option.splits)

theorem serial_write_all_delivers_witness:
  "delivered snd ([Some (1 :: nat), None], []) [1, 2, 3] (Ret (Inr (), ([], [1, 2, 3])))"
proof (rule serial_write_all_delivers)
  show "file_ok pacer_ops snd" by (rule pacer_ok)
  show "serial_write_all pacer_ops ([Some 1, None], []) [1, 2, 3] =
      Some (Ret (Inr (), ([], [1, 2, 3])))"
    by (simp add: serial_write_all.simps pacer_ops_def pacer_write_def serial_poll_def)
qed

subsection \<open>The serial port as a transport\<close>

text \<open>
  \<open>T\<close> is the transport of the serial port over the descriptor \<open>F\<close>.  The write loop has no
  deadline, so a port is a transport only while its device goes on taking bytes: \<open>writes\<close>
  says that every write loop returns, and what it returns is the result of \<open>t_write_all\<close>.
  \<open>read(2)\<close> never returns more than it was asked for.
\<close>

locale serial_port =
  fixes F :: "'f file_ops" and T :: "'f transport_ops"
  assumes writes: "serial_write_all F f buf = Some (Ret (t_write_all T f buf))"
    and reads: "t_read T = serial_read F"
    and flushes: "t_flush_input T = serial_flush_input F"
    and descriptor: "f_read F f n = (Inr bs, f') \<Longrightarrow> length bs \<le> n"
begin

lemma serial_read_bound: "t_read T f n = (Inr bs, f') \<Longrightarrow> length bs \<le> n"
  by (auto simp: reads serial_read_def split: prod.splits sum.splits if_splits dest: descriptor)

lemma written_all:
  assumes "file_ok F accepted" "t_write_all T f buf = (Inr (), f')"
  shows "accepted f' = accepted f @ buf"
  using serial_write_all_delivers [OF assms(1) writes [of f buf]] assms(2) by (auto simp: delivered_def)

end

sublocale serial_port < transport_laws T
  by unfold_locales (rule serial_read_bound)

text \<open>The device above takes bytes at its own pace, but it takes them all.\<close>

fun pacer_deliver :: "nat option list \<Rightarrow> bytes \<Rightarrow> bytes \<Rightarrow> pacer" where
  "pacer_deliver pace acc [] = (pace, acc)"
| "pacer_deliver [] acc buf = ([], acc @ buf)"
| "pacer_deliver (None # pace) acc buf = pacer_deliver pace acc buf"
| "pacer_deliver (Some n # pace) acc buf = pacer_deliver pace (acc @ take n buf) (drop n buf)"

definition pacer_port :: "pacer transport_ops" where
  "pacer_port = \<lparr>t_write_all = (\<lambda>p buf. (Inr (), pacer_deliver (fst p) (snd p) buf)),
     t_read = serial_read pacer_ops, t_flush_input = serial_flush_input pacer_ops\<rparr>"

lemma pacer_writes:
  "serial_write_all pacer_ops (pace, acc) buf = Some (Ret (Inr (), pacer_deliver pace acc buf))"
proof (induction pace acc buf rule: pacer_deliver.induct)
  case (1 pace acc)
  show ?case by (subst serial_write_all.simps) simp
next
  case (2 acc b bs)
  show ?case
    by (subst serial_write_all.simps) (simp add: pacer_ops_def pacer_write_def serial_write_all.simps)
next
  case (3 pace acc b bs)
  then show ?case
    by (subst serial_write_all.simps) (simp add: pacer_ops_def pacer_write_def serial_poll_def)
next
  case (4 n pace acc b bs)
  have "drop (min n (length (b # bs))) (b # bs) = drop n (b # bs)" by (simp add: min_def)
  with 4 show ?case
    by (subst serial_write_all.simps) (simp add: pacer_ops_def pacer_write_def del: length_Cons drop_Cons take_Cons)
qed

interpretation pacer_serial: serial_port pacer_ops pacer_port
proof unfold_locales
  show "serial_write_all pacer_ops f buf = Some (Ret (t_write_all pacer_port f buf))" for f buf
    by (cases f) (simp add: pacer_port_def pacer_writes)
qed (auto simp: pacer_port_def pacer_ops_def)

end
