(* ===== verification/Session.thy ===== *)
theory Session
  imports Envelope Secondary Transport
begin

text \<open>
  The blocking request/response session of \<open>ecu-proto/src/session.rs\<close> over any
  transport, and the error type of \<open>ecu-proto/src/lib.rs\<close>.

  The clock is part of the session's world: \<open>s_clock\<close> holds, for each awaited
  response in turn, how many of its deadline checks still find time left (none
  when the list is exhausted).  Every loop iteration makes one check, so the loops
  end whatever the transport does.

  Inside the locales of \<open>Transport\<close>: no operation panics, an accepted answer is the
  data of a frame the transport delivered, and a delivered frame is answered.
\<close>

datatype proto_error =
    Io io_error
  | Template string
  | CrcMismatch
  | EcuError u8
  | Timeout
  | ShortResponse nat nat
  | Unsupported string

datatype mode = Primary | Secondary_mode

record config =
  c_mode :: mode
  c_can_id :: u8
  c_och_get_command :: string
  c_och_block_size :: u16
  c_response_timeout_ms :: nat

definition config_new :: "mode \<Rightarrow> string \<Rightarrow> u16 \<Rightarrow> config" where
  "config_new m och_get_command och_block_size =
     \<lparr>c_mode = m, c_can_id = 0, c_och_get_command = och_get_command,
      c_och_block_size = och_block_size, c_response_timeout_ms = 700\<rparr>"

record 't session =
  s_transport :: 't
  s_config :: config
  s_och_get :: template
  s_clock :: "nat list"

subsection \<open>Effects\<close>

text \<open>An operation on a world \<open>'w\<close>: it may crash, fail with a protocol error or return.\<close>

type_synonym ('w, 'a) io = "'w \<Rightarrow> ((proto_error + 'a) \<times> 'w) run"

definition io_return :: "'a \<Rightarrow> ('w, 'a) io" where
  "io_return x = (\<lambda>w. Ret (Inr x, w))"

definition io_fail :: "proto_error \<Rightarrow> ('w, 'a) io" where
  "io_fail e = (\<lambda>w. Ret (Inl e, w))"

definition io_crash :: "crash \<Rightarrow> ('w, 'a) io" where
  "io_crash c = (\<lambda>w. Crash c)"

definition io_res :: "proto_error + 'a \<Rightarrow> ('w, 'a) io" where
  "io_res r = (\<lambda>w. Ret (r, w))"

definition io_bind :: "('w, 'a) io \<Rightarrow> ('a \<Rightarrow> ('w, 'b) io) \<Rightarrow> ('w, 'b) io" where
  "io_bind m f = (\<lambda>w. case m w of
       Crash c \<Rightarrow> Crash c
     | Ret (Inl e, w1) \<Rightarrow> Ret (Inl e, w1)
     | Ret (Inr x, w1) \<Rightarrow> f x w1)"

fun io_each :: "('a \<Rightarrow> ('w, unit) io) \<Rightarrow> 'a list \<Rightarrow> ('w, unit) io" where
  "io_each f [] = io_return ()"
| "io_each f (x # xs) = io_bind (f x) (\<lambda>_. io_each f xs)"

text \<open>\<open>?\<close> on a template result.\<close>

fun tpl :: "string + 'a \<Rightarrow> proto_error + 'a" where
  "tpl (Inl m) = Inl (Template m)"
| "tpl (Inr x) = Inr x"

lemma io_simps [run_simps]:
  "io_return x w = Ret (Inr x, w)" "io_fail e w = Ret (Inl e, w)" "io_crash c w = Crash c"
  "io_res r w = Ret (r, w)"
  by (simp_all add: io_return_def io_fail_def io_crash_def io_res_def)

lemma io_bind_Ret [run_simps]:
  "m w = Ret (Inr x, w1) \<Longrightarrow> io_bind m f w = f x w1"
  "m w = Ret (Inl e, w1) \<Longrightarrow> io_bind m f w = Ret (Inl e, w1)"
  "m w = Crash c \<Longrightarrow> io_bind m f w = Crash c"
  by (simp_all add: io_bind_def)

lemma io_bind_res [run_simps]:
  "io_bind (io_res r) f w = (case r of Inl e \<Rightarrow> Ret (Inl e, w) | Inr x \<Rightarrow> f x w)"
  by (cases r) (simp_all add: io_bind_def io_res_def)

lemma tpl_Inr [run_simps]: "tpl r = Inr x \<longleftrightarrow> r = Inr x"
  by (cases r) auto

lemma io_bind_InrE:
  assumes "io_bind m f w = Ret (Inr y, w2)"
  obtains x w1 where "m w = Ret (Inr x, w1)" "f x w1 = Ret (Inr y, w2)"
  using assms by (auto simp: io_bind_def split: run.splits prod.splits sum.splits)

lemma io_bind_InlD:
  "io_bind m f w = Ret (Inl e, w2) \<Longrightarrow>
    m w = Ret (Inl e, w2) \<or> (\<exists>x w1. m w = Ret (Inr x, w1) \<and> f x w1 = Ret (Inl e, w2))"
  by (auto simp: io_bind_def split: run.splits prod.splits sum.splits)

text \<open>\<open>keeps P m\<close>: run in a world with \<open>P\<close>, the operation does not crash and \<open>P\<close> holds after it.\<close>

definition keeps :: "('w \<Rightarrow> bool) \<Rightarrow> ('w, 'a) io \<Rightarrow> bool" where
  "keeps P m \<longleftrightarrow> (\<forall>w. P w \<longrightarrow> (\<exists>r w'. m w = Ret (r, w') \<and> P w'))"

named_theorems keeps_intros \<open>operations that do not crash\<close>

lemma keepsD: "keeps P m \<Longrightarrow> P w \<Longrightarrow> \<exists>r w'. m w = Ret (r, w') \<and> P w'"
  by (simp add: keeps_def)

lemma keeps_basic [keeps_intros]:
  "keeps P (io_return x)" "keeps P (io_fail e)" "keeps P (io_res r)"
  by (simp_all add: keeps_def run_simps)

lemma keeps_bind [keeps_intros]:
  assumes "keeps P m" "\<And>x. keeps P (f x)"
  shows "keeps P (io_bind m f)"
  unfolding keeps_def
proof (intro allI impI)
  fix w assume "P w"
  with assms(1) obtain r w1 where "m w = Ret (r, w1)" "P w1" by (auto dest: keepsD)
  moreover from assms(2) \<open>P w1\<close> have "\<exists>r w'. f x w1 = Ret (r, w') \<and> P w'" for x
    by (rule keepsD)
  ultimately show "\<exists>r w'. io_bind m f w = Ret (r, w') \<and> P w'"
    by (cases r) (auto simp: run_simps)
qed

lemma keeps_each [keeps_intros]:
  "(\<And>x. x \<in> set xs \<Longrightarrow> keeps P (f x)) \<Longrightarrow> keeps P (io_each f xs)"
  by (induction xs) (auto intro!: keeps_intros)

subsection \<open>Waiting for bytes\<close>

text \<open>One transport read per passed deadline check, until there is data.\<close>

fun read_some :: "'t transport_ops \<Rightarrow> nat \<Rightarrow> 't \<Rightarrow> (proto_error + bytes) \<times> 't \<times> nat" where
  "read_some T 0 t = (Inl Timeout, t, 0)"
| "read_some T (Suc k) t =
     (case t_read T t 256 of
        (Inl e, t1) \<Rightarrow> (Inl (Io e), t1, k)
      | (Inr bs, t1) \<Rightarrow> if bs \<noteq> [] then (Inr bs, t1, k) else read_some T k t1)"

lemma read_some_clock: "read_some T k t = (Inr bs, t1, k1) \<Longrightarrow> k1 < k"
  by (induction T k t rule: read_some.induct)
    (auto split: prod.splits sum.splits if_splits intro: less_SucI)

text \<open>The \<open>for &b in &chunk[..n]\<close> loop, left at the first event.\<close>

fun scan :: "(bytes \<Rightarrow> u32) \<Rightarrow> decoder \<Rightarrow> bytes \<Rightarrow> (event option \<times> decoder) run" where
  "scan crc d [] = Ret (None, d)"
| "scan crc d (b # bs) =
     (case push crc d b of
        Crash c \<Rightarrow> Crash c
      | Ret (Some ev, d1) \<Rightarrow> Ret (Some ev, d1)
      | Ret (None, d1) \<Rightarrow> scan crc d1 bs)"

function read_enveloped_loop ::
    "'t transport_ops \<Rightarrow> (bytes \<Rightarrow> u32) \<Rightarrow> u8 list \<Rightarrow> nat \<Rightarrow> decoder \<Rightarrow> 't
      \<Rightarrow> ((proto_error + bytes) \<times> 't) run" where
  "read_enveloped_loop T crc ok k d t =
     (case read_some T k t of
        (Inl e, t1, k1) \<Rightarrow> Ret (Inl e, t1)
      | (Inr bs, t1, k1) \<Rightarrow>
          if 256 < length bs then Crash Panic
          else case scan crc d bs of
              Crash c \<Rightarrow> Crash c
            | Ret (None, d1) \<Rightarrow> read_enveloped_loop T crc ok k1 d1 t1
            | Ret (Some (Frame payload), d1) \<Rightarrow>
                (case payload of
                   [] \<Rightarrow> Crash Panic
                 | rc # data \<Rightarrow>
                     if rc \<notin> set ok then Ret (Inl (EcuError rc), t1) else Ret (Inr payload, t1))
            | Ret (Some CrcBad, d1) \<Rightarrow>
                (case t_flush_input T t1 of
                   (Inl e, t2) \<Rightarrow> Ret (Inl (Io e), t2)
                 | (Inr u, t2) \<Rightarrow> Ret (Inl CrcMismatch, t2)))"
  by pat_completeness auto
termination
  by (relation "measure (\<lambda>(T, crc, ok, k, d, t). k)") (auto dest: read_some_clock [OF sym])

declare read_enveloped_loop.simps [simp del]

function read_secondary_loop ::
    "'t transport_ops \<Rightarrow> nat \<Rightarrow> sec_decoder \<Rightarrow> 't \<Rightarrow> ((proto_error + bytes) \<times> 't) run" where
  "read_secondary_loop T k d t =
     (case read_some T k t of
        (Inl e, t1, k1) \<Rightarrow> Ret (Inl e, t1)
      | (Inr bs, t1, k1) \<Rightarrow>
          if 256 < length bs then Crash Panic
          else case sec_feed d bs of
              (Some payload, d1) \<Rightarrow> Ret (Inr payload, t1)
            | (None, d1) \<Rightarrow> read_secondary_loop T k1 d1 t1)"
  by pat_completeness auto
termination
  by (relation "measure (\<lambda>(T, k, d, t). k)") (auto dest: read_some_clock [OF sym])

declare read_secondary_loop.simps [simp del]

subsection \<open>The session\<close>

definition session_new :: "'t \<Rightarrow> config \<Rightarrow> nat list \<Rightarrow> proto_error + 't session" where
  "session_new t cfg clock =
     res_bind (tpl (template_parse (c_och_get_command cfg)))
       (\<lambda>och. Inr \<lparr>s_transport = t, s_config = cfg, s_och_get = och, s_clock = clock\<rparr>)"

definition s_write :: "'t transport_ops \<Rightarrow> bytes \<Rightarrow> ('t session, unit) io" where
  "s_write T buf = (\<lambda>s. case t_write_all T (s_transport s) buf of
       (Inl e, t) \<Rightarrow> Ret (Inl (Io e), s\<lparr>s_transport := t\<rparr>)
     | (Inr u, t) \<Rightarrow> Ret (Inr (), s\<lparr>s_transport := t\<rparr>))"

text \<open>Start a wait: take the next budget of deadline checks and run a loop with it.\<close>

definition with_deadline ::
    "(nat \<Rightarrow> 't \<Rightarrow> ((proto_error + 'a) \<times> 't) run) \<Rightarrow> ('t session, 'a) io" where
  "with_deadline loop = (\<lambda>s.
     let k = (case s_clock s of [] \<Rightarrow> 0 | n # ns \<Rightarrow> n)
     in case loop k (s_transport s) of
          Crash c \<Rightarrow> Crash c
        | Ret (r, t) \<Rightarrow> Ret (r, s\<lparr>s_transport := t, s_clock := tl (s_clock s)\<rparr>))"

definition read_enveloped ::
    "'t transport_ops \<Rightarrow> (bytes \<Rightarrow> u32) \<Rightarrow> u8 list \<Rightarrow> ('t session, bytes) io" where
  "read_enveloped T crc ok =
     with_deadline (\<lambda>k. read_enveloped_loop T crc ok k decoder_new)"

definition read_secondary :: "'t transport_ops \<Rightarrow> nat \<Rightarrow> ('t session, bytes) io" where
  "read_secondary T expect =
     with_deadline (\<lambda>k. read_secondary_loop T k (sec_new expect))"

definition request ::
    "'t transport_ops \<Rightarrow> (bytes \<Rightarrow> u32) \<Rightarrow> bytes \<Rightarrow> u8 list \<Rightarrow> ('t session, bytes) io" where
  "request T crc payload ok = (\<lambda>s.
     if c_mode (s_config s) \<noteq> Primary
     then Ret (Inl (Unsupported
       ''enveloped commands need the primary serial (SER3 is telemetry-only)''), s)
     else io_bind (s_write T (encode crc payload)) (\<lambda>_.
          io_bind (read_enveloped T crc ok) (\<lambda>full.
            case full of [] \<Rightarrow> io_crash Panic | _ # data \<Rightarrow> io_return data)) s)"

definition read_realtime ::
    "'t transport_ops \<Rightarrow> (bytes \<Rightarrow> u32) \<Rightarrow> ('t session, bytes) io" where
  "read_realtime T crc = (\<lambda>s.
     let cfg = s_config s; count = c_och_block_size cfg
     in io_bind (io_res (tpl (build (args_default\<lparr>can_id := c_can_id cfg,
            a_offset := Some 0, a_count := Some count\<rparr>) (s_och_get s)))) (\<lambda>cmd.
          case c_mode cfg of
            Secondary_mode \<Rightarrow>
              io_bind (s_write T cmd) (\<lambda>_. read_secondary T (unat count))
          | Primary \<Rightarrow> request T crc cmd [RC_OK]) s)"

definition query_string ::
    "'t transport_ops \<Rightarrow> (bytes \<Rightarrow> u32) \<Rightarrow> string \<Rightarrow> ('t session, string) io" where
  "query_string T crc command_template = (\<lambda>s.
     io_bind (io_res (tpl (template_parse command_template))) (\<lambda>t.
     io_bind (io_res (tpl (build (args_default\<lparr>can_id := c_can_id (s_config s)\<rparr>) t))) (\<lambda>cmd.
     io_bind (request T crc cmd [RC_OK]) (\<lambda>data.
       io_return (trim (trim_end_in {CHR 0x00} (utf8_lossy data)))))) s)"

subsection \<open>No panic on any transport that keeps the trait's promise\<close>

lemma push_some_frame:
  assumes "hist bs d" "dec_inv d" "push crc d b = Ret (Some (Frame p), d')"
  shows "p \<noteq> []"
  using push_frame_sound [OF assms] by auto

text \<open>
  What one chunk can do to a decoder with history \<open>bs\<close>: emit a frame whose encoding
  the bytes so far end with, report a mismatch, or nothing.
\<close>

lemma scan_hist:
  assumes "hist bs d" "dec_inv d"
  shows "\<exists>r d1. scan crc d cs = Ret (r, d1)
    \<and> (r = None \<longrightarrow> hist (bs @ cs) d1 \<and> dec_inv d1)
    \<and> (\<forall>p. r = Some (Frame p) \<longrightarrow> p \<noteq> [] \<and> length p \<le> MAX_PAYLOAD
        \<and> (\<exists>pre c1 c2. cs = c1 @ c2 \<and> bs @ c1 = pre @ encode crc p))"
  using assms
proof (induction cs arbitrary: bs d)
  case Nil
  then show ?case by simp
next
  case (Cons c cs)
  obtain r d1 where p: "push crc d c = Ret (r, d1)" "dec_inv d1"
    using push_inv [OF Cons.prems(2)] by blast
  show ?case
  proof (cases r)
    case None
    have "hist (bs @ [c]) d1" using push_hist [OF Cons.prems] p(1) by blast
    from Cons.IH [OF this p(2)] obtain r2 d2 where
      s: "scan crc d1 cs = Ret (r2, d2)"
        "r2 = None \<longrightarrow> hist (bs @ c # cs) d2 \<and> dec_inv d2"
      and f: "\<And>p. r2 = Some (Frame p) \<Longrightarrow> p \<noteq> [] \<and> length p \<le> MAX_PAYLOAD
        \<and> (\<exists>pre c1 c2. cs = c1 @ c2 \<and> bs @ c # c1 = pre @ encode crc p)"
      by auto
    have "\<exists>pre c1 c2. c # cs = c1 @ c2 \<and> bs @ c1 = pre @ encode crc p"
      if r: "r2 = Some (Frame p)" for p
    proof -
      from f [OF r] obtain pre c1 c2 where "cs = c1 @ c2" "bs @ c # c1 = pre @ encode crc p" by blast
      then show ?thesis by (intro exI [of _ pre] exI [of _ "c # c1"] exI [of _ c2]) simp
    qed
    with s f p(1) None show ?thesis by auto
  next
    case (Some ev)
    have "p \<noteq> [] \<and> length p \<le> MAX_PAYLOAD
        \<and> (\<exists>pre c1 c2. c # cs = c1 @ c2 \<and> bs @ c1 = pre @ encode crc p)" if "ev = Frame p" for p
    proof -
      from push_frame_sound [OF Cons.prems, of crc c p d1] p(1) Some that
      obtain pre where f: "bs @ [c] = pre @ encode crc p" "p \<noteq> []" "length p \<le> MAX_PAYLOAD" by auto
      then have "c # cs = [c] @ cs \<and> bs @ [c] = pre @ encode crc p" by simp
      with f show ?thesis by blast
    qed
    with p(1) Some show ?thesis by auto
  qed
qed

context transport_laws
begin

lemma read_some_bounds:
  "read_some T k t = (Inr bs, t1, k1) \<Longrightarrow> bs \<noteq> [] \<and> length bs \<le> 256"
proof (induction k arbitrary: t)
  case (Suc k)
  then show ?case
    by (auto split: prod.splits sum.splits if_splits dest: read_bound)
qed simp

lemma read_enveloped_returns:
  assumes "hist bs d" "dec_inv d"
  shows "\<exists>r t1. read_enveloped_loop T crc ok k d t = Ret (r, t1) \<and> r \<noteq> Inr []"
  using assms
proof (induction k arbitrary: bs d t rule: less_induct)
  case (less k)
  obtain r t1 k1 where r: "read_some T k t = (r, t1, k1)" by (cases "read_some T k t")
  show ?case
  proof (cases r)
    case (Inl e)
    with r show ?thesis by (subst read_enveloped_loop.simps) simp
  next
    case (Inr cs)
    have k: "k1 < k" and l: "\<not> 256 < length cs"
      using read_some_clock read_some_bounds r Inr by fastforce+
    obtain ev d1 where s: "scan crc d cs = Ret (ev, d1)"
      "ev = None \<longrightarrow> hist (bs @ cs) d1 \<and> dec_inv d1"
      "\<forall>p. ev = Some (Frame p) \<longrightarrow> p \<noteq> []"
      using scan_hist [OF less.prems, of crc cs] by blast
    show ?thesis
    proof (cases ev)
      case None
      with s have "hist (bs @ cs) d1" "dec_inv d1" by auto
      from less.IH [OF k this] obtain r2 t2 where
        "read_enveloped_loop T crc ok k1 d1 t1 = Ret (r2, t2)" "r2 \<noteq> Inr []" by blast
      with r Inr l s None show ?thesis by (subst read_enveloped_loop.simps) simp
    next
      case (Some e)
      with r Inr l s show ?thesis
        by (subst read_enveloped_loop.simps)
          (auto split: event.splits list.splits prod.splits sum.splits)
    qed
  qed
qed

lemma read_secondary_returns: "\<exists>r t1. read_secondary_loop T k d t = Ret (r, t1)"
proof (induction k arbitrary: d t rule: less_induct)
  case (less k)
  obtain r t1 k1 where r: "read_some T k t = (r, t1, k1)" by (cases "read_some T k t")
  show ?case
  proof (cases r)
    case (Inl e)
    with r show ?thesis by (subst read_secondary_loop.simps) simp
  next
    case (Inr cs)
    have k: "k1 < k" and l: "\<not> 256 < length cs"
      using read_some_clock read_some_bounds r Inr by fastforce+
    with r Inr less.IH [OF k] show ?thesis
      by (subst read_secondary_loop.simps) (auto split: prod.splits option.splits)
  qed
qed

abbreviation same_config :: "config \<Rightarrow> template \<Rightarrow> 't session \<Rightarrow> bool" where
  "same_config cfg och s \<equiv> s_config s = cfg \<and> s_och_get s = och"

lemma keeps_write [keeps_intros]: "keeps (same_config cfg och) (s_write T buf)"
  by (auto simp: keeps_def s_write_def split: prod.splits sum.splits)

lemma keeps_request [keeps_intros]: "keeps (same_config cfg och) (request T crc payload ok)"
  unfolding keeps_def
proof (intro allI impI)
  fix s :: "'t session" assume s: "same_config cfg och s"
  show "\<exists>r s'. request T crc payload ok s = Ret (r, s') \<and> same_config cfg och s'"
  proof (cases "c_mode (s_config s) = Primary")
    case True
    obtain w s1 where w: "s_write T (encode crc payload) s = Ret (w, s1)" "same_config cfg och s1"
      using keepsD [OF keeps_write s] by blast
    show ?thesis
    proof (cases w)
      case (Inl e)
      with w True show ?thesis by (auto simp: request_def run_simps)
    next
      case (Inr u)
      obtain r t1 where l: "read_enveloped_loop T crc ok
          (case s_clock s1 of [] \<Rightarrow> 0 | n # ns \<Rightarrow> n) decoder_new (s_transport s1) = Ret (r, t1)"
        "r \<noteq> Inr []"
        using read_enveloped_returns [OF hist_new dec_inv_new] by blast
      then have "read_enveloped T crc ok s1 =
          Ret (r, s1\<lparr>s_transport := t1, s_clock := tl (s_clock s1)\<rparr>)"
        by (simp add: read_enveloped_def with_deadline_def Let_def)
      with w Inr True l(2) show ?thesis
        by (cases r) (auto simp: request_def run_simps split: list.splits)
    qed
  qed (use s in \<open>auto simp: request_def\<close>)
qed

lemma keeps_secondary [keeps_intros]: "keeps (same_config cfg och) (read_secondary T n)"
  unfolding keeps_def
proof (intro allI impI)
  fix s :: "'t session" assume s: "same_config cfg och s"
  obtain r t1 where "read_secondary_loop T (case s_clock s of [] \<Rightarrow> 0 | n # ns \<Rightarrow> n)
      (sec_new n) (s_transport s) = Ret (r, t1)"
    using read_secondary_returns by blast
  with s show "\<exists>r s'. read_secondary T n s = Ret (r, s') \<and> same_config cfg och s'"
    by (simp add: read_secondary_def with_deadline_def Let_def)
qed

lemma keeps_realtime [keeps_intros]: "keeps (same_config cfg och) (read_realtime T crc)"
proof -
  have "keeps (same_config cfg och) (\<lambda>s. io_bind (io_res r) (\<lambda>cmd. case c_mode cfg of
      Secondary_mode \<Rightarrow> io_bind (s_write T cmd) (\<lambda>_. read_secondary T n)
    | Primary \<Rightarrow> request T crc cmd [RC_OK]) s)" for r n
    by (cases "c_mode cfg") (simp_all, (intro keeps_intros)+)
  then show ?thesis
    unfolding keeps_def read_realtime_def Let_def by blast
qed

lemma keeps_query [keeps_intros]: "keeps (same_config cfg och) (query_string T crc c)"
proof -
  have "keeps (same_config cfg och) (\<lambda>s.
     io_bind (io_res (tpl (template_parse c))) (\<lambda>t.
     io_bind (io_res (tpl (build (args_default\<lparr>can_id := c_can_id cfg\<rparr>) t))) (\<lambda>cmd.
     io_bind (request T crc cmd [RC_OK]) (\<lambda>data.
       io_return (trim (trim_end_in {CHR 0x00} (utf8_lossy data)))))) s)"
    by (intro keeps_intros)
  then show ?thesis
    unfolding keeps_def query_string_def by blast
qed

end

subsection \<open>An accepted answer was delivered\<close>

context transport_queue
begin

lemma read_some_bytes: "read_some T k t = (Inr bs, t1, k1) \<Longrightarrow> pending t = bs @ pending t1"
proof (induction k arbitrary: t)
  case (Suc k)
  then show ?case
    by (auto split: prod.splits sum.splits if_splits dest: read_in_order)
qed simp

lemma read_enveloped_sound:
  assumes "hist bs d" "dec_inv d" "read_enveloped_loop T crc ok k d t = Ret (Inr p, t1)"
  shows "(\<exists>pre rest. bs @ pending t = pre @ encode crc p @ rest @ pending t1)
    \<and> p \<noteq> [] \<and> length p \<le> MAX_PAYLOAD \<and> hd p \<in> set ok"
  using assms
proof (induction k arbitrary: bs d t rule: less_induct)
  case (less k)
  obtain r t2 k2 where r: "read_some T k t = (r, t2, k2)" by (cases "read_some T k t")
  with less.prems(3) obtain cs where cs: "r = Inr cs"
    by (cases r) (auto simp: read_enveloped_loop.simps [of T crc ok k d t])
  have k: "k2 < k" and l: "length cs \<le> 256"
    using read_some_clock read_some_bounds r cs by fastforce+
  have pend: "pending t = cs @ pending t2" using read_some_bytes r cs by blast
  obtain ev d1 where s: "scan crc d cs = Ret (ev, d1)"
    "ev = None \<Longrightarrow> hist (bs @ cs) d1 \<and> dec_inv d1"
    and f: "\<And>p. ev = Some (Frame p) \<Longrightarrow> p \<noteq> [] \<and> length p \<le> MAX_PAYLOAD
        \<and> (\<exists>pre c1 c2. cs = c1 @ c2 \<and> bs @ c1 = pre @ encode crc p)"
    using scan_hist [OF less.prems(1,2), of crc cs] by auto
  show ?case
  proof (cases ev)
    case None
    with less.prems(3) r cs l s(1) have "read_enveloped_loop T crc ok k2 d1 t2 = Ret (Inr p, t1)"
      by (simp add: read_enveloped_loop.simps [of T crc ok k d t])
    from less.IH [OF k _ _ this, of "bs @ cs"] s(2) [OF None] pend show ?thesis by simp
  next
    case (Some e)
    with less.prems(3) r cs l s(1) have e: "e = Frame p" "t1 = t2" "hd p \<in> set ok"
      by (auto simp: read_enveloped_loop.simps [of T crc ok k d t]
          split: event.splits list.splits prod.splits sum.splits if_splits)
    with f Some obtain pre c1 c2 where "p \<noteq> []" "length p \<le> MAX_PAYLOAD" "cs = c1 @ c2"
      "bs @ c1 = pre @ encode crc p" by blast
    moreover from this have "bs @ pending t = pre @ encode crc p @ c2 @ pending t2"
      using pend by (metis append.assoc)
    ultimately show ?thesis using e by blast
  qed
qed

lemma request_answer:
  assumes "request T crc payload ok s = Ret (Inr data, s')"
  shows "\<exists>t1 rc pre rest. t_write_all T (s_transport s) (encode crc payload) = (Inr (), t1)
    \<and> pending t1 = pre @ encode crc (rc # data) @ rest @ pending (s_transport s')
    \<and> rc \<in> set ok \<and> length data < MAX_PAYLOAD"
proof -
  have "c_mode (s_config s) = Primary" using assms by (auto simp: request_def split: if_splits)
  with assms obtain u s1 where w: "s_write T (encode crc payload) s = Ret (Inr u, s1)"
    and "io_bind (read_enveloped T crc ok) (\<lambda>full. case full of [] \<Rightarrow> io_crash Panic
        | _ # data \<Rightarrow> io_return data) s1 = Ret (Inr data, s')"
    by (auto simp: request_def elim: io_bind_InrE)
  then obtain p s2 where r: "read_enveloped T crc ok s1 = Ret (Inr p, s2)"
    and "(case p of [] \<Rightarrow> io_crash Panic | _ # data \<Rightarrow> io_return data) s2 = Ret (Inr data, s')"
    by (auto elim: io_bind_InrE)
  then obtain rc where p: "p = rc # data" "s' = s2" by (auto simp: run_simps split: list.splits)
  from r obtain k where "read_enveloped_loop T crc ok k decoder_new (s_transport s1)
      = Ret (Inr p, s_transport s2)"
    by (auto simp: read_enveloped_def with_deadline_def Let_def split: run.splits prod.splits)
  from read_enveloped_sound [OF hist_new dec_inv_new this] p
  obtain pre rest where "pending (s_transport s1) = pre @ encode crc (rc # data) @ rest @ pending (s_transport s')"
    "length (rc # data) \<le> MAX_PAYLOAD" "rc \<in> set ok" by auto
  moreover have "t_write_all T (s_transport s) (encode crc payload) = (Inr (), s_transport s1)"
    using w by (auto simp: s_write_def split: prod.splits sum.splits)
  ultimately show ?thesis by auto
qed

end

subsection \<open>A delivered frame is answered\<close>

lemma scan_feed:
  assumes "feed crc d (xs @ ys) = Ret (ev # evs, d')"
  shows "(\<exists>d1. scan crc d xs = Ret (Some ev, d1))
    \<or> (\<exists>d1. scan crc d xs = Ret (None, d1) \<and> feed crc d1 ys = Ret (ev # evs, d'))"
  using assms
proof (induction xs arbitrary: d)
  case (Cons x xs)
  obtain ev1 d1 where p: "push crc d x = Ret (ev1, d1)"
    using Cons.prems by (cases "push crc d x") auto
  show ?case
  proof (cases ev1)
    case None
    with Cons.prems p have "feed crc d1 (xs @ ys) = Ret (ev # evs, d')"
      by (auto simp: run_simps)
    from Cons.IH [OF this] p None show ?thesis by simp
  next
    case (Some e)
    with Cons.prems p show ?thesis by (auto simp: run_simps)
  qed
qed simp

context transport_live
begin

lemma read_some_ready:
  assumes "ready t" "pending t \<noteq> []" "0 < k"
  shows "\<exists>bs t1. read_some T k t = (Inr bs, t1, k - 1) \<and> bs \<noteq> [] \<and> ready t1
    \<and> pending t = bs @ pending t1"
proof -
  obtain bs t1 where r: "t_read T t 256 = (Inr bs, t1)" "bs \<noteq> []" "ready t1"
    using read_ready [OF assms(1,2), of 256] by auto
  with assms(3) have "read_some T k t = (Inr bs, t1, k - 1)" by (cases k) auto
  with r read_some_bytes show ?thesis by blast
qed

lemma read_enveloped_answers:
  assumes "ready t" "length (pending t) \<le> k" "0 < length p"
    and "feed crc d (pending t) = Ret (Frame p # evs, d')"
  shows "\<exists>t1. read_enveloped_loop T crc ok k d t
    = Ret (if hd p \<in> set ok then Inr p else Inl (EcuError (hd p)), t1)"
  using assms
proof (induction k arbitrary: d t)
  case 0
  then show ?case by simp
next
  case (Suc k)
  have ne: "pending t \<noteq> []" using Suc.prems(4) by auto
  then obtain bs t1 where r: "read_some T (Suc k) t = (Inr bs, t1, k)" "bs \<noteq> []" "ready t1"
    "pending t = bs @ pending t1" using read_some_ready [OF Suc.prems(1) ne, of "Suc k"] by auto
  have l: "length bs \<le> 256" using read_some_bounds r(1) by blast
  from scan_feed [OF Suc.prems(4) [unfolded r(4)]]
  consider (now) d1 where "scan crc d bs = Ret (Some (Frame p), d1)"
    | (later) d1 where "scan crc d bs = Ret (None, d1)" "feed crc d1 (pending t1) = Ret (Frame p # evs, d')"
    by blast
  then show ?case
  proof cases
    case now
    with r(1) l Suc.prems(3) show ?thesis
      by (subst read_enveloped_loop.simps) (auto split: list.splits)
  next
    case later
    have "length (pending t1) \<le> k" using Suc.prems(2) r(2,4) by (cases bs) auto
    from Suc.IH [OF r(3) this Suc.prems(3) later(2)] r(1) l later(1) show ?thesis
      by (subst read_enveloped_loop.simps) auto
  qed
qed

lemma request_gets_answer:
  assumes "c_mode (s_config s) = Primary"
    and "t_write_all T (s_transport s) (encode crc payload) = (Inr (), t1)" "ready t1"
    and "feed crc decoder_new (pending t1) = Ret (Frame (rc # data) # evs, d')"
    and "s_clock s = k # ks" "length (pending t1) \<le> k"
  shows "\<exists>s'. request T crc payload ok s
    = Ret (if rc \<in> set ok then Inr data else Inl (EcuError rc), s')"
proof -
  have w: "s_write T (encode crc payload) s = Ret (Inr (), s\<lparr>s_transport := t1\<rparr>)"
    using assms(2) by (simp add: s_write_def)
  obtain t2 where "read_enveloped_loop T crc ok k decoder_new t1
      = Ret (if rc \<in> set ok then Inr (rc # data) else Inl (EcuError rc), t2)"
    using read_enveloped_answers [OF assms(3,6) _ assms(4), of ok] by auto
  then have "read_enveloped T crc ok (s\<lparr>s_transport := t1\<rparr>) =
      Ret (if rc \<in> set ok then Inr (rc # data) else Inl (EcuError rc),
        s\<lparr>s_transport := t2, s_clock := ks\<rparr>)"
    using assms(5) by (simp add: read_enveloped_def with_deadline_def Let_def)
  with w assms(1) show ?thesis by (auto simp: request_def run_simps)
qed

end

subsection \<open>Properties of a request\<close>

definition demo_config :: config where
  "demo_config = config_new Primary ''A'' 1"

definition demo_session :: "mock session" where
  "demo_session = \<lparr>s_transport = \<lparr>m_sent = [], m_responses = [[0xFF], encode crc32_ieee [0, 7]]\<rparr>,
     s_config = demo_config, s_och_get = [Literal [0x41]], s_clock = [20]\<rparr>"

lemma demo_request: "\<exists>s'. request mock_ops crc32_ieee [0x51] [0] demo_session = Ret (Inr [7], s')"
proof -
  let ?t = "\<lparr>m_sent = [encode crc32_ieee [0x51]], m_responses = [[0xFF], encode crc32_ieee [0, 7]]\<rparr>"
  obtain d' where "feed crc32_ieee decoder_new (mock_pending ?t) = Ret ([Frame [0, 7]], d')"
    using feed_after_noise [OF idle_new high_skippable, of "[0xFF]" "[0, 7]" crc32_ieee]
    by (auto simp: mock_pending_def MAX_PAYLOAD_def)
  then have "\<exists>s'. request mock_ops crc32_ieee [0x51] [0] demo_session =
      Ret (if 0 \<in> set [0 :: u8] then Inr [7] else Inl (EcuError 0), s')"
    by (intro mock_live.request_gets_answer [where ?t1.0 = ?t])
      (auto simp: demo_session_def demo_config_def config_new_def mock_write_all_def
        mock_ready_def encode_def mock_pending_def to_be16_def to_be32_def eval_nat_numeral)
  then show ?thesis by simp
qed

text \<open>
  C9. Soundness of a request: on any transport that hands out its input in order, a
  successful answer is the data of a frame that was really pending after the command
  was written, with a matching checksum, a return code from the accepted list and at
  most 2047 bytes.
\<close>

theorem request_sound:
  assumes "transport_queue T pending" "request T crc payload ok s = Ret (Inr data, s')"
  shows "\<exists>t1 rc pre rest. t_write_all T (s_transport s) (encode crc payload) = (Inr (), t1)
    \<and> pending t1 = pre @ encode crc (rc # data) @ rest @ pending (s_transport s')
    \<and> rc \<in> set ok \<and> length data < MAX_PAYLOAD"
  using assms by (rule transport_queue.request_answer)

theorem request_sound_witness:
  "\<exists>(s' :: mock session) t1 rc pre rest.
    t_write_all mock_ops (s_transport demo_session) (encode crc32_ieee [0x51]) = (Inr (), t1)
    \<and> mock_pending t1 = pre @ encode crc32_ieee (rc # [7]) @ rest @ mock_pending (s_transport s')
    \<and> rc \<in> set [0] \<and> length [7 :: u8] < MAX_PAYLOAD"
proof -
  obtain s' where "request mock_ops crc32_ieee [0x51] [0] demo_session = Ret (Inr [7], s')"
    using demo_request by blast
  from request_sound [OF mock_q.transport_queue_axioms this] show ?thesis by blast
qed

text \<open>
  C10. Liveness of a request: when the transport delivers, after noise without a plausible
  length (no two adjacent bytes, the first byte of the answer included, read as a length from
  1 to 2048; any bytes of at least 9 will do), an enveloped answer, and the deadline leaves one
  check per pending byte, the request returns the data of that answer, or the ECU's error code
  when it is not an accepted one.  Noise that holds a plausible length can swallow the answer
  (\<open>noise_swallows_frame\<close>).
\<close>

theorem request_live:
  assumes "transport_live T pending ready" "c_mode (s_config s) = Primary"
    and "t_write_all T (s_transport s) (encode crc payload) = (Inr (), t1)" "ready t1"
    and "pending t1 = noise @ encode crc (rc # data)" "skippable (noise @ take 1 (encode crc (rc # data)))"
    and "length data < MAX_PAYLOAD" "s_clock s = k # ks" "length (pending t1) \<le> k"
  shows "\<exists>s'. request T crc payload ok s
    = Ret (if rc \<in> set ok then Inr data else Inl (EcuError rc), s')"
proof -
  obtain d' where "feed crc decoder_new (pending t1) = Ret ([Frame (rc # data)], d')"
    using feed_after_noise [of decoder_new noise crc "rc # data"] assms(5-7) by auto
  from transport_live.request_gets_answer [OF assms(1-4) this assms(8,9)] show ?thesis .
qed

theorem request_live_witness:
  "\<exists>s'. request mock_ops crc32_ieee [0x51] [0] demo_session
    = Ret (if 0 \<in> set [0 :: u8] then Inr [7] else Inl (EcuError 0), s')"
proof (rule request_live)
  show "transport_live mock_ops mock_pending mock_ready" by (rule mock_live.transport_live_axioms)
  show "t_write_all mock_ops (s_transport demo_session) (encode crc32_ieee [0x51]) =
    (Inr (), \<lparr>m_sent = [encode crc32_ieee [0x51]], m_responses = [[0xFF], encode crc32_ieee [0, 7]]\<rparr>)"
    by (simp add: demo_session_def mock_write_all_def)
  show "mock_pending \<lparr>m_sent = [encode crc32_ieee [0x51]], m_responses = [[0xFF], encode crc32_ieee [0, 7]]\<rparr>
    = [0xFF] @ encode crc32_ieee [0, 7]"
    by (simp add: mock_pending_def)
  show "length (mock_pending \<lparr>m_sent = [encode crc32_ieee [0x51]],
      m_responses = [[0xFF], encode crc32_ieee [0, 7]]\<rparr>) \<le> 20"
    by (simp add: mock_pending_def encode_def)
qed (simp_all add: demo_session_def demo_config_def config_new_def mock_ready_def encode_def
    to_be16_def plausible_high MAX_PAYLOAD_def)

text \<open>
  No session operation panics or fails to return, whatever bytes the transport
  delivers (as long as a read stays within the buffer it was given), and none changes
  the session's configuration.
\<close>

theorem session_never_panics:
  assumes "transport_laws T"
  shows "(\<exists>r s'. read_realtime T crc s = Ret (r, s') \<and> s_config s' = s_config s)
    \<and> (\<exists>r s'. request T crc payload ok s = Ret (r, s') \<and> s_config s' = s_config s)
    \<and> (\<exists>r s'. query_string T crc c s = Ret (r, s') \<and> s_config s' = s_config s)"
  using transport_laws.keeps_realtime [OF assms, where cfg = "s_config s" and och = "s_och_get s",
      THEN keepsD, of s crc]
    transport_laws.keeps_request [OF assms, where cfg = "s_config s" and och = "s_och_get s",
      THEN keepsD, of s crc payload ok]
    transport_laws.keeps_query [OF assms, where cfg = "s_config s" and och = "s_och_get s",
      THEN keepsD, of s crc c]
  by auto

theorem session_never_panics_witness:
  "(\<exists>r s'. read_realtime mock_ops crc32_ieee demo_session = Ret (r, s') \<and> s_config s' = demo_config)
    \<and> (\<exists>r s'. request mock_ops crc32_ieee [] [] demo_session = Ret (r, s') \<and> s_config s' = demo_config)
    \<and> (\<exists>r s'. query_string mock_ops crc32_ieee ''Q'' demo_session = Ret (r, s') \<and> s_config s' = demo_config)"
  using session_never_panics [OF mock_laws.transport_laws_axioms, of crc32_ieee demo_session "[]" "[]" "''Q''"]
  by (simp add: demo_session_def)

end
