(* ===== verification/Pages.thy ===== *)
theory Pages
  imports Session
begin

text \<open>
  The tune page commands of \<open>ecu-proto/src/pages.rs\<close>: download, chunk write,
  checksum and burn, built from the INI templates and issued as requests.

  The download loop counts down from the page size; every pass advances the offset
  by at least one byte (\<open>blocking_factor\<close> is at least 1), so the count is never
  exhausted (\<open>read_page_loop_returns\<close>).
\<close>

definition RC_BURN_OK :: u8 where "RC_BURN_OK = 4"

record pages_config =
  pc_identifiers :: "string list"
  pc_page_read :: "string list"
  pc_chunk_write :: "string list"
  pc_crc_check :: "string list"
  pc_burn :: "string list"
  pc_sizes :: "nat list"
  pc_blocking_factor :: nat
  pc_can_id :: u8

record page_def =
  pd_identifier :: bytes
  pd_read :: template
  pd_chunk_write :: template
  pd_crc :: template
  pd_burn :: template
  pd_size :: nat

record page_commands =
  pcm_pages :: "page_def list"
  pcm_blocking_factor :: nat
  pcm_can_id :: u8

definition page_tpl :: "string list \<Rightarrow> nat \<Rightarrow> string \<Rightarrow> string + template" where
  "page_tpl texts i what =
     (case list_get texts i of
        None \<Rightarrow> Inl (''missing '' @ what @ '' for page '' @ show_nat (i + 1))
      | Some text \<Rightarrow> template_parse text)"

definition page_def_new :: "pages_config \<Rightarrow> nat \<Rightarrow> nat \<Rightarrow> string + page_def" where
  "page_def_new cfg i psize =
     res_bind (page_tpl (pc_identifiers cfg) i ''pageIdentifier'') (\<lambda>idt.
     res_bind (build (args_default\<lparr>can_id := pc_can_id cfg\<rparr>) idt) (\<lambda>identifier.
     res_bind (page_tpl (pc_page_read cfg) i ''pageReadCommand'') (\<lambda>rd.
     res_bind (page_tpl (pc_chunk_write cfg) i ''pageChunkWrite'') (\<lambda>cw.
     res_bind (page_tpl (pc_crc_check cfg) i ''crc32CheckCommand'') (\<lambda>cr.
     res_bind (page_tpl (pc_burn cfg) i ''burnCommand'') (\<lambda>bn.
       Inr \<lparr>pd_identifier = identifier, pd_read = rd, pd_chunk_write = cw, pd_crc = cr,
            pd_burn = bn, pd_size = psize\<rparr>))))))"

fun page_defs_new :: "pages_config \<Rightarrow> nat \<Rightarrow> nat list \<Rightarrow> string + page_def list" where
  "page_defs_new cfg i [] = Inr []"
| "page_defs_new cfg i (psize # sizes) =
     res_bind (page_def_new cfg i psize) (\<lambda>p.
     res_bind (page_defs_new cfg (i + 1) sizes) (\<lambda>ps. Inr (p # ps)))"

definition page_commands_new :: "pages_config \<Rightarrow> proto_error + page_commands" where
  "page_commands_new cfg =
     res_bind (tpl (page_defs_new cfg 0 (pc_sizes cfg))) (\<lambda>ps.
       Inr \<lparr>pcm_pages = ps, pcm_blocking_factor = max (pc_blocking_factor cfg) 1,
            pcm_can_id = pc_can_id cfg\<rparr>)"

definition page_count :: "page_commands \<Rightarrow> nat" where
  "page_count pcs = length (pcm_pages pcs)"

definition page_size :: "page_commands \<Rightarrow> nat \<Rightarrow> nat option" where
  "page_size pcs i = map_option pd_size (list_get (pcm_pages pcs) i)"

definition the_page :: "page_commands \<Rightarrow> nat \<Rightarrow> proto_error + page_def" where
  "the_page pcs i =
     ok_or (list_get (pcm_pages pcs) i)
       (Template (''page index '' @ show_nat i @ '' out of range ('' @
          show_nat (length (pcm_pages pcs)) @ '' pages)''))"

text \<open>The arguments every page command starts from.\<close>

definition page_args :: "page_commands \<Rightarrow> page_def \<Rightarrow> args" where
  "page_args pcs page =
     args_default\<lparr>can_id := pcm_can_id pcs, page_id := Some (pd_identifier page)\<rparr>"

definition read_cmd :: "page_commands \<Rightarrow> page_def \<Rightarrow> nat \<Rightarrow> nat \<Rightarrow> string + bytes" where
  "read_cmd pcs page offset count =
     build ((page_args pcs page)\<lparr>a_offset := Some (of_nat offset), a_count := Some (of_nat count)\<rparr>)
       (pd_read page)"

fun read_page_loop ::
    "'t transport_ops \<Rightarrow> (bytes \<Rightarrow> u32) \<Rightarrow> page_commands \<Rightarrow> page_def \<Rightarrow> nat \<Rightarrow> nat \<Rightarrow> bytes
      \<Rightarrow> ('t session, bytes) io" where
  "read_page_loop T crc pcs page 0 offset out =
     (if offset < pd_size page then io_crash Diverge else io_return out)"
| "read_page_loop T crc pcs page (Suc n) offset out =
     (if offset < pd_size page then
        let count = min (pd_size page - offset) (pcm_blocking_factor pcs)
        in io_bind (io_res (tpl (read_cmd pcs page offset count))) (\<lambda>cmd.
           io_bind (request T crc cmd [RC_OK]) (\<lambda>data.
             if length data \<noteq> count then io_fail (ShortResponse count (length data))
             else read_page_loop T crc pcs page n (offset + count) (out @ data)))
      else io_return out)"

definition read_page ::
    "'t transport_ops \<Rightarrow> (bytes \<Rightarrow> u32) \<Rightarrow> page_commands \<Rightarrow> nat \<Rightarrow> ('t session, bytes) io" where
  "read_page T crc pcs i =
     io_bind (io_res (the_page pcs i)) (\<lambda>page.
       read_page_loop T crc pcs page (pd_size page) 0 [])"

definition write_chunk ::
    "'t transport_ops \<Rightarrow> (bytes \<Rightarrow> u32) \<Rightarrow> page_commands \<Rightarrow> nat \<Rightarrow> nat \<Rightarrow> bytes
      \<Rightarrow> ('t session, unit) io" where
  "write_chunk T crc pcs i offset values =
     io_bind (io_res (the_page pcs i)) (\<lambda>page.
     io_bind (io_res (tpl (build ((page_args pcs page)\<lparr>a_offset := Some (of_nat offset),
         a_count := Some (of_nat (length values)), a_value := Some values\<rparr>)
         (pd_chunk_write page)))) (\<lambda>cmd.
     io_bind (request T crc cmd [RC_OK]) (\<lambda>_. io_return ())))"

text \<open>\<open>u32::from_be_bytes(data.try_into().unwrap())\<close> after the length check.\<close>

definition be32_of_answer :: "bytes \<Rightarrow> ('w, u32) io" where
  "be32_of_answer data =
     (case data of
        [b0, b1, b2, b3] \<Rightarrow> io_return (from_be32 b0 b1 b2 b3)
      | _ \<Rightarrow> io_fail (ShortResponse 4 (length data)))"

definition page_crc ::
    "'t transport_ops \<Rightarrow> (bytes \<Rightarrow> u32) \<Rightarrow> page_commands \<Rightarrow> nat \<Rightarrow> ('t session, u32) io" where
  "page_crc T crc pcs i =
     io_bind (io_res (the_page pcs i)) (\<lambda>page.
     io_bind (io_res (tpl (build (page_args pcs page) (pd_crc page)))) (\<lambda>cmd.
     io_bind (request T crc cmd [RC_OK]) be32_of_answer))"

definition burn ::
    "'t transport_ops \<Rightarrow> (bytes \<Rightarrow> u32) \<Rightarrow> page_commands \<Rightarrow> nat \<Rightarrow> ('t session, unit) io" where
  "burn T crc pcs i =
     io_bind (io_res (the_page pcs i)) (\<lambda>page.
     io_bind (io_res (tpl (build (page_args pcs page) (pd_burn page)))) (\<lambda>cmd.
     io_bind (request T crc cmd [RC_OK, RC_BURN_OK]) (\<lambda>_. io_return ())))"

subsection \<open>Construction\<close>

lemma page_defs_new_sizes:
  "page_defs_new cfg i sizes = Inr ps \<Longrightarrow> map pd_size ps = sizes"
proof (induction sizes arbitrary: i ps)
  case (Cons psize sizes)
  have psize: "pd_size p = psize" if "page_def_new cfg i psize = Inr p" for p
    using that
    by (auto simp: page_def_new_def run_simps)
  from Cons show ?case by (auto simp: run_simps dest: psize)
qed simp

lemma page_commands_new_ok:
  assumes "page_commands_new cfg = Inr pcs"
  shows "map pd_size (pcm_pages pcs) = pc_sizes cfg" "0 < pcm_blocking_factor pcs"
  using assms page_defs_new_sizes
  by (auto simp: page_commands_new_def run_simps)

subsection \<open>The download\<close>

lemma read_page_loop_keeps:
  assumes "transport_laws T" "0 < pcm_blocking_factor pcs" "pd_size page \<le> offset + n"
  shows "keeps (\<lambda>s. s_config s = cfg \<and> s_och_get s = och) (read_page_loop T crc pcs page n offset out)"
  using assms(3)
proof (induction n arbitrary: offset out)
  case 0
  then show ?case by (auto intro: keeps_intros)
next
  case (Suc n)
  have "pd_size page \<le> offset + min (pd_size page - offset) (pcm_blocking_factor pcs) + n"
    if "offset < pd_size page"
    using that Suc.prems assms(2) by (auto simp: min_def)
  with Suc.IH show ?case
    by (auto simp: Let_def intro!: keeps_intros transport_laws.keeps_request [OF assms(1)])
qed

lemma read_page_loop_length:
  assumes "read_page_loop T crc pcs page n offset out s = Ret (Inr data, s')"
    and "length out = offset" "offset \<le> pd_size page"
  shows "length data = pd_size page"
  using assms
proof (induction n arbitrary: offset out s)
  case 0
  then show ?case by (auto simp: run_simps split: if_splits)
next
  case (Suc n)
  show ?case
  proof (cases "offset < pd_size page")
    case False
    with Suc.prems show ?thesis by (simp add: run_simps)
  next
    case True
    let ?c = "min (pd_size page - offset) (pcm_blocking_factor pcs)"
    from Suc.prems(1) True obtain d s1 where
      "(if length d \<noteq> ?c then io_fail (ShortResponse ?c (length d))
        else read_page_loop T crc pcs page n (offset + ?c) (out @ d)) s1 = Ret (Inr data, s')"
      by (auto simp: Let_def elim!: io_bind_InrE)
    then have d: "length d = ?c" "read_page_loop T crc pcs page n (offset + ?c) (out @ d) s1 = Ret (Inr data, s')"
      by (auto simp: run_simps split: if_splits)
    show ?thesis
      by (rule Suc.IH [OF d(2)]) (use d(1) Suc.prems(2) True in auto)
  qed
qed

text \<open>
  A page download always ends without a panic, and a successful one returns
  exactly as many bytes as the definition says the page has.
\<close>

theorem read_page_complete:
  assumes "transport_laws T" "page_commands_new cfg = Inr pcs"
  shows "\<exists>r s'. read_page T crc pcs i s = Ret (r, s')
    \<and> (\<forall>data. r = Inr data \<longrightarrow> page_size pcs i = Some (length data))"
proof (cases "list_get (pcm_pages pcs) i")
  case None
  then show ?thesis by (simp add: read_page_def the_page_def ok_or_def run_simps)
next
  case (Some page)
  obtain r s' where r: "read_page_loop T crc pcs page (pd_size page) 0 [] s = Ret (r, s')"
    using read_page_loop_keeps [OF assms(1) page_commands_new_ok(2) [OF assms(2)],
        of page 0 "pd_size page" "s_config s" "s_och_get s" crc "[]", THEN keepsD, of s]
    by auto
  with Some have "read_page T crc pcs i s = Ret (r, s')"
    by (simp add: read_page_def the_page_def ok_or_def run_simps)
  with r Some read_page_loop_length [of T crc pcs page "pd_size page" 0 "[]" s _ s'] show ?thesis
    by (auto simp: page_size_def)
qed

subsection \<open>Only the primary port takes page commands\<close>

definition untouched :: "('w, 'a) io \<Rightarrow> 'w \<Rightarrow> bool" where
  "untouched m w \<longleftrightarrow> (\<exists>e. m w = Ret (Inl e, w))"

lemma untouched_bind: "untouched m w \<Longrightarrow> untouched (io_bind m f) w"
  by (auto simp: untouched_def run_simps)

lemma untouched_res: "(\<And>x. r = Inr x \<Longrightarrow> untouched (f x) w) \<Longrightarrow> untouched (io_bind (io_res r) f) w"
  by (cases r) (auto simp: untouched_def run_simps)

lemma untouched_request:
  "c_mode (s_config s) = Secondary_mode \<Longrightarrow> untouched (request T crc payload ok) s"
  by (simp add: untouched_def request_def)

lemmas untouched_intros = untouched_res untouched_bind untouched_request

lemma untouched_query:
  assumes "c_mode (s_config s) = Secondary_mode"
  shows "untouched (query_string T crc c) s"
proof -
  have "untouched (\<lambda>s. io_bind (io_res (tpl (template_parse c))) (\<lambda>t.
      io_bind (io_res (tpl (build a t))) (\<lambda>cmd. io_bind (request T crc cmd [RC_OK]) g)) s) s"
    for a and g :: "bytes \<Rightarrow> ('a session, string) io"
    by (intro untouched_intros assms)
  then show ?thesis by (simp add: untouched_def query_string_def)
qed

lemma untouched_read_page:
  assumes "c_mode (s_config s) = Secondary_mode" "page_size pcs i \<noteq> Some 0"
  shows "untouched (read_page T crc pcs i) s"
  unfolding read_page_def
proof (rule untouched_res)
  fix page assume "the_page pcs i = Inr page"
  with assms(2) obtain n where n: "pd_size page = Suc n"
    by (cases "pd_size page") (auto simp: page_size_def the_page_def ok_or_def split: option.splits)
  show "untouched (read_page_loop T crc pcs page (pd_size page) 0 []) s"
    by (simp add: n Let_def) (intro untouched_intros assms(1))
qed

text \<open>
  The secondary port is telemetry only: on a session in secondary mode every page
  command fails without writing or reading a single byte and leaves the session as it
  was (a page of size 0 needs no request to download).
\<close>

theorem secondary_is_telemetry_only:
  assumes "c_mode (s_config s) = Secondary_mode"
  shows "untouched (write_chunk T crc pcs i offset values) s \<and> untouched (page_crc T crc pcs i) s
    \<and> untouched (burn T crc pcs i) s \<and> untouched (query_string T crc c) s
    \<and> (page_size pcs i \<noteq> Some 0 \<longrightarrow> untouched (read_page T crc pcs i) s)"
proof (intro conjI impI)
  show "untouched (write_chunk T crc pcs i offset values) s" "untouched (page_crc T crc pcs i) s"
    "untouched (burn T crc pcs i) s"
    unfolding write_chunk_def page_crc_def burn_def by (intro untouched_intros assms)+
qed (simp_all add: untouched_query untouched_read_page assms)

definition demo_page :: page_def where
  "demo_page = \<lparr>pd_identifier = [0x31],
       pd_read = [Literal [0x70], PageId, Offset, Count],
       pd_chunk_write = [Literal [0x4D], PageId, Offset, Count, Value_part],
       pd_crc = [Literal [0x64], PageId], pd_burn = [Literal [0x62], PageId], pd_size = 4\<rparr>"

definition demo_pages_config :: pages_config where
  "demo_pages_config = \<lparr>pc_identifiers = [render [Literal [0x31]]],
     pc_page_read = [render (pd_read demo_page)], pc_chunk_write = [render (pd_chunk_write demo_page)],
     pc_crc_check = [render (pd_crc demo_page)], pc_burn = [render (pd_burn demo_page)],
     pc_sizes = [4], pc_blocking_factor = 3, pc_can_id = 0\<rparr>"

definition demo_pages :: page_commands where
  "demo_pages = \<lparr>pcm_pages = [demo_page], pcm_blocking_factor = 3, pcm_can_id = 0\<rparr>"

lemma demo_pages_new: "page_commands_new demo_pages_config = Inr demo_pages"
  by (simp add: demo_pages_config_def demo_pages_def demo_page_def page_commands_new_def
      page_def_new_def page_tpl_def list_get_def template_parse_rendered build_part_def)

theorem read_page_complete_witness:
  "\<exists>r s'. read_page mock_ops crc32_ieee demo_pages 0 demo_session = Ret (r, s')
    \<and> (\<forall>data. r = Inr data \<longrightarrow> page_size demo_pages 0 = Some (length data))"
  by (rule read_page_complete [OF mock_laws.transport_laws_axioms demo_pages_new])

theorem secondary_is_telemetry_only_witness:
  "untouched (burn mock_ops crc32_ieee demo_pages 0)
     (demo_session\<lparr>s_config := demo_config\<lparr>c_mode := Secondary_mode\<rparr>\<rparr>)"
  using secondary_is_telemetry_only
    [of "demo_session\<lparr>s_config := demo_config\<lparr>c_mode := Secondary_mode\<rparr>\<rparr>" mock_ops crc32_ieee demo_pages 0]
  by simp

end
