(* ===== verification/Msq_Frame.thy ===== *)
theory Msq_Frame
  imports Msq_Laws
begin

text \<open>
  The frame of \<open>apply\<close>: which bytes a tune file can change.
\<close>

subsection \<open>What apply touches\<close>

text \<open>The bytes of a constant, as pairs of page and index.\<close>

definition const_bytes :: "constant_def \<Rightarrow> (nat \<times> nat) set" where
  "const_bytes c =
     {(i, b). \<exists>off. location c = Some (i, off) \<and> off \<le> b \<and>
        b < off + (if cd_class c = Array_class
          then (case cd_shape c of None \<Rightarrow> 0 | Some s \<Rightarrow> element_count s) else 1) * ty_size (cd_ty c)}"

lemma set_constant_only:
  assumes "set_constant_impl d name v clamp t = Ret (Inr t1)" "tune_constant t name = Some c"
  shows "only_bytes (const_bytes c) t t1"
  using assms
  by (auto simp: set_constant_impl_def put_bits_def const_bytes_def run_simps
      elim!: write_page_only split: option.splits constant_class.splits shape.splits if_splits)

lemma set_element_only:
  assumes "set_array_element_impl d name k v clamp t = Ret (Inr t1)" "tune_constant t name = Some c"
  shows "only_bytes (const_bytes c) t t1"
proof -
  obtain i off raw where c: "cd_class c = Array_class" "location c = Some (i, off)"
      "k < (case cd_shape c of None \<Rightarrow> 0 | Some s \<Rightarrow> element_count s)"
    and w: "write_page i (off + k * ty_size (cd_ty c)) (cd_ty c) raw t = Ret (Inr t1)"
    using assms by (auto simp: set_array_element_impl_def Let_def run_simps split: if_splits option.splits)
  have "(k + 1) * ty_size (cd_ty c) \<le> (case cd_shape c of None \<Rightarrow> 0 | Some s \<Rightarrow> element_count s) * ty_size (cd_ty c)"
    using c(3) by (intro mult_le_mono1) simp
  then show ?thesis
    using c by (intro write_page_only [OF w]) (auto simp: const_bytes_def)
qed

lemma only_bytes_def_eq: "only_bytes R t t1 \<Longrightarrow> tune_constant t1 = tune_constant t"
  by (simp add: only_bytes_def tune_constant_def fun_eq_iff)

lemma set_elements_only:
  "set_elements d name i vs t = Ret (e, t1) \<Longrightarrow> tune_constant t name = Some c \<Longrightarrow> only_bytes (const_bytes c) t t1"
proof (induction vs arbitrary: i t)
  case (Cons v vs)
  then obtain r where r: "set_array_element_unclamped d name i v t = Ret r"
    by (auto simp: run_simps)
  show ?case
  proof (cases r)
    case (Inr t2)
    then have o: "only_bytes (const_bytes c) t t2"
      using r Cons.prems(2) by (auto simp: set_array_element_unclamped_def intro: set_element_only)
    with Cons Inr r have "only_bytes (const_bytes c) t2 t1" by (simp add: only_bytes_def_eq)
    with o show ?thesis by (rule only_bytes_trans)
  qed (use Cons r in simp)
qed simp

lemma keep_on_error_only:
  assumes "keep_on_error m t = Ret (e, t1)" "\<And>t2. m = Ret (Inr t2) \<Longrightarrow> only_bytes R t t2"
  shows "only_bytes R t t1"
proof -
  obtain r where r: "m = Ret r" using assms(1) by (auto simp: keep_on_error_def run_simps)
  show ?thesis using assms r by (cases r) (auto simp: keep_on_error_def)
qed

lemma apply_value_only:
  assumes "apply_value d name c v t = Ret (e, t1)" "tune_constant t name = Some c"
  shows "only_bytes (const_bytes c) t t1"
proof -
  have set: "only_bytes (const_bytes c) t t1"
    if "keep_on_error (set_constant_unclamped d name x t) t = Ret (e, t1)" for x
    using that assms(2)
    by (auto simp: set_constant_unclamped_def intro: keep_on_error_only set_constant_only)
  show ?thesis
    using assms set set_elements_only [of d name 0]
    by (cases "cd_class c"; cases v) (auto simp: apply_value_def split: option.splits if_splits)
qed

definition result_count :: "apply_report \<Rightarrow> nat" where
  "result_count r = ar_applied r + length (ar_skipped r)"

lemma count_simps [simp]:
  "result_count (report_result name e r) = result_count r + 1"
  "result_count (r\<lparr>ar_skipped := ar_skipped r @ [x]\<rparr>) = result_count r + 1"
  "result_count (r\<lparr>ar_applied := ar_applied r + 1\<rparr>) = result_count r + 1"
  by (simp_all add: result_count_def report_result_def split: option.split)

text \<open>The bytes of the file's selected constants.\<close>

definition file_bytes :: "string set option \<Rightarrow> (string \<times> msq_value) list \<Rightarrow> tune \<Rightarrow> (nat \<times> nat) set" where
  "file_bytes names nvs t =
     {p. \<exists>nv c. nv \<in> set nvs \<and> selected names (fst nv) \<and> tune_constant t (fst nv) = Some c \<and> p \<in> const_bytes c}"

lemma apply_constants:
  assumes "run_fold (apply_one d names) nvs (r, t) = Ret (r1, t1)"
  shows "only_bytes (file_bytes names nvs t) t t1 \<and>
    result_count r1 = result_count r + length (filter (selected names \<circ> fst) nvs)"
  using assms
proof (induction nvs arbitrary: r t)
  case (Cons nv nvs)
  obtain name v where nv: "nv = (name, v)" by (cases nv)
  obtain r2 t2 where s: "apply_one d names nv (r, t) = Ret (r2, t2)"
    "run_fold (apply_one d names) nvs (r2, t2) = Ret (r1, t1)"
    using Cons.prems by (auto simp: run_simps)
  have step: "only_bytes (file_bytes names (nv # nvs) t) t t2 \<and>
      result_count r2 = result_count r + (if selected names name then 1 else 0)"
  proof (cases "selected names name \<and> tune_constant t name \<noteq> None")
    case True
    then obtain c where c: "tune_constant t name = Some c" "selected names name" by auto
    then obtain e where e: "apply_value d name c v t = Ret (e, t2)" "r2 = report_result name e r"
      using s(1) nv by (auto simp: apply_one_def run_simps)
    have "const_bytes c \<subseteq> file_bytes names (nv # nvs) t" using c nv by (auto simp: file_bytes_def)
    with apply_value_only [OF e(1) c(1)] c(2) e(2) show ?thesis by (auto intro: only_bytes_mono)
  qed (use s(1) nv in \<open>auto simp: apply_one_def\<close>)
  then have "tune_constant t2 = tune_constant t" by (blast dest: only_bytes_def_eq)
  then have "file_bytes names nvs t2 \<subseteq> file_bytes names (nv # nvs) t" by (auto simp: file_bytes_def)
  with Cons.IH [OF s(2)] have "only_bytes (file_bytes names (nv # nvs) t) t2 t1"
    "result_count r1 = result_count r2 + length (filter (selected names \<circ> fst) nvs)"
    by (auto intro: only_bytes_mono simp: comp_def)
  with step nv show ?case by (auto intro: only_bytes_trans simp: comp_def)
qed simp

lemma apply_pcs:
  assumes "run_fold (apply_pc d names) nvs (r, t) = Ret (r1, t1)"
  shows "only_bytes R t t1 \<and> tn_pages t1 = tn_pages t \<and>
    result_count r \<le> result_count r1 \<and> result_count r1 \<le> result_count r + length nvs"
  using assms
proof (induction nvs arbitrary: r t)
  case (Cons nv nvs)
  obtain name v where nv: "nv = (name, v)" by (cases nv)
  obtain r2 t2 where s: "apply_pc d names nv (r, t) = Ret (r2, t2)"
    "run_fold (apply_pc d names) nvs (r2, t2) = Ret (r1, t1)"
    using Cons.prems by (auto simp: run_simps)
  have "only_bytes R t t2 \<and> tn_pages t2 = tn_pages t \<and> result_count r \<le> result_count r2 \<and>
      result_count r2 \<le> result_count r + 1"
  proof (cases "selected names name")
    case True
    with s(1) show ?thesis
      by (auto simp: apply_pc_def nv run_map_sum run_simps set_pc_value_def only_bytes_def result_count_def
          split: option.splits)
  qed (use s(1) nv in \<open>auto simp: apply_pc_def\<close>)
  with Cons.IH [OF s(2)] show ?case by (auto intro: only_bytes_trans)
qed simp

text \<open>
  C20. \<open>apply\<close> changes only bytes of the constants that are in the file, in the definition and
  selected; the ECU and burned copies, the page sizes and the definition stay as they are;
  and every selected constant is counted as applied or listed as skipped.
\<close>

theorem apply_only_selected:
  assumes "msq_apply d file names t = Ret (r, t1)"
  shows "only_bytes (file_bytes names (mf_constants file) t) t t1 \<and>
    length (filter (selected names \<circ> fst) (mf_constants file)) \<le> ar_applied r + length (ar_skipped r) \<and>
    ar_applied r + length (ar_skipped r)
      \<le> length (filter (selected names \<circ> fst) (mf_constants file)) + length (mf_pc_variables file)"
proof -
  obtain r2 t2 where s: "run_fold (apply_one d names) (mf_constants file) (apply_report_default, t) = Ret (r2, t2)"
    "run_fold (apply_pc d names) (mf_pc_variables file) (r2, t2) = Ret (r, t1)"
    using assms by (auto simp: msq_apply_def run_simps)
  have "result_count apply_report_default = 0" by (simp add: result_count_def apply_report_default_def)
  with apply_constants [OF s(1)] apply_pcs [OF s(2)] show ?thesis
    by (auto simp: result_count_def intro: only_bytes_trans)
qed

definition sample_msq :: "msq_value \<Rightarrow> msq_file" where
  "sample_msq v = msq_file_default\<lparr>mf_constants := [(''a'', v)]\<rparr>"

lemma sample_tune_a: "tune_constant (sample_tune e) ''a'' = Some (sample_const ''a'' e 0)"
  by (simp add: tune_constant_def sample_tune_def im_get_def)

theorem apply_only_selected_witness:
  "\<exists>r t1. msq_apply 2 (sample_msq (Msq_num (Fin 9))) None (sample_tune (Num_lit fone)) = Ret (r, t1) \<and>
    ar_applied r + length (ar_skipped r) = 1"
proof -
  let ?t = "sample_tune (Num_lit fone)" and ?c = "sample_const ''a'' (Num_lit fone) 0"
  have "\<exists>t1. set_constant_unclamped 2 ''a'' (Fin 9) ?t = Ret (Inr t1)"
    by (simp add: set_constant_unclamped_def set_constant_impl_def sample_tune_a encode_impl_def
        write_page_def sample_const_def location_def) (simp add: sample_tune_def)
  then obtain t1 where t1: "set_constant_unclamped 2 ''a'' (Fin 9) ?t = Ret (Inr t1)" by blast
  have "cd_class ?c = Scalar" by (simp add: sample_const_def)
  then have "\<exists>r. msq_apply 2 (sample_msq (Msq_num (Fin 9))) None ?t = Ret (r, t1)"
    by (simp add: msq_apply_def sample_msq_def msq_file_default_def apply_one_def selected_def
        sample_tune_a apply_value_def keep_on_error_def t1)
  then obtain r where r: "msq_apply 2 (sample_msq (Msq_num (Fin 9))) None ?t = Ret (r, t1)" by blast
  have "selected None = (\<lambda>n. True)" by (simp add: selected_def fun_eq_iff)
  with apply_only_selected [OF r] r show ?thesis
    by (auto simp: sample_msq_def msq_file_default_def)
qed

end
