(* ===== verification/Comms_Tune.thy ===== *)
theory Comms_Tune
  imports Pages Msq_Frame
begin

text \<open>
  The tune side of the comms thread: \<open>download_tune\<close>, \<open>flush_dirty\<close> and \<open>do_burn\<close> of
  \<open>server/src/comms.rs\<close>, and its status record.

  The tune sits behind a mutex that the request handlers take as well.  Every
  \<open>ctx.tune.lock()\<close> is a point where they may have changed it since the last one:
  \<open>cw_edits\<close> holds, for each coming lock in turn, what the others did (nothing when the
  list is exhausted), and \<open>locked\<close> applies the next one.  A handler edits local data and PC
  variables (\<open>handler_edit\<close>).  A mutex poisoned by a panicking handler is not modelled.
\<close>

subsection \<open>Status and events\<close>

record log_status =
  ls_path :: string
  ls_rows :: nat

record status =
  st_connected :: bool
  st_port :: "string option"
  st_mode :: "string option"
  st_baud :: "nat option"
  st_frames :: nat
  st_crc_errors :: nat
  st_timeouts :: nat
  st_ecu_signature :: "string option"
  st_tune_loaded :: bool
  st_offline :: bool
  st_last_error :: "string option"
  st_log :: "log_status option"

definition status_default :: status where
  "status_default = \<lparr>st_connected = False, st_port = None, st_mode = None, st_baud = None, st_frames = 0,
     st_crc_errors = 0, st_timeouts = 0, st_ecu_signature = None, st_tune_loaded = False,
     st_offline = False, st_last_error = None, st_log = None\<rparr>"

record log_summary =
  lsm_path :: string
  lsm_rows :: nat

text \<open>A telemetry frame for the clients; channels in the definition's order.\<close>

record frame =
  fr_t :: f64
  fr_channels :: "(string \<times> val) list"
  fr_indicators :: "bool list"
  fr_log_rows :: "nat option"

text \<open>
  What the thread sends: broadcasts to the clients, before they are turned into JSON, and the
  replies to its commands, in the order they are sent.
\<close>

datatype comms_event =
    Ev_status status
  | Ev_tune bool bool bool
  | Ev_frame frame
  | Rp_start_log "string + string"
  | Rp_stop_log "log_summary option"
  | Rp_burn "string + nat list"
  | Rp_calibration "string + u32"

definition tune_message :: "tune \<Rightarrow> comms_event" where
  "tune_message t = Ev_tune (tn_loaded t) (any_dirty t) (burn_pending t)"

text \<open>\<open>Display\<close> of \<open>ProtoError\<close>; the text of an operating system error is a parameter.\<close>

definition show_proto_error :: "(io_error \<Rightarrow> string) \<Rightarrow> proto_error \<Rightarrow> string" where
  "show_proto_error show_io e =
     (case e of
        Io i \<Rightarrow> ''io: '' @ show_io i
      | Template m \<Rightarrow> ''bad command template: '' @ m
      | CrcMismatch \<Rightarrow> ''response CRC mismatch''
      | EcuError c \<Rightarrow> ''ECU returned error code 0x'' @ [hex_digit (unat c div 16), hex_digit (unat c mod 16)]
      | Timeout \<Rightarrow> ''no response from ECU''
      | ShortResponse n k \<Rightarrow> ''short response: expected '' @ show_nat n @ '' bytes, got '' @ show_nat k
      | Unsupported m \<Rightarrow> m)"

subsection \<open>The page commands as an interface\<close>

text \<open>
  What the comms thread uses of \<open>PageCommands\<close> on its session, over any session state.
  \<open>session_pages\<close> is the one of the code.
\<close>

record 's page_ops =
  po_count :: nat
  po_blocking_factor :: nat
  po_read :: "nat \<Rightarrow> ('s, bytes) io"
  po_write :: "nat \<Rightarrow> nat \<Rightarrow> bytes \<Rightarrow> ('s, unit) io"
  po_crc :: "nat \<Rightarrow> ('s, u32) io"
  po_burn :: "nat \<Rightarrow> ('s, unit) io"

definition session_pages ::
    "'t transport_ops \<Rightarrow> (bytes \<Rightarrow> u32) \<Rightarrow> page_commands \<Rightarrow> 't session page_ops" where
  "session_pages T crc pcs =
     \<lparr>po_count = page_count pcs, po_blocking_factor = pcm_blocking_factor pcs,
      po_read = read_page T crc pcs, po_write = write_chunk T crc pcs,
      po_crc = page_crc T crc pcs, po_burn = burn T crc pcs\<rparr>"

text \<open>\<open>page_commands\<close>: the commands of a definition.\<close>

definition comms_page_commands :: "ini_def \<Rightarrow> proto_error + page_commands" where
  "comms_page_commands def =
     (let h = i_header def
      in page_commands_new
        \<lparr>pc_identifiers = h_page_identifiers h, pc_page_read = h_page_read_command h,
         pc_chunk_write = h_page_chunk_write h, pc_crc_check = h_crc32_check_command h,
         pc_burn = h_burn_command h, pc_sizes = h_page_sizes h,
         pc_blocking_factor = or_val 251 (h_blocking_factor h) mod 2 ^ 16, pc_can_id = 0\<rparr>)"

subsection \<open>The world of the comms thread\<close>

record 's comms =
  cw_session :: 's
  cw_tune :: tune
  cw_status :: status
  cw_events :: "comms_event list"
  cw_edits :: "(tune \<Rightarrow> tune) list"

definition locked :: "'s comms \<Rightarrow> 's comms" where
  "locked w =
     (case cw_edits w of
        [] \<Rightarrow> w
      | e # es \<Rightarrow> w\<lparr>cw_tune := e (cw_tune w), cw_edits := es\<rparr>)"

definition handler_edit :: "(tune \<Rightarrow> tune) \<Rightarrow> bool" where
  "handler_edit e \<longleftrightarrow> (\<forall>t. only_bytes UNIV t (e t))"

definition in_session :: "('s, 'a) io \<Rightarrow> ('s comms, 'a) io" where
  "in_session m w =
     (case m (cw_session w) of
        Crash c \<Rightarrow> Crash c
      | Ret (r, s) \<Rightarrow> Ret (r, w\<lparr>cw_session := s\<rparr>))"

definition set_error :: "string \<Rightarrow> 's comms \<Rightarrow> 's comms" where
  "set_error msg w = w\<lparr>cw_status := (cw_status w)\<lparr>st_last_error := Some msg\<rparr>\<rparr>"

definition broadcast_status :: "'s comms \<Rightarrow> 's comms" where
  "broadcast_status w = w\<lparr>cw_events := cw_events w @ [Ev_status (cw_status w)]\<rparr>"

definition broadcast_tune :: "'s comms \<Rightarrow> 's comms" where
  "broadcast_tune w =
     (let w1 = locked w in w1\<lparr>cw_events := cw_events w1 @ [tune_message (cw_tune w1)]\<rparr>)"

definition upd_tune :: "(tune \<Rightarrow> tune) \<Rightarrow> 's comms \<Rightarrow> 's comms" where
  "upd_tune f w = (let w1 = locked w in w1\<lparr>cw_tune := f (cw_tune w1)\<rparr>)"

subsection \<open>Download\<close>

text \<open>At most two attempts per page.\<close>

function download_page ::
    "'s page_ops \<Rightarrow> (bytes \<Rightarrow> u32) \<Rightarrow> nat \<Rightarrow> nat \<Rightarrow> ('s comms, unit) io" where
  "download_page P crc i attempt =
     io_bind (in_session (po_read P i)) (\<lambda>bytes.
     io_bind (in_session (po_crc P i)) (\<lambda>ecu_crc.
       if ecu_crc = crc bytes then (\<lambda>w. Ret (Inr (), upd_tune (load_page i bytes) w))
       else if 2 \<le> attempt + 1 then io_fail (ShortResponse (unat ecu_crc) (unat (crc bytes)))
       else download_page P crc i (attempt + 1)))"
  by pat_completeness auto
termination by (relation "measure (\<lambda>(P, crc, i, attempt). 2 - attempt)") auto

declare download_page.simps [simp del]

definition download_tune ::
    "'s page_ops \<Rightarrow> (bytes \<Rightarrow> u32) \<Rightarrow> ('s comms, unit) io" where
  "download_tune P crc = io_each (\<lambda>i. download_page P crc i 0) [0 ..< po_count P]"

subsection \<open>Flush\<close>

definition SPAN_MERGE_GAP :: nat where "SPAN_MERGE_GAP = 4"

text \<open>The chunks of a page's spans with their offsets, in the order they are written.\<close>

definition span_chunks :: "nat \<Rightarrow> (nat \<times> bytes) list \<Rightarrow> (nat \<times> bytes) list" where
  "span_chunks bf spans =
     concat (map (\<lambda>(off, bs). map (\<lambda>(k, c). (off + k * bf, c)) (enumerate 0 (chunks bf bs))) spans)"

text \<open>The result says whether the flush goes on.\<close>

fun flush_chunks ::
    "'s page_ops \<Rightarrow> (bytes \<Rightarrow> u32) \<Rightarrow> (io_error \<Rightarrow> string) \<Rightarrow> nat \<Rightarrow> (nat \<times> bytes) list
      \<Rightarrow> 's comms \<Rightarrow> (bool \<times> 's comms) run" where
  "flush_chunks P crc show_io i [] w = Ret (True, w)"
| "flush_chunks P crc show_io i ((off, chunk) # r) w =
     (case in_session (po_write P i (off mod 2 ^ 16) chunk) w of
        Crash c \<Rightarrow> Crash c
      | Ret (Inr u, w1) \<Rightarrow>
          (let w2 = locked w1
           in run_bind (mark_sent i off (length chunk) (cw_tune w2)) (\<lambda>t.
                flush_chunks P crc show_io i r (w2\<lparr>cw_tune := t\<rparr>)))
      | Ret (Inl e, w1) \<Rightarrow>
          Ret (False, broadcast_status (set_error
            (''write to page '' @ show_nat (i + 1) @ '' failed: '' @ show_proto_error show_io e) w1)))"

text \<open>The page checksum must match the shadow, or the shadow is read back.\<close>

definition verify_page ::
    "'s page_ops \<Rightarrow> (bytes \<Rightarrow> u32) \<Rightarrow> nat \<Rightarrow> 's comms \<Rightarrow> 's comms run" where
  "verify_page P crc i w =
     (let w1 = locked w
      in case tune_page (cw_tune w1) i of
           None \<Rightarrow> Crash Panic
         | Some p \<Rightarrow>
             run_bind (in_session (po_crc P i) w1) (\<lambda>(r, w2).
               case r of
                 Inl e \<Rightarrow> Ret w2
               | Inr c \<Rightarrow>
                   if c = crc (pg_ecu p) then Ret w2
                   else
                     run_map (\<lambda>(bytes, w3). broadcast_status (set_error
                         (''page '' @ show_nat (i + 1) @ '' write verification failed; resynced from ECU'')
                         (case bytes of Inr bs \<Rightarrow> upd_tune (resync_ecu i bs) w3 | Inl e \<Rightarrow> w3)))
                       (in_session (po_read P i) w2)))"

definition flush_page ::
    "'s page_ops \<Rightarrow> (bytes \<Rightarrow> u32) \<Rightarrow> (io_error \<Rightarrow> string) \<Rightarrow> nat
      \<Rightarrow> 's comms \<Rightarrow> (bool \<times> 's comms) run" where
  "flush_page P crc show_io i w =
     (let w1 = locked w
      in run_bind (flush_chunks P crc show_io i
             (span_chunks (po_blocking_factor P) (dirty_spans (cw_tune w1) i SPAN_MERGE_GAP)) w1)
           (\<lambda>(go, w2). if go then run_map (Pair True) (verify_page P crc i w2) else Ret (False, w2)))"

fun flush_pages ::
    "'s page_ops \<Rightarrow> (bytes \<Rightarrow> u32) \<Rightarrow> (io_error \<Rightarrow> string) \<Rightarrow> nat list
      \<Rightarrow> 's comms \<Rightarrow> 's comms run" where
  "flush_pages P crc show_io [] w = Ret (broadcast_tune w)"
| "flush_pages P crc show_io (i # is) w =
     run_bind (flush_page P crc show_io i w) (\<lambda>(go, w1).
       if go then flush_pages P crc show_io is w1 else Ret w1)"

definition flush_dirty ::
    "'s page_ops \<Rightarrow> (bytes \<Rightarrow> u32) \<Rightarrow> (io_error \<Rightarrow> string) \<Rightarrow> 's comms \<Rightarrow> 's comms run" where
  "flush_dirty P crc show_io w =
     (let w1 = locked w
      in if \<not> tn_loaded (cw_tune w1) then Ret w1
         else
           (let w2 = locked w1;
                dirty = filter (page_dirty (cw_tune w2)) [0 ..< tune_page_count (cw_tune w2)]
            in if dirty = [] then Ret w2 else flush_pages P crc show_io dirty w2))"

subsection \<open>Burn\<close>

fun burn_pages ::
    "'s page_ops \<Rightarrow> (bytes \<Rightarrow> u32) \<Rightarrow> (io_error \<Rightarrow> string) \<Rightarrow> nat list \<Rightarrow> nat list
      \<Rightarrow> 's comms \<Rightarrow> ((string + nat list) \<times> 's comms) run" where
  "burn_pages P crc show_io [] burned w = Ret (Inr burned, w)"
| "burn_pages P crc show_io (i # is) burned w =
     run_bind (in_session (po_burn P i) w) (\<lambda>(r, w1).
       case r of
         Inl e \<Rightarrow> Ret (Inl (''burn page '' @ show_nat (i + 1) @ '' failed: '' @ show_proto_error show_io e), w1)
       | Inr u \<Rightarrow> burn_pages P crc show_io is (burned @ [i]) (upd_tune (mark_burned i) w1))"

definition do_burn ::
    "'s page_ops option \<Rightarrow> (bytes \<Rightarrow> u32) \<Rightarrow> (io_error \<Rightarrow> string)
      \<Rightarrow> 's comms \<Rightarrow> ((string + nat list) \<times> 's comms) run" where
  "do_burn pages crc show_io w =
     (case pages of
        None \<Rightarrow> Ret (Inl ''tuning requires the primary (USB) serial'', w)
      | Some P \<Rightarrow>
          (let w1 = locked w
           in if \<not> tn_loaded (cw_tune w1) then Ret (Inl ''tune not loaded'', w1)
              else
                run_bind (flush_dirty P crc show_io w1) (\<lambda>w2.
                  let w3 = locked w2;
                      pending = filter (page_burn_pending (cw_tune w3)) [0 ..< tune_page_count (cw_tune w3)]
                  in burn_pages P crc show_io pending [] w3)))"

end
