(* ===== verification/Comms_Laws.thy ===== *)
theory Comms_Laws
  imports Comms_Tune
begin

text \<open>
  What the flush, the burn and the download of \<open>Comms_Tune\<close> guarantee, whatever the request
  handlers do to the tune in the meantime.

  \<open>page_port\<close> is the interface they rely on: page commands that return (with a result or
  a protocol error) and downloads of whole pages.  The page commands of a session satisfy
  it over any transport (\<open>paged_session\<close>).
\<close>

named_theorems world_intros \<open>steps that keep the comms world in order\<close>

subsection \<open>The interface\<close>

locale page_port =
  fixes P :: "'s page_ops" and sizes :: "nat list"
  assumes blocking_pos: "0 < po_blocking_factor P"
    and read_returns: "returns (po_read P i s)"
    and write_returns: "returns (po_write P i off bs s)"
    and crc_returns: "returns (po_crc P i s)"
    and burn_returns: "returns (po_burn P i s)"
    and read_size: "po_read P i s = Ret (Inr bs, s') \<Longrightarrow> list_get sizes i = Some (length bs)"

locale paged_session = transport_laws T for T :: "'t transport_ops" +
  fixes crc :: "bytes \<Rightarrow> u32" and cfg :: pages_config and pcs :: page_commands
  assumes commands: "page_commands_new cfg = Inr pcs"

lemma keeps_returns: "keeps (\<lambda>_. True) m \<Longrightarrow> returns (m s)"
  by (auto simp: keeps_def returns_iff)

lemma keeps_weaken: "(\<And>x. keeps (\<lambda>s. s_config s = fst x \<and> s_och_get s = snd x) m) \<Longrightarrow> keeps (\<lambda>_. True) m"
  unfolding keeps_def by (metis fst_conv snd_conv)

context paged_session
begin

lemma request_keeps [keeps_intros]: "keeps (\<lambda>_. True) (request T crc payload ok)"
  by (rule keeps_weaken) (rule keeps_request)

lemma be32_keeps [keeps_intros]: "keeps (\<lambda>_. True) (be32_of_answer data)"
  by (auto simp: be32_of_answer_def split: list.splits intro!: keeps_intros)

lemma commands_return:
  "returns (write_chunk T crc pcs i off bs s)" "returns (page_crc T crc pcs i s)" "returns (burn T crc pcs i s)"
  unfolding write_chunk_def page_crc_def burn_def by (intro keeps_returns keeps_intros)+

lemma read_page_size:
  "\<exists>r s'. read_page T crc pcs i s = Ret (r, s') \<and>
    (\<forall>data. r = Inr data \<longrightarrow> list_get (pc_sizes cfg) i = Some (length data))"
proof -
  note sizes = page_commands_new_ok(1) [OF commands]
  then have "length (pc_sizes cfg) = length (pcm_pages pcs)"
    by (metis length_map)
  then show ?thesis
    using read_page_complete [OF transport_laws_axioms commands, of crc i s]
    by (auto simp: page_size_def list_get_eq_Some simp flip: sizes)
qed

end

sublocale paged_session \<subseteq> page_port "session_pages T crc pcs" "pc_sizes cfg"
proof unfold_locales
  show "0 < po_blocking_factor (session_pages T crc pcs)"
    using page_commands_new_ok(2) [OF commands] by (simp add: session_pages_def)
  fix i s
  show "returns (po_read (session_pages T crc pcs) i s)"
    using read_page_size [of i s] by (auto simp: session_pages_def)
next
  fix i s bs s'
  assume "po_read (session_pages T crc pcs) i s = Ret (Inr bs, s')"
  then show "list_get (pc_sizes cfg) i = Some (length bs)"
    using read_page_size [of i s] by (simp add: session_pages_def)
qed (simp_all add: session_pages_def commands_return)

context paged_session
begin

lemma as_port: "page_port (session_pages T crc pcs) (pc_sizes cfg)"
  by (rule page_port_axioms)

end

interpretation demo_paged: paged_session mock_ops crc32_ieee demo_pages_config demo_pages
  by unfold_locales (rule demo_pages_new)

subsection \<open>The world in order\<close>

definition world_ok :: "ini_def \<Rightarrow> 's comms \<Rightarrow> bool" where
  "world_ok def w \<longleftrightarrow> tune_ok def (cw_tune w) \<and> (\<forall>e\<in>set (cw_edits w). handler_edit e)"

lemma only_bytes_ok:
  assumes "only_bytes R t t1" "tune_ok def t"
  shows "tune_ok def t1"
proof -
  have "same_but_data t (t1\<lparr>tn_pc := tn_pc t\<rparr>)"
    using assms(1) by (simp add: only_bytes_def same_but_data_def)
  from same_but_data_ok [OF this assms(2)] show ?thesis by (simp add: tune_ok_def)
qed

lemma locked_ok [world_intros]: "world_ok def w \<Longrightarrow> world_ok def (locked w)"
  by (cases "cw_edits w") (auto simp: world_ok_def locked_def handler_edit_def intro: only_bytes_ok [where R = UNIV])

lemma world_ok_upd [simp]:
  "world_ok def (w\<lparr>cw_session := s\<rparr>) = world_ok def w" "world_ok def (w\<lparr>cw_events := ev\<rparr>) = world_ok def w"
  "world_ok def (w\<lparr>cw_status := st\<rparr>) = world_ok def w"
  "world_ok def (set_error msg w) = world_ok def w" "world_ok def (broadcast_status w) = world_ok def w"
  by (simp_all add: world_ok_def set_error_def broadcast_status_def)

lemma world_ok_tune: "world_ok def w \<Longrightarrow> tune_ok def t \<Longrightarrow> world_ok def (w\<lparr>cw_tune := t\<rparr>)"
  by (simp add: world_ok_def)

lemma broadcast_tune_ok [world_intros]: "world_ok def w \<Longrightarrow> world_ok def (broadcast_tune w)"
  by (simp add: broadcast_tune_def Let_def locked_ok)

lemma upd_tune_ok:
  assumes "world_ok def w" "\<And>t. tune_ok def t \<Longrightarrow> tune_step t (f t)"
  shows "world_ok def (upd_tune f w)"
proof -
  have "world_ok def (locked w)" using assms(1) by (rule locked_ok)
  then show ?thesis
    unfolding upd_tune_def Let_def
    by (intro world_ok_tune) (auto simp: world_ok_def intro: assms(2) tune_step_ok)
qed

text \<open>\<open>safely\<close>: returns, and the world is in order afterwards.\<close>

definition safely :: "ini_def \<Rightarrow> ('a \<times> 's comms) run \<Rightarrow> bool" where
  "safely def m \<longleftrightarrow> (\<exists>x w. m = Ret (x, w) \<and> world_ok def w)"

lemma safely_Ret [simp]: "safely def (Ret (x, w)) = world_ok def w"
  by (simp add: safely_def)

lemma safely_bind:
  "safely def m \<Longrightarrow> (\<And>x w. m = Ret (x, w) \<Longrightarrow> world_ok def w \<Longrightarrow> safely def (f (x, w))) \<Longrightarrow> safely def (run_bind m f)"
  by (auto simp: safely_def)

lemma safely_map: "safely def m \<Longrightarrow> safely def (run_map (Pair y) (run_map snd m))"
  by (auto simp: safely_def)

lemma in_session_ok: "(\<And>s. returns (m s)) \<Longrightarrow> world_ok def w \<Longrightarrow> safely def (in_session m w)"
  by (drule meta_spec [of _ "cw_session w"]) (auto simp: safely_def in_session_def returns_iff)

lemma safelyE:
  assumes "safely def m"
  obtains x w where "m = Ret (x, w)" "world_ok def w"
  using assms by (auto simp: safely_def)

lemma in_sessionE:
  assumes "returns (m (cw_session w))" "world_ok def w"
  obtains r w1 where "in_session m w = Ret (r, w1)" "world_ok def w1"
  using assms by (auto simp: in_session_def returns_iff)

lemma in_session_Ret:
  "in_session m w = Ret (r, w1) \<longleftrightarrow> (\<exists>s. m (cw_session w) = Ret (r, s) \<and> w1 = w\<lparr>cw_session := s\<rparr>)"
  by (auto simp: in_session_def split: run.splits prod.splits)

text \<open>The edits the request handlers make are such edits; a rejected one changes nothing.\<close>

definition applied :: "(tune \<Rightarrow> (tune_error + tune) run) \<Rightarrow> tune \<Rightarrow> tune" where
  "applied m t = (case m t of Ret (Inr t1) \<Rightarrow> t1 | _ \<Rightarrow> t)"

lemma same_but_data_only: "same_but_data t t1 \<Longrightarrow> only_bytes UNIV t t1"
  by (simp add: same_but_data_def only_bytes_def)

lemma applied_edit:
  assumes "\<And>t t1. m t = Ret (Inr t1) \<Longrightarrow> only_bytes UNIV t t1"
  shows "handler_edit (applied m)"
  unfolding handler_edit_def
proof
  fix t
  show "only_bytes UNIV t (applied m t)"
  proof (cases "m t")
    case (Ret r)
    then show ?thesis using assms by (cases r) (auto simp: applied_def)
  qed (simp add: applied_def)
qed

lemma handler_edits:
  "handler_edit (applied (set_constant_impl d name v clamp))"
  "handler_edit (applied (set_array_element_impl d name k v clamp))"
  "handler_edit (applied (set_table_axis d ident ax k v))"
  "handler_edit (applied (set_table_cell d ident row col v))"
  by (auto intro!: applied_edit same_but_data_only
      dest: set_constant_frame set_element_frame set_table_frame)

lemma handler_pc_edit: "handler_edit (applied (set_pc_value d name v))"
  by (rule applied_edit) (auto simp: set_pc_value_def run_simps only_bytes_def split: option.splits)

lemma handler_id: "handler_edit (\<lambda>t. t)"
  by (simp add: handler_edit_def)

subsection \<open>Nothing crashes\<close>

lemma mark_sent_ok:
  assumes "tune_ok def t"
  obtains t1 where "mark_sent i off n t = Ret t1" "tune_ok def t1"
proof -
  have "length (pg_ecu p) = length (pg_data p)" if "tune_page t i = Some p" for p
    using that assms
    by (auto simp: tune_page_def list_get_eq_Some tune_ok_def list_all2_conv_all_nth page_sized_def)
  then have "returns (mark_sent i off n t)" by (auto simp: mark_sent_def split: option.splits)
  then obtain t1 where t1: "mark_sent i off n t = Ret t1" by (auto simp: returns_iff)
  show thesis by (rule that [OF t1 tune_step_ok [OF tune_step.sent [OF t1] assms]])
qed

lemma fits_sizes:
  "tune_ok def t \<Longrightarrow> list_get (h_page_sizes (i_header def)) i = Some (length bs) \<Longrightarrow> fits t i bs"
  by (simp add: fits_def tune_ok_def)

context page_port
begin

lemma flush_chunks_safe: "world_ok def w \<Longrightarrow> safely def (flush_chunks P crc show_io i cs w)"
proof (induction cs arbitrary: w)
  case (Cons c cs)
  obtain off chunk where c: "c = (off, chunk)" by (cases c)
  obtain r w1 where w1: "in_session (po_write P i (off mod 2 ^ 16) chunk) w = Ret (r, w1)" "world_ok def w1"
    using write_returns Cons.prems by (rule in_sessionE)
  show ?case
  proof (cases r)
    case (Inr u)
    have l: "world_ok def (locked w1)" using w1(2) by (rule locked_ok)
    then have "tune_ok def (cw_tune (locked w1))" by (simp add: world_ok_def)
    then obtain t where "mark_sent i off (length chunk) (cw_tune (locked w1)) = Ret t" "tune_ok def t"
      by (rule mark_sent_ok)
    with w1(1) Inr Cons.IH [OF world_ok_tune [OF l]] show ?thesis by (simp add: c Let_def)
  qed (use w1 in \<open>simp add: c\<close>)
qed simp

lemma verify_page_safe:
  assumes "world_ok def w" "i < length sizes" "sizes = h_page_sizes (i_header def)"
  shows "\<exists>w1. verify_page P crc i w = Ret w1 \<and> world_ok def w1"
proof -
  have l: "world_ok def (locked w)" using assms(1) by (rule locked_ok)
  then have "i < length (tn_pages (cw_tune (locked w)))"
    using assms(2,3) by (auto simp: world_ok_def tune_ok_def dest: list_all2_lengthD)
  then obtain p where p: "tune_page (cw_tune (locked w)) i = Some p" by (simp add: tune_page_def)
  obtain r w2 where w2: "in_session (po_crc P i) (locked w) = Ret (r, w2)" "world_ok def w2"
    using crc_returns l by (rule in_sessionE)
  obtain b w3 where w3: "in_session (po_read P i) w2 = Ret (b, w3)" "world_ok def w3"
    using read_returns w2(2) by (rule in_sessionE)
  have "world_ok def (case b of Inr bs \<Rightarrow> upd_tune (resync_ecu i bs) w3 | Inl e \<Rightarrow> w3)"
  proof (cases b)
    case (Inr bs)
    have "list_get (h_page_sizes (i_header def)) i = Some (length bs)"
      using w3(1) read_size unfolding Inr in_session_Ret assms(3) by blast
    then have "world_ok def (upd_tune (resync_ecu i bs) w3)"
      by (intro upd_tune_ok w3(2) tune_step.resync fits_sizes)
    with Inr show ?thesis by simp
  qed (use w3(2) in simp)
  with w2 w3(1) p show ?thesis by (cases r) (auto simp: verify_page_def Let_def)
qed

lemma flush_page_safe:
  assumes "world_ok def w" "i < length sizes" "sizes = h_page_sizes (i_header def)"
  shows "safely def (flush_page P crc show_io i w)"
proof -
  obtain go w2 where w2: "flush_chunks P crc show_io i
      (span_chunks (po_blocking_factor P) (dirty_spans (cw_tune (locked w)) i SPAN_MERGE_GAP)) (locked w)
        = Ret (go, w2)" "world_ok def w2"
    by (rule safelyE [OF flush_chunks_safe [OF locked_ok [OF assms(1)]]])
  with verify_page_safe [OF w2(2) assms(2,3), of crc] show ?thesis
    by (auto simp: flush_page_def Let_def)
qed

lemma flush_pages_safe:
  assumes "world_ok def w" "\<forall>i\<in>set is. i < length sizes" "sizes = h_page_sizes (i_header def)"
  shows "\<exists>w1. flush_pages P crc show_io is w = Ret w1 \<and> world_ok def w1"
  using assms(1,2)
proof (induction "is" arbitrary: w)
  case (Cons i "is")
  then have "i < length sizes" by simp
  then obtain go w1 where "flush_page P crc show_io i w = Ret (go, w1)" "world_ok def w1"
    using flush_page_safe [OF Cons.prems(1) _ assms(3)] by (blast elim: safelyE)
  with Cons show ?case by simp
qed (simp add: broadcast_tune_ok)

lemma flush_dirty_safe:
  assumes "world_ok def w" "sizes = h_page_sizes (i_header def)"
  shows "\<exists>w1. flush_dirty P crc show_io w = Ret w1 \<and> world_ok def w1"
proof -
  have ok: "world_ok def (locked w)" "world_ok def (locked (locked w))" by (intro locked_ok assms(1))+
  have "\<forall>i\<in>set (filter (page_dirty t) [0 ..< tune_page_count t]). i < length sizes" if "tune_ok def t" for t
    using that assms(2) by (auto simp: tune_ok_def tune_page_count_def dest: list_all2_lengthD)
  with flush_pages_safe [OF ok(2) _ assms(2)] ok show ?thesis
    by (auto simp: flush_dirty_def Let_def world_ok_def)
qed

lemma burn_pages_safe:
  "world_ok def w \<Longrightarrow> safely def (burn_pages P crc show_io is burned w)"
proof (induction "is" arbitrary: burned w)
  case (Cons i "is")
  obtain r w1 where w1: "in_session (po_burn P i) w = Ret (r, w1)" "world_ok def w1"
    using burn_returns Cons.prems by (rule in_sessionE)
  have "world_ok def (upd_tune (mark_burned i) w1)" by (intro upd_tune_ok w1(2) tune_step.burned)
  with w1 Cons.IH show ?case by (cases r) auto
qed simp

lemma do_burn_safe:
  assumes "world_ok def w" "sizes = h_page_sizes (i_header def)"
  shows "safely def (do_burn (Some P) crc show_io w)"
proof -
  have l: "world_ok def (locked w)" using assms(1) by (rule locked_ok)
  then obtain w2 where "flush_dirty P crc show_io (locked w) = Ret w2" "world_ok def w2"
    using flush_dirty_safe [OF l assms(2)] by blast
  with l burn_pages_safe [OF locked_ok] show ?thesis by (auto simp: do_burn_def Let_def)
qed

lemma load_read_ok:
  assumes "po_read P i s = Ret (Inr bs, s1)" "world_ok def w" "sizes = h_page_sizes (i_header def)"
  shows "world_ok def (upd_tune (load_page i bs) w)"
  using read_size [OF assms(1)] assms(3)
  by (intro upd_tune_ok assms(2) tune_step.load fits_sizes) auto

lemma download_page_safe:
  assumes "world_ok def w" "sizes = h_page_sizes (i_header def)"
  shows "safely def (download_page P crc i n w)"
  using assms(1)
proof (induction "2 - n" arbitrary: n w rule: less_induct)
  case less
  obtain r w1 where w1: "in_session (po_read P i) w = Ret (r, w1)" "world_ok def w1"
    using read_returns less.prems by (rule in_sessionE)
  obtain c w2 where w2: "in_session (po_crc P i) w1 = Ret (c, w2)" "world_ok def w2"
    using crc_returns w1(2) by (rule in_sessionE)
  have load: "world_ok def (upd_tune (load_page i bs) w2)" if "r = Inr bs" for bs
    using w1(1) w2(2) assms(2) that by (auto simp: in_session_Ret intro: load_read_ok)
  have retry: "safely def (download_page P crc i (n + 1) w2)" if "\<not> 2 \<le> n + 1"
    using that by (intro less.hyps w2(2)) auto
  show ?case
    using w1 w2 load retry
    by (cases r; cases c) (auto simp: download_page.simps [of P crc i n] io_bind_def io_fail_def)
qed

lemma download_tune_safe:
  assumes "world_ok def w" "sizes = h_page_sizes (i_header def)"
  shows "safely def (download_tune P crc w)"
proof -
  have "keeps (world_ok def) (download_page P crc i 0)" for i
    using download_page_safe [OF _ assms(2)] by (fastforce simp: keeps_def safely_def)
  then have "keeps (world_ok def) (download_tune P crc)"
    unfolding download_tune_def by (intro keeps_intros)
  then show ?thesis using assms(1) by (auto simp: keeps_def safely_def)
qed

end

lemma commands_paged:
  assumes "transport_laws T" "comms_page_commands def = Inr pcs"
  shows "page_port (session_pages T crc pcs) (h_page_sizes (i_header def))"
proof -
  obtain cfg where cfg: "page_commands_new cfg = Inr pcs" "pc_sizes cfg = h_page_sizes (i_header def)"
    using assms(2) by (auto simp: comms_page_commands_def Let_def intro!: that)
  have "paged_session T cfg pcs"
    using assms(1) cfg(1) by (simp add: paged_session_def paged_session_axioms_def)
  from paged_session.as_port [OF this] cfg(2) show ?thesis by metis
qed

text \<open>
  Concurrency does no harm to the tune's shape: whatever the request handlers edit
  between any two locks, and whatever the ECU or the port answers, flushing, burning and
  downloading return without a panic and leave every page's three copies at the declared
  size.
\<close>

theorem comms_tune_safe:
  assumes "transport_laws T" "comms_page_commands def = Inr pcs" "world_ok def w"
  shows "(\<exists>w1. flush_dirty (session_pages T crc pcs) crc show_io w = Ret w1 \<and> world_ok def w1)
    \<and> (\<exists>r w1. do_burn (Some (session_pages T crc pcs)) crc show_io w = Ret (r, w1) \<and> world_ok def w1)
    \<and> (\<exists>r w1. download_tune (session_pages T crc pcs) crc w = Ret (r, w1) \<and> world_ok def w1)"
proof -
  note port = commands_paged [OF assms(1,2)]
  from page_port.flush_dirty_safe [OF port assms(3) refl] page_port.do_burn_safe [OF port assms(3) refl]
    page_port.download_tune_safe [OF port assms(3) refl]
  show ?thesis unfolding safely_def by blast
qed

definition demo_def :: ini_def where
  "demo_def = ini_default\<lparr>i_header := header_default\<lparr>
     h_page_sizes := pc_sizes demo_pages_config, h_page_identifiers := pc_identifiers demo_pages_config,
     h_page_read_command := pc_page_read demo_pages_config,
     h_page_chunk_write := pc_chunk_write demo_pages_config,
     h_crc32_check_command := pc_crc_check demo_pages_config, h_burn_command := pc_burn demo_pages_config,
     h_blocking_factor := Some 3\<rparr>\<rparr>"

lemma demo_def_pages: "comms_page_commands demo_def = Inr demo_pages"
proof -
  have "comms_page_commands demo_def = page_commands_new demo_pages_config"
    by (simp add: comms_page_commands_def demo_def_def demo_pages_config_def or_val_def)
  then show ?thesis by (simp add: demo_pages_new)
qed

definition demo_world :: "mock session comms" where
  "demo_world = \<lparr>cw_session = demo_session, cw_tune = set_loaded True (tune_new demo_def),
     cw_status = status_default, cw_events = [],
     cw_edits = [applied (set_constant_impl 10 ''rpm'' fone True)]\<rparr>"

lemma demo_world_ok: "world_ok demo_def demo_world"
  using tune_step_ok [OF tune_step.loaded tune_new_ok]
  by (simp add: world_ok_def demo_world_def handler_edits)

theorem comms_tune_safe_witness:
  "\<exists>w1. flush_dirty (session_pages mock_ops crc32_ieee demo_pages) crc32_ieee (\<lambda>e. []) demo_world = Ret w1
    \<and> world_ok demo_def w1"
  using comms_tune_safe [OF mock_laws.transport_laws_axioms demo_def_pages demo_world_ok] by blast

end
