(* ===== verification/Comms_Flush.thy ===== *)
theory Comms_Flush
  imports Comms_Laws
begin

text \<open>
  What a flush, a burn and a download leave behind.

  Without concurrent edits an error-free flush has one effect on the tune, that of
  \<open>all_sent\<close>: every ECU shadow becomes the local data.  A burn that answers \<open>Ok\<close> leaves
  nothing to burn, and an \<open>Ok\<close> download leaves pages whose checksum the ECU confirmed.
  Two places where the bookkeeping goes wrong are proved as well: a write that fails does not
  fail the burn, and an edit made during a write is taken as sent.
\<close>

subsection \<open>The chunks of a page cover its differing bytes\<close>

definition inside :: "nat \<Rightarrow> (nat \<times> nat) list \<Rightarrow> bool" where
  "inside k spans \<longleftrightarrow> (\<exists>(s, e)\<in>set spans. s \<le> k \<and> k < e)"

lemma inside_simps [simp]:
  "inside k [] \<longleftrightarrow> False" "inside k ((s, e) # r) \<longleftrightarrow> s \<le> k \<and> k < e \<or> inside k r"
  "inside k (xs @ ys) \<longleftrightarrow> inside k xs \<or> inside k ys"
  by (auto simp: inside_def)

lemma chunk_pieces:
  assumes "0 < bf" "s \<le> e" "e \<le> length data" "off + m * bf = s"
  shows "\<exists>bs. map (\<lambda>(k, c). (off + k * bf, c)) (enumerate m (chunks bf (take (e - s) (drop s data))))
      = slices data bs \<and> (\<forall>(a, b)\<in>set bs. a < b \<and> b \<le> length data)
      \<and> (\<forall>k. inside k bs \<longleftrightarrow> s \<le> k \<and> k < e)"
  using assms(2-)
proof (induction "e - s" arbitrary: s m rule: less_induct)
  case less
  let ?xs = "take (e - s) (drop s data)"
  show ?case
  proof (cases "s < e")
    case False
    then show ?thesis using less.prems by (intro exI [of _ "[]"]) (auto simp: slices_def)
  next
    case True
    let ?m = "min e (s + bf)"
    have xs: "chunks bf ?xs = take (?m - s) (drop s data) # chunks bf (take (e - ?m) (drop ?m data))"
    proof -
      have "?xs \<noteq> []" using True less.prems by auto
      moreover have "?m - s = min bf (e - s)" by (simp add: min_def) arith
      then have "take bf ?xs = take (?m - s) (drop s data)" by (simp only: take_take)
      moreover have "drop bf ?xs = take (e - ?m) (drop ?m data)"
        using True by (auto simp: min_def drop_take add.commute)
      ultimately show ?thesis using assms(1) by (simp add: chunks.simps [of bf ?xs])
    qed
    show ?thesis
    proof (cases "s + bf \<le> e")
      case le: True
      then have m: "?m = s + bf" by simp
      have smaller: "e - (s + bf) < e - s" using assms(1) True by simp
      have next_off: "off + Suc m * bf = s + bf" using less.prems(3) by simp
      obtain bs where "map (\<lambda>(k, c). (off + k * bf, c))
          (enumerate (Suc m) (chunks bf (take (e - (s + bf)) (drop (s + bf) data)))) = slices data bs"
        "\<forall>(a, b)\<in>set bs. a < b \<and> b \<le> length data" "\<forall>k. inside k bs \<longleftrightarrow> s + bf \<le> k \<and> k < e"
        using less.hyps [OF smaller le less.prems(2) next_off] by blast
      then show ?thesis using xs le less.prems assms(1) unfolding m
        by (intro exI [of _ "(s, s + bf) # bs"]) (auto simp: slices_def)
    next
      case False
      then have m: "?m = e" by simp
      show ?thesis using xs less.prems True unfolding m
        by (intro exI [of _ "[(s, e)]"]) (auto simp: slices_def)
    qed
  qed
qed

lemma span_pieces:
  assumes "0 < bf" "\<forall>(s, e)\<in>set spans. s < e \<and> e \<le> length data"
  shows "\<exists>bs. span_chunks bf (slices data spans) = slices data bs
    \<and> (\<forall>(a, b)\<in>set bs. a < b \<and> b \<le> length data) \<and> (\<forall>k. inside k bs \<longleftrightarrow> inside k spans)"
  using assms(2)
proof (induction spans)
  case Nil
  then show ?case by (intro exI [of _ "[]"]) (simp add: span_chunks_def slices_def)
next
  case (Cons p spans)
  obtain s e where p: "p = (s, e)" by (cases p)
  from Cons obtain bs where bs: "span_chunks bf (slices data spans) = slices data bs"
    "\<forall>(a, b)\<in>set bs. a < b \<and> b \<le> length data" "\<forall>k. inside k bs \<longleftrightarrow> inside k spans" by auto
  obtain cs where "map (\<lambda>(k, c). (s + k * bf, c)) (enumerate 0 (chunks bf (take (e - s) (drop s data))))
      = slices data cs" "\<forall>(a, b)\<in>set cs. a < b \<and> b \<le> length data" "\<forall>k. inside k cs \<longleftrightarrow> s \<le> k \<and> k < e"
    using chunk_pieces [OF assms(1), of s e data s 0] Cons.prems p by auto
  with bs show ?case
    by (intro exI [of _ "cs @ bs"]) (auto simp: p slices_def span_chunks_def)
qed

lemma page_chunks:
  assumes "tune_page t i = Some p" "0 < bf"
  obtains bs where "span_chunks bf (dirty_spans t i g) = slices (pg_data p) bs"
    "\<forall>(s, e)\<in>set bs. s < e \<and> e \<le> length (pg_data p)"
    "\<And>k. k < min (length (pg_data p)) (length (pg_ecu p)) \<Longrightarrow> pg_data p ! k \<noteq> pg_ecu p ! k \<Longrightarrow> inside k bs"
proof -
  let ?spans = "span_bounds g (pg_data p) (pg_ecu p)"
  have ok: "spans_ok g (pg_data p) (pg_ecu p) ?spans" by (rule span_bounds_ok)
  then have "\<forall>(s, e)\<in>set ?spans. s < e \<and> e \<le> length (pg_data p)" by (auto simp: spans_ok_def)
  from span_pieces [OF assms(2) this] obtain bs where
    "span_chunks bf (slices (pg_data p) ?spans) = slices (pg_data p) bs"
    "\<forall>(s, e)\<in>set bs. s < e \<and> e \<le> length (pg_data p)" "\<forall>k. inside k bs \<longleftrightarrow> inside k ?spans" by blast
  moreover have "dirty_spans t i g = slices (pg_data p) ?spans"
    using assms(1) by (simp add: dirty_spans_def slices_def)
  ultimately show thesis using ok by (intro that [of bs]) (auto simp: spans_ok_def inside_def)
qed

subsection \<open>An undisturbed flush\<close>

definition all_sent :: "tune \<Rightarrow> tune" where
  "all_sent t = t\<lparr>tn_pages := map (\<lambda>p. p\<lparr>pg_ecu := pg_data p\<rparr>) (tn_pages t)\<rparr>"

definition page_sent :: "nat \<Rightarrow> tune \<Rightarrow> tune" where
  "page_sent i = upd_page i (\<lambda>p. p\<lparr>pg_ecu := pg_data p\<rparr>)"

text \<open>No error reported, and nobody else edits.\<close>

definition calm :: "'s comms \<Rightarrow> bool" where
  "calm w \<longleftrightarrow> st_last_error (cw_status w) = None"

lemma locked_quiet [simp]: "cw_edits w = [] \<Longrightarrow> locked w = w"
  by (simp add: locked_def)

lemma calm_simps [simp]:
  "\<not> calm (set_error msg w)" "calm (broadcast_status w) = calm w" "calm (locked w) = calm w"
  "calm (w\<lparr>cw_tune := t\<rparr>) = calm w" "calm (upd_tune f w) = calm w" "calm (broadcast_tune w) = calm w"
  "calm (w\<lparr>cw_session := s\<rparr>) = calm w"
  by (auto simp: calm_def set_error_def broadcast_status_def locked_def upd_tune_def broadcast_tune_def
      Let_def split: list.splits)

lemma in_session_frame:
  assumes "in_session m w = Ret (r, w1)"
  shows "cw_tune w1 = cw_tune w" "cw_edits w1 = cw_edits w" "calm w1 = calm w" "cw_status w1 = cw_status w"
  using assms by (auto simp: in_session_Ret)

lemma flush_chunks_error: "flush_chunks P crc show_io i cs w = Ret (go, w1) \<Longrightarrow> calm w1 \<Longrightarrow> go \<and> calm w"
proof (induction cs arbitrary: w)
  case (Cons c cs)
  obtain off chunk where c: "c = (off, chunk)" by (cases c)
  obtain r w2 where w2: "in_session (po_write P i (off mod 2 ^ 16) chunk) w = Ret (r, w2)"
    using Cons.prems(1) by (auto simp: c split: run.splits)
  show ?case
  proof (cases r)
    case (Inr u)
    then obtain t where "mark_sent i off (length chunk) (cw_tune (locked w2)) = Ret t"
      "flush_chunks P crc show_io i cs ((locked w2)\<lparr>cw_tune := t\<rparr>) = Ret (go, w1)"
      using Cons.prems(1) w2 by (auto simp: c Let_def run_simps)
    from Cons.IH [OF this(2) Cons.prems(2)] in_session_frame [OF w2] show ?thesis by simp
  qed (use Cons.prems w2 in \<open>auto simp: c\<close>)
qed simp

lemma flush_chunks_marks:
  assumes "flush_chunks P crc show_io i cs w = Ret (True, w1)" "cw_edits w = []"
  shows "mark_all i cs (cw_tune w) = Ret (cw_tune w1) \<and> cw_edits w1 = []"
  using assms
proof (induction cs arbitrary: w)
  case (Cons c cs)
  obtain off chunk where c: "c = (off, chunk)" by (cases c)
  obtain r w2 where w2: "in_session (po_write P i (off mod 2 ^ 16) chunk) w = Ret (r, w2)"
    using Cons.prems(1) by (auto simp: c split: run.splits)
  note f = in_session_frame [OF w2]
  show ?case
  proof (cases r)
    case (Inr u)
    then obtain t where t: "mark_sent i off (length chunk) (cw_tune w) = Ret t"
      "flush_chunks P crc show_io i cs (w2\<lparr>cw_tune := t\<rparr>) = Ret (True, w1)"
      using Cons.prems w2 f by (auto simp: c Let_def run_simps)
    from Cons.IH [OF t(2)] Cons.prems(2) f(2) t(1) show ?thesis by (simp add: c)
  qed (use Cons.prems w2 in \<open>auto simp: c\<close>)
qed simp

lemma verify_page_calm:
  assumes "verify_page P crc i w = Ret w1" "calm w1"
  shows "calm w" "cw_edits w = [] \<Longrightarrow> cw_tune w1 = cw_tune w \<and> cw_edits w1 = []"
proof -
  obtain p where p: "tune_page (cw_tune (locked w)) i = Some p"
    using assms(1) by (auto simp: verify_page_def Let_def split: option.splits)
  then obtain r w2 where w2: "in_session (po_crc P i) (locked w) = Ret (r, w2)"
    using assms(1) by (auto simp: verify_page_def Let_def run_simps)
  have "w1 = w2"
  proof (cases r)
    case (Inr c)
    have "c = crc (pg_ecu p)"
    proof (rule ccontr)
      assume "c \<noteq> crc (pg_ecu p)"
      then have "\<exists>msg x. w1 = broadcast_status (set_error msg x)"
        using assms(1) p w2 Inr unfolding verify_page_def Let_def by (auto simp: run_map_Ret)
      then show False using assms(2) by auto
    qed
    then show ?thesis using assms(1) p w2 Inr by (simp add: verify_page_def Let_def)
  qed (use assms p w2 in \<open>auto simp: verify_page_def Let_def\<close>)
  with in_session_frame [OF w2] assms(2)
  show "calm w" "cw_edits w = [] \<Longrightarrow> cw_tune w1 = cw_tune w \<and> cw_edits w1 = []" by simp_all
qed

lemma page_sent_frame:
  "cw_edits w = [] \<Longrightarrow> locked w = w" "tn_def (page_sent i t) = tn_def t" "length (tn_pages (page_sent i t)) = length (tn_pages t)"
  by (simp_all add: page_sent_def upd_page_def)

lemma page_sent_ok: "tune_ok def t \<Longrightarrow> tune_ok def (page_sent i t)"
  unfolding page_sent_def by (rule upd_page_ok) (auto simp: page_sized_def)

lemma flush_page_calm:
  assumes "flush_page P crc show_io i w = Ret (go, w1)" "calm w1"
  shows "go" "calm w"
proof -
  let ?cs = "span_chunks (po_blocking_factor P) (dirty_spans (cw_tune (locked w)) i SPAN_MERGE_GAP)"
  obtain g w2 where w2: "flush_chunks P crc show_io i ?cs (locked w) = Ret (g, w2)"
    using assms(1) by (auto simp: flush_page_def Let_def run_simps)
  have "go \<and> calm w"
  proof (cases g)
    case True
    then obtain w3 where "verify_page P crc i w2 = Ret w3" "go" "w1 = w3"
      using assms(1) w2 by (auto simp: flush_page_def Let_def run_simps)
    then have "calm w2" using verify_page_calm(1) [of P crc i w2 w1] assms(2) by simp
    with \<open>go\<close> flush_chunks_error [OF w2] show ?thesis by simp
  next
    case False
    then show ?thesis
      using assms w2 flush_chunks_error [OF w2] by (auto simp: flush_page_def Let_def)
  qed
  then show "go" "calm w" by simp_all
qed

lemma flush_page_sent:
  assumes "flush_page P crc show_io i w = Ret (go, w1)" "calm w1" "cw_edits w = []"
    and "tune_ok def (cw_tune w)" "i < length (tn_pages (cw_tune w))" "0 < po_blocking_factor P"
  shows "cw_tune w1 = page_sent i (cw_tune w) \<and> cw_edits w1 = []"
proof -
  let ?cs = "span_chunks (po_blocking_factor P) (dirty_spans (cw_tune w) i SPAN_MERGE_GAP)"
  let ?p = "tn_pages (cw_tune w) ! i"
  have "go" by (rule flush_page_calm(1) [OF assms(1,2)])
  then obtain w2 where w2: "flush_chunks P crc show_io i ?cs w = Ret (True, w2)" "verify_page P crc i w2 = Ret w1"
    using assms(1,3) by (auto simp: flush_page_def Let_def run_simps split: if_splits)
  have p: "tune_page (cw_tune w) i = Some ?p" using assms(5) by (simp add: tune_page_def)
  have len: "length (pg_ecu ?p) = length (pg_data ?p)"
    using assms(4,5) by (auto simp: tune_ok_def list_all2_conv_all_nth page_sized_def)
  obtain bs where bs: "?cs = slices (pg_data ?p) bs" "\<forall>(s, e)\<in>set bs. s < e \<and> e \<le> length (pg_data ?p)"
    "\<And>k. k < min (length (pg_data ?p)) (length (pg_ecu ?p)) \<Longrightarrow> pg_data ?p ! k \<noteq> pg_ecu ?p ! k \<Longrightarrow> inside k bs"
    by (rule page_chunks [OF p assms(6), of SPAN_MERGE_GAP]) blast
  have "mark_all i ?cs (cw_tune w) = Ret (page_sent i (cw_tune w))"
    unfolding page_sent_def bs(1) using bs(3) len
    by (intro mark_cover_clean [OF p len bs(2)]) (simp add: inside_def)
  with flush_chunks_marks [OF w2(1) assms(3)] verify_page_calm(2) [OF w2(2) assms(2)] show ?thesis by simp
qed

lemma flush_pages_step:
  assumes "flush_pages P crc show_io (i # is) w = Ret w1" "calm w1"
  obtains w2 where "flush_page P crc show_io i w = Ret (True, w2)" "flush_pages P crc show_io is w2 = Ret w1"
proof -
  obtain go w2 where w2: "flush_page P crc show_io i w = Ret (go, w2)"
    using assms(1) by (auto simp: run_simps)
  moreover have go: "go"
  proof (rule ccontr)
    assume "\<not> go"
    then have "w1 = w2" using assms(1) w2 by simp
    with flush_page_calm(1) [OF w2] assms(2) \<open>\<not> go\<close> show False by simp
  qed
  ultimately show thesis using assms(1) by (intro that [of w2]) simp_all
qed

lemma flush_pages_calm: "flush_pages P crc show_io is w = Ret w1 \<Longrightarrow> calm w1 \<Longrightarrow> calm w"
proof (induction "is" arbitrary: w)
  case (Cons i "is")
  then obtain w2 where "flush_page P crc show_io i w = Ret (True, w2)" "flush_pages P crc show_io is w2 = Ret w1"
    by (blast elim: flush_pages_step)
  with Cons.IH Cons.prems(2) show ?case by (blast dest: flush_page_calm(2))
qed auto

lemma flush_pages_sent:
  assumes "flush_pages P crc show_io is w = Ret w1" "calm w1" "cw_edits w = []"
    and "tune_ok def (cw_tune w)" "\<forall>i\<in>set is. i < length (tn_pages (cw_tune w))" "0 < po_blocking_factor P"
  shows "cw_tune w1 = fold page_sent is (cw_tune w)"
  using assms(1,3-5)
proof (induction "is" arbitrary: w)
  case Nil
  then show ?case by (auto simp: broadcast_tune_def Let_def)
next
  case (Cons i "is")
  then obtain w2 where w2: "flush_page P crc show_io i w = Ret (True, w2)" "flush_pages P crc show_io is w2 = Ret w1"
    using assms(2) by (blast elim: flush_pages_step)
  have i: "i < length (tn_pages (cw_tune w))" using Cons.prems(4) by simp
  have sent: "cw_tune w2 = page_sent i (cw_tune w)" "cw_edits w2 = []"
    using flush_page_sent [OF w2(1) flush_pages_calm [OF w2(2) assms(2)] Cons.prems(2,3) i assms(6)] by simp_all
  with Cons.IH [OF w2(2)] Cons.prems(3,4) show ?case by (simp add: page_sent_ok page_sent_frame)
qed

lemma fold_page_sent:
  "fold page_sent is t = t\<lparr>tn_pages := map (\<lambda>(j, p). if j \<in> set is then p\<lparr>pg_ecu := pg_data p\<rparr> else p)
     (enumerate 0 (tn_pages t))\<rparr>"
proof (induction "is" arbitrary: t)
  case Nil
  then show ?case by (simp add: case_prod_unfold)
next
  case (Cons i "is")
  have "tn_pages (fold page_sent is (page_sent i t)) =
      map (\<lambda>(j, p). if j \<in> set (i # is) then p\<lparr>pg_ecu := pg_data p\<rparr> else p) (enumerate 0 (tn_pages t))"
    unfolding Cons.IH
    by (rule nth_equalityI) (auto simp: page_sent_def upd_page_def nth_enumerate_eq nth_list_update split: if_splits)
  then show ?case unfolding fold_simps comp_apply Cons.IH by (simp add: page_sent_def upd_page_def)
qed

text \<open>
  C6. Flushing implements its specification \<open>all_sent\<close>: on a loaded tune that nobody edits
  meanwhile, a flush after which no error is reported has made every ECU shadow the local
  data and changed nothing else of the tune; so no page is dirty.
\<close>

theorem flush_sends_all:
  assumes "page_port P sizes" "flush_dirty P crc show_io w = Ret w1" "st_last_error (cw_status w1) = None"
    and "cw_edits w = []" "tune_ok def (cw_tune w)" "tn_loaded (cw_tune w)"
  shows "cw_tune w1 = all_sent (cw_tune w) \<and> \<not> any_dirty (cw_tune w1)"
proof -
  let ?t = "cw_tune w"
  let ?dirty = "filter (page_dirty ?t) [0 ..< tune_page_count ?t]"
  have "cw_tune w1 = fold page_sent ?dirty ?t"
  proof (cases "?dirty = []")
    case True
    then show ?thesis using assms(2,4,6) by (simp add: flush_dirty_def Let_def)
  next
    case False
    then have "flush_pages P crc show_io ?dirty w = Ret w1"
      using assms(2,4,6) by (simp add: flush_dirty_def Let_def)
    then show ?thesis
      using assms(3) page_port.blocking_pos [OF assms(1)]
      by (intro flush_pages_sent [OF _ _ assms(4,5)]) (auto simp: calm_def tune_page_count_def)
  qed
  also have "\<dots> = all_sent ?t"
  proof -
    have "map (\<lambda>(j, p). if j \<in> set ?dirty then p\<lparr>pg_ecu := pg_data p\<rparr> else p) (enumerate 0 (tn_pages ?t))
        = map (\<lambda>p. p\<lparr>pg_ecu := pg_data p\<rparr>) (tn_pages ?t)"
      by (rule nth_equalityI)
        (auto simp: nth_enumerate_eq page_dirty_def tune_page_def tune_page_count_def)
    then show ?thesis by (simp add: fold_page_sent all_sent_def)
  qed
  finally show ?thesis
    by (simp add: any_dirty_def page_dirty_def all_sent_def tune_page_def list_get_def)
qed

text \<open>
  A port with no ECU behind it, to look at single runs: it acknowledges and logs every write,
  and its checksum request gets a fixed answer or none.
\<close>

definition write_log :: "u32 option \<Rightarrow> (nat \<times> nat \<times> bytes) list page_ops" where
  "write_log answer =
     \<lparr>po_count = 1, po_blocking_factor = 2, po_read = \<lambda>i. io_fail Timeout,
      po_write = \<lambda>i off bs s. Ret (Inr (), s @ [(i, off, bs)]),
      po_crc = \<lambda>i. (case answer of Some c \<Rightarrow> io_return c | None \<Rightarrow> io_fail Timeout),
      po_burn = \<lambda>i. io_return ()\<rparr>"

interpretation write_log: page_port "write_log answer" sizes
  by unfold_locales (simp_all add: write_log_def io_simps split: option.splits)

lemma write_log_simps [simp]:
  "po_blocking_factor (write_log answer) = 2" "po_count (write_log answer) = 1"
  "po_write (write_log answer) i off bs s = Ret (Inr (), s @ [(i, off, bs)])"
  "po_crc (write_log answer) i s = Ret (case answer of Some c \<Rightarrow> Inr c | None \<Rightarrow> Inl Timeout, s)"
  by (simp_all add: write_log_def io_simps split: option.splits)

definition one_byte_def :: ini_def where
  "one_byte_def = ini_default\<lparr>i_header := header_default\<lparr>h_page_sizes := [1]\<rparr>\<rparr>"

definition one_byte :: "u8 \<Rightarrow> u8 \<Rightarrow> tune" where
  "one_byte data ecu = (tune_new one_byte_def)\<lparr>tn_loaded := True,
     tn_pages := [\<lparr>pg_data = [data], pg_ecu = [ecu], pg_burned = [ecu]\<rparr>]\<rparr>"

lemma one_byte_simps [simp]:
  "tn_loaded (one_byte b a)" "tn_pages (one_byte b a) = [\<lparr>pg_data = [b], pg_ecu = [a], pg_burned = [a]\<rparr>]"
  "tune_page_count (one_byte b a) = 1" "page_dirty (one_byte b a) 0 \<longleftrightarrow> a \<noteq> b"
  by (auto simp: one_byte_def tune_page_count_def page_dirty_def tune_page_def)

lemma one_byte_chunks:
  assumes "a \<noteq> b"
  shows "span_chunks 2 (dirty_spans (one_byte b a) 0 SPAN_MERGE_GAP) = [(0, [b])]"
  using assms
  by (simp add: dirty_spans_def tune_page_def span_bounds_def differing_def span_chunks_def chunks.simps)

lemma one_byte_ok: "tune_ok one_byte_def (one_byte b a)"
  by (simp add: tune_ok_def one_byte_def_def page_sized_def one_byte_def tune_new_def)

definition one_byte_world :: "u8 \<Rightarrow> u8 \<Rightarrow> (tune \<Rightarrow> tune) list \<Rightarrow> (nat \<times> nat \<times> bytes) list comms" where
  "one_byte_world b a edits = \<lparr>cw_session = [], cw_tune = one_byte b a, cw_status = status_default,
     cw_events = [], cw_edits = edits\<rparr>"

lemma one_byte_world_simps [simp]:
  "cw_session (one_byte_world b a es) = []" "cw_tune (one_byte_world b a es) = one_byte b a"
  "cw_status (one_byte_world b a es) = status_default" "cw_events (one_byte_world b a es) = []"
  "cw_edits (one_byte_world b a es) = es"
  by (simp_all add: one_byte_world_def)

theorem flush_sends_all_witness:
  "\<exists>w1. flush_dirty (write_log None) crc32_ieee (\<lambda>e. []) (one_byte_world 7 0 []) = Ret w1
    \<and> cw_tune w1 = all_sent (one_byte 7 0) \<and> \<not> any_dirty (cw_tune w1)"
proof -
  let ?w = "one_byte_world 7 0 []"
  obtain w1 where w1: "flush_dirty (write_log None) crc32_ieee (\<lambda>e. []) ?w = Ret w1"
    "st_last_error (cw_status w1) = None"
    by (simp add: flush_dirty_def Let_def flush_page_def one_byte_chunks in_session_def mark_sent_def
        tune_page_def verify_page_def upd_page_def splice_def broadcast_tune_def status_default_def)
  have "cw_tune w1 = all_sent (cw_tune ?w) \<and> \<not> any_dirty (cw_tune w1)"
    by (rule flush_sends_all [OF write_log.page_port_axioms w1, where def = one_byte_def])
      (simp_all add: one_byte_ok)
  with w1(1) show ?thesis by auto
qed

text \<open>A handler that sets the first byte of the first page.\<close>

definition poke :: "u8 \<Rightarrow> tune \<Rightarrow> tune" where
  "poke c = upd_page 0 (\<lambda>p. p\<lparr>pg_data := (pg_data p)[0 := c]\<rparr>)"

lemma handler_poke: "handler_edit (poke c)"
  unfolding handler_edit_def poke_def
  by (auto simp: only_bytes_def upd_page_def map_list_update_id)

text \<open>
  C39. The flush can lose an edit.  A byte is edited from \<open>a\<close> to \<open>b\<close>; while the port writes
  \<open>b\<close>, a handler sets it to \<open>c\<close>.  \<open>mark_sent\<close> then copies the local data of that moment, so
  \<open>c\<close> counts as sent; when the checksum request that would notice fails, which is only
  logged, the flush ends with a clean page and no error although the ECU was sent \<open>b\<close> only.
\<close>

theorem racing_edit_lost:
  assumes "a \<noteq> b"
  shows "\<exists>w1. flush_dirty (write_log None) crc show_io
      (one_byte_world b a [\<lambda>t. t, \<lambda>t. t, \<lambda>t. t, poke c]) = Ret w1
    \<and> cw_session w1 = [(0, 0, [b])] \<and> map pg_data (tn_pages (cw_tune w1)) = [[c]]
    \<and> \<not> any_dirty (cw_tune w1) \<and> st_last_error (cw_status w1) = None"
  using assms
  by (simp add: flush_dirty_def Let_def locked_def flush_page_def one_byte_chunks in_session_def mark_sent_def
      poke_def tune_page_def verify_page_def upd_page_def splice_def broadcast_tune_def status_default_def
      any_dirty_def page_dirty_def)

theorem racing_edit_lost_witness:
  "\<exists>w1. flush_dirty (write_log None) crc32_ieee (\<lambda>e. [])
      (one_byte_world 2 1 [\<lambda>t. t, \<lambda>t. t, \<lambda>t. t, poke 3]) = Ret w1
    \<and> cw_session w1 = [(0, 0, [2])] \<and> map pg_data (tn_pages (cw_tune w1)) = [[3]]
    \<and> \<not> any_dirty (cw_tune w1) \<and> st_last_error (cw_status w1) = None"
  by (rule racing_edit_lost) simp

subsection \<open>Burn\<close>

lemma handler_edit_pending:
  assumes "handler_edit e"
  shows "page_burn_pending (e t) j = page_burn_pending t j" "length (tn_pages (e t)) = length (tn_pages t)"
proof -
  have m: "map pg_ecu (tn_pages (e t)) = map pg_ecu (tn_pages t)"
    "map pg_burned (tn_pages (e t)) = map pg_burned (tn_pages t)"
    using assms by (simp_all add: handler_edit_def only_bytes_def)
  show len: "length (tn_pages (e t)) = length (tn_pages t)" using m(1) by (rule map_eq_imp_length_eq)
  show "page_burn_pending (e t) j = page_burn_pending t j"
    using map_eq_nth [OF m(1), of j] map_eq_nth [OF m(2), of j] len
    by (simp add: page_burn_pending_def tune_page_def list_get_def)
qed

definition polite :: "'s comms \<Rightarrow> bool" where
  "polite w \<longleftrightarrow> (\<forall>e\<in>set (cw_edits w). handler_edit e)"

lemma locked_pending:
  assumes "polite w"
  shows "polite (locked w)" "page_burn_pending (cw_tune (locked w)) j = page_burn_pending (cw_tune w) j"
    "length (tn_pages (cw_tune (locked w))) = length (tn_pages (cw_tune w))"
  using assms by (auto simp: polite_def locked_def handler_edit_pending split: list.splits)

lemma burn_pages_done:
  assumes "burn_pages P crc show_io is burned w = Ret (Inr out, w1)" "polite w"
    and "\<And>j. page_burn_pending (cw_tune w) j \<Longrightarrow> j \<in> set is"
  shows "out = burned @ is \<and> (\<forall>j. \<not> page_burn_pending (cw_tune w1) j)"
  using assms
proof (induction "is" arbitrary: burned w)
  case (Cons i "is")
  obtain r w2 where w2: "in_session (po_burn P i) w = Ret (r, w2)"
    using Cons.prems(1) by (auto simp: run_simps)
  note f = in_session_frame [OF w2]
  obtain u where r: "r = Inr u" using Cons.prems(1) w2 by (cases r) auto
  let ?w = "upd_tune (mark_burned i) w2"
  have p2: "polite w2" using Cons.prems(2) f by (simp add: polite_def)
  have "polite ?w" using locked_pending(1) [OF p2] by (simp add: upd_tune_def Let_def polite_def)
  moreover have "j \<in> set is" if "page_burn_pending (cw_tune ?w) j" for j
  proof -
    have "j \<noteq> i \<and> page_burn_pending (cw_tune (locked w2)) j"
      using that by (auto simp: upd_tune_def Let_def page_burn_pending_def mark_burned_def tune_page_upd_page
          split: option.splits if_splits)
    then show ?thesis using Cons.prems(3) [of j] locked_pending(2) [OF p2] f by auto
  qed
  ultimately show ?case using Cons.IH [of "burned @ [i]" ?w] Cons.prems(1) w2 r by simp
qed auto

text \<open>
  C7. A burn that answers \<open>Ok\<close> has burned everything: whatever handlers edit and whatever the
  flush before it managed to send, no page's ECU memory differs from its burned copy.
\<close>

theorem burn_leaves_nothing:
  assumes "page_port P (h_page_sizes (i_header def))" "world_ok def w"
    and "do_burn (Some P) crc show_io w = Ret (Inr out, w1)"
  shows "\<not> burn_pending (cw_tune w1) \<and> distinct out"
proof -
  have l: "world_ok def (locked w)" using assms(2) by (rule locked_ok)
  obtain w2 where w2: "flush_dirty P crc show_io (locked w) = Ret w2" "world_ok def w2"
    using page_port.flush_dirty_safe [OF assms(1) l refl] by blast
  let ?w = "locked w2"
  let ?pending = "filter (page_burn_pending (cw_tune ?w)) [0 ..< tune_page_count (cw_tune ?w)]"
  have "burn_pages P crc show_io ?pending [] ?w = Ret (Inr out, w1)"
    using assms(3) w2(1) by (simp add: do_burn_def Let_def split: if_splits)
  moreover have "polite ?w"
    using locked_ok [OF w2(2)] by (simp add: polite_def world_ok_def)
  moreover have "j \<in> set ?pending" if "page_burn_pending (cw_tune ?w) j" for j
    using that by (auto simp: page_burn_pending_def tune_page_def tune_page_count_def list_get_def split: if_splits)
  ultimately have "out = [] @ ?pending \<and> (\<forall>j. \<not> page_burn_pending (cw_tune w1) j)"
    by (rule burn_pages_done)
  then show ?thesis by (simp add: burn_pending_def)
qed

lemma one_byte_world_ok: "\<forall>e\<in>set es. handler_edit e \<Longrightarrow> world_ok one_byte_def (one_byte_world b a es)"
  by (simp add: world_ok_def one_byte_ok)

theorem burn_leaves_nothing_witness:
  "\<exists>w1. do_burn (Some (write_log None)) crc32_ieee (\<lambda>e. []) (one_byte_world 7 0 []) = Ret (Inr [0], w1)
    \<and> \<not> burn_pending (cw_tune w1) \<and> distinct [0 :: nat]"
proof -
  let ?w = "one_byte_world 7 0 []"
  obtain w1 where w1: "do_burn (Some (write_log None)) crc32_ieee (\<lambda>e. []) ?w = Ret (Inr [0], w1)"
    by (simp add: do_burn_def flush_dirty_def Let_def flush_page_def one_byte_chunks in_session_def mark_sent_def
        tune_page_def verify_page_def upd_page_def splice_def broadcast_tune_def page_burn_pending_def
        tune_page_count_def write_log_def io_simps)
  have "page_port (write_log None) (h_page_sizes (i_header one_byte_def))" by (rule write_log.page_port_axioms)
  moreover have "world_ok one_byte_def ?w" by (rule one_byte_world_ok) simp
  ultimately have "\<not> burn_pending (cw_tune w1) \<and> distinct [0 :: nat]"
    by (rule burn_leaves_nothing) (rule w1)
  with w1 show ?thesis by blast
qed

text \<open>
  C40. A burn answers \<open>Ok\<close> even when the edits never reached the ECU: if every chunk write
  fails, the flush gives up and the burn goes on with what the ECU has; with nothing pending
  there it answers \<open>Ok\<close> with an empty list, and the edited page is as dirty as before.
\<close>

theorem burn_ok_despite_failed_write:
  assumes "page_port P sizes" "\<And>i off bs s. \<exists>e s'. po_write P i off bs s = Ret (Inl e, s')"
    and "cw_edits w = []" "tune_ok def (cw_tune w)" "tn_loaded (cw_tune w)"
    and "any_dirty (cw_tune w)" "\<not> burn_pending (cw_tune w)"
  shows "\<exists>w1. do_burn (Some P) crc show_io w = Ret (Inr [], w1) \<and> cw_tune w1 = cw_tune w
    \<and> st_last_error (cw_status w1) \<noteq> None"
proof -
  let ?t = "cw_tune w"
  let ?dirty = "filter (page_dirty ?t) [0 ..< tune_page_count ?t]"
  have "?dirty \<noteq> []" using assms(6) by (auto simp: any_dirty_def tune_page_count_def filter_empty_conv)
  then obtain i "is" where i: "?dirty = i # is" by (cases ?dirty) auto
  then have "i \<in> set ?dirty" by simp
  then have id: "page_dirty ?t i" "i < length (tn_pages ?t)" by (simp_all add: tune_page_count_def)
  let ?p = "tn_pages ?t ! i"
  have p: "tune_page ?t i = Some ?p" using id(2) by (simp add: tune_page_def)
  have len: "length (pg_ecu ?p) = length (pg_data ?p)"
    using assms(4) id(2) by (auto simp: tune_ok_def list_all2_conv_all_nth page_sized_def)
  have "pg_data ?p \<noteq> pg_ecu ?p" using id(1) p by (simp add: page_dirty_def)
  then obtain k where k: "k < length (pg_data ?p)" "pg_data ?p ! k \<noteq> pg_ecu ?p ! k"
    using len by (metis nth_equalityI)
  let ?cs = "span_chunks (po_blocking_factor P) (dirty_spans ?t i SPAN_MERGE_GAP)"
  obtain bs where "?cs = slices (pg_data ?p) bs" "inside k bs"
    using k len by (auto intro: page_chunks [OF p page_port.blocking_pos [OF assms(1)], of SPAN_MERGE_GAP])
  then obtain off chunk cs where cs: "?cs = (off, chunk) # cs"
    by (cases ?cs) (auto simp: slices_def inside_def)
  obtain e s' where e: "po_write P i (off mod 2 ^ 16) chunk (cw_session w) = Ret (Inl e, s')"
    using assms(2) by blast
  obtain w1 where w1: "flush_dirty P crc show_io w = Ret w1" "cw_tune w1 = ?t" "cw_edits w1 = []"
    "st_last_error (cw_status w1) \<noteq> None"
    using i cs e assms(3,5)
    by (simp add: flush_dirty_def Let_def flush_page_def in_session_def set_error_def broadcast_status_def)
  have "filter (page_burn_pending ?t) [0 ..< tune_page_count ?t] = []"
    using assms(7) by (auto simp: burn_pending_def tune_page_count_def filter_empty_conv)
  with w1 assms(3,5) show ?thesis by (simp add: do_burn_def Let_def)
qed

definition mute_port :: "(nat \<times> nat \<times> bytes) list page_ops" where
  "mute_port = (write_log None)\<lparr>po_write := \<lambda>i off bs. io_fail Timeout\<rparr>"

interpretation mute_port: page_port mute_port sizes
  by unfold_locales (simp_all add: mute_port_def write_log_def io_simps split: option.splits)

theorem burn_ok_despite_failed_write_witness:
  "\<exists>w1. do_burn (Some mute_port) crc32_ieee (\<lambda>e. []) (one_byte_world 7 0 []) = Ret (Inr [], w1)
    \<and> cw_tune w1 = one_byte 7 0 \<and> st_last_error (cw_status w1) \<noteq> None"
proof -
  have "\<exists>w1. do_burn (Some mute_port) crc32_ieee (\<lambda>e. []) (one_byte_world 7 0 []) = Ret (Inr [], w1)
      \<and> cw_tune w1 = cw_tune (one_byte_world 7 0 []) \<and> st_last_error (cw_status w1) \<noteq> None"
    by (rule burn_ok_despite_failed_write [OF mute_port.page_port_axioms, where def = one_byte_def])
      (auto simp: mute_port_def io_simps one_byte_ok any_dirty_def burn_pending_def page_burn_pending_def
        tune_page_def intro: exI)
  then show ?thesis by simp
qed

subsection \<open>Download\<close>

text \<open>The ECU's copy of a page is one whose checksum the ECU has given.\<close>

definition confirmed :: "'s page_ops \<Rightarrow> (bytes \<Rightarrow> u32) \<Rightarrow> tune \<Rightarrow> nat \<Rightarrow> bool" where
  "confirmed P crc t i \<longleftrightarrow> (\<exists>p s s'. tune_page t i = Some p \<and> pg_burned p = pg_ecu p \<and>
     po_crc P i s = Ret (Inr (crc (pg_ecu p)), s'))"

lemma confirmed_edit:
  assumes "handler_edit e" "confirmed P crc t i"
  shows "confirmed P crc (e t) i"
proof -
  have m: "map pg_ecu (tn_pages (e t)) = map pg_ecu (tn_pages t)"
    "map pg_burned (tn_pages (e t)) = map pg_burned (tn_pages t)"
    using assms(1) by (simp_all add: handler_edit_def only_bytes_def)
  have i: "i < length (tn_pages t)"
    using assms(2) by (auto simp: confirmed_def tune_page_def list_get_eq_Some)
  have "pg_ecu (tn_pages (e t) ! i) = pg_ecu (tn_pages t ! i)" "pg_burned (tn_pages (e t) ! i) = pg_burned (tn_pages t ! i)"
    using map_eq_nth [OF m(1) i] map_eq_nth [OF m(2) i] .
  with i handler_edit_pending(2) [OF assms(1), of t] assms(2) show ?thesis
    by (auto simp: confirmed_def tune_page_def list_get_def)
qed

lemma confirmed_locked:
  "polite w \<Longrightarrow> confirmed P crc (cw_tune w) i \<Longrightarrow> confirmed P crc (cw_tune (locked w)) i"
  by (auto simp: polite_def locked_def confirmed_edit split: list.splits)

lemma download_page_confirmed:
  assumes "download_page P crc i n w = Ret (Inr u, w1)" "polite w" "i < length (tn_pages (cw_tune w))"
  shows "confirmed P crc (cw_tune w1) i \<and> polite w1 \<and> length (tn_pages (cw_tune w1)) = length (tn_pages (cw_tune w))
    \<and> (\<forall>j. confirmed P crc (cw_tune w) j \<longrightarrow> confirmed P crc (cw_tune w1) j)"
  using assms
proof (induction "2 - n" arbitrary: n w rule: less_induct)
  case less
  obtain bs w2 c w3 where w: "in_session (po_read P i) w = Ret (Inr bs, w2)"
    "in_session (po_crc P i) w2 = Ret (Inr c, w3)"
    and rest: "(if c = crc bs then (\<lambda>w. Ret (Inr (), upd_tune (load_page i bs) w))
       else if 2 \<le> n + 1 then io_fail (ShortResponse (unat c) (unat (crc bs)))
       else download_page P crc i (n + 1)) w3 = Ret (Inr u, w1)"
    using less.prems(1) by (subst (asm) download_page.simps) (blast elim!: io_bind_InrE)
  note f2 = in_session_frame [OF w(1)] and f3 = in_session_frame [OF w(2)]
  have p3: "polite w3" using less.prems(2) f2 f3 by (simp add: polite_def)
  show ?case
  proof (cases "c = crc bs")
    case True
    then have w1: "w1 = upd_tune (load_page i bs) w3" using rest by simp
    have len: "length (tn_pages (cw_tune (locked w3))) = length (tn_pages (cw_tune w))"
      using locked_pending(3) [OF p3] f2 f3 by simp
    obtain s s' where "po_crc P i s = Ret (Inr (crc bs), s')" using w(2) True by (auto simp: in_session_Ret)
    then have i: "confirmed P crc (cw_tune w1) i"
      using len less.prems(3) unfolding confirmed_def w1 upd_tune_def Let_def load_page_def
      by (auto simp: tune_page_upd_page) (auto simp: tune_page_def)
    have "confirmed P crc (cw_tune w1) j" if "confirmed P crc (cw_tune w) j" for j
    proof (cases "j = i")
      case False
      have "confirmed P crc (cw_tune (locked w3)) j" using confirmed_locked [OF p3] that f2 f3 by simp
      with False show ?thesis
        by (simp add: confirmed_def w1 upd_tune_def Let_def load_page_def tune_page_upd_page)
    qed (use i in simp)
    with i len locked_pending(1) [OF p3] show ?thesis
      by (simp add: w1 upd_tune_def Let_def polite_def load_page_def upd_page_def)
  next
    case False
    then have "\<not> 2 \<le> n + 1" "download_page P crc i (n + 1) w3 = Ret (Inr u, w1)"
      using rest by (auto simp: io_simps split: if_splits)
    then show ?thesis using less.hyps [of "n + 1" w3] p3 less.prems(3) f2 f3 by simp
  qed
qed

lemma download_each_confirmed:
  assumes "io_each (\<lambda>i. download_page P crc i 0) is w = Ret (Inr u, w1)" "polite w"
    and "\<forall>i\<in>set is. i < length (tn_pages (cw_tune w))"
  shows "(\<forall>i\<in>set is. confirmed P crc (cw_tune w1) i) \<and> (\<forall>j. confirmed P crc (cw_tune w) j \<longrightarrow> confirmed P crc (cw_tune w1) j)"
  using assms
proof (induction "is" arbitrary: w)
  case (Cons i "is")
  obtain v w2 where w2: "download_page P crc i 0 w = Ret (Inr v, w2)"
    "io_each (\<lambda>i. download_page P crc i 0) is w2 = Ret (Inr u, w1)"
    using Cons.prems(1) by (auto elim!: io_bind_InrE)
  from download_page_confirmed [OF w2(1) Cons.prems(2)] Cons.IH [OF w2(2)] Cons.prems(3) show ?case by auto
qed (simp add: io_simps)

text \<open>
  C8. A successful download is a verified one: for every page the ECU memory and the burned
  copy are the same bytes, and they have the checksum the ECU itself answered for the page,
  even if handlers edited local data in between.
\<close>

theorem download_verified:
  assumes "download_tune P crc w = Ret (Inr u, w1)" "\<forall>e\<in>set (cw_edits w). handler_edit e"
    and "po_count P = length (tn_pages (cw_tune w))" "i < po_count P"
  shows "\<exists>p s s'. tune_page (cw_tune w1) i = Some p \<and> pg_burned p = pg_ecu p \<and>
    po_crc P i s = Ret (Inr (crc (pg_ecu p)), s')"
  using download_each_confirmed [of P crc "[0 ..< po_count P]" w u w1] assms
  by (auto simp: download_tune_def polite_def confirmed_def)

definition echo_port :: "bytes page_ops" where
  "echo_port = \<lparr>po_count = 1, po_blocking_factor = 2, po_read = \<lambda>i s. Ret (Inr s, s),
      po_write = \<lambda>i off bs s. Ret (Inr (), s), po_crc = \<lambda>i s. Ret (Inr (crc32_ieee s), s),
      po_burn = \<lambda>i s. Ret (Inr (), s)\<rparr>"

theorem download_verified_witness:
  "\<exists>w1 p s s'. download_tune echo_port crc32_ieee \<lparr>cw_session = [5], cw_tune = one_byte 7 0,
      cw_status = status_default, cw_events = [], cw_edits = [poke 9]\<rparr> = Ret (Inr (), w1)
    \<and> tune_page (cw_tune w1) 0 = Some p \<and> pg_burned p = pg_ecu p
    \<and> po_crc echo_port 0 s = Ret (Inr (crc32_ieee (pg_ecu p)), s')"
proof -
  let ?w = "\<lparr>cw_session = [5], cw_tune = one_byte 7 0,
      cw_status = status_default, cw_events = [], cw_edits = [poke 9]\<rparr>"
  obtain w1 where w1: "download_tune echo_port crc32_ieee ?w = Ret (Inr (), w1)"
    by (simp add: download_tune_def echo_port_def download_page.simps io_bind_def in_session_def io_simps)
  have "\<exists>p s s'. tune_page (cw_tune w1) 0 = Some p \<and> pg_burned p = pg_ecu p \<and>
      po_crc echo_port 0 s = Ret (Inr (crc32_ieee (pg_ecu p)), s')"
    by (rule download_verified [OF w1]) (simp_all add: handler_poke echo_port_def)
  with w1 show ?thesis by blast
qed

end
