(* ===== verification/Ecu_Calibration.thy ===== *)
theory Ecu_Calibration
  imports Pages
begin

text \<open>
  The reference-table commands of \<open>ecu-proto/src/calibration.rs\<close>: the checksum of a
  calibration table and the chunked write of 1024 bytes, whose offsets and counts are
  big-endian on the wire, unlike those of tune pages.
\<close>

definition calib_id :: "nat \<Rightarrow> proto_error + bytes" where
  "calib_id n =
     (if n < 256 then Inr [of_nat n]
      else Inl (Unsupported ''calibration identifier exceeds one byte''))"

definition calib_crc ::
    "'t transport_ops \<Rightarrow> (bytes \<Rightarrow> u32) \<Rightarrow> string \<Rightarrow> nat \<Rightarrow> ('t session, u32) io" where
  "calib_crc T crc text n = (\<lambda>s.
     io_bind (io_res (calib_id n)) (\<lambda>ident.
     io_bind (io_res (tpl (template_parse text))) (\<lambda>t.
     io_bind (io_res (tpl (build \<lparr>can_id = c_can_id (s_config s), page_id = Some ident,
         a_offset = Some 0, a_count = Some 0, a_value = None\<rparr> t))) (\<lambda>cmd.
     io_bind (request T crc cmd [RC_OK]) be32_of_answer))) s)"

definition calib_args :: "u8 \<Rightarrow> bytes \<Rightarrow> nat \<Rightarrow> nat \<Rightarrow> bytes \<Rightarrow> args" where
  "calib_args can ident bf i chunk =
     \<lparr>can_id = can, page_id = Some ident,
      a_offset = Some (swap_bytes16 (of_nat (i * bf))),
      a_count = Some (swap_bytes16 (of_nat (length chunk))), a_value = Some chunk\<rparr>"

text \<open>All commands are built before the first one is sent.\<close>

definition calib_commands :: "u8 \<Rightarrow> bytes \<Rightarrow> nat \<Rightarrow> template \<Rightarrow> bytes \<Rightarrow> string + bytes list" where
  "calib_commands can ident bf t data =
     res_mapM (\<lambda>(i, chunk). build (calib_args can ident bf i chunk) t)
       (enumerate 0 (chunks bf data))"

definition calib_write ::
    "'t transport_ops \<Rightarrow> (bytes \<Rightarrow> u32) \<Rightarrow> string \<Rightarrow> nat \<Rightarrow> nat \<Rightarrow> bytes \<Rightarrow> ('t session, unit) io" where
  "calib_write T crc text n bf data = (\<lambda>s.
     (if length data \<noteq> 1024 \<or> bf = 0 \<or> 256 < bf \<or> bf mod 32 \<noteq> 0
      then io_fail (Unsupported ''unsupported AFR calibration table layout'')
      else
        io_bind (io_res (calib_id n)) (\<lambda>ident.
        io_bind (io_res (tpl (template_parse text))) (\<lambda>t.
        io_bind (io_res (tpl (calib_commands (c_can_id (s_config s)) ident bf t data))) (\<lambda>cmds.
        io_each (\<lambda>cmd. io_bind (request T crc cmd [RC_OK]) (\<lambda>_. io_return ())) cmds)))) s)"

subsection \<open>No partial calibration because of a template\<close>

lemma read_some_errors: "read_some T k t = (Inl e, t1, k1) \<Longrightarrow> e = Timeout \<or> (\<exists>m. e = Io m)"
  by (induction T k t rule: read_some.induct) (auto split: prod.splits sum.splits if_splits)

lemma read_enveloped_loop_errors:
  "read_enveloped_loop T crc ok k d t = Ret (Inl e, t1) \<Longrightarrow> \<not> (\<exists>m. e = Template m \<or> e = Unsupported m)"
proof (induction k arbitrary: d t rule: less_induct)
  case (less k)
  obtain r t2 k2 where r: "read_some T k t = (r, t2, k2)" by (cases "read_some T k t")
  show ?case
  proof (cases r)
    case (Inl e2)
    with less.prems r have "e = e2" by (simp add: read_enveloped_loop.simps [of T crc ok k d t])
    with r Inl read_some_errors show ?thesis by fastforce
  next
    case (Inr cs)
    with r have k: "k2 < k" using read_some_clock by fastforce
    from less.prems r Inr less.IH [OF k] show ?thesis
      by (auto simp: read_enveloped_loop.simps [of T crc ok k d t]
          split: if_splits run.splits prod.splits option.splits event.splits list.splits sum.splits)
  qed
qed

lemma request_errors:
  assumes "request T crc payload ok s = Ret (Inl e, s')"
  shows "e \<noteq> Template m" and "e = Unsupported m \<Longrightarrow> c_mode (s_config s) = Secondary_mode \<and> s' = s"
proof -
  have "(\<not> (\<exists>m. e = Template m \<or> e = Unsupported m)) \<or>
    (\<exists>m. e = Unsupported m) \<and> c_mode (s_config s) = Secondary_mode \<and> s' = s"
  proof (cases "c_mode (s_config s)")
    case Primary
    show ?thesis
    proof (cases "t_write_all T (s_transport s) (encode crc payload)")
      case (Pair w t1)
      show ?thesis
      proof (cases w)
        case (Inl x)
        with assms Primary Pair show ?thesis
          by (auto simp: request_def io_bind_def s_write_def)
      next
        case (Inr u)
        define k where "k = (case s_clock s of [] \<Rightarrow> 0 | n # ns \<Rightarrow> n)"
        have w: "s_write T (encode crc payload) s = Ret (Inr u, s\<lparr>s_transport := t1\<rparr>)"
          using Pair Inr by (simp add: s_write_def)
        have "\<exists>t2. read_enveloped_loop T crc ok k decoder_new t1 = Ret (Inl e, t2)"
        proof (cases "read_enveloped_loop T crc ok k decoder_new t1")
          case (Ret r)
          obtain x t2 where r: "r = (x, t2)" by (cases r)
          have v: "read_enveloped T crc ok (s\<lparr>s_transport := t1\<rparr>) =
              Ret (x, s\<lparr>s_transport := t2, s_clock := tl (s_clock s)\<rparr>)"
            using Ret r by (simp add: read_enveloped_def with_deadline_def k_def Let_def)
          show ?thesis
          proof (cases x)
            case (Inl e1)
            with assms Primary w v Ret r show ?thesis by (simp add: request_def io_bind_Ret)
          next
            case (Inr p)
            with assms Primary w v show ?thesis
              by (cases p) (simp_all add: request_def io_bind_Ret io_simps)
          qed
        next
          case (Crash c)
          then have "read_enveloped T crc ok (s\<lparr>s_transport := t1\<rparr>) = Crash c"
            by (simp add: read_enveloped_def with_deadline_def k_def Let_def)
          with assms Primary w show ?thesis by (simp add: request_def io_bind_Ret)
        qed
        then obtain t2 where "read_enveloped_loop T crc ok k decoder_new t1 = Ret (Inl e, t2)" by blast
        from read_enveloped_loop_errors [OF this] show ?thesis by (rule disjI1)
      qed
    qed
  qed (use assms in \<open>auto simp: request_def\<close>)
  then show "e \<noteq> Template m" "e = Unsupported m \<Longrightarrow> c_mode (s_config s) = Secondary_mode \<and> s' = s"
    by auto
qed

lemma each_request_errors:
  assumes "io_each (\<lambda>cmd. io_bind (request T crc cmd ok) (\<lambda>_. io_return ())) cmds s = Ret (Inl e, s')"
  shows "e \<noteq> Template m"
  using assms
proof (induction cmds arbitrary: s)
  case (Cons cmd cmds)
  then show ?case
    by (auto simp: io_simps dest!: io_bind_InlD dest: request_errors(1))
qed (simp add: run_simps)

text \<open>
  A calibration write never leaves a partial table behind because of its template
  or its layout: when it fails on either, no byte was sent and the session is as before.
\<close>

theorem calib_write_prebuilds:
  assumes "calib_write T crc text n bf data s = Ret (Inl (Template m), s')"
  shows "s' = s"
  using assms
  by (auto simp: calib_write_def io_simps calib_id_def split: if_splits
      dest!: io_bind_InlD each_request_errors)

theorem calib_write_prebuilds_witness:
  "demo_session = demo_session \<and>
   (\<exists>m. calib_write mock_ops crc32_ieee ''%'' 2 256 (replicate 1024 147) demo_session
      = Ret (Inl (Template m), demo_session))"
proof -
  have e: "calib_write mock_ops crc32_ieee ''%'' 2 256 (replicate 1024 147) demo_session
      = Ret (Inl (Template (''unknown %'' @ in_text ''%'')), demo_session)"
    by (simp add: calib_write_def calib_id_def template_parse_def parse_go.simps run_simps)
  from calib_write_prebuilds [OF e] e show ?thesis by blast
qed

subsection \<open>What a calibration write sends\<close>

lemma mock_read_sent: "mock_read m n = (r, m') \<Longrightarrow> m_sent m' = m_sent m"
  by (auto simp: mock_read_def Let_def split: list.splits)

lemma read_some_sent: "read_some mock_ops k m = (r, m', k') \<Longrightarrow> m_sent m' = m_sent m"
proof (induction k arbitrary: m)
  case (Suc k)
  obtain x m1 where r: "mock_read m 256 = (x, m1)" by (cases "mock_read m 256")
  with Suc show ?case
    by (cases x) (auto dest!: mock_read_sent split: if_splits)
qed simp

lemma read_enveloped_sent:
  "read_enveloped_loop mock_ops crc ok k d m = Ret (Inr p, m') \<Longrightarrow> m_sent m' = m_sent m"
proof (induction k arbitrary: d m rule: less_induct)
  case (less k)
  obtain r m2 k2 where r: "read_some mock_ops k m = (r, m2, k2)" by (cases "read_some mock_ops k m")
  note m2 = read_some_sent [OF r]
  show ?case
  proof (cases r)
    case (Inl e)
    with less.prems r show ?thesis by (simp add: read_enveloped_loop.simps [of _ crc ok k d m])
  next
    case (Inr cs)
    with r have k: "k2 < k" using read_some_clock by fastforce
    from less.prems r Inr less.IH [OF k] m2 show ?thesis
      by (auto simp: read_enveloped_loop.simps [of _ crc ok k d m]
          split: if_splits run.splits prod.splits option.splits event.splits list.splits sum.splits)
  qed
qed

lemma request_sent:
  assumes "request mock_ops crc payload ok s = Ret (Inr data, s')"
  shows "m_sent (s_transport s') = m_sent (s_transport s) @ [encode crc payload]"
proof -
  have "c_mode (s_config s) = Primary" using assms by (auto simp: request_def split: if_splits)
  with assms obtain u s1 where w: "s_write mock_ops (encode crc payload) s = Ret (Inr u, s1)"
    and "io_bind (read_enveloped mock_ops crc ok) (\<lambda>full. case full of [] \<Rightarrow> io_crash Panic
        | _ # data \<Rightarrow> io_return data) s1 = Ret (Inr data, s')"
    by (auto simp: request_def elim: io_bind_InrE)
  then obtain p s2 where r: "read_enveloped mock_ops crc ok s1 = Ret (Inr p, s2)"
    and "(case p of [] \<Rightarrow> io_crash Panic | _ # data \<Rightarrow> io_return data) s2 = Ret (Inr data, s')"
    by (auto elim: io_bind_InrE)
  then have "s' = s2" by (auto simp: io_simps split: list.splits)
  moreover have "m_sent (s_transport s2) = m_sent (s_transport s1)"
    using r read_enveloped_sent
    by (auto simp: read_enveloped_def with_deadline_def Let_def split: run.splits prod.splits)
  moreover have "m_sent (s_transport s1) = m_sent (s_transport s) @ [encode crc payload]"
    using w by (auto simp: s_write_def mock_write_all_def)
  ultimately show ?thesis by simp
qed

lemma each_request_sent:
  assumes "io_each (\<lambda>cmd. io_bind (request mock_ops crc cmd ok) (\<lambda>_. io_return ())) cmds s = Ret (Inr u, s')"
  shows "m_sent (s_transport s') = m_sent (s_transport s) @ map (encode crc) cmds"
  using assms
proof (induction cmds arbitrary: s)
  case (Cons cmd cmds)
  then show ?case
    by (auto simp: io_simps dest!: request_sent elim!: io_bind_InrE)
qed (simp add: io_simps)

lemma to_le16_swap_be: "to_le16 (swap_bytes16 w) = to_be16 w"
  by (rule to_le16_swap)

definition calib_template :: template where
  "calib_template = [Literal [0x74], Var ''tsCanId'', PageId, Offset, Count, Value_part]"

lemma calib_commands_documented:
  "calib_commands can ident bf calib_template data =
     Inr (map (\<lambda>(i, chunk). [0x74, can] @ ident @ to_be16 (of_nat (i * bf))
         @ to_be16 (of_nat (length chunk)) @ chunk) (enumerate 0 (chunks bf data)))"
proof -
  have "res_mapM (\<lambda>(i, chunk). build (calib_args can ident bf i chunk) calib_template) xs =
      Inr (map (\<lambda>(i, chunk). [0x74, can] @ ident @ to_be16 (of_nat (i * bf))
        @ to_be16 (of_nat (length chunk)) @ chunk) xs)" for xs
    by (induction xs)
      (auto simp: calib_template_def calib_args_def build_part_def ok_or_def to_le16_swap)
  then show ?thesis by (simp add: calib_commands_def)
qed

text \<open>
  A successful calibration write with the documented template has sent one
  command per chunk, in order: the identifier byte, the big-endian offset and length of
  the chunk, and its bytes; the chunks together are exactly the table.
\<close>

theorem calib_write_wire_format:
  assumes "calib_write mock_ops crc text n bf data s = Ret (Inr (), s')"
    and "template_parse text = Inr calib_template"
  shows "m_sent (s_transport s') = m_sent (s_transport s) @
      map (\<lambda>(i, chunk). encode crc ([0x74, c_can_id (s_config s), of_nat n]
        @ to_be16 (of_nat (i * bf)) @ to_be16 (of_nat (length chunk)) @ chunk))
      (enumerate 0 (chunks bf data))
    \<and> concat (chunks bf data) = data \<and> length data = 1024 \<and> n < 256"
proof -
  have g: "length data = 1024" "0 < bf" "n < 256"
    using assms(1) by (auto simp: calib_write_def calib_id_def io_simps io_bind_res split: if_splits)
  then have "io_each (\<lambda>cmd. io_bind (request mock_ops crc cmd [RC_OK]) (\<lambda>_. io_return ()))
     (map (\<lambda>(i, chunk). [0x74, c_can_id (s_config s)] @ [of_nat n] @ to_be16 (of_nat (i * bf))
         @ to_be16 (of_nat (length chunk)) @ chunk) (enumerate 0 (chunks bf data))) s = Ret (Inr (), s')"
    using assms
    by (simp add: calib_write_def calib_id_def io_simps io_bind_res calib_commands_documented
        split: if_splits)
  from each_request_sent [OF this] g show ?thesis
    by (simp add: concat_chunks comp_def case_prod_unfold)
qed

text \<open>A scripted ECU that answers every command with the bare success code.\<close>

lemma mock_request_acked:
  assumes "c_mode (s_config s) = Primary" "s_clock s = Suc k # ks"
    and "m_responses (s_transport s) = encode crc (rc # data) # rest" "rc \<in> set ok"
    and "length data < 200"
  shows "request mock_ops crc payload ok s = Ret (Inr data,
    s\<lparr>s_transport := \<lparr>m_sent = m_sent (s_transport s) @ [encode crc payload], m_responses = rest\<rparr>,
      s_clock := ks\<rparr>)"
proof -
  define m1 where "m1 = \<lparr>m_sent = m_sent (s_transport s) @ [encode crc payload],
    m_responses = encode crc (rc # data) # rest\<rparr>"
  define m2 where "m2 = \<lparr>m_sent = m_sent (s_transport s) @ [encode crc payload], m_responses = rest\<rparr>"
  have w: "s_write mock_ops (encode crc payload) s = Ret (Inr (), s\<lparr>s_transport := m1\<rparr>)"
    using assms(3) by (cases "s_transport s") (simp add: s_write_def mock_write_all_def m1_def)
  have l: "length (encode crc (rc # data)) \<le> 256" "encode crc (rc # data) \<noteq> []"
    using assms(5) by (simp_all add: encode_def to_be16_def)
  then have r: "read_some mock_ops (Suc k) m1 = (Inr (encode crc (rc # data)), m2, k)"
    by (simp add: mock_read_def m1_def m2_def Let_def)
  obtain d' where "feed crc decoder_new (encode crc (rc # data) @ []) = Ret ([Frame (rc # data)], d')"
    using feed_encode [of decoder_new "rc # data" crc] assms(5) by (auto simp: MAX_PAYLOAD_def)
  from scan_feed [OF this] obtain d1 where
    "scan crc decoder_new (encode crc (rc # data)) = Ret (Some (Frame (rc # data)), d1)" by auto
  with r l assms(4) have "read_enveloped_loop mock_ops crc ok (Suc k) decoder_new m1
      = Ret (Inr (rc # data), m2)"
    by (subst read_enveloped_loop.simps) simp
  then have "read_enveloped mock_ops crc ok (s\<lparr>s_transport := m1\<rparr>) =
      Ret (Inr (rc # data), s\<lparr>s_transport := m2, s_clock := ks\<rparr>)"
    using assms(2) by (simp add: read_enveloped_def with_deadline_def)
  with w assms(1) show ?thesis by (simp add: request_def io_bind_Ret io_simps m2_def)
qed

lemma mock_each_acked:
  assumes "c_mode (s_config s) = Primary" "s_clock s = replicate (length cmds) 1"
    and "m_responses (s_transport s) = replicate (length cmds) (encode crc [0])"
  shows "\<exists>s'. io_each (\<lambda>cmd. io_bind (request mock_ops crc cmd [RC_OK]) (\<lambda>_. io_return ())) cmds s
    = Ret (Inr (), s')"
  using assms
proof (induction cmds arbitrary: s)
  case (Cons cmd cmds)
  define s1 where "s1 = s\<lparr>s_transport := \<lparr>m_sent = m_sent (s_transport s) @ [encode crc cmd],
      m_responses = replicate (length cmds) (encode crc [0])\<rparr>,
    s_clock := replicate (length cmds) 1\<rparr>"
  have "request mock_ops crc cmd [RC_OK] s = Ret (Inr [], s1)"
    unfolding s1_def using Cons.prems
    by (intro mock_request_acked [where k = 0 and rc = 0]) (simp_all add: RC_OK_def)
  then have "io_each (\<lambda>cmd. io_bind (request mock_ops crc cmd [RC_OK]) (\<lambda>_. io_return ())) (cmd # cmds) s
      = io_each (\<lambda>cmd. io_bind (request mock_ops crc cmd [RC_OK]) (\<lambda>_. io_return ())) cmds s1"
    by (simp add: io_bind_Ret io_simps)
  moreover have "\<exists>s'. io_each (\<lambda>cmd. io_bind (request mock_ops crc cmd [RC_OK]) (\<lambda>_. io_return ())) cmds s1
      = Ret (Inr (), s')"
    using Cons.prems by (intro Cons.IH) (simp_all add: s1_def)
  ultimately show ?case by simp
qed (simp add: io_simps)

theorem calib_write_wire_format_witness:
  "\<exists>s s'. calib_write mock_ops crc32_ieee (render calib_template) 2 256 (replicate 1024 147) s
      = Ret (Inr (), s')
    \<and> m_sent (s_transport s') = m_sent (s_transport s) @
      map (\<lambda>(i, chunk). encode crc32_ieee ([0x74, c_can_id (s_config s), of_nat 2]
        @ to_be16 (of_nat (i * 256)) @ to_be16 (of_nat (length chunk)) @ chunk))
      (enumerate 0 (chunks 256 (replicate 1024 147)))"
proof -
  define data :: bytes where "data = replicate 1024 147"
  have n: "length data = 1024" by (simp add: data_def)
  define m where "m = length (chunks 256 data)"
  define s where "s = demo_session\<lparr>s_transport := \<lparr>m_sent = [],
    m_responses = replicate m (encode crc32_ieee [0])\<rparr>, s_clock := replicate m 1\<rparr>"
  have t: "template_parse (render calib_template) = Inr calib_template"
    by (rule template_parse_rendered)
      (simp add: calib_template_def name_char_def is_alpha_def is_digit_def)
  let ?cmds = "map (\<lambda>(i, chunk). [0x74, 0] @ [of_nat 2] @ to_be16 (of_nat (i * 256))
      @ to_be16 (of_nat (length chunk)) @ chunk) (enumerate 0 (chunks 256 data))"
  obtain s' where "io_each (\<lambda>cmd. io_bind (request mock_ops crc32_ieee cmd [RC_OK])
      (\<lambda>_. io_return ())) ?cmds s = Ret (Inr (), s')"
    using mock_each_acked [of s ?cmds crc32_ieee]
    by (auto simp: s_def demo_session_def demo_config_def config_new_def m_def)
  then have w: "calib_write mock_ops crc32_ieee (render calib_template) 2 256 data s = Ret (Inr (), s')"
    using calib_commands_documented [of 0 "[of_nat 2]" 256 data]
    by (simp add: calib_write_def calib_id_def io_bind_res t n)
      (simp add: s_def demo_session_def demo_config_def config_new_def)
  from calib_write_wire_format [OF w t] w show ?thesis unfolding data_def by blast
qed

end
