(* ===== verification/Telemetry.thy ===== *)
theory Telemetry
  imports Tune_Reach
begin

text \<open>
  Realtime decoding: \<open>ts-ini/src/telemetry.rs\<close>, with the fallback symbol sources of the
  server (\<open>Defaults\<close> and \<open>PcOverlay\<close> of \<open>server/src/definition.rs\<close>, \<open>Extra\<close> of
  \<open>server/src/comms.rs\<close>).

  The frame is the symbol source of its derived channels; as for the tune, \<open>tel_syms def
  block extra d\<close> has room for \<open>d\<close> nested lookups.  Values pass through \<open>f64\<close> before a
  bit field is cut out of them, unlike in the tune: \<open>bits_channel_value\<close> shows what this
  does to signed channels.
\<close>

subsection \<open>Channels\<close>

definition tel_read_raw :: "bytes \<Rightarrow> nat \<Rightarrow> data_type \<Rightarrow> f64 option" where
  "tel_read_raw block offset ty = map_option f_of_int (read_raw block offset ty)"

definition tel_channel :: "ini_def \<Rightarrow> bytes \<Rightarrow> symbols \<Rightarrow> string \<Rightarrow> val option run" where
  "tel_channel def block S name =
     (case im_get (i_output_channels def) name of
        None \<Rightarrow> Ret None
      | Some (Ch_scalar ty offset units scale translate) \<Rightarrow>
          ro_bind (Ret (tel_read_raw block offset ty)) (\<lambda>raw.
          ro_bind (run_ok (num_or_expr_eval S scale)) (\<lambda>s.
          ro_bind (run_ok (num_or_expr_eval S translate)) (\<lambda>tr.
            ro_return (VNum (fadd (fmul raw s) tr)))))
      | Some (Ch_bits ty offset lo hi) \<Rightarrow>
          ro_bind (Ret (tel_read_raw block offset ty)) (\<lambda>raw.
            ro_return (VNum (f_of_int (uint (field_get (word_of_int (f_as_u64 raw)) lo hi)))))
      | Some (Ch_derived e units) \<Rightarrow> run_ok (eval S e))"

definition tel_value ::
    "ini_def \<Rightarrow> bytes \<Rightarrow> symbols option \<Rightarrow> symbols \<Rightarrow> string \<Rightarrow> val option run" where
  "tel_value def block extra S name =
     (if im_get (i_output_channels def) name \<noteq> None then tel_channel def block S name
      else case extra of None \<Rightarrow> Ret None | Some x \<Rightarrow> sy_value x name)"

text \<open>The trait's default \<open>array_value\<close> applies: a frame has no arrays.\<close>

primrec tel_syms :: "ini_def \<Rightarrow> bytes \<Rightarrow> symbols option \<Rightarrow> nat \<Rightarrow> symbols" where
  "tel_syms def block extra 0 =
     \<lparr>sy_value = (\<lambda>n. Crash StackOverflow), sy_bit_string = (\<lambda>l i. Ret (label_at def l i)),
      sy_array_value = (\<lambda>n i. Ret None)\<rparr>"
| "tel_syms def block extra (Suc d) =
     \<lparr>sy_value = tel_value def block extra (tel_syms def block extra d),
      sy_bit_string = (\<lambda>l i. Ret (label_at def l i)), sy_array_value = (\<lambda>n i. Ret None)\<rparr>"

subsection \<open>Fallback sources\<close>

definition defaults_from_ini :: "ini_def \<Rightarrow> string \<rightharpoonup> f64" where
  "defaults_from_ini def =
     map_of (rev (List.map_filter (\<lambda>(name, txt). map_option (Pair name) (parse_f64 (trim txt)))
       (i_default_values def)))"

definition defaults_syms :: "(string \<rightharpoonup> f64) \<Rightarrow> symbols" where
  "defaults_syms m = empty_symbols\<lparr>sy_value := (\<lambda>name. Ret (map_option VNum (m name)))\<rparr>"

definition overlay_syms :: "tune \<Rightarrow> (string \<rightharpoonup> f64) \<Rightarrow> symbols" where
  "overlay_syms t m = empty_symbols\<lparr>sy_value := (\<lambda>name.
     Ret (case pc_value t name of Some v \<Rightarrow> Some (VNum v) | None \<Rightarrow> map_option VNum (m name)))\<rparr>"

definition extra_syms :: "(string \<rightharpoonup> f64) \<Rightarrow> f64 \<Rightarrow> symbols" where
  "extra_syms m now = empty_symbols\<lparr>sy_value := (\<lambda>name.
     if name = ''timeNow'' then Ret (Some (VNum now)) else sy_value (defaults_syms m) name)\<rparr>"

subsection \<open>Bit channels\<close>

lemma f_as_u64_int:
  assumes "\<bar>raw\<bar> < 2 ^ 53"
  shows "f_as_u64 (f_of_int raw) = max 0 raw"
proof (cases "0 \<le> raw")
  case True
  then show ?thesis using assms by (simp add: f_of_int_exact f_as_of_int)
next
  case False
  have "trunc_rat (of_int raw) = raw" by simp
  then show ?thesis using False assms by (simp add: f_of_int_exact)
qed

lemma tel_raw_small: "in_range ty raw \<Longrightarrow> \<bar>raw\<bar> < 2 ^ 53"
  by (cases ty) (auto simp: in_range_def)

text \<open>
  A bits channel is the field cut out of the raw value when that is not negative.  The
  raw value passes through \<open>f64\<close> and \<open>as u64\<close> saturates, so on a signed channel whose top
  bit is set every field reads as 0, whatever its bits are.
\<close>

theorem bits_channel_value:
  assumes "im_get (i_output_channels def) name = Some (Ch_bits ty offset lo hi)"
  shows "tel_channel def block S name = Ret (map_option
    (\<lambda>raw. VNum (if raw < 0 then fzero else f_of_int (uint (field_get (word_of_int raw) lo hi))))
    (read_raw block offset ty))"
proof (cases "read_raw block offset ty")
  case None
  then show ?thesis by (simp add: tel_channel_def assms tel_read_raw_def)
next
  case (Some raw)
  have "f_as_u64 (f_of_int raw) = max 0 raw"
    by (intro f_as_u64_int tel_raw_small [OF read_raw_range [OF Some]])
  moreover have "field_get 0 lo hi = 0" by (simp add: field_get_def)
  moreover have "f_of_int 0 = fzero" by (simp add: f_of_int_exact)
  ultimately show ?thesis using Some by (simp add: tel_channel_def assms tel_read_raw_def)
qed

text \<open>The same byte, as a signed and as an unsigned channel: bit 7 and bit 0 are set.\<close>

definition bits_def :: ini_def where
  "bits_def = ini_default\<lparr>i_output_channels := [(''s'', Ch_bits S08 0 0 0), (''u'', Ch_bits U08 0 0 0)]\<rparr>"

theorem bits_channel_value_witness:
  "\<forall>S. tel_channel bits_def [0x81] S ''s'' = Ret (Some (VNum fzero)) \<and>
    tel_channel bits_def [0x81] S ''u'' = Ret (Some (VNum (f_of_int 1)))"
proof
  fix S
  have ch: "im_get (i_output_channels bits_def) ''s'' = Some (Ch_bits S08 0 0 0)"
    "im_get (i_output_channels bits_def) ''u'' = Some (Ch_bits U08 0 0 0)"
    by (simp_all add: bits_def_def im_get_def)
  have "read_raw [0x81] 0 S08 = Some (- 127)" "read_raw [0x81] 0 U08 = Some 129"
    "uint (field_get (word_of_int 129) 0 0) = 1"
    by (simp_all add: read_raw_def slice_get_def decode_raw_def field_get_def field_mask_def field_width_def)
  then show "tel_channel bits_def [0x81] S ''s'' = Ret (Some (VNum fzero)) \<and>
      tel_channel bits_def [0x81] S ''u'' = Ret (Some (VNum (f_of_int 1)))"
    using bits_channel_value [OF ch(1), of "[0x81]" S] bits_channel_value [OF ch(2), of "[0x81]" S] by simp
qed

subsection \<open>Frames decode\<close>

definition channel_uses :: "output_channel \<Rightarrow> sym_use set" where
  "channel_uses ch =
     (case ch of
        Ch_scalar ty offset units scale translate \<Rightarrow> field_uses scale \<union> field_uses translate
      | Ch_bits ty offset lo hi \<Rightarrow> {}
      | Ch_derived e units \<Rightarrow> uses e)"

lemma tel_channel_returns:
  assumes "\<And>ch u. im_get (i_output_channels def) name = Some ch \<Longrightarrow> u \<in> channel_uses ch \<Longrightarrow> safe S u"
  shows "returns (tel_channel def block S name)"
  using assms
  by (cases "im_get (i_output_channels def) name")
    (auto simp: tel_channel_def channel_uses_def split: output_channel.splits
      intro!: returns_intros field_eval_returns eval_returns)

text \<open>No channel is defined, directly or through others, by itself.\<close>

definition channels_acyclic :: "ini_def \<Rightarrow> (string \<Rightarrow> nat) \<Rightarrow> bool" where
  "channels_acyclic def rank \<longleftrightarrow>
     (\<forall>name ch n. im_get (i_output_channels def) name = Some ch \<longrightarrow> Use_value n \<in> channel_uses ch \<longrightarrow>
        rank n < rank name)"

lemma tel_settles:
  assumes "channels_acyclic def rank" "\<And>x name. extra = Some x \<Longrightarrow> returns (sy_value x name)"
  shows "rank name < d \<Longrightarrow> returns (sy_value (tel_syms def block extra d) name)"
proof (induction "rank name" arbitrary: name d rule: less_induct)
  case less
  obtain k where d: "d = Suc k" using less.prems by (cases d) auto
  have "safe (tel_syms def block extra k) u"
    if "im_get (i_output_channels def) name = Some ch" "u \<in> channel_uses ch" for ch u
  proof (cases u)
    case (Use_value n)
    then have "rank n < rank name" using assms(1) that by (auto simp: channels_acyclic_def)
    then show ?thesis using less.hyps [of n k] less.prems Use_value by (simp add: d safe_def)
  qed (cases k; simp add: safe_def)+
  then have "returns (tel_channel def block (tel_syms def block extra k) name)"
    by (rule tel_channel_returns)
  then show ?case using assms(2) by (auto simp: d tel_value_def split: option.splits)
qed

lemma tel_safe:
  assumes "channels_acyclic def rank" "\<And>x name. extra = Some x \<Longrightarrow> returns (sy_value x name)"
    "\<And>name. u = Use_value name \<Longrightarrow> rank name < d"
  shows "safe (tel_syms def block extra d) u"
proof (cases u)
  case (Use_value n)
  then show ?thesis
    using tel_settles [OF assms(1,2), of extra n d block] assms(3) by (simp add: safe_def)
qed (cases d; simp add: safe_def)+

lemma extra_returns: "returns (sy_value (extra_syms m now) name)" "returns (sy_value (defaults_syms m) name)"
  "returns (sy_value (overlay_syms t m) name)"
  by (simp_all add: extra_syms_def defaults_syms_def overlay_syms_def)

text \<open>
  A channel defined by itself, which the definition parser accepts, overflows the stack whenever
  it is looked up, however deep the stack is.
\<close>

theorem cyclic_channel_overflows:
  assumes "im_get (i_output_channels def) name = Some (Ch_derived (EIdent name) units)"
  shows "sy_value (tel_syms def block extra d) name = Crash StackOverflow \<and>
    tel_channel def block (tel_syms def block extra d) name = Crash StackOverflow"
proof -
  have "sy_value (tel_syms def block extra d) name = Crash StackOverflow"
  proof (induction d)
    case (Suc d)
    then show ?case by (simp add: tel_value_def tel_channel_def assms run_ok_def)
  qed simp
  then show ?thesis by (simp add: tel_channel_def assms run_ok_def)
qed

theorem cyclic_channel_overflows_witness:
  "tel_channel (ini_default\<lparr>i_output_channels := [(''a'', Ch_derived (EIdent ''a'') None)]\<rparr>) []
    (tel_syms (ini_default\<lparr>i_output_channels := [(''a'', Ch_derived (EIdent ''a'') None)]\<rparr>) [] None 100000) ''a''
    = Crash StackOverflow"
  by (rule cyclic_channel_overflows [THEN conjunct2]) (simp add: im_get_def)

end
