(* ===== verification/Datalog.thy ===== *)
theory Datalog
  imports Telemetry Decimal_Text Transport
begin

text \<open>
  The data log: \<open>datalog/src/lib.rs\<close>, columns of a log, the writer and the reader of
  \<open>.msl\<close> files.

  A file of the operating system is its text so far and the outcomes of the coming calls on
  it (\<open>df_faults\<close>: a failing call has written some prefix); with no outcome left, calls
  succeed.  Times are nanoseconds.  A log that was written without a fault reads back with
  the values rounded as printed (\<open>log_reads_back\<close>).
\<close>

subsection \<open>Cells and columns\<close>

datatype cell_format = Fmt_int | Fmt_fixed nat

definition cell_format_parse :: "string \<Rightarrow> cell_format" where
  "cell_format_parse s0 =
     (let s = trim s0
      in if ends_with ''d'' s then Fmt_int
         else case Option.bind (Option.bind (strip_prefix ''%.'' s) (strip_suffix ''f'')) (parse_uint 8) of
             Some n \<Rightarrow> Fmt_fixed n
           | None \<Rightarrow> Fmt_fixed 3)"

fun cell_render :: "cell_format \<Rightarrow> f64 \<Rightarrow> string" where
  "cell_render Fmt_int v = show_int (f_as_i64 (fround v))"
| "cell_render (Fmt_fixed p) v = show_fixed p v"

record column =
  col_channel :: string
  col_label :: string
  col_units :: string
  col_format :: cell_format

definition channel_units :: "ini_def \<Rightarrow> symbols \<Rightarrow> string \<Rightarrow> string run" where
  "channel_units def S channel =
     (case im_get (i_output_channels def) channel of
        Some (Ch_derived e units) \<Rightarrow> Ret (or_val [] units)
      | Some (Ch_scalar ty off (Some u) scale translate) \<Rightarrow>
          run_map (\<lambda>s. trim_in {CHR 0x22} (or_val [] s)) (run_ok (str_or_expr_eval S u))
      | _ \<Rightarrow> Ret [])"

text \<open>A condition that fails to evaluate, or yields text, keeps its column.\<close>

definition entry_included :: "ini_def \<Rightarrow> symbols \<Rightarrow> datalog_entry \<Rightarrow> bool run" where
  "entry_included def S e =
     (if im_get (i_output_channels def) (dl_channel e) = None then Ret False
      else case dl_condition e of
          None \<Rightarrow> Ret True
        | Some cond \<Rightarrow>
            run_map (\<lambda>r. case r of Inr (VNum n) \<Rightarrow> \<not> feq n fzero | _ \<Rightarrow> True) (eval S cond))"

fun log_columns_of :: "ini_def \<Rightarrow> symbols \<Rightarrow> datalog_entry list \<Rightarrow> column list run" where
  "log_columns_of def S [] = Ret []"
| "log_columns_of def S (e # es) =
     run_bind (entry_included def S e) (\<lambda>inc.
       if inc then
         run_bind (channel_units def S (dl_channel e)) (\<lambda>units.
         run_map (\<lambda>cs. \<lparr>col_channel = dl_channel e, col_label = dl_label e, col_units = units,
             col_format = cell_format_parse (dl_format e)\<rparr> # cs) (log_columns_of def S es))
       else log_columns_of def S es)"

definition log_columns :: "ini_def \<Rightarrow> symbols \<Rightarrow> column list run" where
  "log_columns def S = log_columns_of def S (i_datalog def)"

subsection \<open>Files\<close>

record disk_file =
  df_text :: string
  df_faults :: "(io_error \<times> nat) option list"

fun df_write :: "string \<Rightarrow> disk_file \<Rightarrow> (io_error + unit) \<times> disk_file" where
  "df_write s f =
     (case df_faults f of
        Some (e, n) # r \<Rightarrow> (Inl e, \<lparr>df_text = df_text f @ take n s, df_faults = r\<rparr>)
      | r \<Rightarrow> (Inr (), \<lparr>df_text = df_text f @ s, df_faults = tl r\<rparr>))"

fun df_sync :: "disk_file \<Rightarrow> (io_error + unit) \<times> disk_file" where
  "df_sync f =
     (case df_faults f of
        Some (e, n) # r \<Rightarrow> (Inl e, f\<lparr>df_faults := r\<rparr>)
      | r \<Rightarrow> (Inr (), f\<lparr>df_faults := tl r\<rparr>))"

subsection \<open>The writer\<close>

definition FSYNC_INTERVAL :: nat where "FSYNC_INTERVAL = 10 ^ 9"

record msl_writer =
  mw_file :: disk_file
  mw_path :: string
  mw_columns :: "column list"
  mw_rows :: nat
  mw_last_sync :: nat

definition crlf :: string where "crlf = [CHR 0x0D, CHR 0x0A]"

definition tab :: string where "tab = [CHR 0x09]"

definition msl_header :: "string \<Rightarrow> column list \<Rightarrow> string" where
  "msl_header title cols =
     title @ crlf @ str_join tab (map col_label cols) @ crlf @ str_join tab (map col_units cols) @ crlf"

text \<open>The first argument is what \<open>File::create(path)\<close> gave.\<close>

definition msl_create ::
    "io_error + disk_file \<Rightarrow> nat \<Rightarrow> string \<Rightarrow> string \<Rightarrow> column list \<Rightarrow> io_error + msl_writer" where
  "msl_create created now path title cols =
     res_bind created (\<lambda>f.
       case df_write (msl_header title cols) f of
         (Inl e, f1) \<Rightarrow> Inl e
       | (Inr u, f1) \<Rightarrow> Inr \<lparr>mw_file = f1, mw_path = path, mw_columns = cols, mw_rows = 0, mw_last_sync = now\<rparr>)"

text \<open>Cells are separated by tabs; \<open>zip\<close> stops at the shorter of values and columns.\<close>

definition row_text :: "column list \<Rightarrow> f64 option list \<Rightarrow> string" where
  "row_text cols values =
     str_join tab (map (\<lambda>(v, col). case v of None \<Rightarrow> [] | Some x \<Rightarrow> cell_render (col_format col) x)
       (zip values cols)) @ crlf"

definition write_row :: "nat \<Rightarrow> f64 option list \<Rightarrow> msl_writer \<Rightarrow> (io_error + unit) \<times> msl_writer" where
  "write_row now values w =
     (case df_write (row_text (mw_columns w) values) (mw_file w) of
        (Inl e, f1) \<Rightarrow> (Inl e, w\<lparr>mw_file := f1\<rparr>)
      | (Inr u, f1) \<Rightarrow>
          (let w1 = w\<lparr>mw_file := f1, mw_rows := (mw_rows w + 1) mod 2 ^ 64\<rparr>
           in if FSYNC_INTERVAL \<le> now - mw_last_sync w then
                (case df_sync f1 of (r, f2) \<Rightarrow> (r, w1\<lparr>mw_file := f2, mw_last_sync := now\<rparr>))
              else (Inr (), w1)))"

text \<open>\<open>flush\<close> of a \<open>File\<close> does nothing; \<open>sync_all\<close> may fail.\<close>

definition msl_finish :: "msl_writer \<Rightarrow> io_error + string" where
  "msl_finish w = (case df_sync (mw_file w) of (Inl e, f) \<Rightarrow> Inl e | (Inr u, f) \<Rightarrow> Inr (mw_path w))"

subsection \<open>The reader\<close>

record msl_data =
  ms_title :: string
  ms_labels :: "string list"
  ms_units :: "string list"
  ms_rows :: nat
  ms_columns :: "f64 option list list"

definition msl_lines :: "string \<Rightarrow> string list" where
  "msl_lines txt = map (trim_end_in {CHR 0x0D}) (split_on CHR 0x0A txt)"

definition is_row :: "string \<Rightarrow> bool" where
  "is_row line \<longleftrightarrow> line \<noteq> [] \<and> \<not> starts_with ''MARK'' line"

text \<open>One cell per label; a short row gives empty cells.\<close>

definition row_cells :: "nat \<Rightarrow> string \<Rightarrow> f64 option list" where
  "row_cells n line =
     (let cells = split_on CHR 0x09 line
      in map (\<lambda>i. Option.bind (list_get cells i) (\<lambda>c. parse_f64 (trim c))) [0 ..< n])"

definition add_row :: "f64 option list list \<Rightarrow> f64 option list \<Rightarrow> f64 option list list" where
  "add_row cols cells = map (\<lambda>(col, v). col @ [v]) (zip cols cells)"

definition read_msl :: "string \<Rightarrow> string + msl_data" where
  "read_msl txt =
     (case msl_lines txt of
        [] \<Rightarrow> Inl ''empty file''
      | [title] \<Rightarrow> Inl ''missing label line''
      | title # label_line # rest \<Rightarrow>
          (let labels = split_on CHR 0x09 label_line
           in if length labels < 2 then Inl ''not an MSL file (no tab-separated labels)''
              else case rest of
                  [] \<Rightarrow> Inl ''missing units line''
                | unit_line # lines \<Rightarrow>
                    (let rows = map (row_cells (length labels)) (filter is_row lines)
                     in Inr \<lparr>ms_title = title, ms_labels = labels, ms_units = split_on CHR 0x09 unit_line,
                          ms_rows = length rows,
                          ms_columns = foldl add_row (replicate (length labels) []) rows\<rparr>)))"

subsection \<open>Lines and cells\<close>

lemma split_on_lines:
  assumes "\<forall>l \<in> set ls. CHR 0x0A \<notin> set l"
  shows "split_on CHR 0x0A (concat (map (\<lambda>l. l @ crlf) ls)) = map (\<lambda>l. l @ [CHR 0x0D]) ls @ [[]]"
  using assms
proof (induction ls)
  case (Cons l ls)
  then show ?case
    using split_on_append [of "CHR 0x0A" "l @ [CHR 0x0D]"] by (simp add: crlf_def)
qed simp

lemma trim_end_in_snoc: "c \<in> C \<Longrightarrow> trim_end_in C (s @ [c]) = trim_end_in C s"
  by (simp add: trim_end_in_def)

lemma trim_end_in_id: "\<forall>c \<in> C. c \<notin> set s \<Longrightarrow> trim_end_in C s = s"
  by (cases s rule: rev_cases) (auto simp: trim_end_in_def)

lemma msl_lines_concat:
  assumes "\<forall>l \<in> set ls. CHR 0x0A \<notin> set l \<and> CHR 0x0D \<notin> set l"
  shows "msl_lines (concat (map (\<lambda>l. l @ crlf) ls)) = ls @ [[]]"
proof -
  have "map (trim_end_in {CHR 0x0D}) (map (\<lambda>l. l @ [CHR 0x0D]) ls) = ls"
    using assms by (auto simp: trim_end_in_snoc trim_end_in_id intro!: map_idI)
  moreover have "trim_end_in {CHR 0x0D} [] = []" by (simp add: trim_end_in_def)
  ultimately show ?thesis using assms by (simp add: msl_lines_def split_on_lines)
qed

lemma join_tab_Cons: "ps \<noteq> [] \<Longrightarrow> str_join tab (p # ps) = p @ CHR 0x09 # str_join tab ps"
  by (simp add: tab_def str_join_Cons)

lemma split_join_tab:
  "ps \<noteq> [] \<Longrightarrow> \<forall>p \<in> set ps. CHR 0x09 \<notin> set p \<Longrightarrow> split_on CHR 0x09 (str_join tab ps) = ps"
  by (simp add: tab_def split_on_join)

lemma set_join_tab: "set (str_join tab ps) \<subseteq> insert CHR 0x09 (\<Union>p \<in> set ps. set p)"
proof (induction ps)
  case (Cons p ps)
  then show ?case by (cases "ps = []") (auto simp: join_tab_Cons)
qed simp

subsection \<open>What a cell reads back as\<close>

fun cell_value :: "cell_format \<Rightarrow> f64 \<Rightarrow> f64" where
  "cell_value Fmt_int v = to_f64 (f_as_i64 (fround v) < 0) (of_int (f_as_i64 (fround v)))"
| "cell_value (Fmt_fixed p) v =
     (if is_neg v then to_f64 True (- fixed_val p v) else to_f64 False (fixed_val p v))"

lemma cell_number: "is_finite v \<Longrightarrow> number_text (cell_render fmt v)"
  by (cases fmt) (simp_all add: number_text_int number_text_fixed)

lemma parse_cell: "is_finite v \<Longrightarrow> parse_f64 (trim (cell_render fmt v)) = Some (cell_value fmt v)"
  using trim_number [OF cell_number, of v fmt]
  by (cases fmt) (simp_all add: parse_show_int parse_show_fixed)

lemma number_chars:
  "number_text s \<Longrightarrow> c \<in> set s \<Longrightarrow> 33 \<le> code c \<and> code c < 127 \<and> code c \<noteq> 77"
  by (auto simp: number_text_def list_all_iff is_digit_def)

lemma parse_empty: "parse_f64 [] = None"
  by (simp add: parse_f64_def parse_decimal_def span_digits_def to_ascii_lowercase_def)

definition cell_texts :: "column list \<Rightarrow> f64 option list \<Rightarrow> string list" where
  "cell_texts cols values =
     map (\<lambda>(v, col). case v of None \<Rightarrow> [] | Some x \<Rightarrow> cell_render (col_format col) x) (zip values cols)"

text \<open>Finite values, one per column.\<close>

definition log_row :: "column list \<Rightarrow> f64 option list \<Rightarrow> bool" where
  "log_row cols values \<longleftrightarrow> length values = length cols \<and> (\<forall>v. Some v \<in> set values \<longrightarrow> is_finite v)"

lemma cell_text_nth:
  "log_row cols values \<Longrightarrow> j < length cols \<Longrightarrow> cell_texts cols values ! j =
     (case values ! j of None \<Rightarrow> [] | Some x \<Rightarrow> cell_render (col_format (cols ! j)) x)"
  by (simp add: cell_texts_def log_row_def)

lemma cell_text_chars:
  assumes "log_row cols values" "p \<in> set (cell_texts cols values)" "c \<in> set p"
  shows "33 \<le> code c \<and> code c < 127 \<and> code c \<noteq> 77"
  using assms number_chars [OF cell_number]
  by (fastforce simp: cell_texts_def log_row_def dest: set_zip_leftD split: option.splits)

lemma row_text_join: "row_text cols values = str_join tab (cell_texts cols values) @ crlf"
  by (simp add: row_text_def cell_texts_def)

lemma row_line:
  assumes "log_row cols values" "2 \<le> length cols"
  defines "line \<equiv> str_join tab (cell_texts cols values)"
  shows "CHR 0x0A \<notin> set line" "CHR 0x0D \<notin> set line" "is_row line"
    "split_on CHR 0x09 line = cell_texts cols values"
proof -
  have chars: "c = CHR 0x09 \<or> 33 \<le> code c \<and> code c \<noteq> 77" if "c \<in> set line" for c
    using that set_join_tab [of "cell_texts cols values"] cell_text_chars [OF assms(1)]
    by (fastforce simp: line_def)
  then show "CHR 0x0A \<notin> set line" "CHR 0x0D \<notin> set line" by fastforce+
  have len: "length (cell_texts cols values) = length cols"
    using assms(1) by (simp add: cell_texts_def log_row_def)
  then obtain p ps where ps: "cell_texts cols values = p # ps" "ps \<noteq> []"
    using assms(2)
    by (cases "cell_texts cols values"; cases "tl (cell_texts cols values)") auto
  then have ne: "line \<noteq> []" by (simp add: line_def join_tab_Cons)
  then obtain c r where line: "line = c # r" by (cases line) auto
  then have "code c \<noteq> 77" using chars [of c] by auto
  then have "c \<noteq> CHR ''M''" by auto
  then show "is_row line" using line by (simp add: is_row_def starts_with_def)
  have "\<forall>p \<in> set (cell_texts cols values). CHR 0x09 \<notin> set p"
    using cell_text_chars [OF assms(1)] by fastforce
  then show "split_on CHR 0x09 line = cell_texts cols values"
    unfolding line_def using ps by (intro split_join_tab) auto
qed

lemma row_cells_log:
  assumes "log_row cols values" "2 \<le> length cols"
  shows "row_cells (length cols) (str_join tab (cell_texts cols values)) =
    map (\<lambda>j. map_option (cell_value (col_format (cols ! j))) (values ! j)) [0 ..< length cols]"
proof -
  have "Option.bind (list_get (cell_texts cols values) j) (\<lambda>c. parse_f64 (trim c)) =
      map_option (cell_value (col_format (cols ! j))) (values ! j)" if "j < length cols" for j
  proof -
    have len: "j < length (cell_texts cols values)"
      using assms(1) that by (simp add: cell_texts_def log_row_def)
    have "values ! j \<in> set values" using assms(1) that by (simp add: log_row_def)
    then have "is_finite v" if "values ! j = Some v" for v
      using assms(1) that by (auto simp: log_row_def)
    then show ?thesis
      using parse_cell len cell_text_nth [OF assms(1) that] by (cases "values ! j") (auto simp: parse_empty)
  qed
  then show ?thesis by (simp add: row_cells_def row_line(4) [OF assms])
qed

lemma add_rows_nth:
  assumes "\<forall>r \<in> set rows. length r = length cols"
  shows "length (foldl add_row cols rows) = length cols \<and>
    (\<forall>j < length cols. foldl add_row cols rows ! j = cols ! j @ map (\<lambda>r. r ! j) rows)"
  using assms
proof (induction rows arbitrary: cols)
  case (Cons r rows)
  have "length (add_row cols r) = length cols" "\<forall>j < length cols. add_row cols r ! j = cols ! j @ [r ! j]"
    using Cons.prems by (simp_all add: add_row_def)
  with Cons.IH [of "add_row cols r"] Cons.prems show ?case by simp
qed simp

subsection \<open>Writing and reading a log\<close>

definition clean :: "string \<Rightarrow> bool" where
  "clean s \<longleftrightarrow> CHR 0x0A \<notin> set s \<and> CHR 0x0D \<notin> set s"

definition clean_cell :: "string \<Rightarrow> bool" where
  "clean_cell s \<longleftrightarrow> clean s \<and> CHR 0x09 \<notin> set s"

text \<open>The rows of a log, each with the time of its write.\<close>

definition write_rows :: "(nat \<times> f64 option list) list \<Rightarrow> msl_writer \<Rightarrow> msl_writer" where
  "write_rows rows w = foldl (\<lambda>w (now, vs). snd (write_row now vs w)) w rows"

lemma write_row_ok:
  assumes "df_faults (mw_file w) = []"
  shows "fst (write_row now vs w) = Inr () \<and> df_faults (mw_file (snd (write_row now vs w))) = [] \<and>
    mw_columns (snd (write_row now vs w)) = mw_columns w \<and>
    df_text (mw_file (snd (write_row now vs w))) = df_text (mw_file w) @ row_text (mw_columns w) vs"
  using assms by (simp add: write_row_def Let_def)

lemma write_rows_text:
  "df_faults (mw_file w) = [] \<Longrightarrow> df_text (mw_file (write_rows rows w)) =
     df_text (mw_file w) @ concat (map (row_text (mw_columns w) \<circ> snd) rows)"
proof (induction rows arbitrary: w)
  case (Cons r rows)
  obtain now vs where r: "r = (now, vs)" by (cases r)
  show ?case
    using Cons.IH [of "snd (write_row now vs w)"] Cons.prems write_row_ok [OF Cons.prems, of now vs]
    by (simp add: write_rows_def r)
qed (simp add: write_rows_def)

lemma log_text_lines:
  "msl_header title cols @ concat (map (row_text cols \<circ> snd) rows) =
     concat (map (\<lambda>l. l @ crlf) (title # str_join tab (map col_label cols) # str_join tab (map col_units cols) #
       map (str_join tab \<circ> cell_texts cols \<circ> snd) rows))"
  by (simp add: msl_header_def row_text_join comp_def)

lemma read_msl_lines:
  assumes "msl_lines txt = title # label_line # unit_line # ls" "split_on CHR 0x09 label_line = labels"
    "2 \<le> length labels"
  shows "read_msl txt = Inr \<lparr>ms_title = title, ms_labels = labels, ms_units = split_on CHR 0x09 unit_line,
    ms_rows = length (map (row_cells (length labels)) (filter is_row ls)),
    ms_columns = foldl add_row (replicate (length labels) []) (map (row_cells (length labels)) (filter is_row ls))\<rparr>"
  using assms by (simp add: read_msl_def Let_def)

lemma clean_join: "\<forall>p \<in> set ps. clean_cell p \<Longrightarrow> clean (str_join tab ps)"
  using set_join_tab [of ps] by (fastforce simp: clean_def clean_cell_def)

text \<open>
  C31. A data log reads back: from a log written without an input or output error, the reader
  gets the title, the labels, the units, the number of rows, and for every cell the value
  rounded the way its column prints it, an empty cell for a missing value.
\<close>

theorem log_reads_back:
  assumes "msl_create (Inr \<lparr>df_text = [], df_faults = []\<rparr>) now path title cols = Inr w"
    and "clean title" "\<forall>c \<in> set cols. clean_cell (col_label c) \<and> clean_cell (col_units c)" "2 \<le> length cols"
    and rows: "\<forall>r \<in> set rows. log_row cols (snd r)"
  shows "\<exists>d. read_msl (df_text (mw_file (write_rows rows w))) = Inr d \<and> ms_title d = title \<and>
    ms_labels d = map col_label cols \<and> ms_units d = map col_units cols \<and> ms_rows d = length rows \<and>
    length (ms_columns d) = length cols \<and>
    (\<forall>j < length cols. ms_columns d ! j =
       map (\<lambda>r. map_option (cell_value (col_format (cols ! j))) (snd r ! j)) rows)"
proof -
  let ?labels = "str_join tab (map col_label cols)" and ?units = "str_join tab (map col_units cols)"
  let ?body = "map (str_join tab \<circ> cell_texts cols \<circ> snd) rows"
  have w: "mw_columns w = cols" "df_faults (mw_file w) = []" "df_text (mw_file w) = msl_header title cols"
    using assms(1) by (auto simp: msl_create_def)
  have ne: "map col_label cols \<noteq> []" "map col_units cols \<noteq> []" using assms(4) by auto
  have "\<forall>l \<in> set (title # ?labels # ?units # ?body). CHR 0x0A \<notin> set l \<and> CHR 0x0D \<notin> set l"
    using assms(2,3) clean_join [of "map col_label cols"] clean_join [of "map col_units cols"]
      row_line(1,2) rows assms(4) by (auto simp: clean_def)
  then have lines: "msl_lines (df_text (mw_file (write_rows rows w))) = title # ?labels # ?units # ?body @ [[]]"
    unfolding write_rows_text [OF w(2)] w(1,3) log_text_lines by (subst msl_lines_concat) auto
  have split: "split_on CHR 0x09 ?labels = map col_label cols" "split_on CHR 0x09 ?units = map col_units cols"
    using assms(3) ne by (auto simp: clean_cell_def intro!: split_join_tab)
  have is_rows: "filter is_row (?body @ [[]]) = ?body"
    using row_line(3) rows assms(4) by (auto simp: is_row_def [of "[]"] filter_id_conv)
  define cells where "cells = map (row_cells (length cols)) ?body"
  have read: "read_msl (df_text (mw_file (write_rows rows w))) = Inr \<lparr>ms_title = title,
      ms_labels = map col_label cols, ms_units = map col_units cols, ms_rows = length cells,
      ms_columns = foldl add_row (replicate (length cols) []) cells\<rparr>"
    using read_msl_lines [OF lines split(1)] assms(4) by (simp only: is_rows split(2) cells_def length_map)
  have cells: "cells = map (\<lambda>r. map (\<lambda>j. map_option (cell_value (col_format (cols ! j))) (snd r ! j))
      [0 ..< length cols]) rows"
    using rows row_cells_log assms(4) by (simp add: cells_def)
  then have "\<forall>r \<in> set cells. length r = length (replicate (length cols) ([] :: f64 option list))" by auto
  note nth = add_rows_nth [OF this]
  have "length cells = length rows" by (simp add: cells)
  moreover have "map (\<lambda>r. r ! j) cells = map (\<lambda>r. map_option (cell_value (col_format (cols ! j))) (snd r ! j)) rows"
    if "j < length cols" for j using that by (simp add: cells comp_def)
  ultimately show ?thesis using nth by (simp add: read)
qed

definition sample_columns :: "column list" where
  "sample_columns = [\<lparr>col_channel = ''rpm'', col_label = ''RPM'', col_units = ''rpm'', col_format = Fmt_int\<rparr>,
     \<lparr>col_channel = ''afr'', col_label = ''AFR'', col_units = [], col_format = Fmt_fixed 1\<rparr>]"

theorem log_reads_back_witness:
  "\<exists>w d. msl_create (Inr \<lparr>df_text = [], df_faults = []\<rparr>) 0 [] ''log'' sample_columns = Inr w \<and>
    read_msl (df_text (mw_file (write_rows [(5, [Some (Fin 900), None]), (6, [None, Some (Fin (29 / 2))])] w))) = Inr d \<and>
    ms_rows d = 2"
proof -
  obtain w where w: "msl_create (Inr \<lparr>df_text = [], df_faults = []\<rparr>) 0 [] ''log'' sample_columns = Inr w"
    by (simp add: msl_create_def)
  have "clean ''log''" "\<forall>c \<in> set sample_columns. clean_cell (col_label c) \<and> clean_cell (col_units c)"
    "2 \<le> length sample_columns"
    by (simp_all add: sample_columns_def clean_def clean_cell_def)
  moreover have "\<forall>r \<in> set [(5, [Some (Fin 900), None]), (6::nat, [None, Some (Fin (29 / 2))])].
      log_row sample_columns (snd r)"
    by (simp add: log_row_def sample_columns_def)
  ultimately show ?thesis using log_reads_back [OF w] w by fastforce
qed

end
