(* ===== verification/Engine_Shutdown.thy ===== *)
theory Engine_Shutdown
  imports F64 RustStr
begin

text \<open>
  The engine-stop monitor of \<open>server/src/comms.rs\<close> and the checks on its settings in
  \<open>server/src/config.rs\<close>.  Instants are nanoseconds on a monotonic clock.

  The monitor is a small state machine fed with one sample per frame; \<open>should_fire\<close> says
  over the whole history when the shutdown request is due, and \<open>monitor_refines\<close> that the
  machine requests it exactly then, once.
\<close>

record shutdown_config =
  es_enabled :: bool
  es_arm_rpm :: f64
  es_stop_rpm :: f64
  es_delay_seconds :: nat

definition shutdown_config_default :: shutdown_config where
  "shutdown_config_default =
     \<lparr>es_enabled = False, es_arm_rpm = f_of_int 500, es_stop_rpm = f_of_int 50, es_delay_seconds = 15\<rparr>"

text \<open>\<open>RuntimeConfig::validate\<close>, on the fields it reads.\<close>

definition config_validate :: "string option \<Rightarrow> shutdown_config \<Rightarrow> string + unit" where
  "config_validate master_pin c =
     (if (case master_pin of None \<Rightarrow> False | Some pin \<Rightarrow> length pin \<noteq> 6 \<or> \<not> list_all is_digit pin)
      then Inl ''authentication.master_pin must contain exactly six digits''
      else if \<not> is_finite (es_stop_rpm c) \<or> flt (es_stop_rpm c) fzero
      then Inl ''engine_shutdown.stop_rpm must be a finite non-negative number''
      else if \<not> is_finite (es_arm_rpm c) \<or> fle (es_arm_rpm c) (es_stop_rpm c)
      then Inl ''engine_shutdown.arm_rpm must be greater than stop_rpm''
      else if \<not> (1 \<le> es_delay_seconds c \<and> es_delay_seconds c \<le> 600)
      then Inl ''engine_shutdown.delay_seconds must be between 1 and 600''
      else Inr ())"

record monitor =
  mo_config :: shutdown_config
  mo_armed :: bool
  mo_stopped_since :: "nat option"
  mo_requested :: bool

definition monitor_new :: "shutdown_config \<Rightarrow> monitor" where
  "monitor_new c = \<lparr>mo_config = c, mo_armed = False, mo_stopped_since = None, mo_requested = False\<rparr>"

definition delay_ns :: "shutdown_config \<Rightarrow> nat" where
  "delay_ns c = es_delay_seconds c * 10 ^ 9"

definition observe :: "f64 option \<Rightarrow> nat \<Rightarrow> monitor \<Rightarrow> bool \<times> monitor" where
  "observe rpm now m =
     (if \<not> es_enabled (mo_config m) \<or> mo_requested m then (False, m)
      else case (case rpm of Some v \<Rightarrow> if is_finite v then Some v else None | None \<Rightarrow> None) of
          None \<Rightarrow> (False, m\<lparr>mo_stopped_since := None\<rparr>)
        | Some v \<Rightarrow>
            if fle (es_arm_rpm (mo_config m)) v
            then (False, m\<lparr>mo_armed := True, mo_stopped_since := None\<rparr>)
            else if \<not> mo_armed m \<or> flt (es_stop_rpm (mo_config m)) v
            then (False, m\<lparr>mo_stopped_since := None\<rparr>)
            else
              (let since = (case mo_stopped_since m of Some s \<Rightarrow> s | None \<Rightarrow> now)
               in if delay_ns (mo_config m) \<le> now - since
                  then (True, m\<lparr>mo_stopped_since := Some since, mo_requested := True\<rparr>)
                  else (False, m\<lparr>mo_stopped_since := Some since\<rparr>)))"

subsection \<open>The specification over histories\<close>

type_synonym sample = "f64 option \<times> nat"

text \<open>The samples of a history that show a running engine, and a stopped one.\<close>

definition arms :: "shutdown_config \<Rightarrow> sample \<Rightarrow> bool" where
  "arms c s \<longleftrightarrow> (\<exists>v. fst s = Some v \<and> is_finite v \<and> fle (es_arm_rpm c) v)"

definition stopped :: "shutdown_config \<Rightarrow> sample \<Rightarrow> bool" where
  "stopped c s \<longleftrightarrow>
     (\<exists>v. fst s = Some v \<and> is_finite v \<and> \<not> fle (es_arm_rpm c) v \<and> \<not> flt (es_stop_rpm c) v)"

text \<open>The time of the first sample of the unbroken run of stopped samples at the end.\<close>

definition stopped_from :: "shutdown_config \<Rightarrow> sample list \<Rightarrow> nat option" where
  "stopped_from c h =
     (case takeWhile (stopped c) (rev h) of [] \<Rightarrow> None | s # ss \<Rightarrow> Some (snd (last (s # ss))))"

definition should_fire :: "shutdown_config \<Rightarrow> sample list \<Rightarrow> bool" where
  "should_fire c h \<longleftrightarrow>
     es_enabled c \<and> (\<exists>s \<in> set h. arms c s) \<and>
     (\<exists>t. stopped_from c h = Some t \<and> delay_ns c \<le> snd (last h) - t)"

text \<open>Feeding a history: the answers and the last state.\<close>

fun monitor_run :: "sample list \<Rightarrow> monitor \<Rightarrow> bool list \<times> monitor" where
  "monitor_run [] m = ([], m)"
| "monitor_run (s # h) m =
     (let (b, m1) = observe (fst s) (snd s) m; (bs, m2) = monitor_run h m1 in (b # bs, m2))"

lemma monitor_run_append:
  "monitor_run (h1 @ h2) m =
     (let (b1, m1) = monitor_run h1 m; (b2, m2) = monitor_run h2 m1 in (b1 @ b2, m2))"
  by (induction h1 arbitrary: m) (auto split: prod.splits)

lemma monitor_run_length: "length (fst (monitor_run h m)) = length h"
  by (induction h arbitrary: m) (simp_all add: case_prod_beta)

lemma stopped_from_snoc:
  "stopped_from c (h @ [s]) =
     (if stopped c s then Some (case stopped_from c h of Some t \<Rightarrow> t | None \<Rightarrow> snd s) else None)"
  by (auto simp: stopped_from_def split: list.splits)

lemma stopped_not_arms: "stopped c s \<Longrightarrow> \<not> arms c s"
  by (auto simp: stopped_def arms_def)

text \<open>The state the monitor has after a history on which it has not fired.\<close>

definition monitor_state :: "shutdown_config \<Rightarrow> sample list \<Rightarrow> monitor" where
  "monitor_state c h =
     \<lparr>mo_config = c, mo_armed = (\<exists>s \<in> set h. arms c s),
      mo_stopped_since = (if \<exists>s \<in> set h. arms c s then stopped_from c h else None),
      mo_requested = False\<rparr>"

lemma observe_state:
  assumes "es_enabled c"
  shows "observe (fst s) (snd s) (monitor_state c h) =
    (if should_fire c (h @ [s])
     then (True, (monitor_state c (h @ [s]))\<lparr>mo_requested := True\<rparr>)
     else (False, monitor_state c (h @ [s])))"
proof (cases "fst s")
  case None
  then have "\<not> arms c s" "\<not> stopped c s" by (simp_all add: arms_def stopped_def)
  then show ?thesis
    using None assms
    by (auto simp: observe_def monitor_state_def should_fire_def stopped_from_snoc)
next
  case (Some v)
  show ?thesis
  proof (cases "is_finite v")
    case False
    then have "\<not> arms c s" "\<not> stopped c s" using Some by (simp_all add: arms_def stopped_def)
    then show ?thesis
      using Some False assms
      by (auto simp: observe_def monitor_state_def should_fire_def stopped_from_snoc)
  next
    case True
    then have "arms c s \<longleftrightarrow> fle (es_arm_rpm c) v"
      "stopped c s \<longleftrightarrow> \<not> fle (es_arm_rpm c) v \<and> \<not> flt (es_stop_rpm c) v"
      using Some by (simp_all add: arms_def stopped_def)
    then show ?thesis
      using Some True assms stopped_not_arms [of c s]
      by (auto simp: observe_def monitor_state_def should_fire_def stopped_from_snoc Let_def
          split: option.splits)
  qed
qed

text \<open>The request is due at position \<open>n\<close> of the history and was not due before.\<close>

definition first_due :: "shutdown_config \<Rightarrow> sample list \<Rightarrow> nat \<Rightarrow> bool" where
  "first_due c h n \<longleftrightarrow>
     should_fire c (take (Suc n) h) \<and> (\<forall>k < n. \<not> should_fire c (take (Suc k) h))"

lemma first_due_snoc: "n < length h \<Longrightarrow> first_due c (h @ [s]) n = first_due c h n"
  by (auto simp: first_due_def)

lemma monitor_run_spec:
  assumes "es_enabled c"
  shows "(\<forall>n < length h. fst (monitor_run h (monitor_new c)) ! n \<longleftrightarrow> first_due c h n) \<and>
    (if \<exists>n < length h. should_fire c (take (Suc n) h) then mo_requested (snd (monitor_run h (monitor_new c)))
     else snd (monitor_run h (monitor_new c)) = monitor_state c h)"
proof (induction h rule: rev_induct)
  case Nil
  show ?case by (simp add: monitor_new_def monitor_state_def stopped_from_def)
next
  case (snoc s h)
  obtain bs m where run: "monitor_run h (monitor_new c) = (bs, m)" by (cases "monitor_run h (monitor_new c)")
  obtain b m1 where ob: "observe (fst s) (snd s) m = (b, m1)" by (cases "observe (fst s) (snd s) m")
  have len: "length bs = length h" using monitor_run_length [of h "monitor_new c"] run by simp
  have run1: "monitor_run (h @ [s]) (monitor_new c) = (bs @ [b], m1)"
    by (simp add: monitor_run_append run ob)
  have old: "(bs @ [b]) ! n \<longleftrightarrow> first_due c (h @ [s]) n" if "n < length h" for n
    using snoc.IH that len by (simp add: run nth_append first_due_snoc)
  show ?case
  proof (cases "\<exists>n < length h. should_fire c (take (Suc n) h)")
    case True
    have "mo_requested (snd (monitor_run h (monitor_new c)))"
      using snoc.IH unfolding if_P [OF True] by (rule conjunct2)
    then have "mo_requested m" by (simp add: run)
    then have "b = False \<and> m1 = m" using ob by (simp add: observe_def)
    moreover have "\<not> first_due c (h @ [s]) (length h)" using True by (auto simp: first_due_def)
    moreover have "\<exists>n < length (h @ [s]). should_fire c (take (Suc n) (h @ [s]))"
      using True by (auto intro: less_SucI)
    ultimately show ?thesis using old len \<open>mo_requested m\<close> by (auto simp: run1 nth_append less_Suc_eq)
  next
    case False
    have "snd (monitor_run h (monitor_new c)) = monitor_state c h"
      using snoc.IH unfolding if_not_P [OF False] by (rule conjunct2)
    then have m: "m = monitor_state c h" by (simp add: run)
    have due: "first_due c (h @ [s]) (length h) \<longleftrightarrow> should_fire c (h @ [s])"
      "(\<exists>n < length (h @ [s]). should_fire c (take (Suc n) (h @ [s]))) \<longleftrightarrow> should_fire c (h @ [s])"
      using False by (auto simp: first_due_def less_Suc_eq)
    show ?thesis
      using observe_state [OF assms, of s h] ob old len due
      by (auto simp: run1 nth_append less_Suc_eq m split: if_splits)
  qed
qed

text \<open>
  C29. The engine-stop monitor implements its specification: it requests the shutdown at the
  first sample at which the engine has run before and has shown stopped, without a gap or a
  contrary sample, for the configured time; it requests it once, and never when disabled.
\<close>

theorem monitor_refines:
  "list_all2 (\<lambda>n fired. fired \<longleftrightarrow> first_due c h n) [0 ..< length h] (fst (monitor_run h (monitor_new c)))"
proof (cases "es_enabled c")
  case True
  then show ?thesis
    using monitor_run_spec [OF True, of h] by (simp add: list_all2_conv_all_nth monitor_run_length)
next
  case False
  have "monitor_run h (monitor_new c) = (replicate (length h) False, monitor_new c)"
    using False by (induction h) (simp_all add: observe_def monitor_new_def)
  then show ?thesis using False by (simp add: list_all2_conv_all_nth first_due_def should_fire_def)
qed

lemma finite_compare:
  assumes "is_finite x" "is_finite y"
  shows "flt x y \<longleftrightarrow> fval x < fval y" "fle x y \<longleftrightarrow> fval x \<le> fval y"
  using assms by (cases x; cases y; auto simp: fle_def)+

text \<open>
  Settings that pass validation make sense to the monitor: the stop threshold lies below
  the arm threshold, a sample at or below it counts as stopped and never as running, a
  stopped engine waits at least a second, and a PIN is six digits.
\<close>

theorem validated_config:
  assumes "config_validate pin c = Inr ()"
  shows "fval (es_stop_rpm c) < fval (es_arm_rpm c) \<and> 10 ^ 9 \<le> delay_ns c \<and>
    (case pin of None \<Rightarrow> True | Some p \<Rightarrow> length p = 6 \<and> list_all is_digit p) \<and>
    (\<forall>v t. is_finite v \<and> fval v \<le> fval (es_stop_rpm c) \<longrightarrow>
       stopped c (Some v, t) \<and> \<not> arms c (Some v, t))"
proof -
  have c: "is_finite (es_stop_rpm c)" "is_finite (es_arm_rpm c)" "\<not> fle (es_arm_rpm c) (es_stop_rpm c)"
      "1 \<le> es_delay_seconds c"
    and pin: "case pin of None \<Rightarrow> True | Some p \<Rightarrow> length p = 6 \<and> list_all is_digit p"
    using assms by (auto simp: config_validate_def split: if_splits option.splits)
  then have lt: "fval (es_stop_rpm c) < fval (es_arm_rpm c)" by (simp add: finite_compare)
  have "1 * 10 ^ 9 \<le> delay_ns c" using c(4) unfolding delay_ns_def by (rule mult_le_mono1)
  moreover have "stopped c (Some v, t) \<and> \<not> arms c (Some v, t)"
    if "is_finite v" "fval v \<le> fval (es_stop_rpm c)" for v t
    using that c lt by (simp add: stopped_def arms_def finite_compare)
  ultimately show ?thesis using lt pin by simp
qed

text \<open>The default settings pass.\<close>

theorem validated_config_witness: "10 ^ 9 \<le> delay_ns shutdown_config_default"
proof -
  have "f_of_int 500 = Fin 500" "f_of_int 50 = Fin 50"
    using f_of_int_exact [of 500] f_of_int_exact [of 50] by simp_all
  then have "config_validate None shutdown_config_default = Inr ()"
    by (simp add: config_validate_def shutdown_config_default_def fle_def)
  from validated_config [OF this] show ?thesis by blast
qed

end
