(* ===== verification/Log_Retention.thy ===== *)
theory Log_Retention
  imports Transport RustStr "HOL-Library.Multiset"
begin

text \<open>
  Pruning of old logs: \<open>prune_logs\<close> of \<open>server/src/comms.rs\<close>.

  The directory is the list of entries \<open>read_dir\<close> yields, each with its path and what
  \<open>metadata()\<close> and \<open>modified()\<close> give; removing a file is the parameter \<open>remove\<close>, the
  error of the operating system for a path, if any.  Times are nanoseconds.
\<close>

record dir_entry =
  de_path :: string
  de_size :: "nat option"
  de_modified :: "nat option"

text \<open>\<open>Path::file_name\<close> of a path without trailing slash, and \<open>Path::extension\<close>.\<close>

definition file_name :: "string \<Rightarrow> string" where
  "file_name p = last (split_on CHR ''/'' p)"

definition extension :: "string \<Rightarrow> string option" where
  "extension p =
     (let parts = split_on CHR ''.'' (file_name p)
      in if length parts < 2 \<or> (length parts = 2 \<and> hd parts = []) then None else Some (last parts))"

text \<open>The candidates: modification time, size and path of every other log of the folder.\<close>

text \<open>\<open>Path::join\<close> with a relative name.\<close>

definition path_join :: "string \<Rightarrow> string \<Rightarrow> string" where
  "path_join dir name =
     (if dir = [] then name else if last dir = CHR ''/'' then dir @ name else dir @ ''/'' @ name)"

definition prune_candidates :: "string option \<Rightarrow> dir_entry list \<Rightarrow> (nat \<times> nat \<times> string) list" where
  "prune_candidates active entries =
     List.map_filter (\<lambda>e.
       if extension (de_path e) = Some ''msl'' \<and> active \<noteq> Some (de_path e) then
         (case (de_size e, de_modified e) of
            (Some n, Some t) \<Rightarrow> Some (t, n, de_path e)
          | _ \<Rightarrow> None)
       else None) entries"

text \<open>
  The removal loop over the candidates, oldest first: the paths removed and the last error
  message.
\<close>

fun prune_loop ::
    "nat \<Rightarrow> (string \<Rightarrow> string option) \<Rightarrow> nat \<Rightarrow> (nat \<times> nat \<times> string) list \<Rightarrow> string list \<Rightarrow> string option
      \<Rightarrow> string list \<times> string option" where
  "prune_loop retention remove used [] removed err = (removed, err)"
| "prune_loop retention remove used ((t, n, p) # fs) removed err =
     (if used \<le> retention then (removed, err)
      else case remove p of
          None \<Rightarrow> prune_loop retention remove (used - n) fs (removed @ [p]) err
        | Some e \<Rightarrow>
            prune_loop retention remove used fs removed (Some (''log retention '' @ p @ '': '' @ e)))"

definition prune_logs ::
    "nat \<Rightarrow> string option \<Rightarrow> dir_entry list option \<Rightarrow> (string \<Rightarrow> string option) \<Rightarrow> string option
      \<Rightarrow> string list \<times> string option" where
  "prune_logs retention active listing remove err =
     (if retention = 0 then ([], err)
      else case listing of
          None \<Rightarrow> ([], err)
        | Some entries \<Rightarrow>
            (let files = sort_key fst (prune_candidates active entries)
             in prune_loop retention remove (sum_list (map (fst \<circ> snd) files) mod 2 ^ 64) files [] err))"

subsection \<open>What is removed\<close>

text \<open>The size of the candidates that stay when the removable ones of a prefix are removed.\<close>

definition size_of :: "(nat \<times> nat \<times> string) list \<Rightarrow> nat" where
  "size_of fs = sum_list (map (fst \<circ> snd) fs)"

definition removable :: "(string \<Rightarrow> string option) \<Rightarrow> (nat \<times> nat \<times> string) list \<Rightarrow> (nat \<times> nat \<times> string) list" where
  "removable remove fs = filter (\<lambda>f. remove (snd (snd f)) = None) fs"

lemma size_of_simps [simp]:
  "size_of [] = 0" "size_of (f # fs) = fst (snd f) + size_of fs" "size_of (fs @ gs) = size_of fs + size_of gs"
  by (simp_all add: size_of_def)

lemma size_removable: "size_of (removable remove fs) \<le> size_of fs"
  by (induction fs) (auto simp: removable_def)

text \<open>
  The loop tries a prefix of the candidates: before each of them the logs left exceeded the
  limit, and after them they fit, unless all were tried.
\<close>

definition prune_spec ::
    "nat \<Rightarrow> (string \<Rightarrow> string option) \<Rightarrow> nat \<Rightarrow> (nat \<times> nat \<times> string) list \<Rightarrow> string list \<Rightarrow> bool" where
  "prune_spec retention remove used fs gone \<longleftrightarrow>
     (\<exists>k \<le> length fs. gone = map (snd \<circ> snd) (removable remove (take k fs)) \<and>
        (\<forall>j < k. retention < used - size_of (removable remove (take j fs))) \<and>
        (k < length fs \<longrightarrow> used - size_of (removable remove (take k fs)) \<le> retention))"

lemma prune_loop_spec:
  "\<exists>gone err1. prune_loop retention remove used fs removed err = (removed @ gone, err1) \<and>
     prune_spec retention remove used fs gone"
proof (induction fs arbitrary: used removed err)
  case Nil
  show ?case by (simp add: prune_spec_def removable_def)
next
  case (Cons f fs)
  obtain t n p where f: "f = (t, n, p)" by (cases f) auto
  show ?case
  proof (cases "used \<le> retention")
    case True
    then show ?thesis by (auto simp: f prune_spec_def removable_def intro!: exI [of _ 0])
  next
    case False
    define rest where "rest = (if remove p = None then used - n else used)"
    obtain gone err1 where IH: "prune_loop retention remove rest fs (removed @ (if remove p = None then [p] else []))
        (case remove p of None \<Rightarrow> err | Some e \<Rightarrow> Some (''log retention '' @ p @ '': '' @ e)) =
      ((removed @ (if remove p = None then [p] else [])) @ gone, err1)" "prune_spec retention remove rest fs gone"
      using Cons.IH by blast
    obtain k where k: "k \<le> length fs" "gone = map (snd \<circ> snd) (removable remove (take k fs))"
      "\<forall>j < k. retention < rest - size_of (removable remove (take j fs))"
      "k < length fs \<longrightarrow> rest - size_of (removable remove (take k fs)) \<le> retention"
      using IH(2) unfolding prune_spec_def by blast
    have shift: "used - size_of (removable remove (take (Suc j) (f # fs))) = rest - size_of (removable remove (take j fs))"
      for j by (auto simp: f rest_def removable_def)
    have "retention < used - size_of (removable remove (take j (f # fs)))" if "j < Suc k" for j
      using that k(3) False shift by (cases j) (auto simp: removable_def)
    then have "prune_spec retention remove used (f # fs) ((if remove p = None then [p] else []) @ gone)"
      unfolding prune_spec_def
      using k shift [of k] by (intro exI [of _ "Suc k"]) (auto simp: f removable_def)
    then show ?thesis using IH(1) False by (auto simp: f rest_def split: if_splits option.splits)
  qed
qed

text \<open>
  C30. Retention removes the oldest logs first and no more than needed: it tries a prefix of
  the other logs ordered by age, as long as those left exceed the limit; so afterwards they
  fit, unless every one was tried.  The active log is never removed.
\<close>

theorem retention_exact:
  fixes files :: "(nat \<times> nat \<times> string) list"
  assumes "0 < retention" "sum_list (map (fst \<circ> snd) (prune_candidates active entries)) < 2 ^ 64"
  defines "files \<equiv> sort_key fst (prune_candidates active entries)"
  shows "\<exists>gone err1. prune_logs retention active (Some entries) remove err = (gone, err1) \<and>
    prune_spec retention remove (size_of files) files gone \<and>
    sorted (map fst files) \<and> mset files = mset (prune_candidates active entries) \<and>
    (\<forall>p. active = Some p \<longrightarrow> p \<notin> set gone)"
proof -
  have "mset files = mset (prune_candidates active entries)" by (simp add: files_def)
  then have sum: "size_of files = sum_list (map (fst \<circ> snd) (prune_candidates active entries))"
    unfolding size_of_def by (metis mset_map sum_mset_sum_list)
  obtain gone err1 where run: "prune_loop retention remove (size_of files) files [] err = (gone, err1)"
    "prune_spec retention remove (size_of files) files gone"
    using prune_loop_spec [of retention remove "size_of files" files "[]" err] by auto
  have "prune_logs retention active (Some entries) remove err = (gone, err1)"
    using assms(1,2) run(1) sum by (simp add: prune_logs_def Let_def size_of_def flip: files_def)
  moreover have "p \<notin> set gone" if "active = Some p" for p
  proof -
    have "set gone \<subseteq> (snd \<circ> snd) ` set files"
      using run(2) by (force simp: prune_spec_def removable_def dest: in_set_takeD)
    moreover have "p \<notin> (snd \<circ> snd) ` set (prune_candidates active entries)"
      using that by (auto simp: prune_candidates_def map_filter_def split: option.splits if_splits)
    ultimately show ?thesis by (auto simp: files_def)
  qed
  ultimately show ?thesis using run(2) by (auto simp: files_def)
qed

text \<open>Three logs of 60 bytes and an active one, at most 100: the two oldest go.\<close>

definition sample_logs :: "dir_entry list" where
  "sample_logs = [\<lparr>de_path = ''l/b.msl'', de_size = Some 60, de_modified = Some 2\<rparr>,
     \<lparr>de_path = ''l/now.msl'', de_size = Some 60, de_modified = Some 9\<rparr>,
     \<lparr>de_path = ''l/a.msl'', de_size = Some 60, de_modified = Some 1\<rparr>,
     \<lparr>de_path = ''l/c.msl'', de_size = Some 60, de_modified = Some 3\<rparr>]"

lemma sample_candidates: "prune_candidates (Some ''l/now.msl'') sample_logs =
    [(2, 60, ''l/b.msl''), (1, 60, ''l/a.msl''), (3, 60, ''l/c.msl'')]"
  by (simp add: prune_candidates_def sample_logs_def extension_def file_name_def Let_def map_filter_simps)

theorem retention_exact_witness:
  "fst (prune_logs 100 (Some ''l/now.msl'') (Some sample_logs) (\<lambda>p. None) None) = [''l/a.msl'', ''l/b.msl''] \<and>
    (\<exists>gone err1. prune_logs 100 (Some ''l/now.msl'') (Some sample_logs) (\<lambda>p. None) None = (gone, err1) \<and>
      ''l/now.msl'' \<notin> set gone)"
proof
  show "fst (prune_logs 100 (Some ''l/now.msl'') (Some sample_logs) (\<lambda>p. None) None) = [''l/a.msl'', ''l/b.msl'']"
    by (simp add: prune_logs_def sample_candidates Let_def sort_key_simps)
  show "\<exists>gone err1. prune_logs 100 (Some ''l/now.msl'') (Some sample_logs) (\<lambda>p. None) None = (gone, err1) \<and>
      ''l/now.msl'' \<notin> set gone"
    using retention_exact [of 100 "Some ''l/now.msl''" sample_logs "\<lambda>p. None" None]
    by (auto simp: sample_candidates)
qed

end
