(* ===== verification/F64_Mono.thy ===== *)
theory F64_Mono
  imports F64
begin

text \<open>
  Rounding is monotone, and so are the operations of \<open>f64\<close> whose result is finite: what the
  properties of curves computed in floating point rest on.
\<close>

lemma round_half_even_mono: "q \<le> r \<Longrightarrow> round_half_even q \<le> round_half_even r"
proof (cases "\<lfloor>q\<rfloor> = \<lfloor>r\<rfloor>")
  case True
  assume "q \<le> r"
  with True show ?thesis by (auto simp: round_half_even_def Let_def)
next
  case False
  assume "q \<le> r"
  then have "\<lfloor>q\<rfloor> \<le> \<lfloor>r\<rfloor>" by (rule floor_mono)
  with False have "\<lfloor>q\<rfloor> + 1 \<le> \<lfloor>r\<rfloor>" by simp
  then show ?thesis by (auto simp: round_half_even_def Let_def)
qed

lemma round_half_even_minus: "round_half_even (- q) = - round_half_even q"
proof (cases "q = of_int \<lfloor>q\<rfloor>")
  case True
  then have "round_half_even (of_int (- \<lfloor>q\<rfloor>)) = - \<lfloor>q\<rfloor>" by (simp only: round_half_even_int)
  moreover have "round_half_even q = \<lfloor>q\<rfloor>" using True round_half_even_int by metis
  ultimately show ?thesis using True by (metis of_int_minus)
next
  case False
  then have lt: "of_int \<lfloor>q\<rfloor> < q" using of_int_floor_le [of q] by linarith
  then have f: "\<lfloor>- q\<rfloor> = - \<lfloor>q\<rfloor> - 1" by (intro floor_unique) (simp; linarith)+
  show ?thesis using lt by (auto simp: round_half_even_def Let_def f)
qed

lemma ulp_exp_minus [simp]: "ulp_exp (- q) = ulp_exp q"
  by (simp add: ulp_exp_def)

lemma rnd_rat_minus: "rnd_rat (- q) = - rnd_rat q"
  by (simp add: rnd_rat_def Let_def round_half_even_minus)

lemma rnd_rat_int_mult:
  assumes "q \<noteq> 0" "of_int m * 2 powi (ulp_exp q) = b"
  shows "b \<le> q \<Longrightarrow> b \<le> rnd_rat q" "q \<le> b \<Longrightarrow> rnd_rat q \<le> b"
proof -
  let ?u = "(2::rat) powi (ulp_exp q)"
  have u: "0 < ?u" by simp
  have r: "rnd_rat q = of_int (round_half_even (q / ?u)) * ?u" using assms(1) by (simp add: rnd_rat_def Let_def)
  have b: "b / ?u = of_int m" using assms(2) u by (simp add: field_simps)
  show "b \<le> rnd_rat q" if "b \<le> q"
  proof -
    have "b / ?u \<le> q / ?u" using that u by (intro divide_right_mono) simp_all
    then have "m \<le> round_half_even (q / ?u)" using round_half_even_mono [of "of_int m"] by (simp add: b)
    then have "of_int m * ?u \<le> of_int (round_half_even (q / ?u)) * ?u"
      using u by (intro mult_right_mono) simp_all
    then show ?thesis using assms(2) r by simp
  qed
  show "rnd_rat q \<le> b" if "q \<le> b"
  proof -
    have "q / ?u \<le> b / ?u" using that u by (intro divide_right_mono) simp_all
    then have "round_half_even (q / ?u) \<le> m" using round_half_even_mono [of _ "of_int m"] by (simp add: b)
    then have "of_int (round_half_even (q / ?u)) * ?u \<le> of_int m * ?u"
      using u by (intro mult_right_mono) simp_all
    then show ?thesis using assms(2) r by simp
  qed
qed

lemma rnd_rat_nonneg: "0 \<le> q \<Longrightarrow> 0 \<le> rnd_rat q"
  using rnd_rat_int_mult(1) [of q 0 0] by (cases "q = 0") simp_all

lemma powi_multiple: "e \<le> k \<Longrightarrow> of_int (2 ^ nat (k - e)) * (2::rat) powi e = 2 powi k"
  using powi_add [of "k - e" e] by (simp add: power_int_def)

lemma rnd_rat_mono_pos:
  assumes "0 < q" "q \<le> r"
  shows "rnd_rat q \<le> rnd_rat r"
proof -
  have r0: "0 < r" using assms by simp
  have bq: "2 powi ilog2 q \<le> q" "q < 2 powi (ilog2 q + 1)" using ilog2_bounds [OF assms(1)] by simp_all
  have br: "2 powi ilog2 r \<le> r" "r < 2 powi (ilog2 r + 1)" using ilog2_bounds [OF r0] by simp_all
  have "(2::rat) powi ilog2 q < 2 powi (ilog2 r + 1)" using bq(1) br(2) assms(2) by linarith
  then have le: "ilog2 q \<le> ilog2 r" by (simp add: powi_less_iff)
  then have ule: "ulp_exp q \<le> ulp_exp r" using assms by (simp add: ulp_exp_def)
  show ?thesis
  proof (cases "ulp_exp q = ulp_exp r")
    case True
    let ?u = "(2::rat) powi (ulp_exp r)"
    have "q / ?u \<le> r / ?u" using assms(2) by (intro divide_right_mono) simp_all
    then have "round_half_even (q / ?u) \<le> round_half_even (r / ?u)" by (rule round_half_even_mono)
    then have "of_int (round_half_even (q / ?u)) * ?u \<le> of_int (round_half_even (r / ?u)) * ?u"
      by (intro mult_right_mono) simp_all
    then show ?thesis using assms(1) r0 True by (simp add: rnd_rat_def Let_def)
  next
    case False
    let ?k = "ilog2 r"
    have k: "ulp_exp r = ?k - 52" "ulp_exp q < ?k" "ilog2 q < ?k"
      using False ule le assms(1) r0 by (auto simp: ulp_exp_def split: if_splits)
    have "q \<le> 2 powi ?k"
      using bq(2) powi_mono [of "ilog2 q + 1" ?k] k(3) by linarith
    then have "rnd_rat q \<le> 2 powi ?k"
      using rnd_rat_int_mult(2) [OF _ powi_multiple [of "ulp_exp q" ?k]] k(2) assms(1) by simp
    moreover have "2 powi ?k \<le> rnd_rat r"
      using rnd_rat_int_mult(1) [OF _ powi_multiple [of "ulp_exp r" ?k]] k(1) br(1) r0 by simp
    ultimately show ?thesis by simp
  qed
qed

lemma rnd_rat_mono: "q \<le> r \<Longrightarrow> rnd_rat q \<le> rnd_rat r"
proof (cases "0 < q")
  case False
  assume le: "q \<le> r"
  show ?thesis
  proof (cases "0 \<le> r")
    case True
    have "rnd_rat q \<le> 0" using rnd_rat_nonneg [of "- q"] False by (simp add: rnd_rat_minus)
    with rnd_rat_nonneg [OF True] show ?thesis by linarith
  next
    case False
    then show ?thesis using rnd_rat_mono_pos [of "- r" "- q"] le by (simp add: rnd_rat_minus)
  qed
qed (rule rnd_rat_mono_pos)

lemma round_away_mono: "q \<le> r \<Longrightarrow> round_away q \<le> round_away r"
  by (auto simp: round_away_def intro!: floor_mono) linarith+

subsection \<open>Finite results\<close>

lemma fval_to_f64: "is_finite (to_f64 b q) \<Longrightarrow> fval (to_f64 b q) = rnd_rat q"
  by (auto simp: to_f64_def Let_def split: if_splits)

lemma finite_fadd: "is_finite (fadd x y) \<Longrightarrow> is_finite x \<and> is_finite y \<and> fval (fadd x y) = rnd_rat (fval x + fval y)"
  by (cases x; cases y) (auto simp: fadd_def fval_to_f64)

lemma finite_fmul: "is_finite (fmul x y) \<Longrightarrow> is_finite x \<and> is_finite y \<and> fval (fmul x y) = rnd_rat (fval x * fval y)"
  by (cases x; cases y) (auto simp: fmul_def Let_def fval_to_f64 inf_of_def split: if_splits)

lemma finite_fdiv:
  "is_finite (fdiv x y) \<Longrightarrow> is_finite y \<Longrightarrow> is_finite x \<and> fval (fdiv x y) = rnd_rat (fval x / fval y)"
  by (cases x; cases y) (auto simp: fdiv_def Let_def fval_to_f64 inf_of_def zero_of_def split: if_splits)

end
