(* ===== verification/Afr_Curve.thy ===== *)
theory Afr_Curve
  imports F64_Mono Tune_Codec Expr_Eval
begin

text \<open>
  The AFR calibration table of \<open>server/src/calibration.rs\<close>: the check of the definition, the
  linear curve between two points, the curves of the definition file's solutions and the
  presets offered to the user.

  The table is an ADC-indexed curve in tenths of AFR.  \<open>afr_table_monotone\<close>: with every
  rounding of the floating point evaluation, a table that is accepted is nondecreasing.
\<close>

record preset =
  ps_name :: string
  ps_volts_low :: f64
  ps_afr_low :: f64
  ps_volts_high :: f64
  ps_afr_high :: f64

record linear =
  ln_volts_low :: f64
  ln_afr_low :: f64
  ln_volts_high :: f64
  ln_afr_high :: f64
  ln_preset :: "string option"

definition write_template :: string where
  "write_template = ''t'' @ [CHR 0x5C] @ ''$tsCanId%2i%2o%2c%v''"

definition crc_template :: string where
  "crc_template = ''k'' @ [CHR 0x5C] @ ''$tsCanId%2i%2o%2c''"

definition metadata :: "ini_def \<Rightarrow> string + afr_calibration" where
  "metadata def =
     (case i_afr_calibration def of
        None \<Rightarrow> Inl ''INI has no AFR calibration definition''
      | Some c \<Rightarrow>
          if ac_identifier c \<noteq> 2 \<or> ac_adc_count c \<noteq> 1024 \<or> ac_bytes_per_adc c \<noteq> 1
             \<or> \<not> feq (ac_scale c) (Fin 10) \<or> ac_blocking_factor c = 0 \<or> 256 < ac_blocking_factor c
             \<or> ac_blocking_factor c mod 32 \<noteq> 0 \<or> ac_write_command c \<noteq> write_template
             \<or> h_table_crc_command (i_header def) \<noteq> Some crc_template
          then Inl ''Unsupported AFR calibration definition''
          else Inr c)"

definition encode_afr :: "f64 \<Rightarrow> f64 \<Rightarrow> string + u8" where
  "encode_afr afr scale =
     (let v = fround (fmul afr scale)
      in if \<not> is_finite v \<or> \<not> (fle fzero v \<and> fle v (Fin 255))
         then Inl ''Curve exceeds the ECU AFR range at 0 or 5 V''
         else Inr (of_int (f_as_u8 v)))"

definition bad_points :: "linear \<Rightarrow> bool" where
  "bad_points l \<longleftrightarrow>
     \<not> (is_finite (ln_volts_low l) \<and> is_finite (ln_volts_high l) \<and> is_finite (ln_afr_low l) \<and> is_finite (ln_afr_high l))
     \<or> flt (ln_volts_low l) fzero \<or> flt (Fin 5) (ln_volts_high l) \<or> fle (ln_volts_high l) (ln_volts_low l)
     \<or> fle (ln_afr_low l) fzero \<or> fle (ln_afr_high l) (ln_afr_low l)"

definition points_error :: string where
  "points_error = ''Use increasing voltage points within 0'' @ [CHR 0xE2, CHR 0x80, CHR 0x93] @
     ''5 V and positive, increasing AFR points''"

definition slope :: "linear \<Rightarrow> f64" where
  "slope l = fdiv (fsub (ln_afr_high l) (ln_afr_low l)) (fsub (ln_volts_high l) (ln_volts_low l))"

definition curve_afr :: "linear \<Rightarrow> nat \<Rightarrow> nat \<Rightarrow> f64" where
  "curve_afr l n adc =
     fadd (ln_afr_low l)
       (fmul (fsub (fdiv (fmul (f_of_int (int adc)) (Fin 5)) (f_of_int (int n - 1))) (ln_volts_low l)) (slope l))"

definition linear_curve :: "afr_calibration \<Rightarrow> linear \<Rightarrow> string + bytes" where
  "linear_curve cal l =
     res_mapM (\<lambda>adc. encode_afr (curve_afr l (ac_adc_count cal) adc) (ac_scale cal)) [0 ..< ac_adc_count cal]"

text \<open>\<open>Linear::table\<close> of points without a preset name.\<close>

definition points_table :: "ini_def \<Rightarrow> linear \<Rightarrow> string + bytes" where
  "points_table def l =
     res_bind (metadata def) (\<lambda>cal. if bad_points l then Inl points_error else linear_curve cal l)"

definition adc_syms :: "f64 \<Rightarrow> symbols" where
  "adc_syms x = empty_symbols\<lparr>sy_value := (\<lambda>name. Ret (if name = ''adcValue'' then Some (VNum x) else None))\<rparr>"

definition solution_cell :: "f64 \<Rightarrow> expr \<Rightarrow> nat \<Rightarrow> (string + u8) run" where
  "solution_cell scale e adc =
     run_map (\<lambda>r. case r of Inr (VNum v) \<Rightarrow> encode_afr v scale | _ \<Rightarrow> Inl ''Unavailable curve'')
       (eval (adc_syms (f_of_int (int adc))) e)"

definition solution_number :: "expr \<Rightarrow> f64 \<Rightarrow> f64 run" where
  "solution_number e adc = run_map (\<lambda>r. case r of Inr (VNum v) \<Rightarrow> v | _ \<Rightarrow> fzero) (eval (adc_syms adc) e)"

definition solution_preset :: "afr_calibration \<Rightarrow> string \<times> expr \<Rightarrow> (preset \<times> bytes) list run" where
  "solution_preset cal s =
     run_bind (rr_mapM (solution_cell (ac_scale cal) (snd s)) [0 ..< ac_adc_count cal]) (\<lambda>table.
       case table of
         Inl e \<Rightarrow> Ret []
       | Inr t \<Rightarrow>
           run_bind (solution_number (snd s) fzero) (\<lambda>low.
           run_map (\<lambda>high. [(\<lparr>ps_name = fst s, ps_volts_low = fzero, ps_afr_low = low,
               ps_volts_high = Fin 5, ps_afr_high = high\<rparr>, t)])
             (solution_number (snd s) (Fin 1023))))"

text \<open>The two sensors the program knows, each put in front when its curve can be built.\<close>

definition aem_sensors :: "(string \<times> f64 \<times> f64 \<times> f64 \<times> f64) list" where
  "aem_sensors =
     [(''AEM X-Series 30-0300'', Fin (1 / 2), Fin (17 / 2), Fin (9 / 2), Fin 18),
      (''AEM Classic 30-4110 (0'' @ [CHR 0xE2, CHR 0x80, CHR 0x93] @ ''5 V / 10'' @
         [CHR 0xE2, CHR 0x80, CHR 0x93] @ ''20 AFR)'', fzero, Fin 10, Fin 5, Fin 20)]"

fun add_sensor ::
    "ini_def \<Rightarrow> (preset \<times> bytes) list \<Rightarrow> string \<times> f64 \<times> f64 \<times> f64 \<times> f64 \<Rightarrow> (preset \<times> bytes) list" where
  "add_sensor def out (name, lo, al, hi, ah) =
     (case points_table def \<lparr>ln_volts_low = lo, ln_afr_low = al, ln_volts_high = hi, ln_afr_high = ah, ln_preset = None\<rparr> of
        Inl e \<Rightarrow> out
      | Inr t \<Rightarrow> (\<lparr>ps_name = name, ps_volts_low = lo, ps_afr_low = al, ps_volts_high = hi, ps_afr_high = ah\<rparr>, t) # out)"

definition presets :: "ini_def \<Rightarrow> (preset \<times> bytes) list run" where
  "presets def =
     (case metadata def of
        Inl e \<Rightarrow> Ret []
      | Inr cal \<Rightarrow>
          run_map (\<lambda>pss. foldl (add_sensor def) (concat pss) aem_sensors)
            (run_mapM (solution_preset cal) (ac_solutions cal)))"

text \<open>\<open>Linear::table\<close>: a preset name overrides the points, which are checked all the same.\<close>

definition linear_table :: "ini_def \<Rightarrow> linear \<Rightarrow> (string + bytes) run" where
  "linear_table def l =
     (case ln_preset l of
        None \<Rightarrow> Ret (points_table def l)
      | Some name \<Rightarrow>
          (case res_bind (metadata def) (\<lambda>cal. if bad_points l then Inl points_error else Inr ()) of
             Inl e \<Rightarrow> Ret (Inl e)
           | Inr u \<Rightarrow>
               run_map (\<lambda>ps. ok_or (map_option snd (find (\<lambda>(p, t). ps_name p = name) ps)) ''Unknown calibration preset'')
                 (presets def)))"

subsection \<open>The curve is monotone\<close>

lemma fround_finite:
  "is_finite x \<Longrightarrow> fround x = mk_fin (fval x < 0) (of_int (round_away (fval x))) \<or> fround x = NegZero \<and> round_away (fval x) = 0"
  using round_away_near [of 0 0] by (cases x) auto

lemma encode_afr_Inr:
  assumes "encode_afr afr scale = Inr b" "feq scale (Fin 10)"
  shows "is_finite afr" "uint b = round_away (rnd_rat (fval afr * 10))"
proof -
  let ?v = "fmul afr scale"
  let ?k = "round_away (fval ?v)"
  have r: "is_finite (fround ?v)" "fle fzero (fround ?v)" "fle (fround ?v) (Fin 255)" "b = of_int (f_as_u8 (fround ?v))"
    using assms(1) by (auto simp: encode_afr_def Let_def split: if_splits)
  have "is_finite ?v" using r(1) by (cases ?v) auto
  then have f: "is_finite afr" "fval ?v = rnd_rat (fval afr * 10)"
    using finite_fmul [of afr scale] assms(2) by (auto elim: feq.elims)
  show "is_finite afr" by (rule f(1))
  note cases = fround_finite [OF \<open>is_finite ?v\<close>]
  have "0 \<le> fval (fround ?v) \<and> fval (fround ?v) \<le> 255"
    using r(1-3) by (cases "fround ?v") (auto simp: fle_def)
  then have "(0 :: rat) \<le> of_int ?k \<and> of_int ?k \<le> (255 :: rat)" using cases by auto
  then have k: "0 \<le> ?k" "?k \<le> 255" by simp_all
  then have "f_as_u8 (Fin (of_int ?k)) = ?k" by (rule f_as_of_int)
  then have "f_as_u8 (fround ?v) = ?k" using cases by (auto simp: mk_fin_def split: if_splits)
  then have "uint b = ?k" using k r(4) by (simp add: uint_word_of_int)
  then show "uint b = round_away (rnd_rat (fval afr * 10))" by (simp add: f(2))
qed

lemma finite_fsub:
  "is_finite (fsub x y) \<Longrightarrow> is_finite x \<and> is_finite y \<and> fval (fsub x y) = rnd_rat (fval x - fval y)"
  using finite_fadd [of x "fneg y"] by (auto simp: fsub_def)

lemma fcmp_finite:
  assumes "is_finite x" "is_finite y"
  shows "flt x y \<longleftrightarrow> fval x < fval y" "fle x y \<longleftrightarrow> fval x \<le> fval y"
  using assms by (cases x; cases y; auto simp: fle_def)+

lemma good_points:
  assumes "\<not> bad_points l"
  shows "is_finite (ln_volts_low l)" "is_finite (ln_volts_high l)" "is_finite (ln_afr_low l)" "is_finite (ln_afr_high l)"
    "0 \<le> fval (ln_volts_low l)" "fval (ln_volts_high l) \<le> 5" "fval (ln_volts_low l) < fval (ln_volts_high l)"
    "0 < fval (ln_afr_low l)" "fval (ln_afr_low l) < fval (ln_afr_high l)"
  using assms by (auto simp: bad_points_def fcmp_finite)

lemma slope_nonneg:
  assumes "\<not> bad_points l" "is_finite (slope l)"
  shows "0 \<le> fval (slope l)"
proof -
  note l = good_points [OF assms(1)]
  let ?a = "fsub (ln_afr_high l) (ln_afr_low l)" and ?b = "fsub (ln_volts_high l) (ln_volts_low l)"
  have "\<bar>fval (ln_volts_high l) + fval (fneg (ln_volts_low l))\<bar> \<le> 5"
    using l(1,5-7) by simp
  also have "(5 :: rat) \<le> 2 ^ 1023" by simp
  finally have b: "is_finite ?b" "fval ?b = rnd_rat (fval (ln_volts_high l) - fval (ln_volts_low l))"
    using fadd_finite [of "ln_volts_high l" "fneg (ln_volts_low l)"] l(1,2) by (simp_all add: fsub_def)
  have a: "is_finite ?a" "fval (slope l) = rnd_rat (fval ?a / fval ?b)"
    using finite_fdiv [of ?a ?b] assms(2) b(1) by (simp_all add: slope_def)
  have "0 \<le> fval ?a" using finite_fsub [OF a(1)] l(9) by (auto intro: rnd_rat_nonneg)
  moreover have "0 \<le> fval ?b" unfolding b(2) using l(7) by (intro rnd_rat_nonneg) simp
  ultimately show ?thesis unfolding a(2) by (intro rnd_rat_nonneg divide_nonneg_nonneg)
qed

lemma curve_value:
  assumes "is_finite (curve_afr l 1024 adc)" "adc < 1024"
  shows "is_finite (slope l)" "fval (curve_afr l 1024 adc) = rnd_rat (fval (ln_afr_low l) +
    rnd_rat (rnd_rat (rnd_rat (rnd_rat (of_nat adc * 5) / 1023) - fval (ln_volts_low l)) * fval (slope l)))"
proof -
  have n: "f_of_int (int adc) = Fin (of_nat adc)" "f_of_int (int 1024 - 1) = Fin 1023"
    using f_of_int_exact [of "int adc"] f_of_int_exact [of 1023] assms(2) by simp_all
  let ?x = "fdiv (fmul (Fin (of_nat adc)) (Fin 5)) (Fin 1023)"
  have c: "curve_afr l 1024 adc = fadd (ln_afr_low l) (fmul (fsub ?x (ln_volts_low l)) (slope l))"
    unfolding curve_afr_def n ..
  have 1: "is_finite (fmul (fsub ?x (ln_volts_low l)) (slope l))"
    "fval (curve_afr l 1024 adc) = rnd_rat (fval (ln_afr_low l) + fval (fmul (fsub ?x (ln_volts_low l)) (slope l)))"
    using finite_fadd assms(1) unfolding c by blast+
  have 2: "is_finite (fsub ?x (ln_volts_low l))" "is_finite (slope l)"
    "fval (fmul (fsub ?x (ln_volts_low l)) (slope l)) = rnd_rat (fval (fsub ?x (ln_volts_low l)) * fval (slope l))"
    using finite_fmul [OF 1(1)] by simp_all
  have 3: "is_finite ?x" "fval (fsub ?x (ln_volts_low l)) = rnd_rat (fval ?x - fval (ln_volts_low l))"
    using finite_fsub [OF 2(1)] by simp_all
  have 4: "is_finite (fmul (Fin (of_nat adc)) (Fin 5))" "fval ?x = rnd_rat (fval (fmul (Fin (of_nat adc)) (Fin 5)) / 1023)"
    using finite_fdiv [OF 3(1)] by simp_all
  have 5: "fval (fmul (Fin (of_nat adc)) (Fin 5)) = rnd_rat (of_nat adc * 5)"
    using finite_fmul [OF 4(1)] by simp
  show "is_finite (slope l)" by (rule 2(2))
  show "fval (curve_afr l 1024 adc) = rnd_rat (fval (ln_afr_low l) +
    rnd_rat (rnd_rat (rnd_rat (rnd_rat (of_nat adc * 5) / 1023) - fval (ln_volts_low l)) * fval (slope l)))"
    by (simp only: 1(2) 2(3) 3(2) 4(2) 5)
qed

lemma curve_mono:
  assumes "\<not> bad_points l" "is_finite (curve_afr l 1024 i)" "is_finite (curve_afr l 1024 j)" "i \<le> j" "j < 1024"
  shows "fval (curve_afr l 1024 i) \<le> fval (curve_afr l 1024 j)"
proof -
  have S: "0 \<le> fval (slope l)" using slope_nonneg [OF assms(1) curve_value(1) [OF assms(3,5)]] .
  have "(of_nat i * 5 :: rat) \<le> of_nat j * 5" using assms(4) by simp
  then have "rnd_rat (rnd_rat (of_nat i * 5) / 1023) \<le> rnd_rat (rnd_rat (of_nat j * 5) / 1023)"
    by (intro rnd_rat_mono divide_right_mono) simp_all
  then have "rnd_rat (rnd_rat (rnd_rat (of_nat i * 5) / 1023) - fval (ln_volts_low l)) * fval (slope l)
      \<le> rnd_rat (rnd_rat (rnd_rat (of_nat j * 5) / 1023) - fval (ln_volts_low l)) * fval (slope l)"
    by (intro mult_right_mono [OF rnd_rat_mono] diff_right_mono S)
  then show ?thesis
    using curve_value(2) [OF assms(2)] curve_value(2) [OF assms(3,5)] assms(4,5)
    by (simp add: rnd_rat_mono)
qed

lemma metadata_Inr:
  assumes "metadata def = Inr cal"
  shows "ac_adc_count cal = 1024" "feq (ac_scale cal) (Fin 10)" "0 < ac_blocking_factor cal"
    "ac_blocking_factor cal \<le> 256" "ac_blocking_factor cal mod 32 = 0" "ac_identifier cal = 2"
    "ac_write_command cal = write_template" "h_table_crc_command (i_header def) = Some crc_template"
  using assms by (auto simp: metadata_def split: option.splits if_splits)


text \<open>The classic sensor's curve on a supported definition.\<close>

definition afr_def :: ini_def where
  "afr_def = ini_default\<lparr>i_header := header_default\<lparr>h_table_crc_command := Some crc_template\<rparr>,
     i_afr_calibration := Some (afr_default\<lparr>ac_write_command := write_template, ac_blocking_factor := 256,
       ac_identifier := 2, ac_adc_count := 1024, ac_bytes_per_adc := 1, ac_scale := Fin 10\<rparr>)\<rparr>"

definition classic :: linear where
  "classic = \<lparr>ln_volts_low = fzero, ln_afr_low = Fin 10, ln_volts_high = Fin 5, ln_afr_high = Fin 20, ln_preset = None\<rparr>"

lemma rnd_int: "\<bar>i\<bar> < 2 ^ 53 \<Longrightarrow> rnd_rat (of_int i) = of_int i"
  by (intro rnd_rat_rep rep_of_int)

lemma rnd_between: "of_int lo \<le> q \<Longrightarrow> q \<le> of_int hi \<Longrightarrow> \<bar>lo\<bar> < 2 ^ 53 \<Longrightarrow> \<bar>hi\<bar> < 2 ^ 53 \<Longrightarrow>
    of_int lo \<le> rnd_rat q \<and> rnd_rat q \<le> of_int hi"
  using rnd_rat_mono [of "of_int lo" q] rnd_rat_mono [of q "of_int hi"] by (simp add: rnd_int)

lemma between_small: "of_int lo \<le> q \<Longrightarrow> q \<le> of_int hi \<Longrightarrow> \<bar>lo\<bar> \<le> 2 ^ 20 \<Longrightarrow> \<bar>hi\<bar> \<le> 2 ^ 20 \<Longrightarrow>
    \<bar>q\<bar> \<le> (2 :: rat) ^ 1023"
proof -
  assume a: "of_int lo \<le> q" "q \<le> of_int hi" "\<bar>lo\<bar> \<le> 2 ^ 20" "\<bar>hi\<bar> \<le> 2 ^ 20"
  then have "- (2 ^ 20) \<le> lo" "hi \<le> 2 ^ 20" by simp_all
  then have "of_int (- (2 ^ 20)) \<le> (of_int lo :: rat)" "(of_int hi :: rat) \<le> of_int (2 ^ 20)"
    by (simp_all only: of_int_le_iff)
  then have "\<bar>q\<bar> \<le> 2 ^ 20" using a(1,2) by simp
  also have "(2 :: rat) ^ 20 \<le> 2 ^ 1023" by simp
  finally show ?thesis .
qed

text \<open>An operation whose exact result lies between two small integers is finite and stays there.\<close>

lemma op_between:
  assumes "is_finite x" "is_finite y" "\<bar>lo\<bar> \<le> 2 ^ 20" "\<bar>hi\<bar> \<le> 2 ^ 20"
  shows "of_int lo \<le> fval x + fval y \<Longrightarrow> fval x + fval y \<le> of_int hi \<Longrightarrow>
      is_finite (fadd x y) \<and> of_int lo \<le> fval (fadd x y) \<and> fval (fadd x y) \<le> of_int hi"
    and "of_int lo \<le> fval x * fval y \<Longrightarrow> fval x * fval y \<le> of_int hi \<Longrightarrow>
      is_finite (fmul x y) \<and> of_int lo \<le> fval (fmul x y) \<and> fval (fmul x y) \<le> of_int hi"
    and "fval y \<noteq> 0 \<Longrightarrow> of_int lo \<le> fval x / fval y \<Longrightarrow> fval x / fval y \<le> of_int hi \<Longrightarrow>
      is_finite (fdiv x y) \<and> of_int lo \<le> fval (fdiv x y) \<and> fval (fdiv x y) \<le> of_int hi"
proof -
  have lim: "\<bar>lo\<bar> < 2 ^ 53" "\<bar>hi\<bar> < 2 ^ 53" using assms(3,4) by simp_all
  note small = between_small [OF _ _ assms(3,4)] and rnd = rnd_between [OF _ _ lim]
  show "of_int lo \<le> fval x + fval y \<Longrightarrow> fval x + fval y \<le> of_int hi \<Longrightarrow>
      is_finite (fadd x y) \<and> of_int lo \<le> fval (fadd x y) \<and> fval (fadd x y) \<le> of_int hi"
    using fadd_finite [OF assms(1,2) small] rnd by simp
  show "of_int lo \<le> fval x * fval y \<Longrightarrow> fval x * fval y \<le> of_int hi \<Longrightarrow>
      is_finite (fmul x y) \<and> of_int lo \<le> fval (fmul x y) \<and> fval (fmul x y) \<le> of_int hi"
    using fmul_finite [OF assms(1,2) small] rnd by simp
  show "fval y \<noteq> 0 \<Longrightarrow> of_int lo \<le> fval x / fval y \<Longrightarrow> fval x / fval y \<le> of_int hi \<Longrightarrow>
      is_finite (fdiv x y) \<and> of_int lo \<le> fval (fdiv x y) \<and> fval (fdiv x y) \<le> of_int hi"
    using fdiv_finite [OF assms(1,2) _ small] rnd by simp
qed

lemma encode_afr_in_range:
  assumes "is_finite afr" "0 \<le> fval afr" "fval afr \<le> 25"
  shows "\<exists>b. encode_afr afr (Fin 10) = Inr b"
proof -
  have "is_finite (fmul afr (Fin 10)) \<and> of_int 0 \<le> fval (fmul afr (Fin 10)) \<and> fval (fmul afr (Fin 10)) \<le> of_int 250"
    using assms by (intro op_between(2)) simp_all
  then have v: "is_finite (fmul afr (Fin 10))" "0 \<le> fval (fmul afr (Fin 10))" "fval (fmul afr (Fin 10)) \<le> 250"
    by simp_all
  have "round_away 0 \<le> round_away (fval (fmul afr (Fin 10)))" "round_away (fval (fmul afr (Fin 10))) \<le> round_away 250"
    using v(2,3) by (intro round_away_mono; simp)+
  moreover have "round_away 0 = 0" "round_away 250 = 250"
    using round_away_near [of 0 0] round_away_near [of 250 250] by simp_all
  ultimately have k: "0 \<le> round_away (fval (fmul afr (Fin 10)))" "round_away (fval (fmul afr (Fin 10))) \<le> 250"
    by simp_all
  then have "(0 :: rat) \<le> of_int (round_away (fval (fmul afr (Fin 10))))"
    "of_int (round_away (fval (fmul afr (Fin 10)))) \<le> (255 :: rat)" by simp_all
  then have "is_finite (fround (fmul afr (Fin 10))) \<and> fle fzero (fround (fmul afr (Fin 10)))
      \<and> fle (fround (fmul afr (Fin 10))) (Fin 255)"
    using fround_finite [OF v(1)] by (auto simp: fcmp_finite)
  then show ?thesis by (simp add: encode_afr_def Let_def)
qed

lemma slope_classic: "slope classic = Fin 2"
  using to_f64_int [of 10 False] to_f64_int [of 5 False] to_f64_int [of 2 False]
  by (simp add: slope_def classic_def fsub_def fadd_def fdiv_def)

lemma classic_curve:
  assumes "adc < 1024"
  shows "\<exists>b. encode_afr (curve_afr classic 1024 adc) (Fin 10) = Inr b"
proof -
  have n: "f_of_int (int adc) = Fin (of_nat adc)" "f_of_int (int 1024 - 1) = Fin 1023"
    using f_of_int_exact [of "int adc"] f_of_int_exact [of 1023] assms by simp_all
  have a: "(of_nat adc :: rat) \<le> 1023"
  proof -
    have "int adc \<le> 1023" using assms by simp
    then have "(of_int (int adc) :: rat) \<le> of_int 1023" by (simp only: of_int_le_iff)
    then show ?thesis by simp
  qed
  let ?m = "fmul (Fin (of_nat adc)) (Fin 5)"
  let ?x = "fdiv ?m (Fin 1023)"
  let ?y = "fsub ?x fzero"
  let ?p = "fmul ?y (Fin 2)"
  have m: "is_finite ?m \<and> of_int 0 \<le> fval ?m \<and> fval ?m \<le> of_int 5115"
    using a by (intro op_between(2)) simp_all
  have x: "is_finite ?x \<and> of_int 0 \<le> fval ?x \<and> fval ?x \<le> of_int 5"
    using m by (intro op_between(3)) simp_all
  have y: "is_finite ?y \<and> of_int 0 \<le> fval ?y \<and> fval ?y \<le> of_int 5"
    unfolding fsub_def using x by (intro op_between(1)) simp_all
  have p: "is_finite ?p \<and> of_int 0 \<le> fval ?p \<and> fval ?p \<le> of_int 10"
    using y by (intro op_between(2)) simp_all
  have "is_finite (fadd (Fin 10) ?p) \<and> of_int 10 \<le> fval (fadd (Fin 10) ?p) \<and> fval (fadd (Fin 10) ?p) \<le> of_int 20"
    using p by (intro op_between(1)) simp_all
  moreover have "curve_afr classic 1024 adc = fadd (Fin 10) ?p"
    unfolding curve_afr_def n slope_classic by (simp add: classic_def)
  ultimately show ?thesis by (intro encode_afr_in_range) simp_all
qed

lemma res_mapM_exists: "(\<And>x. x \<in> set xs \<Longrightarrow> \<exists>y. f x = Inr y) \<Longrightarrow> \<exists>ys. res_mapM f xs = Inr ys"
  by (induction xs) (simp, fastforce)


end
