(* ===== verification/Comms_Loop.thy ===== *)
theory Comms_Loop
  imports Comms_Tune Ecu_Calibration Telemetry Datalog Engine_Shutdown Log_Retention Afr_Curve
begin

text \<open>
  The comms thread of \<open>server/src/comms.rs\<close>: telemetry frames, the data log, calibration
  transfers and the main loop \<open>run\<close>.

  One \<open>pass\<close> is one iteration of the loop.  Everything the outside decides during it is in its
  record: the commands that have arrived, what the clock shows, and how the file system
  answers.  \<open>loop_pass\<close> says whether the thread goes on.  The session and its operations are the
  record \<open>link\<close> (\<open>session_link\<close> is the code's).  \<open>tracing\<close> output is not modelled, a reply or a
  broadcast nobody receives is dropped by the channel and makes no difference here.
\<close>

subsection \<open>The session's operations\<close>

record 's link =
  lk_primary :: bool
  lk_query :: "string \<Rightarrow> ('s, string) io"
  lk_realtime :: "('s, bytes) io"
  lk_pages :: "'s page_ops option"
  lk_calib_crc :: "string \<Rightarrow> nat \<Rightarrow> ('s, u32) io"
  lk_calib_write :: "string \<Rightarrow> nat \<Rightarrow> nat \<Rightarrow> bytes \<Rightarrow> ('s, unit) io"

definition session_link ::
    "'t transport_ops \<Rightarrow> (bytes \<Rightarrow> u32) \<Rightarrow> mode \<Rightarrow> page_commands option \<Rightarrow> 't session link" where
  "session_link T crc m pages =
     \<lparr>lk_primary = (m = Primary), lk_query = query_string T crc, lk_realtime = read_realtime T crc,
      lk_pages = map_option (session_pages T crc) pages,
      lk_calib_crc = calib_crc T crc, lk_calib_write = calib_write T crc\<rparr>"

text \<open>The context of the thread; \<open>cx_version\<close> is the package version compiled in.\<close>

record comms_ctx =
  cx_def :: ini_def
  cx_defaults :: "string \<rightharpoonup> f64"
  cx_poll_interval :: nat
  cx_auto_log :: bool
  cx_log_dir :: string
  cx_retention :: nat
  cx_engine_shutdown :: shutdown_config
  cx_shutdown_path :: "string option"
  cx_version :: string

datatype cmd =
    Start_log string
  | Stop_log
  | Burn
  | Calibration "bytes option"
  | Shutdown

record pass =
  ps_commands :: "cmd list"
  ps_now :: nat
  ps_t :: f64
  ps_opened :: nat
  ps_row :: nat
  ps_seen :: nat
  ps_stamp :: string
  ps_create :: "string \<Rightarrow> io_error + disk_file"
  ps_listing :: "dir_entry list option"
  ps_remove :: "string \<Rightarrow> string option"
  ps_request :: "string \<Rightarrow> string option"

record 's loop_state =
  lw_comms :: "'s comms"
  lw_log :: "msl_writer option"
  lw_auto :: bool
  lw_monitor :: monitor
  lw_silent :: nat
  lw_next_poll :: nat

definition SILENT_POLLS_BEFORE_ERROR :: nat where "SILENT_POLLS_BEFORE_ERROR = 3"

text \<open>Lifting what happens to the comms world, and short names for its parts.\<close>

definition on_comms :: "('s comms \<Rightarrow> 's comms) \<Rightarrow> 's loop_state \<Rightarrow> 's loop_state" where
  "on_comms f w = w\<lparr>lw_comms := f (lw_comms w)\<rparr>"

definition upd_status :: "(status \<Rightarrow> status) \<Rightarrow> 's comms \<Rightarrow> 's comms" where
  "upd_status f w = w\<lparr>cw_status := f (cw_status w)\<rparr>"

definition send_event :: "comms_event \<Rightarrow> 's comms \<Rightarrow> 's comms" where
  "send_event ev w = w\<lparr>cw_events := cw_events w @ [ev]\<rparr>"

subsection \<open>Telemetry frames\<close>

definition round6 :: "f64 \<Rightarrow> f64" where
  "round6 v = fdiv (fround (fmul v (Fin 1000000))) (Fin 1000000)"

fun frame_channels ::
    "ini_def \<Rightarrow> bytes \<Rightarrow> symbols \<Rightarrow> string list \<Rightarrow> ((string \<times> val) list \<times> (string \<times> f64) list) run" where
  "frame_channels def block S [] = Ret ([], [])"
| "frame_channels def block S (name # names) =
     run_bind (tel_channel def block S name) (\<lambda>v.
     run_map (\<lambda>(cs, ns).
         case v of
           Some (VNum n) \<Rightarrow> if is_finite n then ((name, VNum (round6 n)) # cs, (name, n) # ns) else (cs, ns)
         | Some (VStr s) \<Rightarrow> ((name, VStr s) # cs, ns)
         | None \<Rightarrow> (cs, ns))
       (frame_channels def block S names))"

definition indicator_on :: "symbols \<Rightarrow> indicator \<Rightarrow> bool run" where
  "indicator_on S ind =
     run_map (\<lambda>r. case r of Inr (VNum n) \<Rightarrow> \<not> feq n fzero | _ \<Rightarrow> False) (eval S (in_condition ind))"

definition build_frame ::
    "comms_ctx \<Rightarrow> nat \<Rightarrow> bytes \<Rightarrow> f64 \<Rightarrow> nat option \<Rightarrow> (frame \<times> (string \<rightharpoonup> f64)) run" where
  "build_frame ctx d block t rows =
     (let def = cx_def ctx; S = tel_syms def block (Some (extra_syms (cx_defaults ctx) t)) d
      in run_bind (frame_channels def block S (map fst (i_output_channels def))) (\<lambda>(channels, numeric).
         run_map (\<lambda>lamps.
             (\<lparr>fr_t = round6 t, fr_channels = channels, fr_indicators = lamps, fr_log_rows = rows\<rparr>, map_of numeric))
           (run_mapM (indicator_on S) (fp_indicators (i_front_page def)))))"

subsection \<open>The data log\<close>

definition log_title :: "comms_ctx \<Rightarrow> string" where
  "log_title ctx = [CHR 0x22] @ ''rustytune '' @ cx_version ctx @ [CHR 0x22] @ '' log, '' @ i_signature (cx_def ctx)"

definition start_log :: "comms_ctx \<Rightarrow> pass \<Rightarrow> string \<Rightarrow> (io_error + msl_writer) run" where
  "start_log ctx ps path =
     run_map (msl_create (ps_create ps path) (ps_opened ps) path (log_title ctx))
       (log_columns (cx_def ctx) (defaults_syms (cx_defaults ctx)))"

text \<open>\<open>prune_logs\<close> on the status: the open log is spared, the last failure is reported.\<close>

definition prune_status :: "comms_ctx \<Rightarrow> pass \<Rightarrow> 's comms \<Rightarrow> 's comms" where
  "prune_status ctx ps w =
     upd_status (\<lambda>s. s\<lparr>st_last_error := snd (prune_logs (cx_retention ctx) (map_option ls_path (st_log s))
        (ps_listing ps) (ps_remove ps) (st_last_error s))\<rparr>) w"

definition finish_log ::
    "comms_ctx \<Rightarrow> pass \<Rightarrow> 's loop_state \<Rightarrow> log_summary option \<times> 's loop_state" where
  "finish_log ctx ps w =
     (case lw_log w of
        None \<Rightarrow> (None, w)
      | Some writer \<Rightarrow>
          ((case msl_finish writer of
              Inr path \<Rightarrow> Some \<lparr>lsm_path = path, lsm_rows = mw_rows writer\<rparr>
            | Inl e \<Rightarrow> None),
           on_comms (prune_status ctx ps)
             (on_comms (upd_status (\<lambda>s. s\<lparr>st_log := None\<rparr>)) (w\<lparr>lw_log := None\<rparr>))))"

definition log_opened :: "string \<Rightarrow> msl_writer \<Rightarrow> 's loop_state \<Rightarrow> 's loop_state" where
  "log_opened path writer w =
     (on_comms (upd_status (\<lambda>s. s\<lparr>st_log := Some \<lparr>ls_path = path, ls_rows = 0\<rparr>\<rparr>)) w)\<lparr>lw_log := Some writer\<rparr>"

subsection \<open>Calibration\<close>

text \<open>
  The checksum request of \<open>calib_crc\<close> carries its own error texts; \<open>crc\<close> hashes the table sent.
\<close>

definition calibration_write ::
    "'s link \<Rightarrow> comms_ctx \<Rightarrow> (bytes \<Rightarrow> u32) \<Rightarrow> (io_error \<Rightarrow> string) \<Rightarrow> afr_calibration \<Rightarrow> bytes
      \<Rightarrow> 's comms \<Rightarrow> ((string + u32) \<times> 's comms) run" where
  "calibration_write L ctx crc show_io cal data w =
     run_bind (in_session (lk_calib_write L (ac_write_command cal) (ac_identifier cal) (ac_blocking_factor cal) data) w)
       (\<lambda>(r, w1). case r of
          Inl e \<Rightarrow> Ret (Inl (''Calibration transfer failed; the ECU may have a partial calibration. Retry the complete write: '' @
                     show_proto_error show_io e), w1)
        | Inr u \<Rightarrow>
            run_map (\<lambda>(c, w2). (case c of
                Inl e \<Rightarrow> Inl (''Calibration was sent but checksum verification failed; read the calibration again before retrying: '' @
                     show_proto_error show_io e)
              | Inr x \<Rightarrow> if x \<noteq> crc data
                  then Inl ''Calibration checksum verification failed; retry the complete write'' else Inr x, w2))
              (in_session (lk_calib_crc L (the (h_table_crc_command (i_header (cx_def ctx)))) (ac_identifier cal)) w1))"

definition engine_at_rest :: "comms_ctx \<Rightarrow> nat \<Rightarrow> bytes \<Rightarrow> bool run" where
  "engine_at_rest ctx d block =
     run_map (\<lambda>v. case v of Some (VNum rpm) \<Rightarrow> feq rpm fzero | _ \<Rightarrow> False)
       (tel_channel (cx_def ctx) block (tel_syms (cx_def ctx) block None d) ''rpm'')"

definition do_calibration ::
    "'s link \<Rightarrow> comms_ctx \<Rightarrow> nat \<Rightarrow> (bytes \<Rightarrow> u32) \<Rightarrow> (io_error \<Rightarrow> string) \<Rightarrow> bytes option
      \<Rightarrow> 's comms \<Rightarrow> ((string + u32) \<times> 's comms) run" where
  "do_calibration L ctx d crc show_io data w =
     (case metadata (cx_def ctx) of
        Inl e \<Rightarrow> Ret (Inl e, w)
      | Inr cal \<Rightarrow>
          if \<not> lk_primary L then Ret (Inl ''Calibration requires primary USB serial'', w)
          else case data of
              Some bytes \<Rightarrow>
                run_bind (in_session (lk_realtime L) w) (\<lambda>(r, w1).
                  case r of
                    Inl e \<Rightarrow> Ret (Inl (show_proto_error show_io e), w1)
                  | Inr block \<Rightarrow>
                      run_bind (engine_at_rest ctx d block) (\<lambda>rest.
                        if \<not> rest then Ret (Inl ''Stop the engine before writing AFR calibration'', w1)
                        else let w2 = locked w1 in
                          if \<not> tn_loaded (cw_tune w2)
                             \<or> st_ecu_signature (cw_status w2) \<noteq> Some (i_signature (cx_def ctx))
                          then Ret (Inl ''A loaded tune and matching ECU firmware signature are required'', w2)
                          else calibration_write L ctx crc show_io cal bytes w2))
            | None \<Rightarrow>
                run_map (\<lambda>(r, w1). (case r of Inl e \<Rightarrow> Inl (show_proto_error show_io e) | Inr c \<Rightarrow> Inr c, w1))
                  (in_session (lk_calib_crc L (the (h_table_crc_command (i_header (cx_def ctx)))) (ac_identifier cal)) w))"

subsection \<open>Commands\<close>

definition disconnected :: "status \<Rightarrow> status" where
  "disconnected s = s\<lparr>st_connected := False, st_tune_loaded := False, st_log := None\<rparr>"

definition handle_cmd ::
    "'s link \<Rightarrow> comms_ctx \<Rightarrow> nat \<Rightarrow> (bytes \<Rightarrow> u32) \<Rightarrow> (io_error \<Rightarrow> string) \<Rightarrow> pass \<Rightarrow> cmd
      \<Rightarrow> 's loop_state \<Rightarrow> (bool \<times> 's loop_state) run" where
  "handle_cmd L ctx d crc show_io ps c w =
     (case c of
        Shutdown \<Rightarrow>
          (let w1 = snd (finish_log ctx ps w)
           in Ret (False, on_comms (\<lambda>x. broadcast_tune (broadcast_status (upd_status disconnected
                 (upd_tune (set_loaded False) x)))) w1))
      | Start_log path \<Rightarrow>
          run_map (\<lambda>r. (True, on_comms broadcast_status (case r of
              Inr writer \<Rightarrow> on_comms (send_event (Rp_start_log (Inr path))) (log_opened path writer w)
            | Inl e \<Rightarrow> on_comms (send_event (Rp_start_log (Inl (show_io e)))) w)))
            (start_log ctx ps path)
      | Stop_log \<Rightarrow>
          (let (summary, w1) = finish_log ctx ps (w\<lparr>lw_auto := False\<rparr>)
           in Ret (True, on_comms (\<lambda>x. broadcast_status (send_event (Rp_stop_log summary) x)) w1))
      | Calibration data \<Rightarrow>
          run_map (\<lambda>(r, x). (True, w\<lparr>lw_comms := send_event (Rp_calibration r) x\<rparr>))
            (do_calibration L ctx d crc show_io data (lw_comms w))
      | Burn \<Rightarrow>
          run_map (\<lambda>(r, x). (True, w\<lparr>lw_comms := broadcast_tune (send_event (Rp_burn r) x)\<rparr>))
            (do_burn (lk_pages L) crc show_io (lw_comms w)))"

fun handle_cmds ::
    "'s link \<Rightarrow> comms_ctx \<Rightarrow> nat \<Rightarrow> (bytes \<Rightarrow> u32) \<Rightarrow> (io_error \<Rightarrow> string) \<Rightarrow> pass \<Rightarrow> cmd list
      \<Rightarrow> 's loop_state \<Rightarrow> (bool \<times> 's loop_state) run" where
  "handle_cmds L ctx d crc show_io ps [] w = Ret (True, w)"
| "handle_cmds L ctx d crc show_io ps (c # cs) w =
     run_bind (handle_cmd L ctx d crc show_io ps c w) (\<lambda>(go, w1).
       if go then handle_cmds L ctx d crc show_io ps cs w1 else Ret (False, w1))"

subsection \<open>A poll\<close>

definition auto_log ::
    "comms_ctx \<Rightarrow> (io_error \<Rightarrow> string) \<Rightarrow> pass \<Rightarrow> 's loop_state \<Rightarrow> 's loop_state run" where
  "auto_log ctx show_io ps w =
     (if lw_auto w \<and> lw_log w = None then
        (let path = path_join (cx_log_dir ctx) (''rustytune_'' @ ps_stamp ps @ ''.msl'')
         in run_map (\<lambda>r. case r of
                Inr writer \<Rightarrow> log_opened path writer w
              | Inl e \<Rightarrow> on_comms (set_error (''automatic logging: '' @ show_io e)) w)
              (start_log ctx ps path))
      else Ret w)"

definition log_frame ::
    "comms_ctx \<Rightarrow> (io_error \<Rightarrow> string) \<Rightarrow> pass \<Rightarrow> (string \<rightharpoonup> f64) \<Rightarrow> 's loop_state \<Rightarrow> 's loop_state" where
  "log_frame ctx show_io ps numeric w =
     (case lw_log w of
        None \<Rightarrow> w
      | Some writer \<Rightarrow>
          (case write_row (ps_row ps) (map (\<lambda>c. numeric (col_channel c)) (mw_columns writer)) writer of
             (Inr u, writer1) \<Rightarrow> w\<lparr>lw_log := Some writer1\<rparr>
           | (Inl e, writer1) \<Rightarrow>
               on_comms broadcast_status (snd (finish_log ctx ps
                 (on_comms (set_error (''datalog write failed: '' @ show_io e)) (w\<lparr>lw_log := Some writer1\<rparr>))))))"

definition count_frame :: "bool \<Rightarrow> msl_writer option \<Rightarrow> status \<Rightarrow> status" where
  "count_frame had_error writer_open s =
     s\<lparr>st_frames := (st_frames s + 1) mod 2 ^ 64,
       st_log := (case (st_log s, writer_open) of
           (Some ls, Some writer) \<Rightarrow> Some (ls\<lparr>ls_rows := mw_rows writer\<rparr>)
         | (l, _) \<Rightarrow> l),
       st_last_error := (if had_error then None else st_last_error s)\<rparr>"

definition request_shutdown :: "comms_ctx \<Rightarrow> pass \<Rightarrow> 's comms \<Rightarrow> 's comms" where
  "request_shutdown ctx ps w =
     (case (case cx_shutdown_path ctx of
              None \<Rightarrow> Some ''shutdown request path is not configured''
            | Some path \<Rightarrow> map_option (\<lambda>e. ''write '' @ path @ '': '' @ e) (ps_request ps path)) of
        None \<Rightarrow> w
      | Some e \<Rightarrow> broadcast_status (set_error (''automatic shutdown request failed: '' @ e) w))"

definition on_frame ::
    "comms_ctx \<Rightarrow> nat \<Rightarrow> (io_error \<Rightarrow> string) \<Rightarrow> pass \<Rightarrow> bytes \<Rightarrow> 's loop_state
      \<Rightarrow> (bool \<times> 's loop_state) run" where
  "on_frame ctx d show_io ps block w =
     run_bind (auto_log ctx show_io ps w) (\<lambda>w1.
       let had_error = (SILENT_POLLS_BEFORE_ERROR \<le> lw_silent w1);
           w2 = w1\<lparr>lw_silent := 0\<rparr>
       in run_bind (build_frame ctx d block (ps_t ps) (map_option mw_rows (lw_log w2))) (\<lambda>(frame, numeric).
         let w3 = log_frame ctx show_io ps numeric w2;
             w4 = on_comms (upd_status (count_frame had_error (lw_log w3))) w3;
             w5 = (if had_error then on_comms broadcast_status w4 else w4);
             w6 = on_comms (send_event (Ev_frame frame)) w5;
             (fired, m) = observe (numeric ''rpm'') (ps_seen ps) (lw_monitor w6);
             w7 = w6\<lparr>lw_monitor := m\<rparr>
         in if fired
            then Ret (False, on_comms (request_shutdown ctx ps)
                   (on_comms broadcast_status (snd (finish_log ctx ps w7))))
            else Ret (True, w7)))"

definition on_timeout :: "'s loop_state \<Rightarrow> 's loop_state" where
  "on_timeout w =
     (let n = (lw_silent w + 1) mod 2 ^ 32;
          w1 = on_comms (upd_status (\<lambda>s. s\<lparr>st_timeouts := (st_timeouts s + 1) mod 2 ^ 64\<rparr>)) (w\<lparr>lw_silent := n\<rparr>)
      in if n = SILENT_POLLS_BEFORE_ERROR
         then on_comms (\<lambda>x. broadcast_status (set_error ''ECU not responding'' x)) w1 else w1)"

definition on_lost ::
    "comms_ctx \<Rightarrow> (io_error \<Rightarrow> string) \<Rightarrow> pass \<Rightarrow> proto_error \<Rightarrow> 's loop_state \<Rightarrow> 's loop_state" where
  "on_lost ctx show_io ps e w =
     on_comms (\<lambda>x. broadcast_tune (broadcast_status (set_error (show_proto_error show_io e)
         (upd_status disconnected (upd_tune (set_loaded False) (prune_status ctx ps x))))))
       (snd (finish_log ctx ps w))"

definition poll ::
    "'s link \<Rightarrow> comms_ctx \<Rightarrow> nat \<Rightarrow> (io_error \<Rightarrow> string) \<Rightarrow> pass \<Rightarrow> 's loop_state
      \<Rightarrow> (bool \<times> 's loop_state) run" where
  "poll L ctx d show_io ps w =
     run_bind (in_session (lk_realtime L) (lw_comms w)) (\<lambda>(r, c).
       let w1 = w\<lparr>lw_comms := c\<rparr>
       in case r of
            Inr block \<Rightarrow> on_frame ctx d show_io ps block w1
          | Inl CrcMismatch \<Rightarrow>
              Ret (True, on_comms (upd_status (\<lambda>s. s\<lparr>st_crc_errors := (st_crc_errors s + 1) mod 2 ^ 64\<rparr>)) w1)
          | Inl Timeout \<Rightarrow> Ret (True, on_timeout w1)
          | Inl e \<Rightarrow> Ret (False, on_lost ctx show_io ps e w1))"

subsection \<open>The thread\<close>

definition flush_link ::
    "'s link \<Rightarrow> (bytes \<Rightarrow> u32) \<Rightarrow> (io_error \<Rightarrow> string) \<Rightarrow> 's loop_state \<Rightarrow> 's loop_state run" where
  "flush_link L crc show_io w =
     (case lk_pages L of
        None \<Rightarrow> Ret w
      | Some P \<Rightarrow> run_map (\<lambda>c. w\<lparr>lw_comms := c\<rparr>) (flush_dirty P crc show_io (lw_comms w)))"

definition loop_pass ::
    "'s link \<Rightarrow> comms_ctx \<Rightarrow> nat \<Rightarrow> (bytes \<Rightarrow> u32) \<Rightarrow> (io_error \<Rightarrow> string) \<Rightarrow> pass
      \<Rightarrow> 's loop_state \<Rightarrow> (bool \<times> 's loop_state) run" where
  "loop_pass L ctx d crc show_io ps w =
     run_bind (handle_cmds L ctx d crc show_io ps (ps_commands ps) w) (\<lambda>(go, w1).
       if \<not> go then Ret (False, w1)
       else run_bind (flush_link L crc show_io w1) (\<lambda>w2.
         if ps_now ps < lw_next_poll w2 then Ret (True, w2)
         else poll L ctx d show_io ps
                (w2\<lparr>lw_next_poll := max (lw_next_poll w2 + cx_poll_interval ctx) (ps_now ps)\<rparr>)))"

fun run_passes ::
    "'s link \<Rightarrow> comms_ctx \<Rightarrow> nat \<Rightarrow> (bytes \<Rightarrow> u32) \<Rightarrow> (io_error \<Rightarrow> string) \<Rightarrow> pass list
      \<Rightarrow> 's loop_state \<Rightarrow> (bool \<times> 's loop_state) run" where
  "run_passes L ctx d crc show_io [] w = Ret (True, w)"
| "run_passes L ctx d crc show_io (ps # pss) w =
     run_bind (loop_pass L ctx d crc show_io ps w) (\<lambda>(go, w1).
       if go then run_passes L ctx d crc show_io pss w1 else Ret (False, w1))"

text \<open>Before the loop: the signature query and the download.\<close>

definition check_signature :: "'s link \<Rightarrow> comms_ctx \<Rightarrow> 's comms \<Rightarrow> 's comms run" where
  "check_signature L ctx w =
     (if lk_primary L then
        run_map (\<lambda>(r, w1). case r of
            Inl e \<Rightarrow> w1
          | Inr sig \<Rightarrow>
              (let w2 = (if sig \<noteq> i_signature (cx_def ctx)
                 then set_error (''signature mismatch: ECU says '' @ [CHR 0x60] @ sig @ [CHR 0x60] @ '', INI is '' @
                        [CHR 0x60] @ i_signature (cx_def ctx) @ [CHR 0x60]) w1
                 else w1)
               in broadcast_status (upd_status (\<lambda>s. s\<lparr>st_ecu_signature := Some sig\<rparr>) w2)))
          (in_session (lk_query L (i_query_command (cx_def ctx))) w)
      else Ret w)"

definition first_download ::
    "'s link \<Rightarrow> (bytes \<Rightarrow> u32) \<Rightarrow> (io_error \<Rightarrow> string) \<Rightarrow> 's comms \<Rightarrow> 's comms run" where
  "first_download L crc show_io w =
     (case lk_pages L of
        None \<Rightarrow> Ret w
      | Some P \<Rightarrow>
          run_map (\<lambda>(r, w1). case r of
              Inr u \<Rightarrow> broadcast_tune (broadcast_status (upd_status (\<lambda>s. s\<lparr>st_tune_loaded := True\<rparr>)
                  (upd_tune (set_loaded True) w1)))
            | Inl e \<Rightarrow> broadcast_status (set_error (''tune download failed: '' @ show_proto_error show_io e) w1))
            (download_tune P crc w))"

definition thread_run ::
    "'s link \<Rightarrow> comms_ctx \<Rightarrow> nat \<Rightarrow> (bytes \<Rightarrow> u32) \<Rightarrow> (io_error \<Rightarrow> string) \<Rightarrow> nat \<Rightarrow> pass list
      \<Rightarrow> 's comms \<Rightarrow> (bool \<times> 's loop_state) run" where
  "thread_run L ctx d crc show_io started passes w =
     run_bind (check_signature L ctx w) (\<lambda>w1.
     run_bind (first_download L crc show_io w1) (\<lambda>w2.
       run_passes L ctx d crc show_io passes
         \<lparr>lw_comms = w2, lw_log = None, lw_auto = cx_auto_log ctx, lw_monitor = monitor_new (cx_engine_shutdown ctx),
          lw_silent = 0, lw_next_poll = started\<rparr>))"

end
