(* ===== verification/Loop_Laws.thy ===== *)
theory Loop_Laws
  imports Comms_Flush Comms_Loop
begin

text \<open>
  The comms thread as a whole: which parts of its status each step can touch, that the log
  shown to the clients is the log that is open, and that a pass keeps it so.
\<close>

subsection \<open>Synchronising the tune touches only the last error of the status\<close>

definition rest_of :: "'s comms \<Rightarrow> status" where
  "rest_of w = (cw_status w)\<lparr>st_last_error := None\<rparr>"

lemma rest_of_simps [simp]:
  "rest_of (locked w) = rest_of w" "rest_of (set_error msg w) = rest_of w"
  "rest_of (broadcast_status w) = rest_of w" "rest_of (broadcast_tune w) = rest_of w"
  "rest_of (upd_tune f w) = rest_of w" "rest_of (w\<lparr>cw_tune := t\<rparr>) = rest_of w"
  "rest_of (w\<lparr>cw_session := s\<rparr>) = rest_of w" "rest_of (send_event ev w) = rest_of w"
  by (simp_all add: rest_of_def locked_def set_error_def broadcast_status_def broadcast_tune_def upd_tune_def
      send_event_def Let_def split: list.splits)

lemma in_session_rest: "in_session m w = Ret (r, w1) \<Longrightarrow> rest_of w1 = rest_of w"
  by (auto simp: in_session_Ret)

lemma flush_chunks_rest: "flush_chunks P crc show_io i cs w = Ret (go, w1) \<Longrightarrow> rest_of w1 = rest_of w"
proof (induction cs arbitrary: w)
  case (Cons c cs)
  obtain off chunk where c: "c = (off, chunk)" by (cases c)
  obtain r w2 where w2: "in_session (po_write P i (off mod 2 ^ 16) chunk) w = Ret (r, w2)"
    using Cons.prems(1) by (auto simp: c split: run.splits)
  note f = in_session_rest [OF w2]
  show ?case
  proof (cases r)
    case (Inr u)
    then obtain t where "flush_chunks P crc show_io i cs ((locked w2)\<lparr>cw_tune := t\<rparr>) = Ret (go, w1)"
      using Cons.prems w2 by (auto simp: c Let_def run_simps)
    from Cons.IH [OF this] f show ?thesis by simp
  qed (use Cons.prems w2 f in \<open>auto simp: c\<close>)
qed simp

lemma verify_page_rest:
  assumes "verify_page P crc i w = Ret w1"
  shows "rest_of w1 = rest_of w"
proof -
  obtain p where p: "tune_page (cw_tune (locked w)) i = Some p"
    using assms(1) by (auto simp: verify_page_def Let_def split: option.splits)
  then obtain r w2 where w2: "in_session (po_crc P i) (locked w) = Ret (r, w2)"
    using assms(1) by (auto simp: verify_page_def Let_def run_simps)
  note f = in_session_rest [OF w2]
  show ?thesis
  proof (cases r)
    case (Inr c)
    show ?thesis
    proof (cases "c = crc (pg_ecu p)")
      case False
      then obtain b w3 msg where w3: "in_session (po_read P i) w2 = Ret (b, w3)"
        "w1 = broadcast_status (set_error msg (case b of Inr bs \<Rightarrow> upd_tune (resync_ecu i bs) w3 | Inl e \<Rightarrow> w3))"
        using assms(1) p w2 Inr unfolding verify_page_def Let_def by (auto simp: run_map_Ret)
      from in_session_rest [OF w3(1)] f w3(2) show ?thesis by (cases b) simp_all
    qed (use assms p w2 f Inr in \<open>simp add: verify_page_def Let_def\<close>)
  qed (use assms p w2 f in \<open>simp add: verify_page_def Let_def\<close>)
qed

lemma flush_page_rest: "flush_page P crc show_io i w = Ret (go, w1) \<Longrightarrow> rest_of w1 = rest_of w"
  by (auto simp: flush_page_def Let_def run_simps split: if_splits
      dest!: flush_chunks_rest verify_page_rest)

lemma flush_pages_rest: "flush_pages P crc show_io is w = Ret w1 \<Longrightarrow> rest_of w1 = rest_of w"
proof (induction "is" arbitrary: w)
  case (Cons i "is")
  obtain go w2 where w2: "flush_page P crc show_io i w = Ret (go, w2)"
    using Cons.prems by (auto simp: run_simps)
  with Cons.IH [of w2] Cons.prems flush_page_rest [OF w2] show ?case by (cases go) simp_all
qed auto

lemma flush_dirty_rest: "flush_dirty P crc show_io w = Ret w1 \<Longrightarrow> rest_of w1 = rest_of w"
  by (auto simp: flush_dirty_def Let_def split: if_splits dest!: flush_pages_rest)

lemma burn_pages_rest: "burn_pages P crc show_io is burned w = Ret (r, w1) \<Longrightarrow> rest_of w1 = rest_of w"
proof (induction "is" arbitrary: burned w)
  case (Cons i "is")
  obtain b w2 where w2: "in_session (po_burn P i) w = Ret (b, w2)"
    using Cons.prems by (auto simp: run_simps)
  note f = in_session_rest [OF w2]
  show ?case
  proof (cases b)
    case (Inr u)
    then have "burn_pages P crc show_io is (burned @ [i]) (upd_tune (mark_burned i) w2) = Ret (r, w1)"
      using Cons.prems w2 by simp
    from Cons.IH [OF this] f show ?thesis by simp
  qed (use Cons.prems w2 f in auto)
qed simp

lemma do_burn_rest:
  assumes "do_burn pages crc show_io w = Ret (r, w1)"
  shows "rest_of w1 = rest_of w"
proof (cases pages)
  case (Some P)
  show ?thesis
  proof (cases "tn_loaded (cw_tune (locked w))")
    case True
    then obtain w2 "is" where "flush_dirty P crc show_io (locked w) = Ret w2"
      "burn_pages P crc show_io is [] (locked w2) = Ret (r, w1)"
      using assms Some by (auto simp: do_burn_def Let_def run_simps)
    then show ?thesis by (auto dest!: flush_dirty_rest burn_pages_rest)
  qed (use assms Some in \<open>auto simp: do_burn_def Let_def\<close>)
qed (use assms in \<open>auto simp: do_burn_def\<close>)

lemma download_page_rest: "download_page P crc i n w = Ret (r, w1) \<Longrightarrow> rest_of w1 = rest_of w"
proof (induction "2 - n" arbitrary: n w rule: less_induct)
  case less
  note step = less.prems [unfolded download_page.simps [of P crc i n] io_bind_def]
  obtain b w2 where w2: "in_session (po_read P i) w = Ret (b, w2)"
    using step by (auto split: run.splits)
  show ?case
  proof (cases b)
    case (Inr bs)
    obtain c w3 where w3: "in_session (po_crc P i) w2 = Ret (c, w3)"
      using step w2 Inr by (auto split: run.splits)
    note f = in_session_rest [OF w2] in_session_rest [OF w3]
    show ?thesis
    proof (cases c)
      case (Inr x)
      then show ?thesis
        using step w2 w3 \<open>b = Inr bs\<close> f less.hyps [of "n + 1" w3]
        by (auto simp: io_simps split: if_splits)
    qed (use step w2 w3 Inr f in auto)
  qed (use step w2 in_session_rest [OF w2] in auto)
qed

lemma download_tune_rest: "download_tune P crc w = Ret (r, w1) \<Longrightarrow> rest_of w1 = rest_of w"
proof -
  have "io_each (\<lambda>i. download_page P crc i 0) is w = Ret (r, w1) \<Longrightarrow> rest_of w1 = rest_of w" for "is"
  proof (induction "is" arbitrary: w)
    case (Cons i "is")
    then obtain b w2 where w2: "download_page P crc i 0 w = Ret (b, w2)"
      by (auto simp: io_bind_def split: run.splits)
    note f = download_page_rest [OF w2]
    show ?case using Cons w2 f by (cases b) (auto simp: io_bind_def)
  qed (simp add: io_simps)
  then show "download_tune P crc w = Ret (r, w1) \<Longrightarrow> ?thesis" by (simp add: download_tune_def)
qed

lemma calibration_write_rest:
  assumes "calibration_write L ctx crc show_io cal data w = Ret (r, w1)"
  shows "rest_of w1 = rest_of w"
proof -
  obtain b w2 where w2: "in_session (lk_calib_write L (ac_write_command cal) (ac_identifier cal)
      (ac_blocking_factor cal) data) w = Ret (b, w2)"
    using assms by (auto simp: calibration_write_def run_simps)
  show ?thesis
    using assms w2 in_session_rest [OF w2]
    by (cases b) (auto simp: calibration_write_def run_simps dest!: in_session_rest)
qed

lemma do_calibration_rest:
  assumes "do_calibration L ctx d crc show_io data w = Ret (r, w1)"
  shows "rest_of w1 = rest_of w"
proof (cases "metadata (cx_def ctx)")
  case (Inr cal)
  show ?thesis
  proof (cases data)
    case None
    with assms Inr show ?thesis
      by (auto simp: do_calibration_def run_simps dest!: in_session_rest split: if_splits)
  next
    case (Some bytes)
    show ?thesis
    proof (cases "lk_primary L")
      case True
      obtain b w2 where w2: "in_session (lk_realtime L) w = Ret (b, w2)"
        using assms Inr Some True by (auto simp: do_calibration_def run_simps)
      show ?thesis
      proof (cases b)
        case (Inr block)
        obtain rest where rest: "engine_at_rest ctx d block = Ret rest"
          using assms \<open>metadata (cx_def ctx) = Inr cal\<close> Some True w2 Inr
          by (auto simp: do_calibration_def run_simps)
        show ?thesis
          using assms \<open>metadata (cx_def ctx) = Inr cal\<close> Some True w2 Inr rest in_session_rest [OF w2]
          by (auto simp: do_calibration_def Let_def dest!: calibration_write_rest split: if_splits)
      qed (use assms Inr Some True w2 in_session_rest [OF w2] in \<open>auto simp: do_calibration_def\<close>)
    qed (use assms Inr Some in \<open>simp add: do_calibration_def\<close>)
  qed
qed (use assms in \<open>simp add: do_calibration_def\<close>)

lemma rest_ofD:
  assumes "rest_of w1 = rest_of w"
  shows "st_log (cw_status w1) = st_log (cw_status w)" "st_connected (cw_status w1) = st_connected (cw_status w)"
    "st_frames (cw_status w1) = st_frames (cw_status w)" "st_tune_loaded (cw_status w1) = st_tune_loaded (cw_status w)"
    "st_ecu_signature (cw_status w1) = st_ecu_signature (cw_status w)"
  using arg_cong [OF assms, of st_log] arg_cong [OF assms, of st_connected] arg_cong [OF assms, of st_frames]
    arg_cong [OF assms, of st_tune_loaded] arg_cong [OF assms, of st_ecu_signature]
  by (simp_all add: rest_of_def)

subsection \<open>The log the clients see\<close>

definition log_shown :: "'s loop_state \<Rightarrow> bool" where
  "log_shown w \<longleftrightarrow> st_log (cw_status (lw_comms w)) =
     map_option (\<lambda>m. \<lparr>ls_path = mw_path m, ls_rows = mw_rows m\<rparr>) (lw_log w)"

lemma log_shown_comms:
  "log_shown w \<Longrightarrow> rest_of c = rest_of (lw_comms w) \<Longrightarrow> log_shown (w\<lparr>lw_comms := c\<rparr>)"
  by (drule rest_ofD(1)) (simp add: log_shown_def)

lemma log_shown_on:
  "log_shown w \<Longrightarrow> rest_of (f (lw_comms w)) = rest_of (lw_comms w) \<Longrightarrow> log_shown (on_comms f w)"
  unfolding on_comms_def by (rule log_shown_comms)

lemma log_shown_upd [simp]:
  "log_shown (w\<lparr>lw_auto := b\<rparr>) = log_shown w" "log_shown (w\<lparr>lw_silent := n\<rparr>) = log_shown w"
  "log_shown (w\<lparr>lw_monitor := m\<rparr>) = log_shown w" "log_shown (w\<lparr>lw_next_poll := t\<rparr>) = log_shown w"
  by (simp_all add: log_shown_def)

lemma finish_log_shown:
  assumes "finish_log ctx ps w = (r, w1)" "log_shown w"
  shows "log_shown w1" "lw_log w1 = None" "cw_tune (lw_comms w1) = cw_tune (lw_comms w)"
    "st_connected (cw_status (lw_comms w1)) = st_connected (cw_status (lw_comms w))"
    "lw_monitor w1 = lw_monitor w"
  using assms
  by (auto simp: finish_log_def log_shown_def on_comms_def upd_status_def prune_status_def split: option.splits)

lemma msl_create_writer:
  "msl_create created now path title cols = Inr writer \<Longrightarrow> mw_path writer = path \<and> mw_rows writer = 0"
proof -
  assume "msl_create created now path title cols = Inr writer"
  then obtain f where f: "(case df_write (msl_header title cols) f of (Inl e, f1) \<Rightarrow> Inl e
      | (Inr u, f1) \<Rightarrow> Inr \<lparr>mw_file = f1, mw_path = path, mw_columns = cols, mw_rows = 0, mw_last_sync = now\<rparr>)
      = Inr writer"
    by (auto simp: msl_create_def res_bind_Inr)
  obtain r f1 where "df_write (msl_header title cols) f = (r, f1)" by fastforce
  with f show ?thesis by (cases r) auto
qed

lemma start_log_writer:
  "start_log ctx ps path = Ret (Inr writer) \<Longrightarrow> mw_path writer = path \<and> mw_rows writer = 0"
  unfolding start_log_def run_map_Ret using msl_create_writer by metis

lemma log_opened_shown: "mw_path writer = path \<and> mw_rows writer = 0 \<Longrightarrow> log_shown (log_opened path writer w)"
  by (simp add: log_shown_def log_opened_def on_comms_def upd_status_def)

lemma disconnected_log: "lw_log w = None \<Longrightarrow> st_log (cw_status (f (upd_status disconnected c))) = None \<Longrightarrow>
    log_shown (w\<lparr>lw_comms := f (upd_status disconnected c)\<rparr>)"
  by (simp add: log_shown_def)

lemma handle_cmd_shown:
  assumes "handle_cmd L ctx d crc show_io ps c w = Ret (go, w1)" "log_shown w"
  shows "log_shown w1"
proof (cases c)
  case (Start_log path)
  then obtain r where r: "start_log ctx ps path = Ret r" using assms(1) by (auto simp: handle_cmd_def run_simps)
  show ?thesis
  proof (cases r)
    case (Inl e)
    with r Start_log assms show ?thesis by (auto simp: handle_cmd_def intro!: log_shown_on)
  next
    case (Inr writer)
    have "log_shown (log_opened path writer w)"
      using start_log_writer r Inr by (intro log_opened_shown) simp
    with r Start_log assms Inr show ?thesis by (auto simp: handle_cmd_def intro!: log_shown_on)
  qed
next
  case Stop_log
  obtain summary w2 where w2: "finish_log ctx ps (w\<lparr>lw_auto := False\<rparr>) = (summary, w2)" by fastforce
  have "log_shown w2" by (rule finish_log_shown(1) [OF w2]) (simp add: assms(2))
  with w2 Stop_log assms(1) show ?thesis by (auto simp: handle_cmd_def intro!: log_shown_on)
next
  case Burn
  with assms show ?thesis
    by (auto simp: handle_cmd_def run_simps dest!: do_burn_rest intro!: log_shown_comms)
next
  case (Calibration data)
  with assms show ?thesis
    by (auto simp: handle_cmd_def run_simps dest!: do_calibration_rest intro!: log_shown_comms)
next
  case Shutdown
  obtain summary w2 where w2: "finish_log ctx ps w = (summary, w2)" by fastforce
  with Shutdown assms(1) finish_log_shown(2) [OF w2 assms(2)] show ?thesis
    by (auto simp: handle_cmd_def log_shown_def on_comms_def disconnected_def upd_status_def
        broadcast_tune_def broadcast_status_def Let_def locked_def split: list.splits)
qed

lemma handle_cmds_shown:
  "handle_cmds L ctx d crc show_io ps cs w = Ret (go, w1) \<Longrightarrow> log_shown w \<Longrightarrow> log_shown w1"
proof (induction cs arbitrary: w)
  case (Cons c cs)
  then obtain b w2 where w2: "handle_cmd L ctx d crc show_io ps c w = Ret (b, w2)"
    by (auto simp: run_simps)
  from handle_cmd_shown [OF w2 Cons.prems(2)] Cons w2 show ?case by (cases b) auto
qed simp

lemma auto_logE:
  assumes "auto_log ctx show_io ps w = Ret w1"
  obtains "w1 = w" | path writer where "start_log ctx ps path = Ret (Inr writer)" "w1 = log_opened path writer w"
    | msg where "w1 = on_comms (set_error msg) w"
proof (cases "lw_auto w \<and> lw_log w = None")
  case True
  let ?path = "path_join (cx_log_dir ctx) (''rustytune_'' @ ps_stamp ps @ ''.msl'')"
  obtain r where r: "start_log ctx ps ?path = Ret r" "w1 = (case r of Inr writer \<Rightarrow> log_opened ?path writer w
      | Inl e \<Rightarrow> on_comms (set_error (''automatic logging: '' @ show_io e)) w)"
    using assms unfolding auto_log_def if_P [OF True] Let_def run_map_Ret by blast
  show thesis
  proof (cases r)
    case (Inl e)
    with r that(3) show thesis by simp
  next
    case (Inr writer)
    with r that(2) show thesis by simp
  qed
next
  case False
  with assms that(1) show thesis unfolding auto_log_def if_not_P [OF False] by simp
qed

lemma auto_log_shown:
  assumes "auto_log ctx show_io ps w = Ret w1" "log_shown w"
  shows "log_shown w1"
  using assms(1)
proof (cases rule: auto_logE)
  case (2 path writer)
  with start_log_writer show ?thesis by (simp add: log_opened_shown)
qed (use assms(2) in \<open>simp_all add: log_shown_on\<close>)

lemma write_row_path: "write_row now vs writer = (r, writer1) \<Longrightarrow> mw_path writer1 = mw_path writer"
  by (auto simp: write_row_def Let_def simp del: df_write.simps df_sync.simps
      split: prod.splits sum.splits if_splits)

lemma count_frame_log:
  "st_log (count_frame h m s) = (case (st_log s, m) of
     (Some ls, Some writer) \<Rightarrow> Some (ls\<lparr>ls_rows := mw_rows writer\<rparr>) | (l, _) \<Rightarrow> l)"
  by (simp add: count_frame_def)

lemma log_frame_shown:
  assumes "log_shown w"
  shows "log_shown (on_comms (upd_status (count_frame h (lw_log (log_frame ctx show_io ps numeric w))))
    (log_frame ctx show_io ps numeric w))"
proof (cases "lw_log w")
  case None
  with assms show ?thesis
    by (simp add: log_frame_def log_shown_def on_comms_def upd_status_def count_frame_log)
next
  case (Some writer)
  obtain r writer1 where r: "write_row (ps_row ps) (map (\<lambda>c. numeric (col_channel c)) (mw_columns writer)) writer
      = (r, writer1)" by fastforce
  show ?thesis
  proof (cases r)
    case (Inr u)
    with assms Some r write_row_path [OF r] show ?thesis
      by (simp add: log_frame_def log_shown_def on_comms_def upd_status_def count_frame_log)
  next
    case (Inl e)
    with Some r show ?thesis
      by (simp add: log_frame_def finish_log_def log_shown_def on_comms_def upd_status_def prune_status_def
          broadcast_status_def count_frame_log)
  qed
qed

lemma request_shutdown_rest [simp]: "rest_of (request_shutdown ctx ps w) = rest_of w"
  by (auto simp: request_shutdown_def split: option.splits)

lemma on_frame_shown:
  assumes "on_frame ctx d show_io ps block w = Ret (go, w1)" "log_shown w"
  shows "log_shown w1"
proof -
  obtain wa where wa: "auto_log ctx show_io ps w = Ret wa"
    using assms(1) by (auto simp: on_frame_def run_simps)
  have sa: "log_shown (wa\<lparr>lw_silent := 0\<rparr>)" using auto_log_shown [OF wa assms(2)] by simp
  obtain frame numeric where bf: "build_frame ctx d block (ps_t ps) (map_option mw_rows (lw_log wa)) = Ret (frame, numeric)"
    using assms(1) wa by (auto simp: on_frame_def Let_def run_simps)
  let ?h = "SILENT_POLLS_BEFORE_ERROR \<le> lw_silent wa"
  let ?w3 = "log_frame ctx show_io ps numeric (wa\<lparr>lw_silent := 0\<rparr>)"
  let ?w4 = "on_comms (upd_status (count_frame ?h (lw_log ?w3))) ?w3"
  let ?w6 = "on_comms (send_event (Ev_frame frame)) (if ?h then on_comms broadcast_status ?w4 else ?w4)"
  obtain fired m where m: "observe (numeric ''rpm'') (ps_seen ps) (lw_monitor ?w6) = (fired, m)" by fastforce
  have s4: "log_shown ?w4" by (rule log_frame_shown [OF sa])
  have "log_shown (on_comms broadcast_status ?w4)" by (rule log_shown_on [OF s4]) simp
  then have s5: "log_shown (if ?h then on_comms broadcast_status ?w4 else ?w4)"
    using s4 by (cases ?h) (simp_all only: if_True if_False)
  have "log_shown ?w6" by (rule log_shown_on [OF s5]) simp
  then have s7: "log_shown (?w6\<lparr>lw_monitor := m\<rparr>)" by simp
  obtain sm w8 where w8: "finish_log ctx ps (?w6\<lparr>lw_monitor := m\<rparr>) = (sm, w8)" by fastforce
  have "w1 = (if fired then on_comms (request_shutdown ctx ps) (on_comms broadcast_status w8) else ?w6\<lparr>lw_monitor := m\<rparr>)"
    using assms(1) wa bf m w8 by (simp add: on_frame_def Let_def split: if_splits)
  with s7 finish_log_shown(1) [OF w8 s7] show ?thesis by (auto intro!: log_shown_on)
qed

lemma on_lost_shown:
  assumes "log_shown w"
  shows "log_shown (on_lost ctx show_io ps e w)"
proof -
  obtain sm w2 where w2: "finish_log ctx ps w = (sm, w2)" by fastforce
  from finish_log_shown(2) [OF w2 assms] w2 show ?thesis
    by (simp add: on_lost_def log_shown_def on_comms_def disconnected_def upd_status_def
        broadcast_tune_def broadcast_status_def set_error_def Let_def locked_def split: list.splits)
qed

lemma on_timeout_shown: "log_shown w \<Longrightarrow> log_shown (on_timeout w)"
  by (simp add: on_timeout_def Let_def log_shown_def on_comms_def upd_status_def broadcast_status_def set_error_def)

lemma poll_shown:
  assumes "poll L ctx d show_io ps w = Ret (go, w1)" "log_shown w"
  shows "log_shown w1"
proof -
  obtain r c where c: "in_session (lk_realtime L) (lw_comms w) = Ret (r, c)"
    using assms(1) by (auto simp: poll_def run_simps)
  have w: "log_shown (w\<lparr>lw_comms := c\<rparr>)" by (rule log_shown_comms [OF assms(2) in_session_rest [OF c]])
  show ?thesis
  proof (cases r)
    case (Inr block)
    with assms(1) c w show ?thesis by (auto simp: poll_def intro: on_frame_shown)
  next
    case (Inl e)
    consider "e = CrcMismatch" | "e = Timeout" | "e \<noteq> CrcMismatch" "e \<noteq> Timeout" by blast
    then show ?thesis
    proof cases
      case 1
      then have "w1 = on_comms (upd_status (\<lambda>s. s\<lparr>st_crc_errors := (st_crc_errors s + 1) mod 2 ^ 64\<rparr>)) (w\<lparr>lw_comms := c\<rparr>)"
        using assms(1) c Inl by (simp add: poll_def)
      with w show ?thesis by (simp add: log_shown_def on_comms_def upd_status_def)
    next
      case 2
      with assms(1) c Inl on_timeout_shown [OF w] show ?thesis by (simp add: poll_def)
    next
      case 3
      then have "w1 = on_lost ctx show_io ps e (w\<lparr>lw_comms := c\<rparr>)"
        using assms(1) c Inl by (cases e) (simp_all add: poll_def)
      with on_lost_shown [OF w] show ?thesis by simp
    qed
  qed
qed

lemma loop_pass_shown:
  assumes "loop_pass L ctx d crc show_io ps w = Ret (go, w1)" "log_shown w"
  shows "log_shown w1"
proof -
  obtain b w2 where w2: "handle_cmds L ctx d crc show_io ps (ps_commands ps) w = Ret (b, w2)"
    using assms(1) by (auto simp: loop_pass_def run_simps)
  have s2: "log_shown w2" by (rule handle_cmds_shown [OF w2 assms(2)])
  show ?thesis
  proof (cases b)
    case True
    then obtain w3 where w3: "flush_link L crc show_io w2 = Ret w3"
      using assms(1) w2 by (auto simp: loop_pass_def run_simps)
    have s3: "log_shown w3"
      using w3 s2 by (cases "lk_pages L")
        (auto simp: flush_link_def run_simps dest!: flush_dirty_rest intro: log_shown_comms)
    show ?thesis
    proof (cases "ps_now ps < lw_next_poll w3")
      case False
      then have "poll L ctx d show_io ps
          (w3\<lparr>lw_next_poll := max (lw_next_poll w3 + cx_poll_interval ctx) (ps_now ps)\<rparr>) = Ret (go, w1)"
        using assms(1) w2 w3 True by (simp add: loop_pass_def)
      then show ?thesis by (rule poll_shown) (simp add: s3)
    qed (use assms(1) w2 w3 True s3 in \<open>simp add: loop_pass_def\<close>)
  qed (use assms(1) w2 s2 in \<open>simp add: loop_pass_def\<close>)
qed

lemma run_passes_shown:
  "run_passes L ctx d crc show_io pss w = Ret (go, w1) \<Longrightarrow> log_shown w \<Longrightarrow> log_shown w1"
proof (induction pss arbitrary: w)
  case (Cons ps pss)
  then obtain b w2 where w2: "loop_pass L ctx d crc show_io ps w = Ret (b, w2)"
    by (auto simp: run_simps)
  from loop_pass_shown [OF w2 Cons.prems(2)] Cons w2 show ?case by (cases b) auto
qed simp

end
