(* ===== verification/Thread_Laws.thy ===== *)
theory Thread_Laws
  imports Loop_Laws
begin

text \<open>
  Properties of the comms thread: the log it shows is the log it writes, a calibration is sent
  only under its guards, how silent polls are counted, and how the thread ends.
\<close>

subsection \<open>The log shown is the log open\<close>

lemma check_signature_log:
  assumes "check_signature L ctx w = Ret w1"
  shows "st_log (cw_status w1) = st_log (cw_status w)"
proof (cases "lk_primary L")
  case True
  then obtain r w2 where r: "in_session (lk_query L (i_query_command (cx_def ctx))) w = Ret (r, w2)"
    using assms by (auto simp: check_signature_def run_map_Ret)
  then have s: "st_log (cw_status w2) = st_log (cw_status w)" by (auto simp: in_session_Ret)
  show ?thesis
    using assms True r s
    by (cases r) (auto simp: check_signature_def Let_def upd_status_def set_error_def broadcast_status_def)
qed (use assms in \<open>simp add: check_signature_def\<close>)

lemma first_download_log:
  assumes "first_download L crc show_io w = Ret w1"
  shows "st_log (cw_status w1) = st_log (cw_status w)"
proof (cases "lk_pages L")
  case None
  with assms show ?thesis by (simp add: first_download_def)
next
  case (Some P)
  then obtain r w2 where r: "download_tune P crc w = Ret (r, w2)"
    using assms by (auto simp: first_download_def run_map_Ret)
  have s: "st_log (cw_status w2) = st_log (cw_status w)" by (rule rest_ofD(1) [OF download_tune_rest [OF r]])
  show ?thesis
  proof (cases r)
    case (Inl e)
    with assms Some r s show ?thesis by (auto simp: first_download_def set_error_def broadcast_status_def)
  next
    case (Inr u)
    with assms Some r s show ?thesis
      by (auto simp: first_download_def upd_status_def broadcast_status_def broadcast_tune_def upd_tune_def
          locked_def Let_def split: list.splits)
  qed
qed

text \<open>
  C23. The log in the status is the open log: from a fresh connection on, after any number of
  passes with any commands, faults of the disk and answers of the ECU, the status names a log
  exactly when a writer is open, with its path and the number of rows it has written.
\<close>

theorem shown_log_is_open:
  assumes "thread_run L ctx d crc show_io started passes w = Ret (go, w1)" "st_log (cw_status w) = None"
  shows "st_log (cw_status (lw_comms w1)) =
    map_option (\<lambda>m. \<lparr>ls_path = mw_path m, ls_rows = mw_rows m\<rparr>) (lw_log w1)"
proof -
  obtain wa wb where w: "check_signature L ctx w = Ret wa" "first_download L crc show_io wa = Ret wb"
    and run: "run_passes L ctx d crc show_io passes \<lparr>lw_comms = wb, lw_log = None, lw_auto = cx_auto_log ctx,
      lw_monitor = monitor_new (cx_engine_shutdown ctx), lw_silent = 0, lw_next_poll = started\<rparr> = Ret (go, w1)"
    using assms(1) by (auto simp: thread_run_def run_simps)
  have "log_shown w1"
    by (rule run_passes_shown [OF run])
      (simp add: log_shown_def check_signature_log [OF w(1)] first_download_log [OF w(2)] assms(2))
  then show ?thesis by (simp add: log_shown_def)
qed

text \<open>A link to an ECU that answers one-byte frames, and a definition with an rpm channel.\<close>

definition rpm_def :: ini_def where
  "rpm_def = afr_def\<lparr>i_signature := ''sig'',
     i_output_channels := [(''rpm'', Ch_scalar U08 0 None (Num_lit fone) (Num_lit fzero))]\<rparr>"

definition frame_link :: "u32 \<Rightarrow> bytes link" where
  "frame_link table =
     \<lparr>lk_primary = True, lk_query = \<lambda>c. io_return ''sig'', lk_realtime = (\<lambda>s. Ret (Inr s, s)), lk_pages = None,
      lk_calib_crc = \<lambda>c n. io_return table, lk_calib_write = \<lambda>c n bf bs. io_return ()\<rparr>"

definition rpm_ctx :: comms_ctx where
  "rpm_ctx = \<lparr>cx_def = rpm_def, cx_defaults = Map.empty, cx_poll_interval = 10, cx_auto_log = True,
     cx_log_dir = ''logs'', cx_retention = 0, cx_engine_shutdown = shutdown_config_default\<lparr>es_enabled := True\<rparr>,
     cx_shutdown_path = None, cx_version = ''0.1.0''\<rparr>"

definition sunny_pass :: "nat \<Rightarrow> pass" where
  "sunny_pass now = \<lparr>ps_commands = [], ps_now = now, ps_t = fzero, ps_opened = now, ps_row = now, ps_seen = now,
     ps_stamp = ''t'', ps_create = \<lambda>p. Inr \<lparr>df_text = [], df_faults = []\<rparr>, ps_listing = None,
     ps_remove = \<lambda>p. None, ps_request = \<lambda>p. None\<rparr>"

definition frame_world :: "u8 \<Rightarrow> bytes comms" where
  "frame_world b = \<lparr>cw_session = [b], cw_tune = set_loaded True (tune_new rpm_def),
     cw_status = status_default\<lparr>st_connected := True, st_ecu_signature := Some ''sig''\<rparr>, cw_events = [], cw_edits = []\<rparr>"

lemma rpm_def_simps [simp]:
  "i_output_channels rpm_def = [(''rpm'', Ch_scalar U08 0 None (Num_lit fone) (Num_lit fzero))]"
  "i_signature rpm_def = ''sig''" "i_datalog rpm_def = []" "fp_indicators (i_front_page rpm_def) = []"
  "metadata rpm_def = Inr (the (i_afr_calibration afr_def))"
  by (simp_all add: rpm_def_def afr_def_def ini_default_def metadata_def)

lemma rpm_ctx_simps [simp]:
  "cx_def rpm_ctx = rpm_def" "cx_defaults rpm_ctx = Map.empty" "cx_auto_log rpm_ctx" "cx_retention rpm_ctx = 0"
  "cx_poll_interval rpm_ctx = 10" "cx_shutdown_path rpm_ctx = None"
  "cx_engine_shutdown rpm_ctx = shutdown_config_default\<lparr>es_enabled := True\<rparr>"
  by (simp_all add: rpm_ctx_def)

theorem shown_log_is_open_witness:
  "\<exists>w1. thread_run (frame_link 0) rpm_ctx 5 crc32_ieee (\<lambda>e. []) 100
      [(sunny_pass 7)\<lparr>ps_commands := [Start_log ''a.msl'']\<rparr>] (frame_world 0) = Ret (True, w1)
    \<and> st_log (cw_status (lw_comms w1)) =
      map_option (\<lambda>m. \<lparr>ls_path = mw_path m, ls_rows = mw_rows m\<rparr>) (lw_log w1) \<and> lw_log w1 \<noteq> None"
proof -
  obtain w1 where w1: "thread_run (frame_link 0) rpm_ctx 5 crc32_ieee (\<lambda>e. []) 100
      [(sunny_pass 7)\<lparr>ps_commands := [Start_log ''a.msl'']\<rparr>] (frame_world 0) = Ret (True, w1)" "lw_log w1 \<noteq> None"
    by (simp add: thread_run_def check_signature_def first_download_def frame_link_def in_session_def io_simps
        loop_pass_def handle_cmd_def start_log_def log_columns_def sunny_pass_def msl_create_def flush_link_def
        log_opened_def on_comms_def)
  moreover have "st_log (cw_status (frame_world 0)) = None" by (simp add: frame_world_def status_default_def)
  ultimately show ?thesis using shown_log_is_open [OF w1(1)] by blast
qed

subsection \<open>Calibration\<close>

text \<open>
  C24. A calibration table is sent to the ECU only under its guards: if the table write makes
  any difference to what a request does, then the definition is a supported one, the port is
  the primary one, a live frame read just before shows 0 rpm, the tune is loaded and the ECU's
  signature is that of the definition.
\<close>

theorem calibration_write_guarded:
  assumes "do_calibration (L\<lparr>lk_calib_write := f\<rparr>) ctx d crc show_io data w \<noteq> do_calibration L ctx d crc show_io data w"
  shows "\<exists>cal block s1. metadata (cx_def ctx) = Inr cal \<and> lk_primary L
    \<and> lk_realtime L (cw_session w) = Ret (Inr block, s1) \<and> engine_at_rest ctx d block = Ret True
    \<and> tn_loaded (cw_tune (locked w)) \<and> st_ecu_signature (cw_status w) = Some (i_signature (cx_def ctx))"
proof -
  obtain cal where cal: "metadata (cx_def ctx) = Inr cal"
    using assms by (cases "metadata (cx_def ctx)") (auto simp: do_calibration_def)
  have prim: "lk_primary L" using assms cal by (cases "lk_primary L") (auto simp: do_calibration_def)
  obtain bytes where bytes: "data = Some bytes" using assms cal prim by (cases data) (auto simp: do_calibration_def)
  obtain r w1 where w1: "in_session (lk_realtime L) w = Ret (r, w1)"
    using assms cal prim bytes by (cases "in_session (lk_realtime L) w") (auto simp: do_calibration_def)
  obtain block where block: "r = Inr block"
    using assms cal prim bytes w1 by (cases r) (auto simp: do_calibration_def)
  obtain rest where rest: "engine_at_rest ctx d block = Ret rest"
    using assms cal prim bytes w1 block by (cases "engine_at_rest ctx d block") (auto simp: do_calibration_def)
  have rest1: "rest" using assms cal prim bytes w1 block rest by (cases rest) (auto simp: do_calibration_def)
  have "tn_loaded (cw_tune (locked w1)) \<and> st_ecu_signature (cw_status (locked w1)) = Some (i_signature (cx_def ctx))"
    using assms cal prim bytes w1 block rest rest1
    by (auto simp: do_calibration_def Let_def split: if_splits)
  moreover obtain s1 where "lk_realtime L (cw_session w) = Ret (Inr block, s1)" "w1 = w\<lparr>cw_session := s1\<rparr>"
    using w1 block by (auto simp: in_session_Ret)
  ultimately show ?thesis
    using cal prim rest rest1 by (auto simp: locked_def split: list.splits)
qed

lemma rpm_zero: "tel_channel rpm_def [0] S ''rpm'' = Ret (Some (VNum fzero))"
  by (simp add: tel_channel_def im_get_def tel_read_raw_def read_raw_def slice_get_def decode_raw_def run_ok_def
      f_of_int_exact fadd_def fmul_def to_f64_int [of 0 False, simplified])

theorem calibration_write_guarded_witness:
  "\<exists>cal block s1. metadata rpm_def = Inr cal \<and> lk_primary (frame_link 1)
    \<and> lk_realtime (frame_link 1) (cw_session (frame_world 0)) = Ret (Inr block, s1)
    \<and> engine_at_rest rpm_ctx 5 block = Ret True
    \<and> tn_loaded (cw_tune (locked (frame_world 0))) \<and> st_ecu_signature (cw_status (frame_world 0)) = Some ''sig''"
proof -
  let ?f = "\<lambda>c n bf bs. io_fail Timeout :: (bytes, unit) io"
  have "do_calibration ((frame_link 1)\<lparr>lk_calib_write := ?f\<rparr>) rpm_ctx 5 (\<lambda>bs. 1) (\<lambda>e. []) (Some []) (frame_world 0)
      \<noteq> do_calibration (frame_link 1) rpm_ctx 5 (\<lambda>bs. 1) (\<lambda>e. []) (Some []) (frame_world 0)"
    by (simp add: do_calibration_def frame_link_def frame_world_def in_session_def engine_at_rest_def rpm_zero
        calibration_write_def io_simps set_loaded_def)
  from calibration_write_guarded [OF this] show ?thesis by simp
qed

subsection \<open>Silence\<close>

lemma auto_log_silent: "auto_log ctx show_io ps w = Ret w1 \<Longrightarrow> lw_silent w1 = lw_silent w"
  by (erule auto_logE) (simp_all add: on_comms_def log_opened_def)

lemma finish_log_silent: "lw_silent (snd (finish_log ctx ps w)) = lw_silent w"
  by (auto simp: finish_log_def on_comms_def split: option.splits)

lemma log_frame_silent: "lw_silent (log_frame ctx show_io ps numeric w) = lw_silent w"
proof (cases "lw_log w")
  case (Some writer)
  obtain r writer1 where r: "write_row (ps_row ps) (map (\<lambda>c. numeric (col_channel c)) (mw_columns writer)) writer
      = (r, writer1)" by fastforce
  show ?thesis using Some r by (cases r) (simp_all add: log_frame_def finish_log_silent on_comms_def)
qed (simp add: log_frame_def)

lemma on_frame_silent:
  assumes "on_frame ctx d show_io ps block w = Ret (go, w1)"
  shows "lw_silent w1 = 0"
proof -
  obtain wa where wa: "auto_log ctx show_io ps w = Ret wa"
    using assms(1) by (auto simp: on_frame_def run_simps)
  obtain frame numeric where "build_frame ctx d block (ps_t ps) (map_option mw_rows (lw_log wa)) = Ret (frame, numeric)"
    using assms(1) wa by (auto simp: on_frame_def Let_def run_simps)
  with wa assms show ?thesis
    by (auto simp: on_frame_def Let_def finish_log_silent log_frame_silent on_comms_def
        split: if_splits prod.splits)
qed

text \<open>
  How silent polls are counted.  A decoded frame resets the count and a timeout
  adds one, with the error reported when the count reaches 3; a frame that arrives with a bad
  checksum does neither, so it does not break a row of timeouts although the ECU answered.
\<close>

theorem silence_count:
  assumes "lk_realtime L (cw_session (lw_comms w)) = Ret (r, s)" "poll L ctx d show_io ps w = Ret (go, w1)"
  shows "(\<forall>block. r = Inr block \<longrightarrow> lw_silent w1 = 0)
    \<and> (r = Inl CrcMismatch \<longrightarrow> lw_silent w1 = lw_silent w)
    \<and> (r = Inl Timeout \<longrightarrow> lw_silent w1 = (lw_silent w + 1) mod 2 ^ 32
         \<and> (lw_silent w1 = 3 \<longrightarrow> st_last_error (cw_status (lw_comms w1)) = Some ''ECU not responding''))"
proof (intro conjI allI impI)
  have poll: "in_session (lk_realtime L) (lw_comms w) = Ret (r, (lw_comms w)\<lparr>cw_session := s\<rparr>)"
    using assms(1) by (simp add: in_session_def)
  show "lw_silent w1 = 0" if "r = Inr block" for block
    using assms(2) poll that by (auto simp: poll_def dest: on_frame_silent)
  show "lw_silent w1 = lw_silent w" if "r = Inl CrcMismatch"
    using assms(2) poll that by (auto simp: poll_def on_comms_def)
  show "lw_silent w1 = (lw_silent w + 1) mod 2 ^ 32" if "r = Inl Timeout"
    using assms(2) poll that by (auto simp: poll_def on_timeout_def Let_def on_comms_def)
  show "st_last_error (cw_status (lw_comms w1)) = Some ''ECU not responding''"
    if "r = Inl Timeout" "lw_silent w1 = 3"
    using assms(2) poll that
    by (auto simp: poll_def on_timeout_def Let_def on_comms_def SILENT_POLLS_BEFORE_ERROR_def set_error_def
        broadcast_status_def split: if_splits)
qed

definition idle_state :: "'s comms \<Rightarrow> nat \<Rightarrow> 's loop_state" where
  "idle_state c n = \<lparr>lw_comms = c, lw_log = None, lw_auto = False, lw_monitor = monitor_new shutdown_config_default,
     lw_silent = n, lw_next_poll = 0\<rparr>"

theorem silence_count_witness:
  "\<exists>w1. poll ((frame_link 0)\<lparr>lk_realtime := io_fail CrcMismatch\<rparr>) rpm_ctx 5 (\<lambda>e. []) (sunny_pass 7)
      (idle_state (frame_world 0) 2) = Ret (True, w1) \<and> lw_silent w1 = 2"
proof -
  let ?L = "(frame_link 0)\<lparr>lk_realtime := io_fail CrcMismatch\<rparr>" and ?w = "idle_state (frame_world 0) 2"
  obtain w1 where w1: "poll ?L rpm_ctx 5 (\<lambda>e. []) (sunny_pass 7) ?w = Ret (True, w1)"
    by (simp add: poll_def in_session_def io_simps)
  have "lk_realtime ?L (cw_session (lw_comms ?w)) = Ret (Inl CrcMismatch, [0])"
    by (simp add: io_simps idle_state_def frame_world_def)
  from silence_count [OF this w1] w1 show ?thesis by (auto simp: idle_state_def)
qed

subsection \<open>How the thread ends\<close>

definition kept :: "'s loop_state \<Rightarrow> 's loop_state \<Rightarrow> bool" where
  "kept w w1 \<longleftrightarrow> st_connected (cw_status (lw_comms w1)) = st_connected (cw_status (lw_comms w))
     \<and> cw_tune (lw_comms w1) = cw_tune (lw_comms w)"

lemma kept_trans [trans]: "kept a b \<Longrightarrow> kept b c \<Longrightarrow> kept a c"
  by (simp add: kept_def)

lemma finish_log_kept: "kept w (snd (finish_log ctx ps w))" "lw_log (snd (finish_log ctx ps w)) = None"
  "lw_monitor (snd (finish_log ctx ps w)) = lw_monitor w"
  by (auto simp: kept_def finish_log_def on_comms_def upd_status_def prune_status_def split: option.splits)

lemma auto_log_kept: "auto_log ctx show_io ps w = Ret w1 \<Longrightarrow> kept w w1"
  by (erule auto_logE) (simp_all add: kept_def on_comms_def log_opened_def upd_status_def set_error_def)

lemma log_frame_kept: "kept w (log_frame ctx show_io ps numeric w)"
proof (cases "lw_log w")
  case (Some writer)
  obtain r writer1 where r: "write_row (ps_row ps) (map (\<lambda>c. numeric (col_channel c)) (mw_columns writer)) writer
      = (r, writer1)" by fastforce
  show ?thesis
    using Some r by (cases r)
      (simp_all add: log_frame_def kept_def finish_log_def on_comms_def upd_status_def prune_status_def
        set_error_def broadcast_status_def)
qed (simp add: log_frame_def kept_def)

lemma observe_fires: "observe rpm now m = (True, m1) \<Longrightarrow> mo_requested m1"
  by (auto simp: observe_def Let_def split: if_splits option.splits)

text \<open>
  When the engine-stop monitor fires, the thread ends with its log closed but leaves the
  status as it was: still connected, with the tune still loaded, unlike the two other ways the
  thread can end.
\<close>

theorem engine_stop_exit:
  assumes "on_frame ctx d show_io ps block w = Ret (False, w1)"
  shows "lw_log w1 = None \<and> mo_requested (lw_monitor w1)
    \<and> st_connected (cw_status (lw_comms w1)) = st_connected (cw_status (lw_comms w))
    \<and> cw_tune (lw_comms w1) = cw_tune (lw_comms w)"
proof -
  obtain wa where wa: "auto_log ctx show_io ps w = Ret wa"
    using assms(1) by (auto simp: on_frame_def run_simps)
  obtain frame numeric where bf: "build_frame ctx d block (ps_t ps) (map_option mw_rows (lw_log wa)) = Ret (frame, numeric)"
    using assms(1) wa by (auto simp: on_frame_def Let_def run_simps)
  let ?h = "SILENT_POLLS_BEFORE_ERROR \<le> lw_silent wa"
  let ?w3 = "log_frame ctx show_io ps numeric (wa\<lparr>lw_silent := 0\<rparr>)"
  let ?w4 = "on_comms (upd_status (count_frame ?h (lw_log ?w3))) ?w3"
  let ?w6 = "on_comms (send_event (Ev_frame frame)) (if ?h then on_comms broadcast_status ?w4 else ?w4)"
  obtain fired m where m: "observe (numeric ''rpm'') (ps_seen ps) (lw_monitor ?w6) = (fired, m)" by fastforce
  let ?w8 = "snd (finish_log ctx ps (?w6\<lparr>lw_monitor := m\<rparr>))"
  have f: "fired" and w1: "w1 = on_comms (request_shutdown ctx ps) (on_comms broadcast_status ?w8)"
    using assms(1) wa bf m by (simp_all add: on_frame_def Let_def split: if_splits)
  have 3: "kept (wa\<lparr>lw_silent := 0\<rparr>) ?w3" by (rule log_frame_kept)
  have 6: "kept ?w3 (?w6\<lparr>lw_monitor := m\<rparr>)"
    by (cases ?h) (simp_all add: kept_def on_comms_def upd_status_def count_frame_def send_event_def broadcast_status_def)
  have 8: "kept (?w6\<lparr>lw_monitor := m\<rparr>) ?w8" by (rule finish_log_kept)
  have 9: "kept ?w8 w1"
    unfolding w1 by (simp add: kept_def on_comms_def broadcast_status_def request_shutdown_def set_error_def split: option.splits)
  have "kept w (wa\<lparr>lw_silent := 0\<rparr>)" using auto_log_kept [OF wa] by (simp add: kept_def)
  also note 3
  also note 6
  also note 8
  also note 9
  finally have "kept w w1" .
  moreover have "lw_log w1 = None" "lw_monitor w1 = m"
    by (simp_all add: w1 on_comms_def finish_log_kept)
  ultimately show ?thesis using observe_fires m f by (simp add: kept_def)
qed

theorem engine_stop_exit_witness:
  "\<exists>w1. on_frame rpm_ctx 5 (\<lambda>e. []) (sunny_pass (20 * 10 ^ 9)) [0]
      ((idle_state (frame_world 0) 0)\<lparr>lw_monitor := (monitor_new (shutdown_config_default\<lparr>es_enabled := True\<rparr>))
         \<lparr>mo_armed := True, mo_stopped_since := Some 0\<rparr>\<rparr>) = Ret (False, w1)
    \<and> lw_log w1 = None \<and> mo_requested (lw_monitor w1) \<and> st_connected (cw_status (lw_comms w1))
    \<and> tn_loaded (cw_tune (lw_comms w1))"
proof -
  let ?w = "(idle_state (frame_world 0) 0)\<lparr>lw_monitor := (monitor_new (shutdown_config_default\<lparr>es_enabled := True\<rparr>))
         \<lparr>mo_armed := True, mo_stopped_since := Some 0\<rparr>\<rparr>"
  let ?S = "tel_syms rpm_def [0] (Some (extra_syms Map.empty fzero)) 5"
  have "frame_channels rpm_def [0] ?S [''rpm''] = Ret ([(''rpm'', VNum (round6 fzero))], [(''rpm'', fzero)])"
    by (simp add: rpm_zero)
  then have bf: "build_frame rpm_ctx 5 [0] fzero None =
      Ret (\<lparr>fr_t = round6 fzero, fr_channels = [(''rpm'', VNum (round6 fzero))], fr_indicators = [], fr_log_rows = None\<rparr>,
        map_of [(''rpm'', fzero)])"
    by (simp add: build_frame_def Let_def)
  obtain m where obs: "observe (Some fzero) (20 * 10 ^ 9) (lw_monitor ?w) = (True, m)"
    by (simp add: observe_def monitor_new_def shutdown_config_default_def f_of_int_exact fle_def delay_ns_def)
  have ps: "ps_t (sunny_pass (20 * 10 ^ 9)) = fzero" "ps_seen (sunny_pass (20 * 10 ^ 9)) = 20 * 10 ^ 9"
    by (simp_all add: sunny_pass_def)
  have w: "lw_log ?w = None" "lw_silent ?w = 0" "auto_log rpm_ctx (\<lambda>e. []) (sunny_pass (20 * 10 ^ 9)) ?w = Ret ?w"
    by (simp_all add: idle_state_def auto_log_def)
  obtain w1 where w1: "on_frame rpm_ctx 5 (\<lambda>e. []) (sunny_pass (20 * 10 ^ 9)) [0] ?w = Ret (False, w1)"
    unfolding on_frame_def w(3) ps
    using bf obs w(1) w(2)
    by (simp del: lw_monitor_update_def add: Let_def log_frame_def on_comms_def SILENT_POLLS_BEFORE_ERROR_def split: prod.splits)
  from engine_stop_exit [OF w1] w1 show ?thesis by (simp add: idle_state_def frame_world_def set_loaded_def)
qed

end
