(* ===== verification/Log_Sample.thy ===== *)
theory Log_Sample
  imports Datalog Tune_Edit
begin

text \<open>
  Reducing log rows to what a plot needs: column selection, row parsing and the buckets of
  \<open>server/src/log_view.rs\<close>.  A bucket keeps its first and last row and, for each channel, a
  row with the least value, one with the greatest and one without a value;
  \<open>bucket_extremes\<close> states it.
\<close>

subsection \<open>Samples and buckets\<close>

record sample =
  sm_row :: nat
  sm_values :: "f64 option list"

record bucket =
  bk_first :: sample
  bk_last :: sample
  bk_low :: "sample option list"
  bk_high :: "sample option list"
  bk_gaps :: "sample option list"

text \<open>
  One channel of \<open>add\<close>: replace the kept sample when the new value beats it.  The kept
  sample has a value there, which the code unwraps; the rows of one view all have the same
  number of values, so the three lists are as long as the row.
\<close>

definition keep_beating :: "(f64 \<Rightarrow> f64 \<Rightarrow> bool) \<Rightarrow> nat \<Rightarrow> sample \<Rightarrow> sample option \<Rightarrow> sample option" where
  "keep_beating beats c s kept =
     (if c = 0 then kept
      else case sm_values s ! c of
          None \<Rightarrow> kept
        | Some v \<Rightarrow>
            (case kept of
               None \<Rightarrow> Some s
             | Some t \<Rightarrow> if beats v (the (sm_values t ! c)) then Some s else kept))"

definition keep_gap :: "nat \<Rightarrow> sample \<Rightarrow> sample option \<Rightarrow> sample option" where
  "keep_gap c s kept = (if c \<noteq> 0 \<and> sm_values s ! c = None \<and> kept = None then Some s else kept)"

definition bucket_add :: "sample \<Rightarrow> bucket \<Rightarrow> bucket" where
  "bucket_add s b =
     b\<lparr>bk_last := s,
       bk_low := map (\<lambda>(c, k). keep_beating flt c s k) (enumerate 0 (bk_low b)),
       bk_high := map (\<lambda>(c, k). keep_beating (\<lambda>v w. flt w v) c s k) (enumerate 0 (bk_high b)),
       bk_gaps := map (\<lambda>(c, k). keep_gap c s k) (enumerate 0 (bk_gaps b))\<rparr>"

definition bucket_new :: "sample \<Rightarrow> bucket" where
  "bucket_new s =
     (let n = length (sm_values s)
      in bucket_add s \<lparr>bk_first = s, bk_last = s, bk_low = replicate n None, bk_high = replicate n None,
           bk_gaps = replicate n None\<rparr>)"

text \<open>\<open>match &mut bucket\<close>: the first sample opens it.\<close>

definition bucket_put :: "sample \<Rightarrow> bucket option \<Rightarrow> bucket option" where
  "bucket_put s b = Some (case b of Some k \<Rightarrow> bucket_add s k | None \<Rightarrow> bucket_new s)"

definition somes :: "'a option list \<Rightarrow> 'a list" where
  "somes xs = List.map_filter id xs"

text \<open>\<open>dedup_by_key(row)\<close>\<close>

fun dedup_rows :: "sample list \<Rightarrow> sample list" where
  "dedup_rows (x # y # r) = (if sm_row x = sm_row y then dedup_rows (x # r) else x # dedup_rows (y # r))"
| "dedup_rows xs = xs"

definition bucket_keep :: "bucket \<Rightarrow> sample list" where
  "bucket_keep b =
     dedup_rows (sort_key sm_row
       ([bk_first b, bk_last b] @ somes (bk_low b) @ somes (bk_high b) @ somes (bk_gaps b)))"

text \<open>\<open>columns.iter_mut().zip(values)\<close>: push each value to its column.\<close>

definition push_row :: "f64 option list \<Rightarrow> f64 option list list \<Rightarrow> f64 option list list" where
  "push_row vs cols = map (\<lambda>(i, col). if i < length vs then col @ [vs ! i] else col) (enumerate 0 cols)"

definition bucket_finish :: "bucket \<Rightarrow> f64 option list list \<Rightarrow> f64 option list list" where
  "bucket_finish b cols = foldl (\<lambda>cs s. push_row (sm_values s) cs) cols (bucket_keep b)"

subsection \<open>Columns\<close>

definition DEFAULT_CHANNELS :: string where "DEFAULT_CHANNELS = ''RPM,MAP,AFR,TPS,CLT''"

definition selected_columns :: "string list \<Rightarrow> string option \<Rightarrow> nat list" where
  "selected_columns labels channels =
     (let requested = split_on CHR '','' (or_val DEFAULT_CHANNELS channels)
      in 0 # filter (\<lambda>i. labels ! i \<in> set requested) [1 ..< length labels])"

definition cell_value_of :: "string \<Rightarrow> f64 option" where
  "cell_value_of c = (case parse_f64 (trim c) of Some v \<Rightarrow> if is_finite v then Some v else None | None \<Rightarrow> None)"

text \<open>
  The cells are an iterator: \<open>nth(k)\<close> skips \<open>k\<close> cells and takes the next one.  The step
  \<open>ci - previous - 1\<close> does not go below zero on an increasing selection.
\<close>

fun parse_cells :: "string list \<Rightarrow> nat \<Rightarrow> nat list \<Rightarrow> f64 option list" where
  "parse_cells cells previous [] = []"
| "parse_cells cells previous (ci # idxs) =
     (let rest = drop (ci - previous - 1) cells
      in (case rest of [] \<Rightarrow> None | c # r \<Rightarrow> cell_value_of c) # parse_cells (tl rest) ci idxs)"

definition parse_columns :: "string \<Rightarrow> nat list \<Rightarrow> f64 \<Rightarrow> f64 option list" where
  "parse_columns row selected time = Some time # parse_cells (tl (split_on CHR 0x09 row)) 0 (tl selected)"

text \<open>The selection is increasing, so each value is the cell of its own column.\<close>

lemma parse_cells_nth:
  assumes "sorted_wrt (<) (p # idxs)"
  shows "parse_cells (drop (Suc p) cells) p idxs =
    map (\<lambda>ci. Option.bind (list_get cells ci) cell_value_of) idxs"
  using assms
proof (induction idxs arbitrary: p)
  case (Cons ci idxs)
  then have lt: "p < ci" and sorted: "sorted_wrt (<) (ci # idxs)" by auto
  have step: "drop (ci - p - 1) (drop (Suc p) cells) = drop ci cells" using lt by simp
  have hd: "(case drop ci cells of [] \<Rightarrow> None | c # r \<Rightarrow> cell_value_of c)
      = Option.bind (list_get cells ci) cell_value_of"
  proof (cases "ci < length cells")
    case True
    then have "drop ci cells = cells ! ci # drop (Suc ci) cells" by (rule Cons_nth_drop_Suc [symmetric])
    then show ?thesis using True by (simp add: list_get_def)
  qed (simp add: list_get_def)
  have tl: "tl (drop ci cells) = drop (Suc ci) cells" by (simp add: drop_Suc tl_drop)
  show ?case
    using Cons.IH [OF sorted] by (simp only: parse_cells.simps Let_def step hd tl list.map)
qed simp

lemma selected_columns_sorted: "sorted_wrt (<) (selected_columns labels channels)"
  by (auto simp: selected_columns_def Let_def intro!: sorted_wrt_filter)

lemma selected_columns_shape:
  "hd (selected_columns labels channels) = 0" "selected_columns labels channels \<noteq> []"
  by (simp_all add: selected_columns_def Let_def)

text \<open>The time, then the cell of every selected column.\<close>

lemma parse_columns_cells:
  assumes "sel = selected_columns labels channels"
  shows "parse_columns row sel t =
    Some t # map (\<lambda>ci. Option.bind (list_get (split_on CHR 0x09 row) ci) cell_value_of) (tl sel)"
proof -
  have "sel = 0 # tl sel" unfolding assms using selected_columns_shape by (metis list.collapse)
  then have "sorted_wrt (<) (0 # tl sel)" using selected_columns_sorted assms by metis
  from parse_cells_nth [OF this, of "split_on CHR 0x09 row"] show ?thesis
    by (simp add: parse_columns_def drop_Suc)
qed

lemma length_parse_columns [simp]: "sel \<noteq> [] \<Longrightarrow> length (parse_columns row sel t) = length sel"
proof -
  have "length (parse_cells cs p idxs) = length idxs" for cs p idxs
    by (induction idxs arbitrary: cs p) (simp_all add: Let_def)
  then show "sel \<noteq> [] \<Longrightarrow> length (parse_columns row sel t) = length sel"
    by (simp add: parse_columns_def)
qed

subsection \<open>What a bucket keeps\<close>

text \<open>The bucket of a list of samples.\<close>

definition bucket_of :: "sample list \<Rightarrow> bucket option" where
  "bucket_of ss = foldl (\<lambda>b s. bucket_put s b) None ss"

lemma flt_trans: "flt x y \<Longrightarrow> flt y z \<Longrightarrow> flt x z"
  by (cases x; cases y; cases z; simp)

lemma flt_irrefl: "\<not> flt x x"
  by (cases x) simp_all

text \<open>The kept sample of a channel: one with a value nothing beats, if there is a value at all.\<close>

definition best :: "(f64 \<Rightarrow> f64 \<Rightarrow> bool) \<Rightarrow> nat \<Rightarrow> sample list \<Rightarrow> sample option \<Rightarrow> bool" where
  "best beats c ss kept \<longleftrightarrow>
     (case kept of
        None \<Rightarrow> \<forall>s \<in> set ss. sm_values s ! c = None
      | Some t \<Rightarrow> t \<in> set ss \<and> (\<exists>w. sm_values t ! c = Some w \<and>
          (\<forall>s \<in> set ss. \<forall>v. sm_values s ! c = Some v \<longrightarrow> \<not> beats v w)))"

lemma keep_best:
  assumes "transp beats" "irreflp beats" "0 < c" "best beats c ss k"
  shows "best beats c (ss @ [s]) (keep_beating beats c s k)"
proof (cases "sm_values s ! c")
  case None
  then show ?thesis using assms(3,4) by (cases k) (simp_all add: best_def keep_beating_def)
next
  case (Some v)
  have irrefl: "\<not> beats v v" using assms(2) by (simp add: irreflpD)
  show ?thesis
  proof (cases k)
    case None
    then show ?thesis using Some assms(3,4) irrefl by (simp add: best_def keep_beating_def)
  next
    case k: (Some t)
    then obtain w where w: "t \<in> set ss" "sm_values t ! c = Some w"
      "\<forall>s \<in> set ss. \<forall>v. sm_values s ! c = Some v \<longrightarrow> \<not> beats v w"
      using assms(4) by (auto simp: best_def)
    show ?thesis
    proof (cases "beats v w")
      case True
      then have "keep_beating beats c s k = Some s" using k Some w(2) assms(3) by (simp add: keep_beating_def)
      moreover have "\<forall>s' \<in> set ss. \<forall>v'. sm_values s' ! c = Some v' \<longrightarrow> \<not> beats v' v"
        using w(3) True assms(1) by (meson transpD)
      ultimately show ?thesis using Some irrefl by (simp add: best_def)
    next
      case False
      then have "keep_beating beats c s k = Some t" using k Some w(2) assms(3) by (simp add: keep_beating_def)
      then show ?thesis using w Some False by (simp add: best_def)
    qed
  qed
qed

lemma keep_beating_best:
  assumes "transp beats" "irreflp beats" "0 < c"
  shows "best beats c ss (foldl (\<lambda>k s. keep_beating beats c s k) None ss)"
proof (induction ss rule: rev_induct)
  case Nil
  show ?case by (simp add: best_def)
next
  case (snoc s ss)
  then show ?case using keep_best [OF assms] by simp
qed

lemma flt_order: "transp flt" "irreflp flt" "transp (\<lambda>v w. flt w v)" "irreflp (\<lambda>v w. flt w v)"
  by (auto intro!: transpI irreflpI intro: flt_trans simp: flt_irrefl)

lemma keep_gap_fold:
  assumes "0 < c" "k = foldl (\<lambda>k s. keep_gap c s k) None ss"
  shows "case k of None \<Rightarrow> \<forall>s \<in> set ss. sm_values s ! c \<noteq> None | Some t \<Rightarrow> t \<in> set ss \<and> sm_values t ! c = None"
  using assms(2)
proof (induction ss arbitrary: k rule: rev_induct)
  case (snoc s ss)
  let ?k = "foldl (\<lambda>k s. keep_gap c s k) None ss"
  have k: "k = keep_gap c s ?k" using snoc.prems by simp
  show ?case
  proof (cases ?k)
    case None
    then show ?thesis using snoc.IH [OF refl] k assms(1) by (cases "sm_values s ! c") (simp_all add: keep_gap_def)
  next
    case (Some t)
    then show ?thesis using snoc.IH [OF refl] k by (simp add: keep_gap_def)
  qed
qed simp

text \<open>The lists of a bucket are the folds of its channels.\<close>

lemma bucket_add_lists:
  "length (bk_low b) = n \<Longrightarrow> length (bk_low (bucket_add s b)) = n"
  "length (bk_high b) = n \<Longrightarrow> length (bk_high (bucket_add s b)) = n"
  "length (bk_gaps b) = n \<Longrightarrow> length (bk_gaps (bucket_add s b)) = n"
  "c < length (bk_low b) \<Longrightarrow> bk_low (bucket_add s b) ! c = keep_beating flt c s (bk_low b ! c)"
  "c < length (bk_high b) \<Longrightarrow> bk_high (bucket_add s b) ! c = keep_beating (\<lambda>v w. flt w v) c s (bk_high b ! c)"
  "c < length (bk_gaps b) \<Longrightarrow> bk_gaps (bucket_add s b) ! c = keep_gap c s (bk_gaps b ! c)"
  "bk_first (bucket_add s b) = bk_first b" "bk_last (bucket_add s b) = s"
  by (simp_all add: bucket_add_def nth_enumerate_eq)

lemma bucket_of_snoc: "bucket_of (ss @ [s]) = bucket_put s (bucket_of ss)"
  by (simp add: bucket_of_def)

lemma bucket_of_folds:
  assumes "ss \<noteq> []" "\<forall>s \<in> set ss. length (sm_values s) = n"
  shows "\<exists>b. bucket_of ss = Some b \<and> bk_first b = hd ss \<and> bk_last b = last ss \<and>
    length (bk_low b) = n \<and> length (bk_high b) = n \<and> length (bk_gaps b) = n \<and>
    (\<forall>c < n. bk_low b ! c = foldl (\<lambda>k s. keep_beating flt c s k) None ss \<and>
      bk_high b ! c = foldl (\<lambda>k s. keep_beating (\<lambda>v w. flt w v) c s k) None ss \<and>
      bk_gaps b ! c = foldl (\<lambda>k s. keep_gap c s k) None ss)"
  using assms
proof (induction ss rule: rev_induct)
  case (snoc s ss)
  show ?case
  proof (cases "ss = []")
    case True
    then show ?thesis
      using snoc.prems by (simp add: bucket_of_def bucket_put_def bucket_new_def Let_def bucket_add_lists)
  next
    case False
    with snoc obtain b where "bucket_of ss = Some b" "bk_first b = hd ss"
      "length (bk_low b) = n" "length (bk_high b) = n" "length (bk_gaps b) = n"
      "\<forall>c < n. bk_low b ! c = foldl (\<lambda>k s. keep_beating flt c s k) None ss \<and>
        bk_high b ! c = foldl (\<lambda>k s. keep_beating (\<lambda>v w. flt w v) c s k) None ss \<and>
        bk_gaps b ! c = foldl (\<lambda>k s. keep_gap c s k) None ss" by auto
    then show ?thesis using False by (simp add: bucket_of_snoc bucket_put_def bucket_add_lists)
  qed
qed simp

text \<open>Sorting by row and dropping repeats.\<close>

lemma dedup_head: "xs \<noteq> [] \<Longrightarrow> dedup_rows xs \<noteq> [] \<and> hd (dedup_rows xs) = hd xs"
  by (induction xs rule: dedup_rows.induct) auto

lemma dedup_set: "inj_on sm_row (set xs) \<Longrightarrow> set (dedup_rows xs) = set xs"
proof (induction xs rule: dedup_rows.induct)
  case (1 x y r)
  show ?case
  proof (cases "sm_row x = sm_row y")
    case True
    then have xy: "x = y" using inj_onD [OF "1.prems" True] by simp
    have "set (dedup_rows (x # r)) = set (x # r)"
      using "1.IH"(1) [OF True inj_on_subset [OF "1.prems"]] by auto
    then show ?thesis using xy by simp
  next
    case False
    have "set (dedup_rows (y # r)) = set (y # r)"
      using "1.IH"(2) [OF False inj_on_subset [OF "1.prems"]] by auto
    then show ?thesis using False by simp
  qed
qed simp_all

lemma dedup_sorted: "sorted (map sm_row xs) \<Longrightarrow> sorted_wrt (<) (map sm_row (dedup_rows xs))"
proof (induction xs rule: dedup_rows.induct)
  case (1 x y r)
  show ?case
  proof (cases "sm_row x = sm_row y")
    case False
    with 1 have IH: "sorted_wrt (<) (map sm_row (dedup_rows (y # r)))" and lt: "sm_row x < sm_row y" by auto
    obtain d ds where d: "dedup_rows (y # r) = d # ds" "d = y"
      using dedup_head [of "y # r"] by (cases "dedup_rows (y # r)") auto
    with IH lt False show ?thesis by auto
  qed (use 1 in auto)
qed auto

lemma dedup_length: "length (dedup_rows xs) \<le> length xs"
  by (induction xs rule: dedup_rows.induct) auto

lemma set_somes: "x \<in> set (somes xs) \<longleftrightarrow> Some x \<in> set xs"
  by (induction xs) (auto simp: somes_def map_filter_simps split: option.splits)

lemma somes_nth: "c < length xs \<Longrightarrow> xs ! c = Some t \<Longrightarrow> t \<in> set (somes xs)"
  by (metis nth_mem set_somes)

lemma length_somes: "xs \<noteq> [] \<Longrightarrow> xs ! 0 = None \<Longrightarrow> length (somes xs) \<le> length xs - 1"
proof -
  have "length (somes xs) \<le> length xs" for xs :: "'a option list"
    by (induction xs) (auto simp: somes_def map_filter_simps split: option.splits)
  then show "xs \<noteq> [] \<Longrightarrow> xs ! 0 = None \<Longrightarrow> length (somes xs) \<le> length xs - 1"
    by (cases xs) (auto simp: somes_def map_filter_simps)
qed

lemma keep_zero:
  "foldl (\<lambda>k s. keep_beating beats 0 s k) None ss = None" "foldl (\<lambda>k s. keep_gap 0 s k) None ss = None"
  by (induction ss rule: rev_induct) (simp_all add: keep_beating_def keep_gap_def)

lemma sorted_rows_inj: "sorted_wrt (<) (map sm_row ss) \<Longrightarrow> inj_on sm_row (set ss)"
  by (metis distinct_map strict_sorted_iff)

lemma bucket_keep_bound:
  assumes "bucket_of ss = Some b" "ss \<noteq> []" "\<forall>s \<in> set ss. length (sm_values s) = n" "0 < n"
  shows "length (bucket_keep b) \<le> 2 + 3 * (n - 1)"
proof -
  let ?all = "[bk_first b, bk_last b] @ somes (bk_low b) @ somes (bk_high b) @ somes (bk_gaps b)"
  from bucket_of_folds [OF assms(2,3)] assms(1)
  have len: "length (bk_low b) = n" "length (bk_high b) = n" "length (bk_gaps b) = n"
    and zero: "bk_low b ! 0 = None" "bk_high b ! 0 = None" "bk_gaps b ! 0 = None"
    using assms(4) keep_zero by auto
  have "length (bucket_keep b) \<le> length ?all"
    unfolding bucket_keep_def by (rule order.trans [OF dedup_length]) simp
  also have "\<dots> \<le> 2 + 3 * (n - 1)"
  proof -
    have "length (somes (bk_low b)) \<le> n - 1" "length (somes (bk_high b)) \<le> n - 1" "length (somes (bk_gaps b)) \<le> n - 1"
      using length_somes [of "bk_low b"] length_somes [of "bk_high b"] length_somes [of "bk_gaps b"] zero len assms(4)
      by (metis length_greater_0_conv)+
    then show ?thesis by simp
  qed
  finally show ?thesis .
qed

text \<open>
  A bucket keeps rows of its own, in order, its ends among them, and for every channel and
  row a kept row that is not above it, one that is not below it, or a gap for a gap.
\<close>

theorem bucket_extremes:
  assumes "bucket_of ss = Some b" "ss \<noteq> []" "\<forall>s \<in> set ss. length (sm_values s) = n" "0 < n"
    "sorted_wrt (<) (map sm_row ss)"
  shows "set (bucket_keep b) \<subseteq> set ss \<and> sorted_wrt (<) (map sm_row (bucket_keep b)) \<and>
    hd ss \<in> set (bucket_keep b) \<and> last ss \<in> set (bucket_keep b) \<and>
    length (bucket_keep b) \<le> 2 + 3 * (n - 1) \<and>
    (\<forall>c s. 0 < c \<and> c < n \<and> s \<in> set ss \<longrightarrow>
      (case sm_values s ! c of
         None \<Rightarrow> \<exists>t \<in> set (bucket_keep b). sm_values t ! c = None
       | Some v \<Rightarrow> (\<exists>t \<in> set (bucket_keep b). \<exists>w. sm_values t ! c = Some w \<and> \<not> flt v w) \<and>
           (\<exists>t \<in> set (bucket_keep b). \<exists>w. sm_values t ! c = Some w \<and> \<not> flt w v)))"
proof -
  let ?all = "[bk_first b, bk_last b] @ somes (bk_low b) @ somes (bk_high b) @ somes (bk_gaps b)"
  from bucket_of_folds [OF assms(2,3)] assms(1)
  have ends: "bk_first b = hd ss" "bk_last b = last ss"
    and len: "length (bk_low b) = n" "length (bk_high b) = n" "length (bk_gaps b) = n"
    and low: "\<And>c. c < n \<Longrightarrow> bk_low b ! c = foldl (\<lambda>k s. keep_beating flt c s k) None ss"
    and high: "\<And>c. c < n \<Longrightarrow> bk_high b ! c = foldl (\<lambda>k s. keep_beating (\<lambda>v w. flt w v) c s k) None ss"
    and gaps: "\<And>c. c < n \<Longrightarrow> bk_gaps b ! c = foldl (\<lambda>k s. keep_gap c s k) None ss"
    by auto
  have low_best: "best flt c ss (bk_low b ! c)" if "0 < c" "c < n" for c
    using keep_beating_best [OF flt_order(1,2) that(1)] low [OF that(2)] by simp
  have high_best: "best (\<lambda>v w. flt w v) c ss (bk_high b ! c)" if "0 < c" "c < n" for c
    using keep_beating_best [OF flt_order(3,4) that(1)] high [OF that(2)] by simp
  note gap_spec = keep_gap_fold [OF _ gaps]
  have zero: "bk_low b ! 0 = None" "bk_high b ! 0 = None" "bk_gaps b ! 0 = None"
    using low high gaps assms(4) keep_zero by simp_all
  have sub: "set ?all \<subseteq> set ss"
  proof -
    have "t \<in> set ss" if t: "Some t \<in> set (bk_low b) \<or> Some t \<in> set (bk_high b) \<or> Some t \<in> set (bk_gaps b)" for t
    proof -
      from t len obtain c where c: "c < n" "bk_low b ! c = Some t \<or> bk_high b ! c = Some t \<or> bk_gaps b ! c = Some t"
        by (auto simp: in_set_conv_nth)
      then have "0 < c" using zero by (cases c) auto
      with c low_best [of c] high_best [of c] gap_spec [of c] show ?thesis by (auto simp: best_def)
    qed
    then show ?thesis using assms(2) ends by (auto simp: set_somes)
  qed
  have "inj_on sm_row (set ?all)"
    using sorted_rows_inj [OF assms(5)] sub by (rule inj_on_subset)
  then have keep: "set (bucket_keep b) = set ?all"
    unfolding bucket_keep_def by (subst dedup_set) (simp_all only: set_sort)
  have kept: "t \<in> set (bucket_keep b)" if "c < n" "bk_low b ! c = Some t \<or> bk_high b ! c = Some t \<or> bk_gaps b ! c = Some t" for c t
    unfolding keep using that len by (auto intro: somes_nth)
  have "case sm_values s ! c of
         None \<Rightarrow> \<exists>t \<in> set (bucket_keep b). sm_values t ! c = None
       | Some v \<Rightarrow> (\<exists>t \<in> set (bucket_keep b). \<exists>w. sm_values t ! c = Some w \<and> \<not> flt v w) \<and>
           (\<exists>t \<in> set (bucket_keep b). \<exists>w. sm_values t ! c = Some w \<and> \<not> flt w v)"
    if c: "0 < c" "c < n" "s \<in> set ss" for c s
  proof (cases "sm_values s ! c")
    case None
    then obtain t where "bk_gaps b ! c = Some t" using gap_spec [OF c(1,2)] c(3) by (cases "bk_gaps b ! c") auto
    then show ?thesis using None gap_spec [OF c(1,2)] kept [OF c(2)] by auto
  next
    case (Some v)
    obtain t1 w1 where "bk_low b ! c = Some t1" "sm_values t1 ! c = Some w1" "\<not> flt v w1"
      using low_best [OF c(1,2)] Some c(3) by (cases "bk_low b ! c") (auto simp: best_def)
    moreover obtain t2 w2 where "bk_high b ! c = Some t2" "sm_values t2 ! c = Some w2" "\<not> flt w2 v"
      using high_best [OF c(1,2)] Some c(3) by (cases "bk_high b ! c") (auto simp: best_def)
    ultimately show ?thesis using Some kept [OF c(2)] by auto
  qed
  moreover have "sorted_wrt (<) (map sm_row (bucket_keep b))"
    unfolding bucket_keep_def by (rule dedup_sorted) (rule sorted_sort_key)
  moreover have "hd ss \<in> set (bucket_keep b)" "last ss \<in> set (bucket_keep b)"
    unfolding keep using ends by simp_all
  ultimately show ?thesis using sub bucket_keep_bound [OF assms(1-4)] keep by blast
qed


definition three_rows :: "sample list" where
  "three_rows = [\<lparr>sm_row = 4, sm_values = [Some (Fin 0), Some (Fin 7)]\<rparr>,
     \<lparr>sm_row = 5, sm_values = [Some (Fin 1), Some (Fin 9)]\<rparr>, \<lparr>sm_row = 6, sm_values = [Some (Fin 2), Some (Fin 8)]\<rparr>]"

text \<open>The peak in the middle survives.\<close>

theorem bucket_extremes_witness:
  "\<exists>t \<in> set (bucket_keep (the (bucket_of three_rows))). \<exists>w. sm_values t ! 1 = Some w \<and> \<not> flt w (Fin 9)"
proof -
  let ?s = "\<lparr>sm_row = 5, sm_values = [Some (Fin 1), Some (Fin 9)]\<rparr>"
  obtain b where b: "bucket_of three_rows = Some b"
    using bucket_of_folds [of three_rows 2] by (auto simp: three_rows_def)
  have laws: "three_rows \<noteq> []" "\<forall>s \<in> set three_rows. length (sm_values s) = 2" "(0 :: nat) < 2"
    "sorted_wrt (<) (map sm_row three_rows)" and mem: "0 < (1 :: nat) \<and> 1 < (2 :: nat) \<and> ?s \<in> set three_rows"
    by (simp_all add: three_rows_def)
  from bucket_extremes [OF b laws, THEN conjunct2, THEN conjunct2, THEN conjunct2, THEN conjunct2, THEN conjunct2,
      rule_format, OF mem]
  show ?thesis unfolding b by simp
qed

end
