(* ===== verification/Log_View.thy ===== *)
theory Log_View
  imports Log_Sample Log_Retention
begin

text \<open>
  The plot server of \<open>server/src/log_view.rs\<close>: an index of the rows of a recording, built in
  one pass together with an overview, zooms answered by seeking to the indexed rows, a cache
  of views in memory and of overviews on disk.

  A file is its text (bytes; a line that is not UTF-8 is a read error) with the length and
  modification time its metadata gives.  A recording may grow while it is read: \<open>build\<close>
  reads the length it saw when it opened the file.  What is on disk is a parameter
  (\<open>log_env\<close>); what the code hands to \<open>persist\<close> is returned.
\<close>

subsection \<open>Queries, views, the index\<close>

record query =
  q_start :: "f64 option"
  q_end :: "f64 option"
  q_channels :: "string option"
  q_points :: "nat option"

fun opt_feq :: "f64 option \<Rightarrow> f64 option \<Rightarrow> bool" where
  "opt_feq None None = True"
| "opt_feq (Some x) (Some y) = feq x y"
| "opt_feq _ _ = False"

definition query_eq :: "query \<Rightarrow> query \<Rightarrow> bool" where
  "query_eq p q \<longleftrightarrow> opt_feq (q_start p) (q_start q) \<and> opt_feq (q_end p) (q_end q)
     \<and> q_channels p = q_channels q \<and> q_points p = q_points q"

record view =
  vw_name :: string
  vw_title :: string
  vw_labels :: "string list"
  vw_units :: "string list"
  vw_rows :: nat
  vw_visible_rows :: nat
  vw_sampled :: bool
  vw_range :: "(f64 \<times> f64) option"
  vw_column_labels :: "string list"
  vw_columns :: "f64 option list list"

record log_index =
  ix_path :: string
  ix_size :: nat
  ix_modified :: "nat option"
  ix_title :: string
  ix_labels :: "string list"
  ix_units :: "string list"
  ix_rows :: nat
  ix_entries :: "(nat \<times> f64) list"
  ix_views :: "(query \<times> view) list"

definition FULL_DETAIL_ROWS :: nat where "FULL_DETAIL_ROWS = 5000"
definition CACHE_VERSION :: nat where "CACHE_VERSION = 1"

record file_meta =
  fm_len :: nat
  fm_modified :: "nat option"

definition index_matches :: "log_index \<Rightarrow> string \<Rightarrow> file_meta \<Rightarrow> bool" where
  "index_matches ix path m \<longleftrightarrow>
     ix_path ix = path \<and> ix_size ix = fm_len m \<and> ix_modified ix \<noteq> None \<and> ix_modified ix = fm_modified m"

definition is_overview :: "query \<Rightarrow> bool" where
  "is_overview q \<longleftrightarrow> q_start q = None \<and> q_end q = None"

subsection \<open>The cache on disk\<close>

definition view_restorable :: "log_index \<Rightarrow> query \<times> view \<Rightarrow> bool" where
  "view_restorable ix qv =
     (case qv of (q, v) \<Rightarrow>
        is_overview q \<and> vw_labels v = ix_labels ix \<and> vw_units v = ix_units ix \<and> vw_rows v = ix_rows ix
        \<and> vw_visible_rows v = length (ix_entries ix) \<and> length (vw_columns v) = length (vw_column_labels v)
        \<and> vw_columns v \<noteq> [] \<and> (\<forall>c \<in> set (vw_columns v). length c = length (hd (vw_columns v)))
        \<and> (\<forall>c \<in> set (vw_columns v). \<forall>x \<in> set (somes c). is_finite x))"

text \<open>The argument is what the cache file holds, when it could be read and deserialised.\<close>

definition index_restore :: "(nat \<times> log_index) option \<Rightarrow> string \<Rightarrow> file_meta \<Rightarrow> log_index option" where
  "index_restore saved path m =
     (case saved of
        None \<Rightarrow> None
      | Some (version, ix) \<Rightarrow>
          if version \<noteq> CACHE_VERSION \<or> \<not> index_matches ix path m \<or> length (ix_labels ix) < 2
             \<or> ix_rows ix < length (ix_entries ix)
             \<or> (\<exists>(off, t) \<in> set (ix_entries ix). ix_size ix \<le> off \<or> \<not> is_finite t)
             \<or> \<not> sorted_wrt (<) (map fst (ix_entries ix))
             \<or> 4 < length (ix_views ix) \<or> \<not> list_all (view_restorable ix) (ix_views ix)
          then None else Some ix)"

text \<open>
  \<open>persist\<close> writes the index with its overviews when the recording is still the one that was
  indexed, and then drops the caches whose recording is gone.
\<close>

datatype cache_op =
    Write_cache string nat log_index
  | Remove_cache string

definition parent_dir :: "string \<Rightarrow> string" where
  "parent_dir path =
     (let d = rev (dropWhile (\<lambda>c. c \<noteq> CHR ''/'') (rev path))
      in if d = [] then [] else if length d = 1 then d else butlast d)"

definition cache_path :: "string \<Rightarrow> string" where
  "cache_path path =
     path_join (path_join (parent_dir path) ''.rustytune-cache'') (file_name path @ ''.json'')"

definition orphaned :: "(string \<Rightarrow> bool) \<Rightarrow> string \<Rightarrow> string \<Rightarrow> bool" where
  "orphaned exists_file path name =
     (case strip_suffix ''.msl.json'' name of
        None \<Rightarrow> False
      | Some stem \<Rightarrow> \<not> exists_file (path_join (parent_dir path) (stem @ ''.msl'')))"

definition index_persist ::
    "string + file_meta \<Rightarrow> bool \<Rightarrow> string list \<Rightarrow> (string \<Rightarrow> bool) \<Rightarrow> log_index \<Rightarrow> cache_op list" where
  "index_persist meta written listing exists_file ix =
     (case meta of
        Inl e \<Rightarrow> []
      | Inr m \<Rightarrow>
          if \<not> index_matches ix (ix_path ix) m then []
          else if \<not> written then []
          else Write_cache (cache_path (ix_path ix)) CACHE_VERSION
                 (ix\<lparr>ix_views := filter (\<lambda>(q, v). is_overview q) (ix_views ix)\<rparr>)
               # map (\<lambda>n. Remove_cache (path_join (parent_dir (cache_path (ix_path ix))) n))
                   (filter (orphaned exists_file (ix_path ix)) listing))"

subsection \<open>Reading lines\<close>

text \<open>The line that starts a text, with its newline.\<close>

definition line_of :: "string \<Rightarrow> string" where
  "line_of s = takeWhile (\<lambda>c. c \<noteq> CHR 0x0A) s @ take 1 (dropWhile (\<lambda>c. c \<noteq> CHR 0x0A) s)"

definition utf8_valid :: "string \<Rightarrow> bool" where "utf8_valid s \<longleftrightarrow> utf8_lossy (str_bytes s) = s"

text \<open>ASCII text is UTF-8, which is what evaluation looks at first.\<close>

lemma ascii_valid: "list_all ascii s \<Longrightarrow> utf8_valid s"
proof (induction s)
  case (Cons c s)
  have "(of_char c :: u8) = of_nat (code c)" by (rule of_nat_of_char [symmetric])
  then have "unat (of_char c :: u8) = code c" by (simp only: unat_of_nat) simp
  with Cons show ?case
    by (simp add: utf8_valid_def str_bytes_def utf8_take_def ascii_def)
qed (simp add: utf8_valid_def str_bytes_def)

lemma utf8_valid_code [code]: "utf8_valid s \<longleftrightarrow> list_all ascii s \<or> utf8_lossy (str_bytes s) = s"
  using ascii_valid by (auto simp: utf8_valid_def)

definition read_line :: "string \<Rightarrow> string + string" where
  "read_line s =
     (if utf8_valid (line_of s) then Inr (line_of s) else Inl ''stream did not contain valid UTF-8'')"

definition line_text :: "string \<Rightarrow> string" where
  "line_text l = trim_end_in {CHR 0x0D, CHR 0x0A} l"

definition row_time :: "string \<Rightarrow> f64 option" where
  "row_time row = cell_value_of (hd (split_on CHR 0x09 row))"

subsection \<open>Building the index\<close>

record scan =
  sn_position :: nat
  sn_bucket :: "bucket option"
  sn_bucket_id :: nat
  sn_overview :: "f64 option list list"
  sn_full :: "f64 option list list"
  sn_entries :: "(nat \<times> f64) list"
  sn_rows :: nat

definition finish_bucket :: "bucket option \<Rightarrow> f64 option list list \<Rightarrow> f64 option list list" where
  "finish_bucket b cols = (case b of None \<Rightarrow> cols | Some k \<Rightarrow> bucket_finish k cols)"

text \<open>One row of data with a time, at its offset.\<close>

definition scan_row :: "nat list \<Rightarrow> nat \<Rightarrow> nat \<Rightarrow> nat \<Rightarrow> string \<Rightarrow> f64 \<Rightarrow> scan \<Rightarrow> scan" where
  "scan_row sel data_start bucket_bytes offset row t s =
     (let values = parse_columns row sel t;
          entries = sn_entries s @ [(offset, t)];
          full = (if length entries \<le> FULL_DETAIL_ROWS then push_row values (sn_full s)
                  else if length entries = FULL_DETAIL_ROWS + 1 then [] else sn_full s);
          ident = (offset - data_start) div bucket_bytes;
          (bucket, overview) =
            (if ident \<noteq> sn_bucket_id s then (None, finish_bucket (sn_bucket s) (sn_overview s))
             else (sn_bucket s, sn_overview s))
      in s\<lparr>sn_bucket := bucket_put \<lparr>sm_row = length entries - 1, sm_values = values\<rparr> bucket,
           sn_bucket_id := ident, sn_overview := overview, sn_full := full, sn_entries := entries\<rparr>)"

definition scan_line :: "nat list \<Rightarrow> nat \<Rightarrow> nat \<Rightarrow> string \<Rightarrow> scan \<Rightarrow> scan" where
  "scan_line sel data_start bucket_bytes line s =
     (let offset = sn_position s;
          s1 = s\<lparr>sn_position := offset + length line\<rparr>;
          row = line_text line
      in if \<not> is_row row then s1
         else (let s2 = s1\<lparr>sn_rows := sn_rows s1 + 1\<rparr>
               in case row_time row of
                    None \<Rightarrow> s2
                  | Some t \<Rightarrow> scan_row sel data_start bucket_bytes offset row t s2))"

lemma length_line_of [simp]: "s \<noteq> [] \<Longrightarrow> line_of s \<noteq> []"
  by (cases s) (auto simp: line_of_def)

function scan_rows :: "nat list \<Rightarrow> nat \<Rightarrow> nat \<Rightarrow> string \<Rightarrow> scan \<Rightarrow> string + scan" where
  "scan_rows sel data_start bucket_bytes txt s =
     (if txt = [] then Inr s
      else case read_line txt of
          Inl e \<Rightarrow> Inl e
        | Inr line \<Rightarrow>
            scan_rows sel data_start bucket_bytes (drop (length line) txt) (scan_line sel data_start bucket_bytes line s))"
  by pat_completeness auto
termination
  by (relation "measure (\<lambda>(sel, start, bb, txt, s). length txt)")
    (auto simp: read_line_def split: if_splits intro!: diff_less)

declare scan_rows.simps [simp del]

text \<open>Three header lines: the titles and what is left.\<close>

fun read_headers :: "nat \<Rightarrow> string \<Rightarrow> string + string list \<times> string" where
  "read_headers 0 txt = Inr ([], txt)"
| "read_headers (Suc n) txt =
     res_bind (read_line txt) (\<lambda>line.
       if line = [] then Inl ''missing MSL header''
       else res_bind (read_headers n (drop (length line) txt)) (\<lambda>(hs, rest). Inr (line_text line # hs, rest)))"

definition clamp_points :: "nat option \<Rightarrow> nat" where
  "clamp_points p = min 5000 (max 100 (or_val 1500 p))"

definition bucket_count :: "nat option \<Rightarrow> nat list \<Rightarrow> nat" where
  "bucket_count points sel = max 1 (clamp_points points div (2 + 3 * (length sel - 1)))"

definition div_ceil :: "nat \<Rightarrow> nat \<Rightarrow> nat" where "div_ceil a b = (a + b - 1) div b"

definition time_range :: "(nat \<times> f64) list \<Rightarrow> (f64 \<times> f64) option" where
  "time_range es =
     foldl (\<lambda>acc (off, t). Some (case acc of None \<Rightarrow> (t, t) | Some (a, b) \<Rightarrow> (fmin a t, fmax b t))) None es"

definition index_view :: "log_index \<Rightarrow> string \<Rightarrow> nat list \<Rightarrow> nat \<Rightarrow> f64 option list list \<Rightarrow> view" where
  "index_view ix name sel visible cols =
     \<lparr>vw_name = name, vw_title = ix_title ix, vw_labels = ix_labels ix, vw_units = ix_units ix,
      vw_rows = ix_rows ix, vw_visible_rows = visible, vw_sampled = (FULL_DETAIL_ROWS < visible),
      vw_range = time_range (ix_entries ix), vw_column_labels = map ((!) (ix_labels ix)) sel,
      vw_columns = cols\<rparr>"

text \<open>The file as it was opened: its metadata and the text it had by the time it was read.\<close>

definition index_build ::
    "string + file_meta \<times> string \<Rightarrow> string \<Rightarrow> string \<Rightarrow> query \<Rightarrow> string + log_index" where
  "index_build opened path name q =
     res_bind opened (\<lambda>(m, content).
     res_bind (read_headers 3 (take (fm_len m) content)) (\<lambda>(headers, txt).
       let labels = split_on CHR 0x09 (headers ! 1)
       in if length labels < 2 then Inl ''not an MSL file''
          else
            (let sel = selected_columns labels (q_channels q);
                 data_start = length (take (fm_len m) content) - length txt;
                 bucket_bytes = max 1 (div_ceil (fm_len m - data_start) (bucket_count (q_points q) sel))
             in res_bind (scan_rows sel data_start bucket_bytes txt
                   \<lparr>sn_position = data_start, sn_bucket = None, sn_bucket_id = 0,
                    sn_overview = replicate (length sel) [], sn_full = replicate (length sel) [],
                    sn_entries = [], sn_rows = 0\<rparr>) (\<lambda>s.
                 let ix = \<lparr>ix_path = path, ix_size = fm_len m, ix_modified = fm_modified m,
                           ix_title = headers ! 0, ix_labels = labels, ix_units = split_on CHR 0x09 (headers ! 2),
                           ix_rows = sn_rows s, ix_entries = sn_entries s, ix_views = []\<rparr>;
                     cols = (if length (ix_entries ix) \<le> FULL_DETAIL_ROWS then sn_full s
                             else finish_bucket (sn_bucket s) (sn_overview s))
                 in Inr (ix\<lparr>ix_views := [(q\<lparr>q_start := None, q_end := None\<rparr>,
                      index_view ix name sel (length (ix_entries ix)) cols)]\<rparr>)))))"

subsection \<open>Answering a query\<close>

record log_env =
  le_meta :: "string + file_meta"
  le_saved :: "(nat \<times> log_index) option"
  le_opened :: "string + file_meta \<times> string"
  le_reopened :: "string + string"

definition in_window :: "query \<Rightarrow> f64 \<Rightarrow> bool" where
  "in_window q t \<longleftrightarrow>
     (case q_start q of None \<Rightarrow> True | Some s \<Rightarrow> fle s t) \<and> (case q_end q of None \<Rightarrow> True | Some e \<Rightarrow> fle t e)"

text \<open>The indexed rows a query selects: row number, offset and time.\<close>

definition chosen_rows :: "query \<Rightarrow> (nat \<times> f64) list \<Rightarrow> (nat \<times> nat \<times> f64) list" where
  "chosen_rows q es = filter (\<lambda>(row, off, t). in_window q t) (enumerate 0 es)"

text \<open>A reader that is not at the offset seeks there; one that is goes on.\<close>

definition read_sample :: "string \<Rightarrow> nat list \<Rightarrow> nat \<times> nat \<times> f64 \<Rightarrow> string + sample" where
  "read_sample content sel e =
     (case e of (row, off, t) \<Rightarrow>
        res_bind (read_line (drop off content)) (\<lambda>line.
          Inr \<lparr>sm_row = row, sm_values = parse_columns (line_text line) sel t\<rparr>))"

fun read_groups ::
    "string \<Rightarrow> nat list \<Rightarrow> (nat \<times> nat \<times> f64) list list \<Rightarrow> f64 option list list \<Rightarrow> string + f64 option list list" where
  "read_groups content sel [] cols = Inr cols"
| "read_groups content sel (g # gs) cols =
     res_bind (res_mapM (read_sample content sel) g) (\<lambda>ss.
       read_groups content sel gs (finish_bucket (foldl (\<lambda>b s. bucket_put s b) None ss) cols))"

definition bucket_size :: "query \<Rightarrow> nat list \<Rightarrow> nat \<Rightarrow> nat" where
  "bucket_size q sel n =
     (if FULL_DETAIL_ROWS < n then div_ceil n (bucket_count (q_points q) sel) else 1)"

text \<open>The zoom is kept; a zoom goes first when the cache is full, else the oldest overview.\<close>

definition evict :: "(query \<times> view) list \<Rightarrow> (query \<times> view) list" where
  "evict vs =
     (if length vs = 4 then
        (let i = (case List.find (\<lambda>i. \<not> is_overview (fst (vs ! i))) [0 ..< length vs] of Some i \<Rightarrow> i | None \<Rightarrow> 0)
         in take i vs @ drop (Suc i) vs)
      else vs)"

definition answer_query ::
    "string + string \<Rightarrow> string \<Rightarrow> query \<Rightarrow> log_index \<Rightarrow> (string + view) \<times> log_index \<times> log_index list" where
  "answer_query reopened name q ix =
     (case List.find (\<lambda>(p, v). query_eq p q) (ix_views ix) of
        Some (p, v) \<Rightarrow> (Inr (v\<lparr>vw_name := name\<rparr>), ix, [])
      | None \<Rightarrow>
          (let sel = selected_columns (ix_labels ix) (q_channels q);
               es = chosen_rows q (ix_entries ix)
           in case res_bind reopened (\<lambda>content.
                read_groups content sel (chunks (bucket_size q sel (length es)) es) (replicate (length sel) [])) of
                Inl e \<Rightarrow> (Inl e, ix, [])
              | Inr cols \<Rightarrow>
                  (let v = index_view ix name sel (length es) cols;
                       ix1 = ix\<lparr>ix_views := evict (ix_views ix) @ [(q, v)]\<rparr>
                   in (Inr v, ix1, if is_overview q then [ix1] else []))))"

text \<open>The index in memory, the one on disk or a new one, and whether it was handed to \<open>persist\<close>.\<close>

definition open_index ::
    "log_env \<Rightarrow> log_index option \<Rightarrow> string \<Rightarrow> string \<Rightarrow> query \<Rightarrow> file_meta \<Rightarrow> string + log_index \<times> log_index list" where
  "open_index E cached path name q m =
     (let fresh = (case index_restore (le_saved E) path m of
                     Some ix \<Rightarrow> Inr (ix, [])
                   | None \<Rightarrow> res_bind (index_build (le_opened E) path name q) (\<lambda>ix. Inr (ix, [ix])))
      in case cached of
           None \<Rightarrow> fresh
         | Some ix \<Rightarrow> if index_matches ix path m then Inr (ix, []) else fresh)"

definition full_query :: "query \<Rightarrow> query" where
  "full_query q =
     q\<lparr>q_points := Some (clamp_points (q_points q)), q_channels := Some (or_val DEFAULT_CHANNELS (q_channels q))\<rparr>"

text \<open>The answer, the cache after the call, and the indexes handed to \<open>persist\<close>.\<close>

definition load_view ::
    "log_env \<Rightarrow> log_index option \<Rightarrow> string \<Rightarrow> string \<Rightarrow> query
      \<Rightarrow> (string + view) \<times> log_index option \<times> log_index list" where
  "load_view E cached path name q =
     (case res_bind (le_meta E) (open_index E cached path name (full_query q)) of
        Inl e \<Rightarrow> (Inl e, cached, [])
      | Inr (ix, ps0) \<Rightarrow>
          (case answer_query (le_reopened E) name (full_query q) ix of (r, ix1, ps) \<Rightarrow> (r, Some ix1, ps0 @ ps)))"

end
