(* ===== verification/Log_View_Laws.thy ===== *)
theory Log_View_Laws
  imports Log_View "HOL-Library.Sublist"
begin

text \<open>
  What the plot server shows.  \<open>file_rows\<close> reads a recording directly: its lines, the rows
  among them that carry a time.  The index built in one pass holds exactly these rows; a
  zoom, which seeks to the indexed offsets, shows exactly those in its range, also when the
  recording has grown since; and no answer is longer than the plot can take.
\<close>

subsection \<open>A recording read directly\<close>

function lines_at :: "nat \<Rightarrow> string \<Rightarrow> (nat \<times> string) list" where
  "lines_at off txt =
     (if txt = [] then [] else (off, line_of txt) # lines_at (off + length (line_of txt)) (drop (length (line_of txt)) txt))"
  by pat_completeness auto
termination
  by (relation "measure (\<lambda>(off, txt). length txt)") (auto intro!: diff_less)

declare lines_at.simps [simp del]

lemma lines_at_Nil [simp]: "lines_at off [] = []"
  by (simp add: lines_at.simps)

definition timed_row :: "nat \<times> string \<Rightarrow> (nat \<times> string \<times> f64) option" where
  "timed_row ol =
     (case ol of (off, l) \<Rightarrow>
        if is_row (line_text l) then map_option (\<lambda>t. (off, line_text l, t)) (row_time (line_text l)) else None)"

definition file_rows :: "string \<Rightarrow> (nat \<times> string \<times> f64) list" where
  "file_rows txt = List.map_filter timed_row (drop 3 (lines_at 0 txt))"

definition row_values :: "nat list \<Rightarrow> nat \<times> string \<times> f64 \<Rightarrow> f64 option list" where
  "row_values sel r = (case r of (off, row, t) \<Rightarrow> parse_columns row sel t)"

text \<open>Rows as columns.\<close>

definition columns_of :: "nat \<Rightarrow> f64 option list list \<Rightarrow> f64 option list list" where
  "columns_of n rows = map (\<lambda>j. map (\<lambda>r. r ! j) rows) [0 ..< n]"

lemma length_columns_of [simp]: "length (columns_of n rows) = n"
  by (simp add: columns_of_def)

lemma push_columns_of:
  "length r = n \<Longrightarrow> push_row r (columns_of n rows) = columns_of n (rows @ [r])"
  by (rule nth_equalityI) (simp_all add: push_row_def columns_of_def nth_enumerate_eq)

lemma columns_of_Nil: "columns_of n [] = replicate n []"
  by (simp add: columns_of_def map_replicate_trivial)

lemma push_rows:
  assumes "\<forall>r \<in> set new. length r = n"
  shows "foldl (\<lambda>cs r. push_row r cs) (columns_of n rows) new = columns_of n (rows @ new)"
  using assms by (induction new arbitrary: rows) (simp_all add: push_columns_of)

subsection \<open>Lines and offsets\<close>

lemma line_of_prefix: "line_of s = take (length (line_of s)) s"
proof -
  let ?p = "\<lambda>c. c \<noteq> CHR 0x0A"
  have "s = takeWhile ?p s @ take 1 (dropWhile ?p s) @ drop 1 (dropWhile ?p s)"
    by (metis append_take_drop_id takeWhile_dropWhile_id)
  then have s: "s = line_of s @ drop 1 (dropWhile ?p s)" by (simp add: line_of_def)
  then have "take (length (line_of s)) s = take (length (line_of s)) (line_of s @ drop 1 (dropWhile ?p s))"
    by metis
  then show ?thesis by simp
qed

lemma line_of_append: "CHR 0x0A \<in> set s \<Longrightarrow> line_of (s @ r) = line_of s"
proof -
  assume nl: "CHR 0x0A \<in> set s"
  then have "dropWhile (\<lambda>c. c \<noteq> CHR 0x0A) s \<noteq> []" by auto
  then have "1 \<le> length (dropWhile (\<lambda>c. c \<noteq> CHR 0x0A) s)" by (cases "dropWhile (\<lambda>c. c \<noteq> CHR 0x0A) s") auto
  with nl show ?thesis by (auto simp: line_of_def takeWhile_append1 dropWhile_append1)
qed

text \<open>A line with a newline, or the last one.\<close>

lemma line_of_grown:
  assumes "s \<noteq> []" "grown = [] \<or> last s = CHR 0x0A"
  shows "line_of (s @ grown) = line_of s"
proof (cases "grown = []")
  case False
  then have "CHR 0x0A \<in> set s" using assms last_in_set [of s] by metis
  then show ?thesis by (rule line_of_append)
qed simp

lemma lines_at_drop:
  assumes "(off, l) \<in> set (lines_at (length pre) txt)" "grown = [] \<or> txt = [] \<or> last txt = CHR 0x0A"
  shows "line_of (drop off (pre @ txt @ grown)) = l"
  using assms
proof (induction "length pre" "txt" arbitrary: pre rule: lines_at.induct)
  case (1 "txt")
  show ?case
  proof (cases "txt = []")
    case False
    let ?l = "line_of txt"
    have whole: "txt = ?l @ drop (length ?l) txt" using line_of_prefix [of "txt"] by (metis append_take_drop_id)
    from "1.prems"(1) False consider "off = length pre" "l = ?l"
      | "(off, l) \<in> set (lines_at (length (pre @ ?l)) (drop (length ?l) txt))"
      by (subst (asm) lines_at.simps) auto
    then show ?thesis
    proof cases
      case 1
      then show ?thesis using False line_of_grown [OF False] "1.prems"(2) by auto
    next
      case 2
      have "grown = [] \<or> drop (length ?l) txt = [] \<or> last (drop (length ?l) txt) = CHR 0x0A"
        using "1.prems"(2) False by (metis last_drop linorder_not_le drop_all)
      from "1.hyps" [OF False _ 2 this] whole show ?thesis by (metis append.assoc length_append)
    qed
  qed (use 1 in simp)
qed

subsection \<open>The scan\<close>

text \<open>What a scan adds, row by row.\<close>

lemma scan_line_effect:
  "sn_position (scan_line sel start bb line s) = sn_position s + length line"
  "sn_entries (scan_line sel start bb line s) = sn_entries s @
     (case timed_row (sn_position s, line) of None \<Rightarrow> [] | Some (o1, r, t) \<Rightarrow> [(o1, t)])"
  "length (sn_entries (scan_line sel start bb line s)) \<le> FULL_DETAIL_ROWS \<Longrightarrow>
     sn_full (scan_line sel start bb line s) =
       (case timed_row (sn_position s, line) of None \<Rightarrow> sn_full s | Some r \<Rightarrow> push_row (row_values sel r) (sn_full s))"
  by (auto simp: scan_line_def scan_row_def timed_row_def row_values_def Let_def case_prod_beta split: option.splits if_splits)

lemma scan_rows_effect:
  assumes "scan_rows sel start bb txt s = Inr s1"
  shows "sn_entries s1 = sn_entries s @
        map (\<lambda>(o1, r, t). (o1, t)) (List.map_filter timed_row (lines_at (sn_position s) txt)) \<and>
    (length (sn_entries s1) \<le> FULL_DETAIL_ROWS \<longrightarrow> sn_full s1 =
       foldl (\<lambda>cs r. push_row r cs) (sn_full s) (map (row_values sel) (List.map_filter timed_row (lines_at (sn_position s) txt)))) \<and>
    (\<forall>(o1, l) \<in> set (lines_at (sn_position s) txt). utf8_valid l)"
  using assms
proof (induction sel start bb "txt" s rule: scan_rows.induct)
  case (1 sel start bb "txt" s)
  show ?case
  proof (cases "txt = []")
    case False
    let ?l = "line_of txt" let ?s = "scan_line sel start bb ?l s"
    have ok: "utf8_valid ?l" and rest: "scan_rows sel start bb (drop (length ?l) txt) ?s = Inr s1"
      using "1.prems" False by (auto simp: scan_rows.simps [of sel start bb "txt"] read_line_def split: if_splits)
    have lines: "lines_at (sn_position s) txt = (sn_position s, ?l) # lines_at (sn_position ?s) (drop (length ?l) txt)"
      using False by (subst lines_at.simps) (simp add: scan_line_effect)
    have line: "read_line txt = Inr ?l" using ok by (simp add: read_line_def)
    note IH = "1.IH" [OF False line rest]
    have small: "length (sn_entries s1) \<le> FULL_DETAIL_ROWS \<Longrightarrow> length (sn_entries ?s) \<le> FULL_DETAIL_ROWS"
      using IH by auto
    show ?thesis
      using IH ok small scan_line_effect(2,3) [where sel = sel and start = start and bb = bb and line = ?l and s = s]
      unfolding lines by (cases "timed_row (sn_position s, ?l)") (auto simp: map_filter_simps)
  qed (use 1 in \<open>simp add: scan_rows.simps map_filter_simps\<close>)
qed

lemma read_headers_lines:
  assumes "read_headers n txt = Inr (hs, rest)"
  shows "drop n (lines_at off txt) = lines_at (off + (length txt - length rest)) rest \<and>
    (\<exists>pre. txt = pre @ rest)"
  using assms
proof (induction n "txt" arbitrary: off hs rule: read_headers.induct)
  case (2 n "txt")
  let ?l = "line_of txt"
  have line: "read_line txt = Inr ?l"
    using "2.prems" by (cases "utf8_valid (line_of txt)") (simp_all add: read_line_def)
  with "2.prems" have l: "?l \<noteq> []" by (auto split: if_splits)
  then have ne: "txt \<noteq> []" by (auto simp: line_of_def)
  obtain hs1 where r: "read_headers n (drop (length ?l) txt) = Inr (hs1, rest)"
    using "2.prems" line l by (cases "read_headers n (drop (length ?l) txt)") (auto simp: case_prod_beta)
  note IH = "2.IH" [OF l r, of "off + length ?l"]
  then obtain pre where pre: "drop (length ?l) txt = pre @ rest" by auto
  have whole: "txt = ?l @ drop (length ?l) txt" using line_of_prefix [of "txt"] by (metis append_take_drop_id)
  then have len: "length txt - length rest = length ?l + (length (drop (length ?l) txt) - length rest)"
    unfolding pre by (metis add_diff_cancel_right' diff_add_assoc length_append le_add2)
  show ?case
    using IH ne whole pre len by (subst lines_at.simps) (auto simp: add.assoc intro: exI [of _ "?l @ pre"])
qed simp


text \<open>The index holds the rows of the file; a small file's overview shows them all.\<close>

lemma index_build_rows:
  assumes "index_build (Inr (m, content)) path name q = Inr ix" "sel = selected_columns (ix_labels ix) (q_channels q)"
  shows "ix_entries ix = map (\<lambda>(o1, r, t). (o1, t)) (file_rows (take (fm_len m) content)) \<and>
    (\<forall>(o1, l) \<in> set (drop 3 (lines_at 0 (take (fm_len m) content))). utf8_valid l) \<and>
    (\<exists>v. ix_views ix = [(q\<lparr>q_start := None, q_end := None\<rparr>, v)] \<and>
      (length (ix_entries ix) \<le> FULL_DETAIL_ROWS \<longrightarrow>
        vw_columns v = columns_of (length sel) (map (row_values sel) (file_rows (take (fm_len m) content)))))"
proof -
  let ?file = "take (fm_len m) content"
  obtain hs rest where hs: "read_headers 3 ?file = Inr (hs, rest)"
    using assms(1) by (cases "read_headers 3 ?file") (auto simp: index_build_def)
  let ?labels = "split_on CHR 0x09 (hs ! 1)" let ?sel = "selected_columns ?labels (q_channels q)"
  let ?start = "length ?file - length rest"
  let ?bb = "max 1 (div_ceil (fm_len m - ?start) (bucket_count (q_points q) ?sel))"
  let ?s0 = "\<lparr>sn_position = ?start, sn_bucket = None, sn_bucket_id = 0, sn_overview = replicate (length ?sel) [],
    sn_full = replicate (length ?sel) [], sn_entries = [], sn_rows = 0\<rparr>"
  from assms(1) hs have two: "\<not> length ?labels < 2" by (auto simp: index_build_def Let_def)
  then obtain s1 where s1: "scan_rows ?sel ?start ?bb rest ?s0 = Inr s1"
    using assms(1) hs by (cases "scan_rows ?sel ?start ?bb rest ?s0") (auto simp: index_build_def Let_def)
  have ix: "ix_labels ix = ?labels" "ix_entries ix = sn_entries s1"
    and view: "\<exists>v. ix_views ix = [(q\<lparr>q_start := None, q_end := None\<rparr>, v)] \<and>
      vw_columns v = (if length (sn_entries s1) \<le> FULL_DETAIL_ROWS then sn_full s1
                      else finish_bucket (sn_bucket s1) (sn_overview s1))"
    using assms(1) hs two s1 by (auto simp: index_build_def Let_def index_view_def)
  have lines: "drop 3 (lines_at 0 ?file) = lines_at ?start rest"
    using read_headers_lines [OF hs, of 0] by simp
  have rows: "List.map_filter timed_row (lines_at ?start rest) = file_rows ?file"
    by (simp add: file_rows_def lines)
  have wide: "\<forall>r \<in> set (map (row_values ?sel) (file_rows ?file)). length r = length ?sel"
    using selected_columns_shape(2) by (auto simp: row_values_def case_prod_beta)
  note full = push_rows [OF wide, of "[]", unfolded columns_of_Nil]
  obtain v where v: "ix_views ix = [(q\<lparr>q_start := None, q_end := None\<rparr>, v)]"
    "length (ix_entries ix) \<le> FULL_DETAIL_ROWS \<Longrightarrow> vw_columns v = sn_full s1"
    using view ix(2) by auto
  note scan = scan_rows_effect [OF s1, simplified]
  have "ix_entries ix = map (\<lambda>(o1, r, t). (o1, t)) (file_rows ?file)" using scan rows ix(2) by simp
  moreover have "\<forall>(o1, l) \<in> set (drop 3 (lines_at 0 ?file)). utf8_valid l" using scan lines by simp
  moreover have "vw_columns v = columns_of (length sel) (map (row_values sel) (file_rows ?file))"
    if "length (ix_entries ix) \<le> FULL_DETAIL_ROWS"
    using v(2) [OF that] scan that rows full ix assms(2) by simp
  ultimately show ?thesis using v(1) by blast
qed

theorem overview_complete:
  assumes "index_build (Inr (m, content)) path name q = Inr ix" "length (ix_entries ix) \<le> FULL_DETAIL_ROWS"
    "sel = selected_columns (ix_labels ix) (q_channels q)"
  shows "vw_columns (snd (hd (ix_views ix))) =
    columns_of (length sel) (map (row_values sel) (file_rows (take (fm_len m) content)))"
  using index_build_rows [OF assms(1,3)] assms(2) by auto

subsection \<open>Zooms\<close>

lemma bucket_of_one: "0 < length (sm_values s) \<Longrightarrow> \<exists>b. bucket_of [s] = Some b \<and> bucket_keep b = [s]"
proof -
  assume pos: "0 < length (sm_values s)"
  obtain b where b: "bucket_of [s] = Some b" using bucket_of_folds [of "[s]"] by auto
  from bucket_extremes [OF b _ _ pos] have sub: "set (bucket_keep b) \<subseteq> {s}"
    and sorted: "sorted_wrt (<) (map sm_row (bucket_keep b))" and s: "s \<in> set (bucket_keep b)" by auto
  have "bucket_keep b = [s]"
  proof (cases "bucket_keep b")
    case (Cons x xs)
    then show ?thesis using sub sorted s by (cases xs) auto
  qed (use s in simp)
  with b show ?thesis by blast
qed

lemma finish_bucket_of:
  "bucket_of ss = Some b \<Longrightarrow>
     finish_bucket (foldl (\<lambda>b s. bucket_put s b) None ss) cols = foldl (\<lambda>cs s. push_row (sm_values s) cs) cols (bucket_keep b)"
  by (simp add: finish_bucket_def bucket_finish_def bucket_of_def)

lemma chunks_one: "chunks 1 xs = map (\<lambda>x. [x]) xs"
  by (induction xs) (simp_all add: chunks.simps)

text \<open>Groups of one row: the columns get every row that is read.\<close>

lemma read_groups_single:
  assumes "res_mapM (read_sample content sel) es = Inr ss" "\<forall>s \<in> set ss. 0 < length (sm_values s)"
  shows "read_groups content sel (map (\<lambda>x. [x]) es) cols = Inr (foldl (\<lambda>cs s. push_row (sm_values s) cs) cols ss)"
  using assms
proof (induction es arbitrary: ss cols)
  case (Cons e es)
  then obtain s ss1 where s: "read_sample content sel e = Inr s" "res_mapM (read_sample content sel) es = Inr ss1" "ss = s # ss1"
    by (cases "read_sample content sel e"; cases "res_mapM (read_sample content sel) es") auto
  obtain b where "bucket_of [s] = Some b" "bucket_keep b = [s]" using bucket_of_one Cons.prems(2) s(3) by auto
  then have "finish_bucket (bucket_put s None) cols = push_row (sm_values s) cols"
    using finish_bucket_of [of "[s]" b cols] by simp
  then show ?case using Cons s by simp
qed simp

text \<open>Seeking to an indexed row reads that row.\<close>

lemma read_indexed:
  assumes "(o1, r, t) \<in> set (file_rows file)" "\<forall>(o1, l) \<in> set (drop 3 (lines_at 0 file)). utf8_valid l"
    "grown = [] \<or> last file = CHR 0x0A"
  shows "read_sample (file @ grown) sel (k, o1, t) = Inr \<lparr>sm_row = k, sm_values = row_values sel (o1, r, t)\<rparr>"
proof -
  obtain l where l: "(o1, l) \<in> set (drop 3 (lines_at 0 file))" "r = line_text l"
    using assms(1) by (auto simp: file_rows_def List.map_filter_def timed_row_def split: if_splits)
  then have "line_of (drop o1 ([] @ file @ grown)) = l"
    using assms(3) by (intro lines_at_drop) (auto dest: in_set_dropD)
  then show ?thesis
    using l assms(2) by (auto simp: read_sample_def read_line_def row_values_def)
qed


lemma filter_enumerate: "map snd (filter (\<lambda>x. P (snd x)) (enumerate n xs)) = filter P xs"
  by (induction xs arbitrary: n) auto

lemma enumerate_mem: "(k, x) \<in> set (enumerate n xs) \<Longrightarrow> x \<in> set xs"
  by (metis in_set_zip snd_conv nth_mem in_set_enumerate_eq nth_enumerate_eq snd_conv set_zip_rightD enumerate_eq_zip)

lemma chosen_rows_file:
  "chosen_rows q (map (\<lambda>(o1, r, t). (o1, t)) rows) =
     map (\<lambda>(k, o1, r, t). (k, o1, t)) (filter (\<lambda>(k, o1, r, t). in_window q t) (enumerate 0 rows))"
proof -
  have "filter (\<lambda>(k, o1, t). in_window q t) (enumerate n (map (\<lambda>(o1, r, t). (o1, t)) rows)) =
      map (\<lambda>(k, o1, r, t). (k, o1, t)) (filter (\<lambda>(k, o1, r, t). in_window q t) (enumerate n rows))" for n
    by (induction rows arbitrary: n) auto
  then show ?thesis by (simp add: chosen_rows_def)
qed

lemma res_mapM_map: "res_mapM f (map g xs) = res_mapM (\<lambda>x. f (g x)) xs"
  by (induction xs) (auto split: sum.splits)

lemma res_mapM_all: "\<forall>x \<in> set xs. f x = Inr (g x) \<Longrightarrow> res_mapM f xs = Inr (map g xs)"
  by (induction xs) auto

text \<open>The rows a query selects, with their numbers, and the samples that are read for them.\<close>

definition picked_rows :: "query \<Rightarrow> string \<Rightarrow> (nat \<times> nat \<times> string \<times> f64) list" where
  "picked_rows q file = filter (\<lambda>(k, o1, r, t). in_window q t) (enumerate 0 (file_rows file))"

definition row_sample :: "nat list \<Rightarrow> nat \<times> nat \<times> string \<times> f64 \<Rightarrow> sample" where
  "row_sample sel kx = \<lparr>sm_row = fst kx, sm_values = row_values sel (snd kx)\<rparr>"

lemma map_snd_picked: "map snd (picked_rows q file) = filter (\<lambda>(o1, r, t). in_window q t) (file_rows file)"
proof -
  have "picked_rows q file = filter (\<lambda>x. (\<lambda>(o1, r, t). in_window q t) (snd x)) (enumerate 0 (file_rows file))"
    unfolding picked_rows_def by (rule filter_cong) auto
  then show ?thesis by (simp only: filter_enumerate)
qed

lemma picked_nth: "(k, x) \<in> set (picked_rows q file) \<Longrightarrow> file_rows file ! k = x"
  by (auto simp: picked_rows_def in_set_enumerate_eq)

lemma picked_sorted: "sorted_wrt (<) (map sm_row (map (row_sample sel) (picked_rows q file)))"
proof -
  have "sorted_wrt (<) (map fst (enumerate 0 (file_rows file)))" by (simp add: enumerate_eq_zip)
  then have "sorted_wrt (\<lambda>x y. fst x < fst y) (enumerate 0 (file_rows file))" by (simp only: sorted_wrt_map)
  then have "sorted_wrt (\<lambda>x y. fst x < fst y) (picked_rows q file)"
    unfolding picked_rows_def by (rule sorted_wrt_filter)
  then show ?thesis by (simp add: sorted_wrt_map row_sample_def)
qed

text \<open>The sample of an indexed row, by its number.\<close>

definition indexed_sample :: "nat list \<Rightarrow> string \<Rightarrow> nat \<times> nat \<times> f64 \<Rightarrow> sample" where
  "indexed_sample sel file e = \<lparr>sm_row = fst e, sm_values = row_values sel (file_rows file ! fst e)\<rparr>"

lemma chosen_samples:
  assumes "index_build (Inr (m, content)) path name0 q0 = Inr ix" "file = take (fm_len m) content"
    "grown = [] \<or> last file = CHR 0x0A"
  shows "chosen_rows q (ix_entries ix) = map (\<lambda>(k, o1, r, t). (k, o1, t)) (picked_rows q file)"
    and "map (indexed_sample sel file) (chosen_rows q (ix_entries ix)) = map (row_sample sel) (picked_rows q file)"
    and "\<forall>e \<in> set (chosen_rows q (ix_entries ix)). read_sample (file @ grown) sel e = Inr (indexed_sample sel file e)"
proof -
  note built = index_build_rows [OF assms(1) refl, folded assms(2)]
  show es: "chosen_rows q (ix_entries ix) = map (\<lambda>(k, o1, r, t). (k, o1, t)) (picked_rows q file)"
    using built by (simp add: chosen_rows_file picked_rows_def)
  have valid: "\<forall>(o1, l) \<in> set (drop 3 (lines_at 0 file)). utf8_valid l" using built by blast
  show "map (indexed_sample sel file) (chosen_rows q (ix_entries ix)) = map (row_sample sel) (picked_rows q file)"
    unfolding es by (auto simp: indexed_sample_def row_sample_def dest: picked_nth)
  have "read_sample (file @ grown) sel (k, o1, t) = Inr (indexed_sample sel file (k, o1, t))"
    if "(k, o1, r, t) \<in> set (picked_rows q file)" for k o1 r t
  proof -
    have "(o1, r, t) \<in> set (file_rows file)" using that enumerate_mem by (fastforce simp: picked_rows_def)
    from read_indexed [OF this valid assms(3)] picked_nth [OF that] show ?thesis by (simp add: indexed_sample_def)
  qed
  then show "\<forall>e \<in> set (chosen_rows q (ix_entries ix)). read_sample (file @ grown) sel e = Inr (indexed_sample sel file e)"
    by (auto simp: es)
qed

text \<open>
  What reduced columns keep: for every channel of every row, a shown value that is not above
  it, one that is not below it, and a gap for a gap.
\<close>

definition extremes_kept :: "f64 option list list \<Rightarrow> f64 option list list \<Rightarrow> bool" where
  "extremes_kept rows shown \<longleftrightarrow>
     (\<forall>r \<in> set rows. \<forall>c. 0 < c \<and> c < length r \<longrightarrow>
       (case r ! c of
          None \<Rightarrow> \<exists>s \<in> set shown. s ! c = None
        | Some v \<Rightarrow> (\<exists>s \<in> set shown. \<exists>w. s ! c = Some w \<and> \<not> flt v w) \<and>
            (\<exists>s \<in> set shown. \<exists>w. s ! c = Some w \<and> \<not> flt w v)))"

lemma extremes_append:
  "extremes_kept (a @ b) s \<longleftrightarrow> extremes_kept a s \<and> extremes_kept b s"
  by (auto simp: extremes_kept_def)

lemma extremes_mono:
  assumes "extremes_kept rows s" "set s \<subseteq> set s1"
  shows "extremes_kept rows s1"
  unfolding extremes_kept_def
proof (intro ballI allI impI)
  fix r c assume "r \<in> set rows" "0 < c \<and> c < length r"
  with assms(1) have "case r ! c of
          None \<Rightarrow> \<exists>s \<in> set s. s ! c = None
        | Some v \<Rightarrow> (\<exists>s \<in> set s. \<exists>w. s ! c = Some w \<and> \<not> flt v w) \<and>
            (\<exists>s \<in> set s. \<exists>w. s ! c = Some w \<and> \<not> flt w v)" unfolding extremes_kept_def by blast
  with assms(2) show "case r ! c of
          None \<Rightarrow> \<exists>s \<in> set s1. s ! c = None
        | Some v \<Rightarrow> (\<exists>s \<in> set s1. \<exists>w. s ! c = Some w \<and> \<not> flt v w) \<and>
            (\<exists>s \<in> set s1. \<exists>w. s ! c = Some w \<and> \<not> flt w v)" by (cases "r ! c") auto
qed

lemma bucket_keeps_extremes:
  assumes "bucket_of ss = Some b" "ss \<noteq> []" "\<forall>s \<in> set ss. length (sm_values s) = n" "0 < n"
    "sorted_wrt (<) (map sm_row ss)"
  shows "extremes_kept (map sm_values ss) (map sm_values (bucket_keep b))"
  unfolding extremes_kept_def
proof (intro ballI allI impI)
  fix r c assume "r \<in> set (map sm_values ss)" and c: "0 < c \<and> c < length r"
  then obtain s where s: "s \<in> set ss" "r = sm_values s" by auto
  with assms(3) c have "0 < c \<and> c < n \<and> s \<in> set ss" by auto
  with bucket_extremes [OF assms] have "case sm_values s ! c of
         None \<Rightarrow> \<exists>t \<in> set (bucket_keep b). sm_values t ! c = None
       | Some v \<Rightarrow> (\<exists>t \<in> set (bucket_keep b). \<exists>w. sm_values t ! c = Some w \<and> \<not> flt v w) \<and>
           (\<exists>t \<in> set (bucket_keep b). \<exists>w. sm_values t ! c = Some w \<and> \<not> flt w v)" by blast
  then show "case r ! c of
          None \<Rightarrow> \<exists>s \<in> set (map sm_values (bucket_keep b)). s ! c = None
        | Some v \<Rightarrow> (\<exists>s \<in> set (map sm_values (bucket_keep b)). \<exists>w. s ! c = Some w \<and> \<not> flt v w) \<and>
            (\<exists>s \<in> set (map sm_values (bucket_keep b)). \<exists>w. s ! c = Some w \<and> \<not> flt w v)"
    using s(2) by (cases "r ! c") auto
qed

text \<open>
  Groups of rows reduced one after the other: the columns get samples of the rows in order,
  the first and the last among them, with the extremes of every channel.
\<close>

lemma read_groups_keep:
  assumes "\<forall>e \<in> set (concat gs). read_sample content sel e = Inr (f e)" "[] \<notin> set gs"
    "\<forall>e \<in> set (concat gs). length (sm_values (f e)) = n" "0 < n"
    "sorted_wrt (<) (map sm_row (map f (concat gs)))"
  shows "\<exists>K. read_groups content sel gs cols = Inr (foldl (\<lambda>cs s. push_row (sm_values s) cs) cols K) \<and>
    set K \<subseteq> f ` set (concat gs) \<and> sorted_wrt (<) (map sm_row K) \<and>
    extremes_kept (map sm_values (map f (concat gs))) (map sm_values K) \<and>
    (gs \<noteq> [] \<longrightarrow> f (hd (concat gs)) \<in> set K \<and> f (last (concat gs)) \<in> set K)"
  using assms(1,2,3,5)
proof (induction gs arbitrary: cols)
  case Nil
  then show ?case by (intro exI [of _ "[]"]) (simp add: extremes_kept_def)
next
  case (Cons g gs)
  have g: "g \<noteq> []" "map f g \<noteq> []" using Cons.prems(2) by auto
  have wide: "\<forall>s \<in> set (map f g). length (sm_values s) = n" using Cons.prems(3) by auto
  have sorted: "sorted_wrt (<) (map sm_row (map f g))" "sorted_wrt (<) (map sm_row (map f (concat gs)))"
    and less: "\<And>x y. x \<in> set g \<Longrightarrow> y \<in> set (concat gs) \<Longrightarrow> sm_row (f x) < sm_row (f y)"
    using Cons.prems(4) by (auto simp: sorted_wrt_append)
  obtain b where bk: "bucket_of (map f g) = Some b" using bucket_of_folds [OF g(2) wide] by blast
  from bucket_extremes [OF bk g(2) wide assms(4) sorted(1)]
  have keep: "set (bucket_keep b) \<subseteq> set (map f g)" "sorted_wrt (<) (map sm_row (bucket_keep b))"
    "hd (map f g) \<in> set (bucket_keep b)" "last (map f g) \<in> set (bucket_keep b)" by blast+
  note ext = bucket_keeps_extremes [OF bk g(2) wide assms(4) sorted(1)]
  let ?cols = "foldl (\<lambda>cs s. push_row (sm_values s) cs) cols (bucket_keep b)"
  have "res_mapM (read_sample content sel) g = Inr (map f g)"
    using Cons.prems(1) by (intro res_mapM_all) simp
  then have step: "read_groups content sel (g # gs) cols = read_groups content sel gs ?cols"
    using finish_bucket_of [OF bk, of cols] by simp
  obtain K where K: "read_groups content sel gs ?cols = Inr (foldl (\<lambda>cs s. push_row (sm_values s) cs) ?cols K)"
    "set K \<subseteq> f ` set (concat gs)" "sorted_wrt (<) (map sm_row K)"
    "extremes_kept (map sm_values (map f (concat gs))) (map sm_values K)"
    "gs \<noteq> [] \<longrightarrow> f (hd (concat gs)) \<in> set K \<and> f (last (concat gs)) \<in> set K"
    using Cons.IH [of ?cols] Cons.prems sorted(2) by auto
  have "sm_row x < sm_row y" if "x \<in> set (bucket_keep b)" "y \<in> set K" for x y
  proof -
    have "x \<in> f ` set g" "y \<in> f ` set (concat gs)" using that keep(1) K(2) unfolding set_map by blast+
    then obtain e1 e2 where e1: "x = f e1" "e1 \<in> set g" and "y = f e2" "e2 \<in> set (concat gs)"
      by (elim imageE)
    with less [OF e1(2)] e1(1) show ?thesis by blast
  qed
  then have "sorted_wrt (<) (map sm_row (bucket_keep b @ K))"
    using keep(2) K(3) by (auto simp: sorted_wrt_append)
  moreover have "extremes_kept (map sm_values (map f (concat (g # gs)))) (map sm_values (bucket_keep b @ K))"
    using extremes_mono [OF ext] extremes_mono [OF K(4)] by (simp add: extremes_append)
  moreover have "f (hd (concat (g # gs))) \<in> set (bucket_keep b @ K)"
    using keep(3) g(1) by (simp add: hd_map)
  moreover have "f (last (concat (g # gs))) \<in> set (bucket_keep b @ K)"
  proof (cases "gs = []")
    case True
    then show ?thesis using keep(4) g(1) by (simp add: last_map)
  next
    case False
    then have "concat gs \<noteq> []" using Cons.prems(2) by (cases gs) auto
    then show ?thesis using K(5) False by simp
  qed
  moreover have "set (bucket_keep b @ K) \<subseteq> f ` set (concat (g # gs))"
    using keep(1) K(2) by (simp add: image_Un) blast
  ultimately show ?case using step K(1) by (intro exI [of _ "bucket_keep b @ K"]) simp
qed

lemma div_ceil_mult:
  assumes "0 < cnt"
  shows "n \<le> div_ceil n cnt * cnt"
proof -
  have "(n + cnt - 1) div cnt * cnt + (n + cnt - 1) mod cnt = n + cnt - 1" by simp
  moreover have "(n + cnt - 1) mod cnt \<le> cnt - 1" using mod_less_divisor [OF assms, of "n + cnt - 1"] by linarith
  ultimately show ?thesis unfolding div_ceil_def using assms by linarith
qed

text \<open>Samples in order among samples in order are a selection of them.\<close>

lemma sorted_selection:
  assumes "sorted_wrt (<) (map sm_row K)" "sorted_wrt (<) (map sm_row ss)" "set K \<subseteq> set ss"
  shows "K = filter (\<lambda>s. s \<in> set K) ss"
proof -
  let ?F = "filter (\<lambda>s. s \<in> set K) ss"
  have "sorted_wrt (<) (map sm_row ?F)"
    using assms(2) by (simp add: sorted_wrt_map sorted_wrt_filter)
  moreover have "set ?F = set K" using assms(3) by auto
  then have "set (map sm_row ?F) = set (map sm_row K)" by (metis image_set)
  ultimately have "map sm_row K = map sm_row ?F" using assms(1) strict_sorted_equal by blast
  moreover have "inj_on sm_row (set K \<union> set ?F)"
    using sorted_rows_inj [OF assms(2)] assms(3) by (elim inj_on_subset) auto
  ultimately show ?thesis by (rule map_inj_on)
qed

lemma row_values_width: "sel \<noteq> [] \<Longrightarrow> length (row_values sel x) = length sel"
  by (cases x) (simp add: row_values_def)

lemma sample_columns:
  assumes "sel \<noteq> []"
  shows "foldl (\<lambda>cs s. push_row (sm_values s) cs) (replicate (length sel) []) (map (row_sample sel) ps)
    = columns_of (length sel) (map (row_values sel) (map snd ps))"
proof -
  have push: "foldl (\<lambda>cs s. push_row (sm_values s) cs) cs ss = foldl (\<lambda>cs r. push_row r cs) cs (map sm_values ss)"
    for cs ss by (induction ss arbitrary: cs) simp_all
  have vals: "map sm_values (map (row_sample sel) ps) = map (row_values sel) (map snd ps)"
    by (simp add: row_sample_def)
  show ?thesis
    unfolding push vals using push_rows [of "map (row_values sel) (map snd ps)" "length sel" "[]"] assms
    by (simp add: columns_of_Nil row_values_width)
qed

lemma bucket_size_pos: "0 < bucket_size q sel n"
proof (cases "FULL_DETAIL_ROWS < n")
  case True
  have "0 < bucket_count (q_points q) sel" by (simp add: bucket_count_def)
  from div_ceil_mult [OF this, of n] True show ?thesis
    by (cases "div_ceil n (bucket_count (q_points q) sel)") (simp_all add: bucket_size_def)
qed (simp add: bucket_size_def)

text \<open>A small range: groups of one row.\<close>

lemma zoom_all_rows:
  assumes "index_build (Inr (m, content)) path name0 q0 = Inr ix" "file = take (fm_len m) content"
    "grown = [] \<or> last file = CHR 0x0A" "sel \<noteq> []"
  shows "read_groups (file @ grown) sel (chunks 1 (chosen_rows q (ix_entries ix))) (replicate (length sel) [])
    = Inr (columns_of (length sel) (map (row_values sel) (map snd (picked_rows q file))))"
proof -
  note samples = chosen_samples(2,3) [OF assms(1-3), where q = q and sel = sel]
  have "res_mapM (read_sample (file @ grown) sel) (chosen_rows q (ix_entries ix))
      = Inr (map (row_sample sel) (picked_rows q file))"
    using res_mapM_all [OF samples(2)] samples(1) by simp
  moreover have "\<forall>s \<in> set (map (row_sample sel) (picked_rows q file)). 0 < length (sm_values s)"
    using assms(4) by (simp add: row_sample_def row_values_width del: length_greater_0_conv) simp
  ultimately show ?thesis
    unfolding chunks_one by (simp only: read_groups_single sample_columns [OF assms(4)])
qed

text \<open>A large one: the samples the groups keep are those of some of the rows.\<close>

lemma zoom_some_rows:
  assumes "index_build (Inr (m, content)) path name0 q0 = Inr ix" "file = take (fm_len m) content"
    "grown = [] \<or> last file = CHR 0x0A" "sel \<noteq> []" "0 < k" "rows = map snd (picked_rows q file)" "rows \<noteq> []"
  shows "\<exists>shown. read_groups (file @ grown) sel (chunks k (chosen_rows q (ix_entries ix))) (replicate (length sel) [])
      = Inr (columns_of (length sel) (map (row_values sel) shown)) \<and>
    subseq shown rows \<and> hd rows \<in> set shown \<and> last rows \<in> set shown \<and>
    extremes_kept (map (row_values sel) rows) (map (row_values sel) shown)"
proof -
  let ?picked = "picked_rows q file" and ?es = "chosen_rows q (ix_entries ix)"
  let ?f = "indexed_sample sel file" and ?s = "row_sample sel"
  note samples = chosen_samples(2,3) [OF assms(1-3), where q = q and sel = sel]
  have cat: "concat (chunks k ?es) = ?es" by (rule concat_chunks [OF assms(5)])
  have sorted: "sorted_wrt (<) (map sm_row (map ?f ?es))" unfolding samples(1) by (rule picked_sorted)
  obtain K where K: "read_groups (file @ grown) sel (chunks k ?es) (replicate (length sel) [])
        = Inr (foldl (\<lambda>cs s. push_row (sm_values s) cs) (replicate (length sel) []) K)"
    "set K \<subseteq> ?f ` set ?es" "sorted_wrt (<) (map sm_row K)"
    "extremes_kept (map sm_values (map ?f ?es)) (map sm_values K)"
    "chunks k ?es \<noteq> [] \<longrightarrow> ?f (hd ?es) \<in> set K \<and> ?f (last ?es) \<in> set K"
    using read_groups_keep [of "chunks k ?es" "file @ grown" sel ?f "length sel" "replicate (length sel) []"]
      samples(2) chunks_bounds [of "[]" k ?es] sorted assms(4)
    unfolding cat by (auto simp: indexed_sample_def row_values_width)
  have "set K \<subseteq> set (map ?s ?picked)" using K(2) samples(1) by (metis list.set_map)
  then have "K = filter (\<lambda>s. s \<in> set K) (map ?s ?picked)"
    using sorted_selection K(3) sorted unfolding samples(1) by blast
  then have "K = map ?s (filter (\<lambda>p. ?s p \<in> set K) ?picked)" by (simp only: filter_map comp_def)
  then obtain ps where ps: "ps = filter (\<lambda>p. ?s p \<in> set K) ?picked" "K = map ?s ps" by blast
  have ne: "?picked \<noteq> []" "?es \<noteq> []" "chunks k ?es \<noteq> []"
    using assms(6,7) chosen_samples(1) [OF assms(1-3), of q] cat by auto
  have "?f (hd ?es) = ?s (hd ?picked)" "?f (last ?es) = ?s (last ?picked)"
    using samples(1) ne by (metis hd_map) (metis samples(1) last_map ne(1,2))
  with K(5) ne have "hd ?picked \<in> set ps" "last ?picked \<in> set ps" by (simp_all add: ps(1))
  then have "hd rows \<in> set (map snd ps)" "last rows \<in> set (map snd ps)"
    using ne(1) by (simp_all add: assms(6) hd_map last_map)
  moreover have "subseq (map snd ps) rows"
    unfolding assms(6) ps(1) by (intro subseq_map subseq_filter_left)
  moreover have "extremes_kept (map (row_values sel) rows) (map (row_values sel) (map snd ps))"
    using K(4) unfolding samples(1) by (simp add: ps(2) assms(6) row_sample_def comp_def)
  ultimately show ?thesis using K(1) [unfolded ps(2) sample_columns [OF assms(4)]] by blast
qed

text \<open>
  C17. A zoom that is not in the cache of views yet, into a recording that has not grown since
  it was indexed, or has grown after a complete last line, is answered.  A range of at most 5000
  rows is shown exactly: all of its rows, with the cells of the selected columns.  Of a larger
  range a selection of its rows is shown, in order, the first and the last row among them, that
  keeps the extremes and the gaps of every channel.
\<close>

theorem zoom_exact:
  assumes "index_build (Inr (m, content)) path name0 q0 = Inr ix" "file = take (fm_len m) content"
    "grown = [] \<or> last file = CHR 0x0A" "\<forall>(p, v) \<in> set (ix_views ix). \<not> query_eq p q"
    "sel = selected_columns (ix_labels ix) (q_channels q)"
    "rows = filter (\<lambda>(o1, r, t). in_window q t) (file_rows file)"
  shows "\<exists>v shown. fst (answer_query (Inr (file @ grown)) name q ix) = Inr v \<and>
    vw_visible_rows v = length rows \<and> vw_sampled v = (5000 < length rows) \<and>
    vw_columns v = columns_of (length sel) (map (row_values sel) shown) \<and>
    (length rows \<le> 5000 \<longrightarrow> shown = rows) \<and>
    (5000 < length rows \<longrightarrow> subseq shown rows \<and> hd rows \<in> set shown \<and> last rows \<in> set shown \<and>
      extremes_kept (map (row_values sel) rows) (map (row_values sel) shown))"
proof -
  let ?es = "chosen_rows q (ix_entries ix)"
  let ?groups = "read_groups (file @ grown) sel (chunks (bucket_size q sel (length ?es)) ?es) (replicate (length sel) [])"
  have rows: "rows = map snd (picked_rows q file)" using map_snd_picked assms(6) by simp
  have len: "length ?es = length rows" by (simp add: chosen_samples(1) [OF assms(1-3)] rows)
  have sel: "sel \<noteq> []" using selected_columns_shape(2) assms(5) by auto
  have "\<exists>shown. ?groups = Inr (columns_of (length sel) (map (row_values sel) shown)) \<and>
    (length rows \<le> 5000 \<longrightarrow> shown = rows) \<and>
    (5000 < length rows \<longrightarrow> subseq shown rows \<and> hd rows \<in> set shown \<and> last rows \<in> set shown \<and>
      extremes_kept (map (row_values sel) rows) (map (row_values sel) shown))"
  proof (cases "length rows \<le> 5000")
    case True
    then have "bucket_size q sel (length ?es) = 1" using len by (simp add: bucket_size_def FULL_DETAIL_ROWS_def)
    with zoom_all_rows [OF assms(1-3) sel] True show ?thesis by (simp add: rows)
  next
    case False
    then have "rows \<noteq> []" by auto
    from zoom_some_rows [OF assms(1-3) sel bucket_size_pos [of q sel "length ?es"] rows this] False
    show ?thesis by auto
  qed
  moreover have "List.find (\<lambda>(p, v). query_eq p q) (ix_views ix) = None"
    using assms(4) by (auto simp: find_None_iff)
  ultimately show ?thesis
    using len by (auto simp: answer_query_def Let_def assms(5) [symmetric] index_view_def FULL_DETAIL_ROWS_def)
qed


subsection \<open>Bounds\<close>

lemma chunks_le: "0 < k \<Longrightarrow> length xs \<le> k * c \<Longrightarrow> length (chunks k xs) \<le> c"
proof (induction c arbitrary: xs)
  case (Suc c)
  from Suc.IH [of "drop k xs"] Suc.prems show ?case
    by (cases "xs = []") (simp_all add: chunks.simps [of k xs])
qed simp

lemma read_sample_width: "read_sample content sel e = Inr s \<Longrightarrow> sel \<noteq> [] \<Longrightarrow> length (sm_values s) = length sel"
  by (cases e) (auto simp: read_sample_def read_line_def split: if_splits)

lemma push_row_length:
  assumes "\<forall>c \<in> set cols. length c \<le> k"
  shows "\<forall>c \<in> set (push_row vs cols). length c \<le> Suc k"
proof
  fix c assume "c \<in> set (push_row vs cols)"
  then obtain i where i: "i < length cols" "c = push_row vs cols ! i"
    by (auto simp: in_set_conv_nth push_row_def)
  then have "length c \<le> Suc (length (cols ! i))" by (simp add: push_row_def nth_enumerate_eq)
  also have "\<dots> \<le> Suc k" using assms i(1) by simp
  finally show "length c \<le> Suc k" .
qed

lemma push_rows_length:
  "\<forall>c \<in> set cols. length c \<le> k \<Longrightarrow>
     \<forall>c \<in> set (foldl (\<lambda>cs s. push_row (sm_values s) cs) cols ss). length c \<le> k + length ss"
proof (induction ss arbitrary: cols k)
  case (Cons s ss)
  from Cons.IH [OF push_row_length [OF Cons.prems]] show ?case by simp
qed simp

lemma read_groups_length:
  assumes "read_groups content sel gs cols = Inr out" "\<forall>g \<in> set gs. g \<noteq> [] \<and> length g \<le> w" "sel \<noteq> []"
    "\<forall>c \<in> set cols. length c \<le> k" "b = (if w = 1 then 1 else 2 + 3 * (length sel - 1))"
  shows "\<forall>c \<in> set out. length c \<le> k + b * length gs"
  using assms(1,2,4)
proof (induction gs arbitrary: cols k)
  case (Cons g gs)
  then obtain ss where ss: "res_mapM (read_sample content sel) g = Inr ss"
    "read_groups content sel gs (finish_bucket (foldl (\<lambda>b s. bucket_put s b) None ss) cols) = Inr out"
    by (cases "res_mapM (read_sample content sel) g") auto
  have len: "length ss = length g" using res_mapM_length [OF ss(1)] .
  have wide: "\<forall>s \<in> set ss. length (sm_values s) = length sel"
  proof
    fix s assume "s \<in> set ss"
    then obtain i where "i < length ss" "s = ss ! i" by (auto simp: in_set_conv_nth)
    then have "read_sample content sel (g ! i) = Inr s"
      using ss(1) unfolding res_mapM_Inr by (simp add: list_all2_conv_all_nth)
    then show "length (sm_values s) = length sel" using assms(3) by (rule read_sample_width)
  qed
  have ne: "ss \<noteq> []" using len Cons.prems(2) by auto
  obtain bk where bk: "bucket_of ss = Some bk" using bucket_of_folds [OF ne wide] by blast
  have "length (bucket_keep bk) \<le> b"
  proof (cases "w = 1")
    case True
    then have "length ss = 1" using Cons.prems(2) len ne by (metis One_nat_def Suc_leI le_antisym length_greater_0_conv list.set_intros(1))
    then obtain s where "ss = [s]" by (cases ss) auto
    then show ?thesis using bucket_of_one [of s] bk wide assms(3,5) True by auto
  next
    case False
    then show ?thesis using bucket_keep_bound [OF bk ne wide] assms(3,5) by simp
  qed
  then have "\<forall>c \<in> set (finish_bucket (foldl (\<lambda>b s. bucket_put s b) None ss) cols). length c \<le> k + b"
    unfolding finish_bucket_of [OF bk]
    using push_rows_length [OF Cons.prems(3), of "bucket_keep bk"] by (meson add_left_mono le_trans)
  from Cons.IH [OF ss(2) _ this] Cons.prems(2) show ?case by (simp add: algebra_simps)
qed simp

text \<open>A plot never gets more points than it can take, and four views are cached at most.\<close>

theorem plot_bounded:
  assumes "answer_query reopened name q ix = (Inr v, ix1, ps)" "\<forall>(p, v) \<in> set (ix_views ix). \<not> query_eq p q"
    "length (ix_views ix) \<le> 4" "sel = selected_columns (ix_labels ix) (q_channels q)"
  shows "(\<forall>c \<in> set (vw_columns v). length c \<le> max 5000 (2 + 3 * (length sel - 1))) \<and> length (ix_views ix1) \<le> 4"
proof -
  let ?es = "chosen_rows q (ix_entries ix)"
  let ?n = "length ?es" let ?bs = "bucket_size q sel ?n" let ?b = "2 + 3 * (length sel - 1)"
  let ?cnt = "bucket_count (q_points q) sel"
  have "List.find (\<lambda>(p, v). query_eq p q) (ix_views ix) = None"
    using assms(2) by (auto simp: find_None_iff)
  then obtain content where r: "reopened = Inr content"
    and cols: "read_groups content sel (chunks ?bs ?es) (replicate (length sel) []) = Inr (vw_columns v)"
    and views: "ix_views ix1 = evict (ix_views ix) @ [(q, v)]"
    using assms(1,4)
    by (cases reopened) (auto simp: answer_query_def Let_def index_view_def split: sum.splits)
  have sel: "sel \<noteq> []" using selected_columns_shape(2) assms(4) by simp
  have pos: "0 < ?cnt" by (simp add: bucket_count_def)
  have evicted: "length (evict (ix_views ix)) \<le> 3"
    using assms(3) by (auto simp: evict_def Let_def find_Some_iff split: option.splits)
  have "\<forall>c \<in> set (vw_columns v). length c \<le> max 5000 ?b"
  proof (cases "FULL_DETAIL_ROWS < ?n")
    case True
    then have bs: "?bs = div_ceil ?n ?cnt" by (simp add: bucket_size_def)
    have n: "?n \<le> ?bs * ?cnt" unfolding bs by (rule div_ceil_mult [OF pos])
    then have bs0: "0 < ?bs" using True by (cases ?bs) auto
    have groups: "length (chunks ?bs ?es) \<le> ?cnt" using n by (rule chunks_le [OF bs0])
    have "\<forall>g \<in> set (chunks ?bs ?es). g \<noteq> [] \<and> length g \<le> max 2 ?bs"
      using chunks_bounds [of _ ?bs ?es] by fastforce
    moreover have "?b = (if max 2 ?bs = 1 then 1 else ?b)" by (simp add: max_def)
    ultimately have "\<forall>c \<in> set (vw_columns v). length c \<le> 0 + ?b * length (chunks ?bs ?es)"
      by (intro read_groups_length [OF cols _ sel]) simp_all
    then have "\<forall>c \<in> set (vw_columns v). length c \<le> ?b * length (chunks ?bs ?es)" by (simp only: add_0)
    moreover have "?b * length (chunks ?bs ?es) \<le> ?b * ?cnt" using groups by (rule mult_le_mono2)
    moreover have "?b * ?cnt \<le> max 5000 ?b"
    proof -
      have "?b * (clamp_points (q_points q) div ?b) \<le> 5000"
        by (rule order.trans [OF times_div_less_eq_dividend]) (simp add: clamp_points_def)
      then show ?thesis by (auto simp: bucket_count_def max_def)
    qed
    ultimately show ?thesis by (meson le_trans)
  next
    case False
    then have bs: "?bs = 1" by (simp add: bucket_size_def)
    have "\<forall>g \<in> set (chunks ?bs ?es). g \<noteq> [] \<and> length g \<le> 1" unfolding bs chunks_one by auto
    from read_groups_length [OF cols this sel, of 0 1]
    have "\<forall>c \<in> set (vw_columns v). length c \<le> length (chunks ?bs ?es)" by simp
    then show ?thesis using False unfolding bs chunks_one by (auto simp: FULL_DETAIL_ROWS_def)
  qed
  then show ?thesis using views evicted by simp
qed

text \<open>Two rows, read by a zoom that starts after the first.\<close>

lemma digit_cell:
  assumes "list_all is_digit s" "s \<noteq> []" "dec_val s < 2 ^ 53"
  shows "cell_value_of s = Some (Fin (of_nat (dec_val s)))"
proof -
  have "\<forall>c \<in> set s. solid c" using assms(1) by (auto simp: list_all_iff is_digit_def solid_def)
  then have "trim s = s" using assms(2) by (intro trim_solid) auto
  then show ?thesis using parse_f64_digits [OF assms] by (simp add: cell_value_of_def)
qed

definition small_log :: string where
  "small_log = ''T'' @ nl @ ''Time'' @ tab @ ''RPM'' @ nl @ ''s'' @ tab @ nl
     @ ''1'' @ tab @ ''900'' @ nl @ ''2'' @ tab @ ''800'' @ nl"

lemma small_lines:
  "lines_at 0 small_log = [(0, ''T'' @ nl), (2, ''Time'' @ tab @ ''RPM'' @ nl), (11, ''s'' @ tab @ nl),
     (14, ''1'' @ tab @ ''900'' @ nl), (20, ''2'' @ tab @ ''800'' @ nl)]"
  by code_simp

lemma small_rows:
  "file_rows small_log = [(14, ''1'' @ tab @ ''900'', Fin 1), (20, ''2'' @ tab @ ''800'', Fin 2)]"
proof -
  have row: "is_row (line_text (''1'' @ tab @ ''900'' @ nl))" "line_text (''1'' @ tab @ ''900'' @ nl) = ''1'' @ tab @ ''900''"
    "is_row (line_text (''2'' @ tab @ ''800'' @ nl))" "line_text (''2'' @ tab @ ''800'' @ nl) = ''2'' @ tab @ ''800''"
    by code_simp+
  have "hd (split_on CHR 0x09 (''1'' @ tab @ ''900'')) = ''1''" "hd (split_on CHR 0x09 (''2'' @ tab @ ''800'')) = ''2''"
    by (simp_all add: tab_def)
  moreover have "cell_value_of ''1'' = Some (Fin 1)" "cell_value_of ''2'' = Some (Fin 2)"
    using digit_cell [of "''1''"] digit_cell [of "''2''"] by (simp_all add: is_digit_def dec_val_def digit_val_def)
  ultimately have "row_time (''1'' @ tab @ ''900'') = Some (Fin 1)" "row_time (''2'' @ tab @ ''800'') = Some (Fin 2)"
    by (simp_all add: row_time_def)
  with row have times: "timed_row (14, ''1'' @ tab @ ''900'' @ nl) = Some (14, ''1'' @ tab @ ''900'', Fin 1)"
    "timed_row (20, ''2'' @ tab @ ''800'' @ nl) = Some (20, ''2'' @ tab @ ''800'', Fin 2)"
    by (simp_all only: timed_row_def prod.case if_True option.map)
  have "drop 3 (lines_at 0 small_log) = [(14, ''1'' @ tab @ ''900'' @ nl), (20, ''2'' @ tab @ ''800'' @ nl)]"
    by (simp add: small_lines)
  then show ?thesis
    unfolding file_rows_def by (simp only: map_filter_simps times option.case)
qed

lemma scan_rows_ascii: "list_all ascii txt \<Longrightarrow> \<exists>s1. scan_rows sel start bb txt s = Inr s1"
proof (induction sel start bb "txt" s rule: scan_rows.induct)
  case (1 sel start bb "txt" s)
  show ?case
  proof (cases "txt = []")
    case False
    have "list_all ascii (line_of txt)" "list_all ascii (drop (length (line_of txt)) txt)"
      using "1.prems" line_of_prefix [of "txt"] by (metis append_take_drop_id list_all_append)+
    then show ?thesis
      using "1.IH" [OF False, of "line_of txt"] False
      by (subst scan_rows.simps) (simp add: read_line_def ascii_valid)
  qed (simp add: scan_rows.simps)
qed

definition small_meta :: file_meta where "small_meta = \<lparr>fm_len = 26, fm_modified = Some 0\<rparr>"

definition small_query :: query where
  "small_query = \<lparr>q_start = Some (Fin 2), q_end = None, q_channels = None, q_points = None\<rparr>"

lemma index_build_ascii:
  assumes "read_headers 3 (take (fm_len m) content) = Inr (hs, rest)"
    "\<not> length (split_on CHR 0x09 (hs ! 1)) < 2" "list_all ascii rest"
  shows "\<exists>ix. index_build (Inr (m, content)) path name q = Inr ix"
proof -
  let ?sel = "selected_columns (split_on CHR 0x09 (hs ! 1)) (q_channels q)"
  let ?start = "length (take (fm_len m) content) - length rest"
  let ?bb = "max 1 (div_ceil (fm_len m - ?start) (bucket_count (q_points q) ?sel))"
  obtain s1 where "scan_rows ?sel ?start ?bb rest
      \<lparr>sn_position = ?start, sn_bucket = None, sn_bucket_id = 0, sn_overview = replicate (length ?sel) [],
       sn_full = replicate (length ?sel) [], sn_entries = [], sn_rows = 0\<rparr> = Inr s1"
    using scan_rows_ascii [OF assms(3)] by blast
  then show ?thesis using assms(1,2) by (simp add: index_build_def Let_def)
qed

lemma small_built: "\<exists>ix. index_build (Inr (small_meta, small_log)) ''a.msl'' ''a'' small_query = Inr ix"
proof (rule index_build_ascii)
  show "read_headers 3 (take (fm_len small_meta) small_log)
      = Inr ([''T'', ''Time'' @ tab @ ''RPM'', ''s'' @ tab], drop 14 small_log)" by code_simp
  show "\<not> length (split_on CHR 0x09 ([''T'', ''Time'' @ tab @ ''RPM'', ''s'' @ tab] ! 1)) < 2" by code_simp
  show "list_all ascii (drop 14 small_log)" by code_simp
qed

theorem zoom_exact_witness:
  "\<exists>ix v sel. index_build (Inr (small_meta, small_log)) ''a.msl'' ''a'' small_query = Inr ix \<and>
    fst (answer_query (Inr (small_log @ ''3'' @ tab @ ''70'')) ''a'' small_query ix) = Inr v \<and>
    vw_columns v = columns_of (length sel) [row_values sel (20, ''2'' @ tab @ ''800'', Fin 2)]"
proof -
  obtain ix where ix: "index_build (Inr (small_meta, small_log)) ''a.msl'' ''a'' small_query = Inr ix"
    using small_built by blast
  have whole: "small_log = take (fm_len small_meta) small_log" by code_simp
  have lf: "''3'' @ tab @ ''70'' = [] \<or> last small_log = CHR 0x0A" by code_simp
  from index_build_rows [OF ix refl] obtain v0 where
    v0: "ix_views ix = [(small_query\<lparr>q_start := None, q_end := None\<rparr>, v0)]"
    and es: "ix_entries ix = [(14, Fin 1), (20, Fin 2)]" by (auto simp: whole [symmetric] small_rows)
  have "\<forall>(p, v) \<in> set (ix_views ix). \<not> query_eq p small_query"
    by (simp add: v0 query_eq_def small_query_def)
  moreover have "filter (\<lambda>(o1, r, t). in_window small_query t) (file_rows small_log) = [(20, ''2'' @ tab @ ''800'', Fin 2)]"
    by (simp add: small_rows in_window_def small_query_def fle_def)
  ultimately show ?thesis
    using zoom_exact [OF ix whole lf _ refl refl, of small_query "''a''"] ix by auto
qed

theorem plot_bounded_witness:
  "\<exists>ix v ix1 ps. answer_query (Inr small_log) ''a'' small_query ix = (Inr v, ix1, ps) \<and>
    (\<forall>c \<in> set (vw_columns v). length c \<le> max 5000 (2 + 3 * (length (selected_columns (ix_labels ix) None) - 1))) \<and>
    length (ix_views ix1) \<le> 4"
proof -
  obtain ix where ix: "index_build (Inr (small_meta, small_log)) ''a.msl'' ''a'' small_query = Inr ix"
    using small_built by blast
  have whole: "take (fm_len small_meta) small_log = small_log" by code_simp
  from index_build_rows [OF ix refl] obtain v0 where
    v0: "ix_views ix = [(small_query\<lparr>q_start := None, q_end := None\<rparr>, v0)]"
    and es: "ix_entries ix = [(14, Fin 1), (20, Fin 2)]"
    and valid: "\<forall>(o1, l) \<in> set (drop 3 (lines_at 0 small_log)). utf8_valid l"
    by (auto simp: whole small_rows)
  have fresh: "\<forall>(p, v) \<in> set (ix_views ix). \<not> query_eq p small_query"
    by (simp add: v0 query_eq_def small_query_def)
  have "read_sample (small_log @ []) (selected_columns (ix_labels ix) None) (1, 20, Fin 2)
      = Inr \<lparr>sm_row = 1, sm_values = row_values (selected_columns (ix_labels ix) None) (20, ''2'' @ tab @ ''800'', Fin 2)\<rparr>"
    by (rule read_indexed [OF _ valid]) (simp_all add: small_rows)
  moreover have "chosen_rows small_query (ix_entries ix) = [(1, 20, Fin 2)]"
    by (simp add: chosen_rows_def es in_window_def small_query_def fle_def)
  ultimately obtain v ix1 ps where "answer_query (Inr small_log) ''a'' small_query ix = (Inr v, ix1, ps)"
    using fresh
    by (simp add: answer_query_def Let_def find_None_iff v0 query_eq_def small_query_def bucket_size_def
        FULL_DETAIL_ROWS_def chunks.simps)
  moreover from plot_bounded [OF this fresh _ refl] have
    "(\<forall>c \<in> set (vw_columns v). length c \<le> max 5000 (2 + 3 * (length (selected_columns (ix_labels ix) None) - 1))) \<and>
     length (ix_views ix1) \<le> 4"
    by (simp add: v0 small_query_def)
  ultimately show ?thesis by blast
qed

end
