(* ===== verification/Definition_Ui.thy ===== *)
theory Definition_Ui
  imports Telemetry Tune_Lookups
begin

text \<open>
  The part of the definition the clients draw, \<open>server/src/definition.rs\<close>: gauges with
  their bounds evaluated and indicator lamps.  Bounds are expressions over PC variables and
  the \<open>[DefaultValues]\<close>; one that does not evaluate falls back.
\<close>

record gauge_ui =
  gu_name :: string
  gu_channel :: string
  gu_title :: string
  gu_units :: string
  gu_lo :: f64
  gu_hi :: f64
  gu_lo_danger :: f64
  gu_lo_warn :: f64
  gu_hi_warn :: f64
  gu_hi_danger :: f64
  gu_value_digits :: nat

record indicator_ui =
  iu_off_label :: string
  iu_on_label :: string
  iu_off_bg :: string
  iu_off_fg :: string
  iu_on_bg :: string
  iu_on_fg :: string

record definition_ui =
  du_signature :: string
  du_gauges :: "gauge_ui list"
  du_available_gauges :: "gauge_ui list"
  du_indicators :: "indicator_ui list"

definition eval_or :: "symbols \<Rightarrow> num_or_expr \<Rightarrow> f64 \<Rightarrow> f64 run" where
  "eval_or S field fallback = run_map (or_val fallback) (run_ok (num_or_expr_eval S field))"

definition gauge_ui_of :: "symbols \<Rightarrow> gauge_def \<Rightarrow> gauge_ui run" where
  "gauge_ui_of S g =
     run_bind (eval_or S (g_lo g) fzero) (\<lambda>lo.
     run_bind (eval_or S (g_hi g) (f_of_int 100)) (\<lambda>hi.
     run_bind (eval_or S (g_lo_danger g) lo) (\<lambda>lo_danger.
     run_bind (eval_or S (g_lo_warn g) lo) (\<lambda>lo_warn.
     run_bind (eval_or S (g_hi_warn g) hi) (\<lambda>hi_warn.
     run_bind (eval_or S (g_hi_danger g) hi) (\<lambda>hi_danger.
       Ret \<lparr>gu_name = g_name g, gu_channel = g_channel g, gu_title = g_title g, gu_units = g_units g,
         gu_lo = lo, gu_hi = hi, gu_lo_danger = lo_danger, gu_lo_warn = lo_warn, gu_hi_warn = hi_warn,
         gu_hi_danger = hi_danger, gu_value_digits = g_value_digits g\<rparr>))))))"

definition indicator_ui_of :: "indicator \<Rightarrow> indicator_ui" where
  "indicator_ui_of ind =
     (let color = (\<lambda>i fallback. or_val fallback (list_get (in_colors ind) i))
      in \<lparr>iu_off_label = in_off_label ind, iu_on_label = in_on_label ind, iu_off_bg = color 0 ''white'',
          iu_off_fg = color 1 ''black'', iu_on_bg = color 2 ''green'', iu_on_fg = color 3 ''black''\<rparr>)"

definition front_gauges :: "ini_def \<Rightarrow> gauge_def list" where
  "front_gauges def = List.map_filter (im_get (i_gauges def)) (fp_gauges (i_front_page def))"

definition definition_ui_of :: "ini_def \<Rightarrow> symbols \<Rightarrow> definition_ui run" where
  "definition_ui_of def S =
     run_bind (run_mapM (gauge_ui_of S) (front_gauges def)) (\<lambda>gauges.
     run_bind (run_mapM (gauge_ui_of S) (map snd (i_gauges def))) (\<lambda>available.
       Ret \<lparr>du_signature = i_signature def, du_gauges = gauges, du_available_gauges = available,
         du_indicators = map indicator_ui_of (fp_indicators (i_front_page def))\<rparr>))"

text \<open>The sources used here answer every lookup, so the definition is always produced.\<close>

lemma source_safe: "safe (overlay_syms t m) u" "safe (defaults_syms m) u"
  by (cases u; simp add: safe_def overlay_syms_def defaults_syms_def empty_symbols_def)+

lemma returns_run_bind [returns_intros]:
  "returns m \<Longrightarrow> (\<And>x. returns (f x)) \<Longrightarrow> returns (run_bind m f)"
  by (cases m) simp_all

lemma returns_run_mapM [returns_intros]:
  "(\<And>x. x \<in> set xs \<Longrightarrow> returns (f x)) \<Longrightarrow> returns (run_mapM f xs)"
  by (induction xs) (auto intro!: returns_run_bind)

lemma text_eval_returns: "(\<And>u. safe S u) \<Longrightarrow> returns (str_or_expr_eval S f)"
  by (cases f) (auto intro!: returns_intros eval_returns)

lemma returns_eval_or: "(\<And>u. safe S u) \<Longrightarrow> returns (eval_or S f x)"
  by (simp add: eval_or_def returns_run_ok field_eval_returns)

lemma returns_gauge_ui: "(\<And>u. safe S u) \<Longrightarrow> returns (gauge_ui_of S g)"
  unfolding gauge_ui_of_def by (intro returns_intros returns_eval_or)

lemma definition_ui_returns: "(\<And>u. safe S u) \<Longrightarrow> returns (definition_ui_of def S)"
  unfolding definition_ui_of_def by (intro returns_intros returns_gauge_ui)

text \<open>A gauge of the front page is among the available ones, drawn the same way.\<close>

lemma run_mapM_all: "run_mapM f xs = Ret ys \<longleftrightarrow> list_all2 (\<lambda>x y. f x = Ret y) xs ys"
proof (induction xs arbitrary: ys)
  case (Cons x xs)
  show ?case
  proof (cases "f x")
    case (Ret y)
    then show ?thesis using Cons.IH by (cases "run_mapM f xs") (auto simp: list_all2_Cons1)
  qed (auto simp: list_all2_Cons1)
qed (auto simp: list_all2_Nil)

lemma front_gauges_available:
  assumes "definition_ui_of def S = Ret ui"
  shows "set (du_gauges ui) \<subseteq> set (du_available_gauges ui)"
proof
  from assms obtain gs avail where gs: "run_mapM (gauge_ui_of S) (front_gauges def) = Ret gs"
    "run_mapM (gauge_ui_of S) (map snd (i_gauges def)) = Ret avail" "du_gauges ui = gs" "du_available_gauges ui = avail"
    by (cases "run_mapM (gauge_ui_of S) (front_gauges def)"; cases "run_mapM (gauge_ui_of S) (map snd (i_gauges def))")
      (auto simp: definition_ui_of_def)
  fix g assume "g \<in> set (du_gauges ui)"
  then obtain i where i: "i < length gs" "g = gs ! i" using gs(3) by (auto simp: in_set_conv_nth)
  note all = gs(1,2) [unfolded run_mapM_all list_all2_conv_all_nth]
  then have g: "gauge_ui_of S (front_gauges def ! i) = Ret g" "i < length (front_gauges def)" using i by auto
  then have "front_gauges def ! i \<in> set (front_gauges def)" by simp
  then have "front_gauges def ! i \<in> set (map snd (i_gauges def))"
    by (force simp: front_gauges_def List.map_filter_def im_get_def dest: map_of_SomeD)
  then obtain j where "j < length (map snd (i_gauges def))" "map snd (i_gauges def) ! j = front_gauges def ! i"
    by (metis in_set_conv_nth)
  with all(2) g(1) have "g = avail ! j" "j < length avail" by auto
  then show "g \<in> set (du_available_gauges ui)" using gs(4) by simp
qed

end
