(* ===== verification/Api_Views.thy ===== *)
theory Api_Views
  imports Definition_Ui Msq_Apply Afr_Curve
begin

text \<open>
  What the tuning pages of \<open>server/src/api.rs\<close> show of a tune: constants, tables, curves,
  menus, dialogs and the differences to an uploaded file.  A response is the value the code
  serialises; \<open>serde_json\<close> is not modelled.  \<open>d\<close> is the stack left for lookups, as in the
  tune model; \<open>S\<close> is the tune as a symbol source at that depth.

  Dialogs nest through their panels; \<open>dialog_rows\<close> terminates because a panel already on
  the way down is skipped.
\<close>

subsection \<open>Constants\<close>

record constant_json =
  cj_name :: string
  cj_value :: val
  cj_units :: "string option"
  cj_digits :: nat
  cj_lo :: "f64 option"
  cj_hi :: "f64 option"
  cj_labels :: "string list"
  cj_requires_power_cycle :: bool

definition opt_units :: "symbols \<Rightarrow> str_or_expr option \<Rightarrow> string option run" where
  "opt_units S u = (case u of None \<Rightarrow> Ret None | Some e \<Rightarrow> run_ok (str_or_expr_eval S e))"

definition json_digits :: "symbols \<Rightarrow> constant_def \<Rightarrow> nat run" where
  "json_digits S c = run_map (\<lambda>x. f_u8 (or_val fzero x)) (opt_eval S (cd_digits c))"

definition constant_json_of :: "tune \<Rightarrow> nat \<Rightarrow> string \<Rightarrow> constant_json option run" where
  "constant_json_of t d name =
     (let S = tune_syms t d
      in run_bind
        (case im_get (i_constants (tn_def t)) name of
           Some c \<Rightarrow> ro_bind (constant_value t S name) (\<lambda>v. ro_return (c, v, requires_power_cycle t name))
         | None \<Rightarrow> Ret (Option.bind (im_get (i_pc_variables (tn_def t)) name) (\<lambda>c.
               map_option (\<lambda>v. (c, VNum v, False)) (pc_value t name))))
        (\<lambda>r. case r of
           None \<Rightarrow> Ret None
         | Some (c, v, cyc) \<Rightarrow>
             run_bind (opt_units S (cd_units c)) (\<lambda>units.
             run_bind (json_digits S c) (\<lambda>digits.
             run_bind (opt_eval S (cd_lo c)) (\<lambda>lo.
             run_bind (opt_eval S (cd_hi c)) (\<lambda>hi.
               Ret (Some \<lparr>cj_name = name, cj_value = v, cj_units = units, cj_digits = digits, cj_lo = lo,
                 cj_hi = hi, cj_labels = cd_labels c, cj_requires_power_cycle = cyc\<rparr>)))))))"

definition constants_json :: "tune \<Rightarrow> nat \<Rightarrow> string \<Rightarrow> constant_json list run" where
  "constants_json t d names =
     run_map (List.map_filter id) (run_mapM (\<lambda>n. constant_json_of t d (trim n)) (split_on CHR '','' names))"

subsection \<open>Curves\<close>

record curve_json =
  cv_id :: string
  cv_title :: string
  cv_x_label :: "string option"
  cv_y_label :: "string option"
  cv_x :: "f64 list"
  cv_y :: "f64 list"
  cv_x_min :: f64
  cv_x_max :: f64
  cv_y_min :: f64
  cv_y_max :: f64
  cv_x_lo :: "f64 option"
  cv_x_hi :: "f64 option"
  cv_y_lo :: "f64 option"
  cv_y_hi :: "f64 option"
  cv_x_digits :: nat
  cv_y_digits :: nat
  cv_x_units :: "string option"
  cv_y_units :: "string option"
  cv_x_channel :: "string option"

text \<open>\<open>f64::MAX\<close>\<close>

definition f_max_value :: f64 where "f_max_value = Fin ((2 - 1 / 2 ^ 52) * 2 ^ 1023)"

definition axis_bound :: "symbols \<Rightarrow> num_or_expr list \<Rightarrow> nat \<Rightarrow> f64 \<Rightarrow> f64 run" where
  "axis_bound S bounds i fallback =
     (case list_get bounds i of None \<Rightarrow> Ret fallback | Some v \<Rightarrow> eval_or S v fallback)"

definition bin_meta :: "tune \<Rightarrow> symbols \<Rightarrow> string \<Rightarrow> (f64 option \<times> f64 option \<times> nat \<times> string option) run" where
  "bin_meta t S name =
     (case im_get (i_constants (tn_def t)) name of
        None \<Rightarrow> Ret (None, None, 0, None)
      | Some c \<Rightarrow>
          run_bind (opt_eval S (cd_lo c)) (\<lambda>lo.
          run_bind (opt_eval S (cd_hi c)) (\<lambda>hi.
          run_bind (json_digits S c) (\<lambda>digits.
          run_bind (opt_units S (cd_units c)) (\<lambda>units. Ret (lo, hi, digits, units))))))"

definition curve_json_of :: "tune \<Rightarrow> nat \<Rightarrow> string \<Rightarrow> curve_json option run" where
  "curve_json_of t d ident =
     (let S = tune_syms t d
      in ro_bind (Ret (im_get (i_curves (tn_def t)) ident)) (\<lambda>cu.
         ro_bind (Ret (list_get (cu_y_bins cu) 0)) (\<lambda>y_bin.
         ro_bind (array_values t S (fst (cu_x_bins cu))) (\<lambda>x.
         ro_bind (array_values t S y_bin) (\<lambda>y.
         run_bind (bin_meta t S (fst (cu_x_bins cu))) (\<lambda>(x_lo, x_hi, x_digits, x_units).
         run_bind (bin_meta t S y_bin) (\<lambda>(y_lo, y_hi, y_digits, y_units).
         run_bind (axis_bound S (cu_x_axis cu) 0 (foldl fmin f_max_value x)) (\<lambda>x_min.
         run_bind (axis_bound S (cu_x_axis cu) 1 (foldl fmax (fneg f_max_value) x)) (\<lambda>x_max.
         run_bind (axis_bound S (cu_y_axis cu) 0 fzero) (\<lambda>y_min.
         run_bind (axis_bound S (cu_y_axis cu) 1 (foldl fmax (fneg f_max_value) y)) (\<lambda>y_max.
           ro_return \<lparr>cv_id = ident, cv_title = cu_title cu, cv_x_label = list_get (cu_column_label cu) 0,
             cv_y_label = list_get (cu_column_label cu) 1, cv_x = x, cv_y = y, cv_x_min = x_min, cv_x_max = x_max,
             cv_y_min = y_min, cv_y_max = y_max, cv_x_lo = x_lo, cv_x_hi = x_hi, cv_y_lo = y_lo, cv_y_hi = y_hi,
             cv_x_digits = x_digits, cv_y_digits = y_digits, cv_x_units = x_units, cv_y_units = y_units,
             cv_x_channel = snd (cu_x_bins cu)\<rparr>)))))))))))"

subsection \<open>Menus\<close>

definition truthy :: "symbols \<Rightarrow> expr option \<Rightarrow> bool run" where
  "truthy S cond =
     (case cond of
        None \<Rightarrow> Ret True
      | Some e \<Rightarrow> run_map (\<lambda>r. case r of
            Inr (VNum n) \<Rightarrow> \<not> feq n fzero
          | Inr (VStr s) \<Rightarrow> s \<noteq> []
          | Inl err \<Rightarrow> True) (eval S e))"

datatype entry_kind = K_calibration | K_dialog | K_table | K_curve

record entry_json =
  ej_kind :: entry_kind
  ej_name :: string
  ej_label :: string
  ej_enabled :: bool

datatype menu_json_item =
    Mj_entry entry_json
  | Mj_group string "entry_json list"
  | Mj_separator

record menu_json =
  mj_title :: string
  mj_items :: "menu_json_item list"

definition entry_kind_of :: "ini_def \<Rightarrow> string \<Rightarrow> entry_kind option" where
  "entry_kind_of def target =
     (if target = ''std_ms2geno2'' \<and> res_ok (metadata def) \<noteq> None then Some K_calibration
      else if im_get (i_dialogs def) target \<noteq> None then Some K_dialog
      else if im_get (i_tables def) target \<noteq> None then Some K_table
      else if im_get (i_curves def) target \<noteq> None then Some K_curve
      else None)"

definition menu_entry_json :: "ini_def \<Rightarrow> symbols \<Rightarrow> menu_entry \<Rightarrow> entry_json option run" where
  "menu_entry_json def S e =
     (case entry_kind_of def (me_target e) of
        None \<Rightarrow> Ret None
      | Some k \<Rightarrow> run_map (\<lambda>b. Some \<lparr>ej_kind = k, ej_name = me_target e, ej_label = me_label e, ej_enabled = b\<rparr>)
          (truthy S (me_enable e)))"

text \<open>One menu item after the items so far; a separator only behind something else.\<close>

definition push_menu_item :: "ini_def \<Rightarrow> symbols \<Rightarrow> menu_item \<Rightarrow> menu_json_item list \<Rightarrow> menu_json_item list run" where
  "push_menu_item def S item items =
     (case item of
        Menu_entry e \<Rightarrow>
          run_map (\<lambda>r. case r of None \<Rightarrow> items | Some j \<Rightarrow> items @ [Mj_entry j]) (menu_entry_json def S e)
      | Group label children \<Rightarrow>
          run_map (\<lambda>rs. let kids = List.map_filter id rs
              in if kids = [] then items else items @ [Mj_group label kids])
            (run_mapM (menu_entry_json def S) children)
      | Separator \<Rightarrow> Ret (if items \<noteq> [] \<and> last items \<noteq> Mj_separator then items @ [Mj_separator] else items))"

fun push_menu_items :: "ini_def \<Rightarrow> symbols \<Rightarrow> menu_item list \<Rightarrow> menu_json_item list \<Rightarrow> menu_json_item list run" where
  "push_menu_items def S [] items = Ret items"
| "push_menu_items def S (x # xs) items = run_bind (push_menu_item def S x items) (push_menu_items def S xs)"

text \<open>\<open>while items.last() is a separator { items.pop(); }\<close>\<close>

definition drop_separators :: "menu_json_item list \<Rightarrow> menu_json_item list" where
  "drop_separators items = rev (dropWhile (\<lambda>i. i = Mj_separator) (rev items))"

definition menus_json :: "ini_def \<Rightarrow> symbols \<Rightarrow> menu_json list run" where
  "menus_json def S =
     run_map (\<lambda>ms. filter (\<lambda>m. mj_items m \<noteq> []) ms)
       (run_mapM (\<lambda>m. run_map (\<lambda>items. \<lparr>mj_title = mn_title m, mj_items = drop_separators items\<rparr>)
          (push_menu_items def S (mn_items m) [])) (i_menus def))"

subsection \<open>Dialogs\<close>

datatype dialog_row =
    Row_header string
  | Row_constant string bool constant_json
  | Row_display string bool constant_json
  | Row_unsupported string string
  | Row_panel string string bool "dialog_row list"
  | Row_curve string string
  | Row_table string string
  | Row_required_fuel constant_json "f64 option" "f64 option"

text \<open>\<open>#\<close> marks a bold header, \<open>!"..."\<close> a note.\<close>

definition header_text :: "string \<Rightarrow> string" where
  "header_text label =
     trim (trim_in {CHR 0x22} (trim (dropWhile (\<lambda>c. c \<in> {CHR ''#'', CHR ''!''}) label)))"

definition field_rows :: "tune \<Rightarrow> nat \<Rightarrow> string \<Rightarrow> string option \<Rightarrow> expr option \<Rightarrow> expr option \<Rightarrow> dialog_row list run" where
  "field_rows t d label constant enable visible =
     run_bind (truthy (tune_syms t d) visible) (\<lambda>shown.
       if \<not> shown then Ret []
       else case constant of
           None \<Rightarrow> Ret (if header_text label = [] then [] else [Row_header (header_text label)])
         | Some name \<Rightarrow>
             run_bind (constant_json_of t d name) (\<lambda>r. case r of
                 None \<Rightarrow> Ret [Row_unsupported label name]
               | Some cj \<Rightarrow> run_map (\<lambda>on. [Row_constant label on cj]) (truthy (tune_syms t d) enable)))"

definition display_rows :: "tune \<Rightarrow> nat \<Rightarrow> string \<Rightarrow> string option \<Rightarrow> expr option \<Rightarrow> expr option \<Rightarrow> dialog_row list run" where
  "display_rows t d label constant enable visible =
     run_bind (truthy (tune_syms t d) visible) (\<lambda>shown.
       if \<not> shown then Ret []
       else case constant of
           None \<Rightarrow> Ret (if trim label = [] then [] else [Row_header label])
         | Some name \<Rightarrow>
             run_bind (constant_json_of t d name) (\<lambda>r. case r of
                 None \<Rightarrow> Ret [Row_unsupported label name]
               | Some cj \<Rightarrow> run_map (\<lambda>on. [Row_display label on cj]) (truthy (tune_syms t d) enable)))"

definition injection_fields :: "(string \<times> string) list" where
  "injection_fields =
     [(''Control algorithm'', ''algorithm''), (''Squirts per engine cycle'', ''divider''),
      (''Injector staging'', ''alternate''), (''Engine stroke'', ''twoStroke''),
      (''Number of cylinders'', ''nCylinders''), (''Injector port type'', ''injType''),
      (''Number of injectors'', ''nInjectors''), (''Engine type'', ''engineType'')]"

definition number_constant :: "tune \<Rightarrow> nat \<Rightarrow> string \<Rightarrow> f64 option run" where
  "number_constant t d name =
     run_map (\<lambda>r. case r of Some (VNum v) \<Rightarrow> Some v | _ \<Rightarrow> None) (constant_value t (tune_syms t d) name)"

text \<open>The injection panel TunerStudio has built in.\<close>

definition injection_rows :: "tune \<Rightarrow> nat \<Rightarrow> dialog_row list run" where
  "injection_rows t d =
     run_bind (constant_json_of t d ''reqFuel'') (\<lambda>fuel.
     run_bind (case fuel of
         None \<Rightarrow> Ret []
       | Some cj \<Rightarrow>
           run_bind (number_constant t d ''nCylinders'') (\<lambda>cyl.
             run_map (\<lambda>afr. [Row_required_fuel cj cyl afr]) (number_constant t d ''stoich''))) (\<lambda>rows.
       run_map (\<lambda>rs. rows @ List.map_filter id rs)
         (run_mapM (\<lambda>(label, name). run_map (map_option (Row_constant label True)) (constant_json_of t d name))
            injection_fields)))"

text \<open>A panel whose target is not a dialog of the definition.\<close>

definition other_panel :: "tune \<Rightarrow> nat \<Rightarrow> string \<Rightarrow> dialog_row list run" where
  "other_panel t d target =
     (case im_get (i_curves (tn_def t)) target of
        Some cu \<Rightarrow> Ret [Row_curve target (cu_title cu)]
      | None \<Rightarrow>
          (case im_get (i_tables (tn_def t)) target of
             Some tab \<Rightarrow> Ret [Row_table target (td_title tab)]
           | None \<Rightarrow>
               if target = ''std_injection''
               then run_map (\<lambda>rows. if rows = [] then [] else [Row_panel target ''Injection'' True rows])
                 (injection_rows t d)
               else Ret []))"

text \<open>The dialogs that are not on the way down.\<close>

definition unvisited :: "tune \<Rightarrow> string list \<Rightarrow> string set" where
  "unvisited t visited = set (map fst (i_dialogs (tn_def t))) - set visited"

function dialog_rows :: "tune \<Rightarrow> nat \<Rightarrow> dialog_item list \<Rightarrow> string list \<Rightarrow> dialog_row list run" where
  "dialog_rows t d [] visited = Ret []"
| "dialog_rows t d (Field_item label constant enable visible # items) visited =
     run_bind (field_rows t d label constant enable visible) (\<lambda>rows.
       run_map (\<lambda>more. rows @ more) (dialog_rows t d items visited))"
| "dialog_rows t d (Display_only label constant enable visible # items) visited =
     run_bind (display_rows t d label constant enable visible) (\<lambda>rows.
       run_map (\<lambda>more. rows @ more) (dialog_rows t d items visited))"
| "dialog_rows t d (Panel target enable # items) visited =
     (if target \<in> set visited then dialog_rows t d items visited
      else case im_get (i_dialogs (tn_def t)) target of
          None \<Rightarrow>
            run_bind (other_panel t d target) (\<lambda>rows.
              run_map (\<lambda>more. rows @ more) (dialog_rows t d items visited))
        | Some sub \<Rightarrow>
            run_bind (dialog_rows t d (di_items sub) (visited @ [target])) (\<lambda>inner.
            run_bind (if inner = [] then Ret []
                      else run_map (\<lambda>on. [Row_panel target (di_title sub) on inner]) (truthy (tune_syms t d) enable)) (\<lambda>rows.
              run_map (\<lambda>more. rows @ more) (dialog_rows t d items visited))))"
  by pat_completeness auto
termination
proof (relation "(\<lambda>(t, d, items, visited). card (unvisited t visited)) <*mlex*>
    measure (\<lambda>(t, d, items, visited). length items)", goal_cases)
  case 1
  show ?case by (intro wf_mlex wf_measure)
next
  case (6 t d target enable items visited sub)
  then have "(target, sub) \<in> set (i_dialogs (tn_def t))" by (auto simp: im_get_def dest: map_of_SomeD)
  then have "target \<in> unvisited t visited" using 6 by (force simp: unvisited_def)
  then have "unvisited t (visited @ [target]) \<subset> unvisited t visited" by (auto simp: unvisited_def)
  then have "card (unvisited t (visited @ [target])) < card (unvisited t visited)"
    by (rule psubset_card_mono [rotated]) (simp add: unvisited_def)
  then show ?case by (simp add: mlex_less)
qed (auto intro: mlex_leq)


declare dialog_rows.simps [simp del]

text \<open>The title a menu gives a dialog that has none.\<close>

fun item_label :: "string \<Rightarrow> menu_item \<Rightarrow> string option" where
  "item_label target (Menu_entry e) = (if me_target e = target then Some (me_label e) else None)"
| "item_label target (Group l children) = map_option me_label (List.find (\<lambda>e. me_target e = target) children)"
| "item_label target Separator = None"

definition menu_label :: "ini_def \<Rightarrow> string \<Rightarrow> string option" where
  "menu_label def target =
     (case List.map_filter (item_label target) (concat (map mn_items (i_menus def))) of
        [] \<Rightarrow> None | l # r \<Rightarrow> Some l)"

record dialog_json =
  dj_name :: string
  dj_title :: string
  dj_help :: "string option"
  dj_items :: "dialog_row list"

definition dialog_json_of :: "tune \<Rightarrow> nat \<Rightarrow> string \<Rightarrow> dialog_json option run" where
  "dialog_json_of t d name =
     (case im_get (i_dialogs (tn_def t)) name of
        None \<Rightarrow> Ret None
      | Some g \<Rightarrow>
          run_map (\<lambda>items. Some \<lparr>dj_name = di_name g,
              dj_title = (if di_title g = [] then or_val (di_name g) (menu_label (tn_def t) name) else di_title g),
              dj_help = di_topic_help g, dj_items = items\<rparr>)
            (dialog_rows t d (di_items g) [name]))"

subsection \<open>Differences to a file\<close>

text \<open>The table or curve that uses a constant, else its page.\<close>

definition table_role :: "string \<Rightarrow> table_def \<Rightarrow> string option" where
  "table_role name tab =
     (if td_z_bins tab = name then Some (td_title tab)
      else if fst (td_x_bins tab) = name then Some (td_title tab @ '' (X axis)'')
      else if fst (td_y_bins tab) = name then Some (td_title tab @ '' (Y axis)'')
      else None)"

definition where_label :: "ini_def \<Rightarrow> string \<Rightarrow> nat option \<Rightarrow> string" where
  "where_label def name page =
     (case List.map_filter (table_role name) (map snd (i_tables def)) of
        l # r \<Rightarrow> l
      | [] \<Rightarrow>
          (case List.find (\<lambda>cu. fst (cu_x_bins cu) = name \<or> name \<in> set (cu_y_bins cu)) (map snd (i_curves def)) of
             Some cu \<Rightarrow> cu_title cu
           | None \<Rightarrow> (case page of Some p \<Rightarrow> ''page '' @ show_nat p | None \<Rightarrow> [])))"

definition MAX_DIFF_CELLS :: nat where "MAX_DIFF_CELLS = 64"

record diff_cell =
  dc_index :: nat
  dc_at :: "(nat \<times> nat) option"
  dc_ecu :: "f64 option"
  dc_file :: "f64 option"

datatype diff_detail =
    Dd_scalar f64 f64
  | Dd_bits string string
  | Dd_array nat nat "diff_cell list"

record diff_row =
  dr_name :: string
  dr_page :: "nat option"
  dr_where :: string
  dr_detail :: diff_detail

text \<open>Row and column of a changed cell, for a two-dimensional array \<open>nx\<close> wide.\<close>

definition diff_cell_of :: "nat option \<Rightarrow> f64 list \<Rightarrow> f64 list \<Rightarrow> nat \<Rightarrow> diff_cell" where
  "diff_cell_of nx ecu file i =
     \<lparr>dc_index = i, dc_at = map_option (\<lambda>n. (i div n, i mod n)) nx, dc_ecu = list_get ecu i, dc_file = list_get file i\<rparr>"

definition diff_detail_of :: "tune \<Rightarrow> nat \<Rightarrow> msq_file \<Rightarrow> diff_entry \<Rightarrow> diff_detail run" where
  "diff_detail_of t d file e =
     (case de_kind e of
        Diff_scalar ecu f \<Rightarrow> Ret (Dd_scalar ecu f)
      | Diff_bits ecu f \<Rightarrow> Ret (Dd_bits ecu f)
      | Diff_array changed n \<Rightarrow>
          run_map (\<lambda>ecu.
            let file_values = (case im_get (mf_constants file) (de_name e) of Some (Msq_array vs) \<Rightarrow> vs | _ \<Rightarrow> []);
                nx = Option.bind (im_get (i_constants (tn_def t)) (de_name e)) (\<lambda>c.
                  case cd_shape c of Some (Array2D x y) \<Rightarrow> Some x | _ \<Rightarrow> None)
            in Dd_array (length changed) n
                 (map (diff_cell_of nx (or_val [] ecu) file_values) (take MAX_DIFF_CELLS changed)))
            (array_values t (tune_syms t d) (de_name e)))"

record msq_meta =
  mm_filename :: string
  mm_signature :: "string option"
  mm_signature_match :: bool
  mm_write_date :: "string option"
  mm_author :: "string option"
  mm_settings :: "string list"
  mm_constants :: nat

definition msq_meta_of :: "ini_def \<Rightarrow> string \<Rightarrow> msq_file \<Rightarrow> msq_meta" where
  "msq_meta_of def filename file =
     \<lparr>mm_filename = filename, mm_signature = mf_signature file,
      mm_signature_match = (mf_signature file = Some (i_signature def)), mm_write_date = mf_write_date file,
      mm_author = mf_author file, mm_settings = mf_settings file, mm_constants = length (mf_constants file)\<rparr>"

record diff_json =
  dq_meta :: msq_meta
  dq_entries :: "diff_row list"
  dq_only_in_file :: "string list"
  dq_unresolved :: "(string \<times> string) list"

definition diff_json_of :: "tune \<Rightarrow> nat \<Rightarrow> string \<Rightarrow> msq_file \<Rightarrow> diff_json run" where
  "diff_json_of t d filename file =
     run_bind (msq_diff_of d file t) (\<lambda>diff.
       run_map (\<lambda>rows. \<lparr>dq_meta = msq_meta_of (tn_def t) filename file, dq_entries = rows,
           dq_only_in_file = md_only_in_file diff, dq_unresolved = md_unresolved diff\<rparr>)
         (run_mapM (\<lambda>e. run_map (\<lambda>detail. \<lparr>dr_name = de_name e, dr_page = de_page e,
              dr_where = where_label (tn_def t) (de_name e) (de_page e), dr_detail = detail\<rparr>)
            (diff_detail_of t d file e)) (md_entries diff)))"

end
