(* ===== verification/Api_View_Laws.thy ===== *)
theory Api_View_Laws
  imports Api_Views
begin

text \<open>
  What the menus and dialogs look like to a client: no empty menu or group, separators only
  between entries, and no panel inside itself.
\<close>

subsection \<open>Menus\<close>

definition tidy :: "menu_json_item list \<Rightarrow> bool" where
  "tidy items \<longleftrightarrow>
     successively (\<lambda>a b. \<not> (a = Mj_separator \<and> b = Mj_separator)) items
     \<and> (items \<noteq> [] \<longrightarrow> hd items \<noteq> Mj_separator)
     \<and> (\<forall>l kids. Mj_group l kids \<in> set items \<longrightarrow> kids \<noteq> [])"

lemma tidy_Nil: "tidy []"
  by (simp add: tidy_def)

lemma tidy_snoc:
  assumes "tidy items" "x = Mj_separator \<Longrightarrow> items \<noteq> [] \<and> last items \<noteq> Mj_separator"
    "\<And>l kids. x = Mj_group l kids \<Longrightarrow> kids \<noteq> []"
  shows "tidy (items @ [x])"
  using assms by (cases "items = []") (auto simp: tidy_def successively_append_iff)

lemma push_menu_item_tidy:
  assumes "push_menu_item def S item items = Ret out" "tidy items"
  shows "tidy out"
proof (cases item)
  case (Menu_entry e)
  with assms(1) obtain r where "out = (case r of None \<Rightarrow> items | Some j \<Rightarrow> items @ [Mj_entry j])"
    by (cases "menu_entry_json def S e") (auto simp: push_menu_item_def)
  then show ?thesis using assms(2) by (auto intro: tidy_snoc split: option.splits)
next
  case Separator
  with assms show ?thesis by (auto simp: push_menu_item_def intro: tidy_snoc split: if_splits)
next
  case (Group label children)
  with assms(1) obtain rs where
    "out = (let kids = List.map_filter id rs in if kids = [] then items else items @ [Mj_group label kids])"
    by (cases "run_mapM (menu_entry_json def S) children") (auto simp: push_menu_item_def)
  then show ?thesis using assms(2) by (auto simp: Let_def intro: tidy_snoc split: if_splits)
qed

lemma push_menu_items_tidy: "push_menu_items def S xs items = Ret out \<Longrightarrow> tidy items \<Longrightarrow> tidy out"
proof (induction xs arbitrary: items)
  case (Cons x xs)
  then show ?case by (cases "push_menu_item def S x items") (auto intro: push_menu_item_tidy)
qed simp

lemma drop_separators_prefix: "\<exists>r. items = drop_separators items @ r"
proof -
  have "rev items = takeWhile (\<lambda>i. i = Mj_separator) (rev items) @ dropWhile (\<lambda>i. i = Mj_separator) (rev items)" by simp
  then have "items = rev (takeWhile (\<lambda>i. i = Mj_separator) (rev items) @ dropWhile (\<lambda>i. i = Mj_separator) (rev items))"
    by (metis rev_rev_ident)
  then show ?thesis unfolding drop_separators_def by (metis rev_append)
qed

lemma tidy_drop: "tidy items \<Longrightarrow> tidy (drop_separators items)"
proof -
  obtain r where r: "items = drop_separators items @ r" using drop_separators_prefix by blast
  have "tidy (xs @ r) \<Longrightarrow> tidy xs" for xs by (cases "xs = []") (auto simp: tidy_def successively_append_iff)
  with r show "tidy items \<Longrightarrow> tidy (drop_separators items)" by metis
qed

lemma last_drop_separators: "drop_separators items \<noteq> [] \<Longrightarrow> last (drop_separators items) \<noteq> Mj_separator"
proof -
  have "dropWhile (\<lambda>i. i = Mj_separator) xs \<noteq> [] \<Longrightarrow> hd (dropWhile (\<lambda>i. i = Mj_separator) xs) \<noteq> Mj_separator" for xs
    using hd_dropWhile [of "\<lambda>i. i = Mj_separator" xs] by blast
  then show "drop_separators items \<noteq> [] \<Longrightarrow> last (drop_separators items) \<noteq> Mj_separator"
    unfolding drop_separators_def by (simp add: last_rev)
qed

text \<open>What every menu in the response looks like.\<close>

theorem menus_well_formed:
  assumes "menus_json def S = Ret ms" "m \<in> set ms"
  shows "mj_items m \<noteq> [] \<and> hd (mj_items m) \<noteq> Mj_separator \<and> last (mj_items m) \<noteq> Mj_separator \<and>
    successively (\<lambda>a b. \<not> (a = Mj_separator \<and> b = Mj_separator)) (mj_items m) \<and>
    (\<forall>l kids. Mj_group l kids \<in> set (mj_items m) \<longrightarrow> kids \<noteq> [])"
proof -
  let ?f = "\<lambda>m. run_map (\<lambda>items. \<lparr>mj_title = mn_title m, mj_items = drop_separators items\<rparr>)
    (push_menu_items def S (mn_items m) [])"
  obtain all where all: "run_mapM ?f (i_menus def) = Ret all" "ms = filter (\<lambda>m. mj_items m \<noteq> []) all"
    using assms(1) by (cases "run_mapM ?f (i_menus def)") (auto simp: menus_json_def)
  with assms(2) have ne: "mj_items m \<noteq> []" and "m \<in> set all" by auto
  then obtain i where "i < length (i_menus def)" "?f (i_menus def ! i) = Ret m"
    using all(1) by (auto simp: run_mapM_all list_all2_conv_all_nth in_set_conv_nth)
  then obtain items where items: "push_menu_items def S (mn_items (i_menus def ! i)) [] = Ret items"
    "mj_items m = drop_separators items"
    by (cases "push_menu_items def S (mn_items (i_menus def ! i)) []") auto
  have "tidy (mj_items m)"
    unfolding items(2) by (rule tidy_drop) (rule push_menu_items_tidy [OF items(1) tidy_Nil])
  then show ?thesis using ne last_drop_separators items(2) by (auto simp: tidy_def)
qed

definition menu_def_sample :: ini_def where
  "menu_def_sample = ini_default\<lparr>i_menus := [\<lparr>mn_title = ''M'', mn_items = [Separator,
       Menu_entry \<lparr>me_target = ''c'', me_label = ''Curve'', me_enable = None\<rparr>, Separator, Separator,
       Menu_entry \<lparr>me_target = ''std_x'', me_label = ''Built in'', me_enable = None\<rparr>, Separator]\<rparr>],
     i_curves := [(''c'', \<lparr>cu_id = ''c'', cu_title = ''Curve'', cu_column_label = [], cu_x_axis = [], cu_y_axis = [],
       cu_x_bins = (''x'', None), cu_y_bins = [], cu_misc = [], cu_line = 1\<rparr>)]\<rparr>"

text \<open>A menu of one served entry between separators and an entry that is not served.\<close>

theorem menus_well_formed_witness:
  "\<exists>m. menus_json menu_def_sample empty_symbols = Ret [m] \<and> length (mj_items m) = 1
    \<and> last (mj_items m) \<noteq> Mj_separator"
proof -
  let ?m = "\<lparr>mj_title = ''M'', mj_items = [Mj_entry \<lparr>ej_kind = K_curve, ej_name = ''c'', ej_label = ''Curve'', ej_enabled = True\<rparr>]\<rparr>"
  have "entry_kind_of menu_def_sample ''c'' = Some K_curve" "entry_kind_of menu_def_sample ''std_x'' = None"
    by (simp_all add: entry_kind_of_def menu_def_sample_def im_get_def ini_default_def)
  then have ms: "menus_json menu_def_sample empty_symbols = Ret [?m]"
    by (simp add: menus_json_def menu_def_sample_def push_menu_item_def menu_entry_json_def truthy_def drop_separators_def)
  from menus_well_formed [OF this, of ?m] have "last (mj_items ?m) \<noteq> Mj_separator" by simp
  with ms show ?thesis by fastforce
qed

subsection \<open>Dialogs\<close>

text \<open>No panel has the name of a dialog it is inside of.\<close>

fun panels_fresh :: "string list \<Rightarrow> dialog_row \<Rightarrow> bool" where
  "panels_fresh path (Row_panel name title on rows) \<longleftrightarrow>
     name \<notin> set path \<and> (\<forall>r \<in> set rows. panels_fresh (path @ [name]) r)"
| "panels_fresh path r \<longleftrightarrow> True"

definition no_panels :: "dialog_row list \<Rightarrow> bool" where
  "no_panels rows \<longleftrightarrow> (\<forall>r \<in> set rows. \<not> (\<exists>n t b rs. r = Row_panel n t b rs))"

lemma no_panels_fresh: "no_panels rows \<Longrightarrow> r \<in> set rows \<Longrightarrow> panels_fresh path r"
  unfolding no_panels_def by (cases r) (simp, simp, simp, simp, blast, simp, simp, simp)

lemma run_bind_RetE: "run_bind m f = Ret y \<Longrightarrow> (\<And>x. m = Ret x \<Longrightarrow> f x = Ret y \<Longrightarrow> P) \<Longrightarrow> P"
  by (cases m) auto

lemma run_map_RetE: "run_map f m = Ret y \<Longrightarrow> (\<And>x. m = Ret x \<Longrightarrow> y = f x \<Longrightarrow> P) \<Longrightarrow> P"
  by (cases m) auto

lemma field_rows_flat: "field_rows t d label cst enable visible = Ret rows \<Longrightarrow> no_panels rows"
  by (auto simp: field_rows_def no_panels_def split: if_splits option.splits elim!: run_bind_RetE run_map_RetE)

lemma display_rows_flat: "display_rows t d label cst enable visible = Ret rows \<Longrightarrow> no_panels rows"
  by (auto simp: display_rows_def no_panels_def split: if_splits option.splits elim!: run_bind_RetE run_map_RetE)

lemma injection_rows_flat:
  assumes "injection_rows t d = Ret rows"
  shows "no_panels rows"
proof -
  let ?f = "\<lambda>(label, name). run_map (map_option (Row_constant label True)) (constant_json_of t d name)"
  obtain fuel first rest where r: "run_mapM ?f injection_fields = Ret rest" "rows = first @ List.map_filter id rest"
    "(case fuel of
         None \<Rightarrow> Ret []
       | Some cj \<Rightarrow>
           run_bind (number_constant t d ''nCylinders'') (\<lambda>cyl.
             run_map (\<lambda>afr. [Row_required_fuel cj cyl afr]) (number_constant t d ''stoich''))) = Ret first"
    using assms by (auto simp: injection_rows_def elim!: run_bind_RetE run_map_RetE)
  have "no_panels first"
    using r(3) by (auto simp: no_panels_def split: option.splits elim!: run_bind_RetE run_map_RetE)
  moreover have "\<not> (\<exists>n t b rs. row = Row_panel n t b rs)" if "Some row \<in> set rest" for row
  proof -
    from that obtain i where "i < length rest" "rest ! i = Some row" by (auto simp: in_set_conv_nth)
    then have "?f (injection_fields ! i) = Ret (Some row)"
      using r(1) by (auto simp: run_mapM_all list_all2_conv_all_nth)
    then obtain x where "Some row = map_option (Row_constant (fst (injection_fields ! i)) True) x"
      by (auto simp: case_prod_beta elim!: run_map_RetE)
    then show ?thesis by (cases x) auto
  qed
  moreover have "Some row \<in> set rest" if "row \<in> set (List.map_filter id rest)" for row
    using that by (auto simp: List.map_filter_def)
  ultimately have "no_panels first" "no_panels (List.map_filter id rest)" unfolding no_panels_def by blast+
  then show ?thesis unfolding r(2) no_panels_def set_append by blast
qed

lemma other_panel_fresh:
  assumes "other_panel t d target = Ret rows" "target \<notin> set path" "r \<in> set rows"
  shows "panels_fresh path r"
  using assms no_panels_fresh [OF injection_rows_flat]
  by (auto simp: other_panel_def split: option.splits if_splits elim!: run_map_RetE)

lemma dialog_rows_fresh:
  assumes "dialog_rows t d items visited = Ret rows"
  shows "\<forall>r \<in> set rows. panels_fresh visited r"
  using assms
proof (induction t d items visited arbitrary: rows rule: dialog_rows.induct)
  case (1 t d visited)
  then show ?case by (simp add: dialog_rows.simps)
next
  case (2 t d label cst enable visible items visited)
  then show ?case
    using no_panels_fresh [OF field_rows_flat] by (auto simp: dialog_rows.simps elim!: run_bind_RetE run_map_RetE)
next
  case (3 t d label cst enable visible items visited)
  then show ?case
    using no_panels_fresh [OF display_rows_flat] by (auto simp: dialog_rows.simps elim!: run_bind_RetE run_map_RetE)
next
  case (4 t d target enable items visited)
  show ?case
  proof (cases "target \<in> set visited")
    case True
    then show ?thesis using "4.IH"(1) "4.prems" by (simp add: dialog_rows.simps)
  next
    case fresh: False
    show ?thesis
    proof (cases "im_get (i_dialogs (tn_def t)) target")
      case None
      with "4.prems" fresh obtain own others where "other_panel t d target = Ret own"
        "dialog_rows t d items visited = Ret others" "rows = own @ others"
        by (auto simp: dialog_rows.simps elim!: run_bind_RetE run_map_RetE)
      then show ?thesis
        using other_panel_fresh [OF _ fresh] "4.IH"(2) [OF fresh None] by auto
    next
      case (Some sub)
      with "4.prems" fresh obtain inner own others where
        inner: "dialog_rows t d (di_items sub) (visited @ [target]) = Ret inner"
        and own: "(if inner = [] then Ret []
          else run_map (\<lambda>on. [Row_panel target (di_title sub) on inner]) (truthy (tune_syms t d) enable)) = Ret own"
        and others: "dialog_rows t d items visited = Ret others" "rows = own @ others"
        by (auto simp: dialog_rows.simps elim!: run_bind_RetE run_map_RetE)
      have "\<forall>r \<in> set own. panels_fresh visited r"
        using own fresh "4.IH"(3) [OF fresh Some inner] by (auto split: if_splits elim!: run_map_RetE)
      then show ?thesis using "4.IH"(4) [OF fresh Some] others by auto
    qed
  qed
qed

text \<open>
  With acyclic lookups a deep enough stack answers every one of them, and then no view of the
  tune is left out.
\<close>

lemma acyclic_safe:
  assumes "\<And>u v. v \<in> needs t u \<Longrightarrow> rank v < (rank u :: nat)" "\<And>u. rank u < d"
  shows "safe (tune_syms t d) u"
  using lookups_settle [of t rank u d d, OF assms(1) assms(2) assms(2)] by blast

lemma truthy_returns [returns_intros]: "(\<And>u. safe S u) \<Longrightarrow> returns (truthy S cond)"
  by (cases cond) (auto simp: truthy_def intro: eval_returns)

lemma constant_value_returns [returns_intros]: "(\<And>u. safe S u) \<Longrightarrow> returns (constant_value t S name)"
  by (auto simp: constant_value_def split: option.splits prod.splits constant_class.splits shape.splits
      intro!: returns_intros scaled_returns)

lemma opt_eval_returns [returns_intros]: "(\<And>u. safe S u) \<Longrightarrow> returns (opt_eval S f)"
  by (cases f) (auto simp: opt_eval_def intro!: returns_intros field_eval_returns)

lemma opt_units_returns [returns_intros]: "(\<And>u. safe S u) \<Longrightarrow> returns (opt_units S f)"
  by (auto simp: opt_units_def split: option.splits intro!: returns_intros text_eval_returns)

lemma constant_json_returns [returns_intros]: "(\<And>u. safe (tune_syms t d) u) \<Longrightarrow> returns (constant_json_of t d name)"
  unfolding constant_json_of_def Let_def json_digits_def
  by (intro returns_run_bind) (auto split: option.splits prod.splits intro!: returns_intros returns_run_bind)

lemma rows_return:
  assumes "\<And>u. safe (tune_syms t d) u"
  shows "returns (field_rows t d label cst enable visible)" "returns (display_rows t d label cst enable visible)"
    "returns (other_panel t d target)"
  using assms
  by (auto simp: field_rows_def display_rows_def other_panel_def injection_rows_def number_constant_def
      split: option.splits intro!: returns_intros returns_run_bind returns_run_mapM)

lemma dialog_rows_return:
  "(\<And>u. safe (tune_syms t d) u) \<Longrightarrow> returns (dialog_rows t d items visited)"
proof (induction t d items visited rule: dialog_rows.induct)
  case (4 t d target enable items visited)
  then show ?case
    by (auto simp: dialog_rows.simps split: option.splits intro!: returns_run_bind rows_return truthy_returns)
qed (auto simp: dialog_rows.simps intro!: returns_run_bind rows_return)

text \<open>
  C27. Every dialog can be shown: also when dialogs contain each other through their panels, the
  flattening ends and gives the form, in which no panel is inside itself, as long as the
  definition's expressions do not refer to each other in a cycle.
\<close>

theorem dialogs_shown:
  assumes "\<And>u v. v \<in> needs t u \<Longrightarrow> rank v < (rank u :: nat)" "\<And>u. rank u < d"
    "im_get (i_dialogs (tn_def t)) name \<noteq> None"
  shows "\<exists>j. dialog_json_of t d name = Ret (Some j) \<and> (\<forall>r \<in> set (dj_items j). panels_fresh [name] r)"
proof -
  obtain g where g: "im_get (i_dialogs (tn_def t)) name = Some g" using assms(3) by blast
  have "safe (tune_syms t d) u" for u by (rule acyclic_safe [OF assms(1,2)])
  then obtain items where items: "dialog_rows t d (di_items g) [name] = Ret items"
    using dialog_rows_return unfolding returns_iff by blast
  with g show ?thesis by (auto simp: dialog_json_of_def dest: bspec [OF dialog_rows_fresh])
qed

text \<open>Two dialogs that contain each other.\<close>

definition loop_dialog :: "string \<Rightarrow> string \<Rightarrow> dialog_def" where
  "loop_dialog name target =
     \<lparr>di_name = name, di_title = name, di_items = [Panel target None, Field_item ''#Head'' None None None],
      di_topic_help = None, di_line = 1\<rparr>"

definition loop_tune :: tune where
  "loop_tune = tune_new (ini_default\<lparr>i_dialogs := [(''a'', loop_dialog ''a'' ''b''), (''b'', loop_dialog ''b'' ''a'')]\<rparr>)"

theorem dialogs_shown_witness:
  "\<exists>j. dialog_json_of loop_tune 2 ''a'' = Ret (Some j) \<and> length (dj_items j) = 2 \<and> panels_fresh [''a''] (hd (dj_items j))"
proof -
  have d: "im_get (i_dialogs (tn_def loop_tune)) ''a'' = Some (loop_dialog ''a'' ''b'')"
    "im_get (i_dialogs (tn_def loop_tune)) ''b'' = Some (loop_dialog ''b'' ''a'')"
    by (simp_all add: loop_tune_def tune_new_def im_get_def)
  have n: "needs loop_tune u = {}" for u
    by (cases u) (auto simp: loop_tune_def tune_new_def tune_constant_def im_get_def ini_default_def split: option.splits)
  have f: "field_rows loop_tune 2 ''#Head'' None None None = Ret [Row_header ''Head'']"
    by (simp add: field_rows_def truthy_def) code_simp
  obtain j where j: "dialog_json_of loop_tune 2 ''a'' = Ret (Some j)" "\<forall>r \<in> set (dj_items j). panels_fresh [''a''] r"
    using dialogs_shown [of loop_tune "\<lambda>u. 0" 2 "''a''"] n d by auto
  have "length (dj_items j) = 2"
    using j(1) by (simp add: dialog_json_of_def d) (auto simp: loop_dialog_def dialog_rows.simps d f truthy_def)
  with j show ?thesis by (cases "dj_items j") auto
qed

subsection \<open>Changed cells\<close>

text \<open>Row and column point at the cell that changed.\<close>

lemma diff_cell_position: "dc_at (diff_cell_of (Some n) ecu file i) = Some (r, c) \<Longrightarrow> r * n + c = i"
  by (auto simp: diff_cell_of_def)

end
