(* ===== verification/Log_Store.thy ===== *)
theory Log_Store
  imports Log_View Decimal_Text "HOL-Library.List_Lexorder" "HOL-Library.Char_ord"
begin

text \<open>
  The log directory and the serial ports as the server offers them: listing, download,
  archive and import of logs, the guard of the log plot, and the list of ports, from
  \<open>server/src/api.rs\<close>.  The directory is a map from names to bytes.

  A listing is sorted by two keys; each is one stable sort here, the weaker key first.  Names
  sort by bytes, and \<open>newest\<close> turns the order of the time stamps round.
\<close>

subsection \<open>Listings\<close>

datatype newest = Newest string

instantiation newest :: linorder
begin

definition less_eq_newest :: "newest \<Rightarrow> newest \<Rightarrow> bool" where
  "less_eq_newest x y = (case (x, y) of (Newest a, Newest b) \<Rightarrow> b \<le> a)"

definition less_newest :: "newest \<Rightarrow> newest \<Rightarrow> bool" where
  "less_newest x y = (case (x, y) of (Newest a, Newest b) \<Rightarrow> b < a)"

instance
  by standard (auto simp: less_eq_newest_def less_newest_def split: newest.splits)

end

record log_file =
  lf_name :: string
  lf_size :: nat
  lf_modified :: string
  lf_active :: bool

text \<open>
  An entry of the directory: its name, its kind and what \<open>metadata()\<close> gives: size and local
  modification time as text, empty when the system has none.
\<close>

record log_entry =
  le_name :: string
  le_is_file :: bool
  le_metadata :: "(nat \<times> string) option"
  le_bytes :: "string + bytes"

definition log_listing :: "string option \<Rightarrow> log_entry list option \<Rightarrow> log_file list" where
  "log_listing act entries =
     sort_key (\<lambda>f. Newest (lf_modified f)) (sort_key lf_name
       (List.map_filter (\<lambda>e.
          if ends_with ''.msl'' (le_name e) then
            map_option (\<lambda>(size, modified). \<lparr>lf_name = le_name e, lf_size = size, lf_modified = modified,
                lf_active = (case act of None \<Rightarrow> False | Some p \<Rightarrow> file_name p = le_name e)\<rparr>) (le_metadata e)
          else None)
        (or_val [] entries)))"

subsection \<open>Names\<close>

text \<open>The check of every request that names a log.\<close>

definition bad_log_name :: "string \<Rightarrow> bool" where
  "bad_log_name name \<longleftrightarrow> CHR ''/'' \<in> set name \<or> CHR 0x5C \<in> set name \<or> str_contains ''..'' name
     \<or> \<not> ends_with ''.msl'' name"

text \<open>
  What the archive holds: the plain files of the directory with such a name, each with the
  bytes it has when it is added; the first error of the system ends it.
\<close>

fun archive_entries :: "log_entry list \<Rightarrow> string + (string \<times> bytes) list" where
  "archive_entries [] = Inr []"
| "archive_entries (e # es) =
     (if bad_log_name (le_name e) \<or> \<not> le_is_file e then archive_entries es
      else res_bind (le_bytes e) (\<lambda>bs. res_bind (archive_entries es) (\<lambda>r. Inr ((le_name e, bs) # r))))"

text \<open>A directory that does not exist gives an empty archive.\<close>

definition logs_archive :: "string + log_entry list option \<Rightarrow> string + (string \<times> bytes) list" where
  "logs_archive dir = res_bind dir (\<lambda>entries. archive_entries (or_val [] entries))"

subsection \<open>Download and import\<close>

type_synonym folder = "string \<rightharpoonup> bytes"

type_synonym 'a log_reply = "nat \<times> string + 'a"

text \<open>\<open>missing\<close> is what the system says of a file that is not there.\<close>

definition log_download :: "string \<Rightarrow> string \<Rightarrow> folder \<Rightarrow> bytes log_reply" where
  "log_download missing name fs =
     (if bad_log_name name then Inl (400, ''invalid log name'')
      else case fs name of None \<Rightarrow> Inl (404, name @ '': '' @ missing) | Some bs \<Rightarrow> Inr bs)"

text \<open>A counter of type \<open>i32\<close>.\<close>

definition i32_add :: "int \<Rightarrow> int \<Rightarrow> int" where
  "i32_add a b = (a + b + 2 ^ 31) mod 2 ^ 32 - 2 ^ 31"

definition numbered :: "string \<Rightarrow> int \<Rightarrow> string" where
  "numbered stem n = stem @ ''-'' @ show_int n @ ''.msl''"

text \<open>The loop for a free name; it ends only when one is free.\<close>

partial_function (option) free_name :: "folder \<Rightarrow> string \<Rightarrow> string \<Rightarrow> int \<Rightarrow> string option" where
  "free_name fs stem stored n =
     (if fs stored = None then Some stored
      else free_name fs stem (numbered stem (i32_add n 1)) (i32_add n 1))"

text \<open>
  \<open>mkdir\<close> says why the directory cannot be made, \<open>fault\<close> why a file cannot be written and what
  the attempt leaves under its name.
\<close>

definition log_import ::
    "(folder \<Rightarrow> string option) \<Rightarrow> (string \<Rightarrow> (string \<times> bytes option) option) \<Rightarrow> string \<Rightarrow> bytes \<Rightarrow> folder
      \<Rightarrow> ((string \<times> nat) log_reply \<times> folder) option" where
  "log_import mkdir fault name body fs =
     (if bad_log_name name then Some (Inl (400, ''invalid log name (want *.msl)''), fs)
      else let txt1 = utf8_lossy body in
        case read_msl txt1 of
          Inl e \<Rightarrow> Some (Inl (400, ''not a valid .msl: '' @ e), fs)
        | Inr data \<Rightarrow>
            (case mkdir fs of
               Some e \<Rightarrow> Some (Inl (500, e), fs)
             | None \<Rightarrow>
                 map_option (\<lambda>stored. case fault stored of
                     Some (e, left) \<Rightarrow> (Inl (500, e), fs(stored := left))
                   | None \<Rightarrow> (Inr (stored, ms_rows data), fs(stored \<mapsto> str_bytes txt1)))
                   (free_name fs (or_val name (strip_suffix ''.msl'' name)) name 1)))"

definition log_data ::
    "log_env \<Rightarrow> string \<Rightarrow> log_index option \<Rightarrow> string \<Rightarrow> query \<Rightarrow> view log_reply \<times> log_index option" where
  "log_data E dir cached name q =
     (if bad_log_name name then (Inl (400, ''invalid log name''), cached)
      else if (case q_start q of None \<Rightarrow> False | Some v \<Rightarrow> \<not> is_finite v)
        \<or> (case q_end q of None \<Rightarrow> False | Some v \<Rightarrow> \<not> is_finite v)
        \<or> (case (q_start q, q_end q) of (Some a, Some b) \<Rightarrow> flt b a | _ \<Rightarrow> False)
      then (Inl (400, ''invalid time range''), cached)
      else case load_view E cached (path_join dir name) name q of
          (Inl e, ix, ps) \<Rightarrow> (Inl (404, e), ix)
        | (Inr v, ix, ps) \<Rightarrow> (Inr v, ix))"

subsection \<open>Serial ports\<close>

record port_info =
  po_path :: string
  po_usb :: bool

definition is_serial_name :: "string \<Rightarrow> bool" where
  "is_serial_name name \<longleftrightarrow> starts_with ''cu.'' name \<or> starts_with ''ttyUSB'' name
     \<or> starts_with ''ttyACM'' name \<or> starts_with ''ttyAMA'' name"

definition looks_usb :: "string \<Rightarrow> bool" where
  "looks_usb name \<longleftrightarrow> (\<exists>p \<in> set [''usbserial'', ''usbmodem'', ''wchusb'', ''slab'', ''ttyusb'', ''ttyacm''].
     str_contains p (to_ascii_lowercase name))"

text \<open>
  \<open>live_simulator\<close>: the number in the pid file, and whether the link leads somewhere and the
  process lives.
\<close>

definition parse_i32 :: "string \<Rightarrow> int option" where
  "parse_i32 s =
     (case strip_prefix ''-'' s of
        Some r \<Rightarrow> (if starts_with ''+'' r then None
           else Option.bind (parse_uint 32 r) (\<lambda>n. if n \<le> 2 ^ 31 then Some (- int n) else None))
      | None \<Rightarrow> map_option int (parse_uint 31 s))"

definition live_simulator :: "string option \<Rightarrow> bool \<Rightarrow> (int \<Rightarrow> bool) \<Rightarrow> bool" where
  "live_simulator pid_file exists1 alive \<longleftrightarrow>
     (case Option.bind pid_file (\<lambda>txt1. parse_i32 (trim txt1)) of
        None \<Rightarrow> False
      | Some pid \<Rightarrow> 0 < pid \<and> exists1 \<and> alive pid)"

text \<open>The names of \<open>/dev\<close>, and of \<open>/tmp\<close> with whether each is a link to a live simulator.\<close>

definition ports :: "string list option \<Rightarrow> (string \<times> bool \<times> bool) list option \<Rightarrow> port_info list" where
  "ports dev tmp =
     sort_key (\<lambda>p. \<not> po_usb p) (sort_key po_path
       (List.map_filter (\<lambda>n. if is_serial_name n then Some \<lparr>po_path = ''/dev/'' @ n, po_usb = looks_usb n\<rparr> else None)
         (or_val [] dev)))
     @ List.map_filter (\<lambda>(n, link, live). if starts_with ''rustytune-sim'' n \<and> link \<and> live
         then Some \<lparr>po_path = ''/tmp/'' @ n, po_usb = False\<rparr> else None) (or_val [] tmp)"

subsection \<open>What an import does\<close>

definition candidate :: "string \<Rightarrow> string \<Rightarrow> nat \<Rightarrow> string" where
  "candidate name stem k = (if k = 0 then name else numbered stem (int k + 1))"

lemma i32_small: "0 \<le> n \<Longrightarrow> n < 2 ^ 31 - 1 \<Longrightarrow> i32_add n 1 = n + 1"
  by (simp add: i32_add_def)

lemma free_name_from:
  assumes "k + j < 2 ^ 31 - 1" "\<And>i. i < j \<Longrightarrow> fs (candidate name stem (k + i)) \<noteq> None"
    "fs (candidate name stem (k + j)) = None"
  shows "free_name fs stem (candidate name stem k) (int k + 1) = Some (candidate name stem (k + j))"
  using assms
proof (induction j arbitrary: k)
  case 0
  then show ?case by (simp add: free_name.simps)
next
  case (Suc j)
  have "fs (candidate name stem k) \<noteq> None" using Suc.prems(2) [of 0] by simp
  moreover have "i32_add (int k + 1) 1 = int (Suc k) + 1" using Suc.prems(1) by (subst i32_small) auto
  moreover have "numbered stem (int (Suc k) + 1) = candidate name stem (Suc k)" by (simp add: candidate_def)
  moreover have "free_name fs stem (candidate name stem (Suc k)) (int (Suc k) + 1) = Some (candidate name stem (Suc k + j))"
  proof (rule Suc.IH)
    show "fs (candidate name stem (Suc k + i)) \<noteq> None" if "i < j" for i using Suc.prems(2) [of "Suc i"] that by simp
  qed (use Suc.prems in simp_all)
  ultimately show ?case
    by (simp only: free_name.simps [of fs stem "candidate name stem k" "int k + 1"] if_False add_Suc_right add_Suc)
qed

lemma numbered_inj: "numbered stem (int j) = numbered stem (int k) \<longleftrightarrow> j = k"
  using show_nat_digits by (auto simp: numbered_def show_int_def) metis

text \<open>Some candidate is free when the directory holds fewer files than there are candidates.\<close>

lemma candidate_free:
  assumes "finite (dom fs)" "card (dom fs) < n"
  shows "\<exists>j \<le> n. fs (candidate name stem j) = None"
proof (rule ccontr)
  assume "\<not> ?thesis"
  then have "candidate name stem ` {1 .. n} \<subseteq> dom fs" by auto
  moreover have "inj_on (candidate name stem) {1 .. n}"
  proof (rule inj_onI)
    fix x y assume "x \<in> {1 .. n}" "y \<in> {1 .. n}" "candidate name stem x = candidate name stem y"
    then have "numbered stem (int (x + 1)) = numbered stem (int (y + 1))" by (simp add: candidate_def add.commute)
    then show "x = y" unfolding numbered_inj by simp
  qed
  ultimately have "n \<le> card (dom fs)" using card_mono [OF assms(1)] by (metis card_atLeastAtMost card_image diff_Suc_1)
  with assms(2) show False by simp
qed

lemma free_name_found:
  assumes "finite (dom fs)" "card (dom fs) < n" "n < 2 ^ 31 - 1"
  shows "\<exists>j. free_name fs stem name 1 = Some (candidate name stem j) \<and> fs (candidate name stem j) = None
    \<and> (fs name = None \<longrightarrow> j = 0)"
proof -
  define P where "P j \<longleftrightarrow> fs (candidate name stem j) = None" for j
  obtain j0 where j0: "j0 \<le> n" "P j0" using candidate_free [OF assms(1,2)] by (auto simp: P_def)
  obtain j where j: "P j" "\<And>i. i < j \<Longrightarrow> \<not> P i" using exists_least_iff [of P] j0(2) by blast
  have "j \<le> j0" using j(2) [of j0] j0(2) by (meson not_le)
  then have "0 + j < 2 ^ 31 - 1" using j0(1) assms(3) by linarith
  then have "free_name fs stem (candidate name stem 0) (int 0 + 1) = Some (candidate name stem (0 + j))"
    by (rule free_name_from) (use j in \<open>simp_all add: P_def\<close>)
  then have "free_name fs stem name 1 = Some (candidate name stem j)" by (simp add: candidate_def)
  moreover have "j = 0" if "fs name = None" using that j(2) [of 0] by (cases j) (simp_all add: P_def candidate_def)
  ultimately show ?thesis using j(1) by (auto simp: P_def)
qed

subsection \<open>Names of imports stay good\<close>

text \<open>Two dots in a row.\<close>

fun two_dots :: "string \<Rightarrow> bool" where
  "two_dots (a # b # s) \<longleftrightarrow> a = CHR ''.'' \<and> b = CHR ''.'' \<or> two_dots (b # s)"
| "two_dots s \<longleftrightarrow> False"

lemma two_dots_append: "two_dots (xs @ ys) \<longleftrightarrow> two_dots xs \<or> two_dots ys
    \<or> xs \<noteq> [] \<and> ys \<noteq> [] \<and> last xs = CHR ''.'' \<and> hd ys = CHR ''.''"
proof (induction xs rule: two_dots.induct, goal_cases)
  case (3 a)
  then show ?case by (cases ys) auto
qed auto

lemma str_contains_Cons: "str_contains p (c # s) \<longleftrightarrow> starts_with p (c # s) \<or> str_contains p s"
proof -
  have "(\<exists>k < Suc (Suc n). Q k) \<longleftrightarrow> Q 0 \<or> (\<exists>k < Suc n. Q (Suc k))" for Q :: "nat \<Rightarrow> bool" and n
    using less_Suc_eq_0_disj by auto
  from this [of "length s" "\<lambda>k. starts_with p (drop k (c # s))"] show ?thesis
    by (simp add: str_contains_def Bex_def conj_commute atLeast0LessThan lessThan_iff del: upt_Suc)
qed

lemma contains_two_dots: "str_contains ''..'' s \<longleftrightarrow> two_dots s"
proof (induction s rule: two_dots.induct)
  case (1 a b s)
  then show ?case by (auto simp: str_contains_Cons [of _ a] starts_with_def)
qed (simp_all add: str_contains_def starts_with_def)

lemma strip_prefix_Some: "strip_prefix p s = Some r \<longleftrightarrow> s = p @ r"
  by (induction p s rule: strip_prefix.induct) auto

lemma ends_with_iff: "ends_with p s \<longleftrightarrow> (\<exists>r. s = r @ p)"
proof -
  have "strip_prefix (rev p) (rev s) = Some q \<longleftrightarrow> s = rev q @ p" for q
    unfolding strip_prefix_Some by (metis rev_append rev_rev_ident)
  then show ?thesis by (auto simp: ends_with_def strip_suffix_def) (metis option.exhaust rev_rev_ident)
qed

lemma strip_suffix_append: "strip_suffix p (r @ p) = Some r"
  by (simp add: strip_suffix_def strip_prefix_Some)

text \<open>The dot, the slashes and the digits of a number do not meet.\<close>

lemma show_nat_plain: "c \<in> set (show_nat n) \<Longrightarrow> is_digit c" "show_nat n \<noteq> []"
  using show_nat_digits [of n] by (auto simp: digits_def list_all_iff)

lemma plain_two_dots: "(\<And>c. c \<in> set s \<Longrightarrow> is_digit c) \<Longrightarrow> \<not> two_dots s"
proof (induction s rule: two_dots.induct)
  case (1 a b s)
  then have "is_digit a" by simp
  then have "a \<noteq> CHR ''.''" by (auto simp: is_digit_def)
  with 1 show ?case by simp
qed simp_all

lemma numbered_good:
  assumes "\<not> bad_log_name (stem @ ''.msl'')"
  shows "\<not> bad_log_name (numbered stem (int k))"
proof -
  have plain: "is_digit c" if "c \<in> set (show_nat k)" for c using show_nat_plain(1) that .
  have last: "last (show_nat k) \<noteq> CHR ''.''" using plain [OF last_in_set [OF show_nat_plain(2)]] by (auto simp: is_digit_def)
  have d: "\<not> two_dots stem" "CHR ''/'' \<notin> set stem" "CHR 0x5C \<notin> set stem"
    using assms by (auto simp: bad_log_name_def contains_two_dots two_dots_append)
  have "\<not> two_dots (show_nat k @ ''.msl'')"
    using plain_two_dots [OF plain] last by (simp add: two_dots_append)
  then have "\<not> two_dots (numbered stem (int k))"
    using d(1) show_nat_plain(2) [of k] by (cases "show_nat k") (auto simp: numbered_def show_int_def two_dots_append)
  moreover have "CHR ''/'' \<notin> set (show_nat k)" "CHR 0x5C \<notin> set (show_nat k)"
    using plain by (auto simp: is_digit_def dest: plain)
  ultimately show ?thesis
    using d by (auto simp: bad_log_name_def contains_two_dots numbered_def show_int_def ends_with_iff)
qed

lemma candidate_good:
  assumes "\<not> bad_log_name name" "strip_suffix ''.msl'' name = Some stem"
  shows "\<not> bad_log_name (candidate name stem j)"
proof -
  obtain r where "name = r @ ''.msl''" using assms(1) by (auto simp: bad_log_name_def ends_with_iff)
  then have name: "name = stem @ ''.msl''" using assms(2) by (auto simp: strip_suffix_append)
  show ?thesis
    using assms(1) numbered_good [of stem "j + 1"] name by (auto simp: candidate_def add.commute)
qed

text \<open>
  C28. An imported log never replaces one that is there: with fewer than \<open>2 ^ 31 - 2\<close> files in the
  directory and a disk that can be written, the import of a file that parses ends, stores it under a name no file had (its own
  if that was free), leaves every other file as it was, and the stored name is one the server
  accepts, under which a download gives back the text that was parsed.
\<close>

theorem import_keeps_logs:
  assumes "\<not> bad_log_name name" "read_msl (utf8_lossy body) = Inr data" "mkdir fs = None" "\<And>n. fault n = None"
    "finite (dom fs)" "card (dom fs) < n" "n < 2 ^ 31 - 1"
  shows "\<exists>stored. log_import mkdir fault name body fs =
      Some (Inr (stored, ms_rows data), fs(stored \<mapsto> str_bytes (utf8_lossy body)))
    \<and> fs stored = None \<and> (fs name = None \<longrightarrow> stored = name)
    \<and> log_download missing stored (fs(stored \<mapsto> str_bytes (utf8_lossy body))) = Inr (str_bytes (utf8_lossy body))"
proof -
  obtain stem where stem: "strip_suffix ''.msl'' name = Some stem"
    using assms(1) by (auto simp: bad_log_name_def ends_with_def)
  obtain j where j: "free_name fs stem name 1 = Some (candidate name stem j)" "fs (candidate name stem j) = None"
    "fs name = None \<longrightarrow> j = 0"
    using free_name_found [OF assms(5-7)] by blast
  show ?thesis
    using assms(1-4) j candidate_good [OF assms(1) stem, of j]
    by (intro exI [of _ "candidate name stem j"])
      (auto simp: log_import_def stem or_val_def log_download_def candidate_def Let_def)
qed

definition tiny_log :: string where
  "tiny_log = ''t'' @ [CHR 0x0A] @ ''a'' @ [CHR 0x09] @ ''b'' @ [CHR 0x0A] @ ''c'' @ [CHR 0x09] @ ''d''"

theorem import_keeps_logs_witness:
  "\<exists>stored. log_import (\<lambda>fs. None) (\<lambda>n. None) ''a.msl'' (str_bytes tiny_log) [''a.msl'' \<mapsto> [1]]
      = Some (Inr (stored, 0), [''a.msl'' \<mapsto> [1], stored \<mapsto> str_bytes tiny_log]) \<and> stored \<noteq> ''a.msl''"
proof -
  have lossy: "utf8_lossy (str_bytes tiny_log) = tiny_log" by code_simp
  have "\<exists>d. read_msl tiny_log = Inr d \<and> ms_rows d = 0" by (simp add: read_msl_def msl_lines_def tiny_log_def trim_end_in_def)
  then obtain d where d: "read_msl (utf8_lossy (str_bytes tiny_log)) = Inr d" "ms_rows d = 0" unfolding lossy by blast
  have good: "\<not> bad_log_name ''a.msl''" by (simp add: bad_log_name_def contains_two_dots ends_with_def strip_suffix_def)
  have "finite (dom [''a.msl'' \<mapsto> [1 :: u8]])" "card (dom [''a.msl'' \<mapsto> [1 :: u8]]) < 2" "(2 :: nat) < 2 ^ 31 - 1" by simp_all
  note import_keeps_logs [OF good d(1) refl refl this, of "[]", unfolded lossy d(2)]
  then obtain stored where s: "log_import (\<lambda>fs. None) (\<lambda>n. None) ''a.msl'' (str_bytes tiny_log) [''a.msl'' \<mapsto> [1]]
      = Some (Inr (stored, 0), [''a.msl'' \<mapsto> [1], stored \<mapsto> str_bytes tiny_log])" "[''a.msl'' \<mapsto> [1 :: u8]] stored = None"
    by blast
  have "stored \<noteq> ''a.msl''" using s(2) by auto
  with s(1) show ?thesis by blast
qed

end
