(* ===== verification/Runtime_Config.thy ===== *)
theory Runtime_Config
  imports Engine_Shutdown Index_Map
begin

text \<open>
  The runtime profiles of \<open>server/src/config.rs\<close>: the settings, the two profiles, and how a
  TOML file is laid over a profile.  The \<open>toml\<close> crate (text to value, and the derived
  conversions between values and settings) is the parameter \<open>toml_lib\<close>, the file system
  the parameter \<open>disk\<close>; the merge of the two values is the code's own.

  \<open>merge_keeps\<close> and \<open>merge_overrides\<close> say what the merge does along a path of keys: a
  setting the file gives is the file's, one it does not mention is the profile's.
\<close>

subsection \<open>Settings\<close>

datatype profile = Desktop | Appliance

text \<open>\<open>IpAddr\<close>: four octets, or eight 16-bit groups.\<close>

datatype ip_addr = V4 u8 u8 u8 u8 | V6 "u16 list"

definition is_loopback :: "ip_addr \<Rightarrow> bool" where
  "is_loopback a = (case a of V4 o1 o2 o3 o4 \<Rightarrow> o1 = 127 | V6 gs \<Rightarrow> gs = [0, 0, 0, 0, 0, 0, 0, 1])"

record server_config =
  sc_bind :: ip_addr
  sc_port :: nat
  sc_open_browser :: bool
  sc_admin_socket :: "string option"

record ecu_config =
  ec_device :: string
  ec_mode :: string
  ec_baud :: nat
  ec_poll_ms :: nat
  ec_auto_connect :: bool
  ec_ini :: "string option"

record logging_config =
  lc_directory :: string
  lc_auto :: bool
  lc_retention_bytes :: nat

record auth_config =
  ac_required :: bool
  ac_state_directory :: string
  ac_master_pin :: "string option"

record runtime_config =
  rc_server :: server_config
  rc_ecu :: ecu_config
  rc_logging :: logging_config
  rc_engine_shutdown :: shutdown_config
  rc_authentication :: auth_config
  rc_source_path :: "string option"

subsection \<open>Profiles\<close>

definition server_config_default :: server_config where
  "server_config_default =
     \<lparr>sc_bind = V4 127 0 0 1, sc_port = 8642, sc_open_browser = True, sc_admin_socket = None\<rparr>"

definition ecu_config_default :: ecu_config where
  "ecu_config_default =
     \<lparr>ec_device = [], ec_mode = ''primary'', ec_baud = 115200, ec_poll_ms = 50, ec_auto_connect = False,
      ec_ini = None\<rparr>"

definition logging_config_default :: logging_config where
  "logging_config_default = \<lparr>lc_directory = ''logs'', lc_auto = False, lc_retention_bytes = 0\<rparr>"

definition auth_config_default :: auth_config where
  "auth_config_default = \<lparr>ac_required = False, ac_state_directory = ''.'', ac_master_pin = None\<rparr>"

definition desktop :: runtime_config where
  "desktop =
     \<lparr>rc_server = server_config_default, rc_ecu = ecu_config_default, rc_logging = logging_config_default,
      rc_engine_shutdown = shutdown_config_default, rc_authentication = auth_config_default,
      rc_source_path = None\<rparr>"

definition appliance :: runtime_config where
  "appliance =
     \<lparr>rc_server = \<lparr>sc_bind = V4 0 0 0 0, sc_port = 80, sc_open_browser = False,
        sc_admin_socket = Some ''/run/rustytune/admin.sock''\<rparr>,
      rc_ecu = ecu_config_default\<lparr>ec_device := ''/dev/serial0'', ec_auto_connect := True\<rparr>,
      rc_logging = \<lparr>lc_directory = ''/var/log/speeduino'', lc_auto = True,
        lc_retention_bytes = 2 * 1024 * 1024 * 1024\<rparr>,
      rc_engine_shutdown = shutdown_config_default,
      rc_authentication = \<lparr>ac_required = True, ac_state_directory = ''/var/lib/rustytune'', ac_master_pin = None\<rparr>,
      rc_source_path = None\<rparr>"

definition profile_config :: "profile \<Rightarrow> runtime_config" where
  "profile_config p = (case p of Desktop \<Rightarrow> desktop | Appliance \<Rightarrow> appliance)"

definition runtime_validate :: "runtime_config \<Rightarrow> string + unit" where
  "runtime_validate c = config_validate (ac_master_pin (rc_authentication c)) (rc_engine_shutdown c)"

subsection \<open>Merging TOML values\<close>

text \<open>\<open>toml::Value\<close>; the scalars other than strings, booleans and integers are not told apart.\<close>

datatype toml =
    Tbl "(string, toml) imap"
  | Toml_str string
  | Toml_int int
  | Toml_bool bool
  | Toml_other string
  | Toml_array "toml list"

fun merge :: "toml \<Rightarrow> toml \<Rightarrow> toml" and merge_entries :: "(string, toml) imap \<Rightarrow> (string, toml) imap \<Rightarrow> (string, toml) imap" where
  "merge (Tbl a) (Tbl b) = Tbl (merge_entries a b)"
| "merge a b = b"
| "merge_entries a [] = a"
| "merge_entries a ((k, v) # r) =
     merge_entries (im_insert k (case im_get a k of Some old \<Rightarrow> merge old v | None \<Rightarrow> v) a) r"

text \<open>The value at a path of keys.\<close>

fun toml_at :: "string list \<Rightarrow> toml \<Rightarrow> toml option" where
  "toml_at [] v = Some v"
| "toml_at (k # p) (Tbl m) = Option.bind (im_get m k) (toml_at p)"
| "toml_at (k # p) v = None"

definition is_table :: "toml \<Rightarrow> bool" where "is_table v = (case v of Tbl m \<Rightarrow> True | _ \<Rightarrow> False)"

text \<open>Tables have no key twice.\<close>

fun toml_ok :: "toml \<Rightarrow> bool" where
  "toml_ok (Tbl m) \<longleftrightarrow> distinct (map fst m) \<and> (\<forall>kv \<in> set m. toml_ok (snd kv))"
| "toml_ok v \<longleftrightarrow> True"

text \<open>The file gives nothing on the path: it stops at a table without the next key.\<close>

fun untouched_at :: "string list \<Rightarrow> toml \<Rightarrow> bool" where
  "untouched_at [] v \<longleftrightarrow> False"
| "untouched_at (k # p) (Tbl m) \<longleftrightarrow> (case im_get m k of None \<Rightarrow> True | Some v \<Rightarrow> untouched_at p v)"
| "untouched_at (k # p) v \<longleftrightarrow> False"

lemma merge_entries_get:
  "distinct (map fst b) \<Longrightarrow> im_get (merge_entries a b) k =
     (case im_get b k of
        None \<Rightarrow> im_get a k
      | Some v \<Rightarrow> Some (case im_get a k of Some old \<Rightarrow> merge old v | None \<Rightarrow> v))"
proof (induction b arbitrary: a)
  case (Cons kv b)
  obtain k1 v1 where kv: "kv = (k1, v1)" by (cases kv)
  have fresh: "im_get b k1 = None" and dist: "distinct (map fst b)"
    using Cons.prems by (auto simp: kv im_get_def map_of_eq_None_iff)
  have split: "im_get ((k1, v1) # b) k = (if k = k1 then Some v1 else im_get b k)"
    by (simp add: im_get_def)
  show ?case
    by (simp only: kv merge_entries.simps Cons.IH [OF dist] im_get_insert split) (simp add: fresh)
qed (simp add: im_get_def)

lemma toml_ok_get: "toml_ok (Tbl m) \<Longrightarrow> im_get m k = Some v \<Longrightarrow> toml_ok v"
  by (auto simp: im_get_def dest: map_of_SomeD)

lemma merge_not_table: "\<not> is_table a \<or> \<not> is_table b \<Longrightarrow> merge a b = b"
  by (cases a; cases b) (auto simp: is_table_def)

text \<open>A setting of the file wins.\<close>

lemma merge_overrides:
  assumes "toml_ok b" "toml_at p b = Some v" "\<not> is_table v"
  shows "toml_at p (merge a b) = Some v"
  using assms
proof (induction p arbitrary: a b)
  case Nil
  then show ?case by (simp add: merge_not_table)
next
  case (Cons k p)
  then obtain bm bv where b: "b = Tbl bm" "im_get bm k = Some bv" "toml_at p bv = Some v"
    by (cases b) (auto simp: bind_eq_Some_conv)
  note IH = Cons.IH [OF toml_ok_get [OF Cons.prems(1) [unfolded b(1)] b(2)] b(3) Cons.prems(3)]
  show ?case
  proof (cases "is_table a")
    case True
    then obtain am where "a = Tbl am" by (cases a) (auto simp: is_table_def)
    with Cons.prems(1) IH b show ?thesis by (auto simp: merge_entries_get split: option.splits)
  qed (use b Cons.prems in \<open>simp add: merge_not_table\<close>)
qed

text \<open>A setting the file does not mention keeps the profile's value.\<close>

lemma merge_keeps:
  assumes "toml_ok b" "untouched_at p b" "toml_at p a = Some v"
  shows "toml_at p (merge a b) = Some v"
  using assms
proof (induction p arbitrary: a b)
  case (Cons k p)
  obtain bm where b: "b = Tbl bm" using Cons.prems(2) by (cases b) auto
  obtain am av where a: "a = Tbl am" "im_get am k = Some av" "toml_at p av = Some v"
    using Cons.prems(3) by (cases a) (auto simp: bind_eq_Some_conv)
  show ?case
  proof (cases "im_get bm k")
    case None
    with Cons.prems(1) a b show ?thesis by (simp add: merge_entries_get)
  next
    case (Some bv)
    then have "toml_at p (merge av bv) = Some v"
      using Cons toml_ok_get [OF Cons.prems(1) [unfolded b] Some] a(3) b by simp
    with Cons.prems(1) Some a b show ?thesis by (simp add: merge_entries_get)
  qed
qed simp

text \<open>Which settings the running server has: the overlay decides, the profile fills in.\<close>

theorem config_merge:
  assumes "toml_ok b"
  shows "(\<forall>p v. toml_at p b = Some v \<and> \<not> is_table v \<longrightarrow> toml_at p (merge a b) = Some v) \<and>
    (\<forall>p v. untouched_at p b \<and> toml_at p a = Some v \<longrightarrow> toml_at p (merge a b) = Some v)"
  using merge_overrides [OF assms] merge_keeps [OF assms] by blast

theorem config_merge_witness:
  "toml_at [''ecu'', ''baud''] (merge (Tbl [(''ecu'', Tbl [(''baud'', Toml_int 115200), (''mode'', Toml_str ''primary'')])])
      (Tbl [(''ecu'', Tbl [(''baud'', Toml_int 9600)])])) = Some (Toml_int 9600) \<and>
   toml_at [''ecu'', ''mode''] (merge (Tbl [(''ecu'', Tbl [(''baud'', Toml_int 115200), (''mode'', Toml_str ''primary'')])])
      (Tbl [(''ecu'', Tbl [(''baud'', Toml_int 9600)])])) = Some (Toml_str ''primary'')"
proof -
  let ?b = "Tbl [(''ecu'', Tbl [(''baud'', Toml_int 9600)])]"
  have "toml_ok ?b" by simp
  moreover have "toml_at [''ecu'', ''baud''] ?b = Some (Toml_int 9600)" "\<not> is_table (Toml_int 9600)"
    "untouched_at [''ecu'', ''mode''] ?b"
    by (simp_all add: im_get_def is_table_def)
  moreover have "toml_at [''ecu'', ''mode'']
      (Tbl [(''ecu'', Tbl [(''baud'', Toml_int 115200), (''mode'', Toml_str ''primary'')])]) = Some (Toml_str ''primary'')"
    by (simp add: im_get_def)
  ultimately show ?thesis
    using config_merge [of ?b "Tbl [(''ecu'', Tbl [(''baud'', Toml_int 115200), (''mode'', Toml_str ''primary'')])]"]
    by blast
qed

subsection \<open>Loading\<close>

record toml_lib =
  tl_of_config :: "runtime_config \<Rightarrow> string + toml"
  tl_parse :: "string \<Rightarrow> string + toml"
  tl_to_config :: "toml \<Rightarrow> string + runtime_config"
  tl_print :: "runtime_config \<Rightarrow> string + string"

record disk =
  dk_exists :: "string \<Rightarrow> bool"
  dk_read :: "string \<Rightarrow> string + string"

definition config_load :: "toml_lib \<Rightarrow> disk \<Rightarrow> string \<Rightarrow> runtime_config \<Rightarrow> string + runtime_config" where
  "config_load L D path base =
     (if \<not> dk_exists D path then Inr (base\<lparr>rc_source_path := Some path\<rparr>)
      else
        res_bind (map_sum (\<lambda>e. ''read '' @ path @ '': '' @ e) id (dk_read D path)) (\<lambda>txt.
        res_bind (tl_of_config L base) (\<lambda>root.
        res_bind (map_sum (\<lambda>e. ''parse '' @ path @ '': '' @ e) id (tl_parse L txt)) (\<lambda>overlay.
        res_bind (tl_to_config L (merge root overlay)) (\<lambda>c. Inr (c\<lparr>rc_source_path := Some path\<rparr>))))))"

end
