(* ===== verification/Server_State.thy ===== *)
theory Server_State
  imports Api_Views Msq_Save Comms_Loop Runtime_Config
begin

text \<open>
  The shared state of the server and the request handlers that change it: connecting,
  disconnecting, offline sessions, the writer lock, tune edits, the uploaded file and the
  commands to the comms thread, from \<open>server/src/api.rs\<close> and \<open>server/src/lib.rs\<close>.

  A handler runs in one piece here, except that \<open>offline_open\<close> is split where it lets go of
  the status lock.  The comms thread (\<open>Comms_Loop\<close>) is a handle with the commands sent to it;
  what it does to the shared state while it runs, and at its end, are steps of their own.
  Opening the serial port is a parameter.
\<close>

subsection \<open>State\<close>

datatype server_event =
    Sv_comms comms_event
  | Sv_definition definition_ui

record comms_handle =
  ch_ctx :: comms_ctx
  ch_mode :: mode
  ch_pages :: "page_commands option"
  ch_delay :: "nat option"
  ch_sent :: "cmd list"
  ch_alive :: bool

text \<open>
  The fields the handlers of this theory use; the state of pairing is \<open>auth_state\<close> of \<open>Auth\<close> and
  the index of the log viewer the cached index of \<open>Log_View\<close>.
\<close>

record app_state =
  ap_def :: ini_def
  ap_defaults :: "string \<rightharpoonup> f64"
  ap_definition :: definition_ui
  ap_status :: status
  ap_events :: "server_event list"
  ap_comms :: "comms_handle option"
  ap_tune :: tune
  ap_writer :: "string option"
  ap_msq :: "(string \<times> msq_file) option"
  ap_symbols :: "string list"
  ap_log_dir :: string
  ap_runtime :: runtime_config

record api_error =
  ae_code :: nat
  ae_text :: string

type_synonym 'a reply = "(api_error + 'a) \<times> app_state"

definition refuse :: "nat \<Rightarrow> string \<Rightarrow> app_state \<Rightarrow> 'a reply" where
  "refuse sc msg a = (Inl \<lparr>ae_code = sc, ae_text = msg\<rparr>, a)"

definition emit :: "server_event \<Rightarrow> app_state \<Rightarrow> app_state" where
  "emit ev a = a\<lparr>ap_events := ap_events a @ [ev]\<rparr>"

definition emit_status :: "app_state \<Rightarrow> app_state" where
  "emit_status a = emit (Sv_comms (Ev_status (ap_status a))) a"

definition emit_tune :: "app_state \<Rightarrow> app_state" where
  "emit_tune a = emit (Sv_comms (tune_message (ap_tune a))) a"

definition build_state :: "ini_def \<Rightarrow> string list \<Rightarrow> string \<Rightarrow> app_state run" where
  "build_state def symbols log_dir =
     (let defaults = defaults_from_ini def
      in run_map (\<lambda>ui.
          \<lparr>ap_def = def, ap_defaults = defaults, ap_definition = ui, ap_status = status_default, ap_events = [],
           ap_comms = None, ap_tune = tune_new def, ap_writer = None, ap_msq = None, ap_symbols = symbols,
           ap_log_dir = log_dir, ap_runtime = desktop\<rparr>)
        (definition_ui_of def (defaults_syms defaults)))"

definition build_state_with_runtime :: "ini_def \<Rightarrow> string list \<Rightarrow> runtime_config \<Rightarrow> app_state run" where
  "build_state_with_runtime def symbols rt =
     run_map (\<lambda>a. a\<lparr>ap_runtime := rt\<rparr>) (build_state def symbols (lc_directory (rc_logging rt)))"

definition refresh_definition :: "app_state \<Rightarrow> app_state run" where
  "refresh_definition a =
     run_map (\<lambda>ui. emit (Sv_definition ui) (a\<lparr>ap_definition := ui\<rparr>))
       (definition_ui_of (ap_def a) (overlay_syms (ap_tune a) (ap_defaults a)))"

subsection \<open>The comms thread seen from outside\<close>

text \<open>
  What the operating system says: opening the port (\<open>SerialTransport::open\<close>), the texts of its
  errors, and what removing old logs leaves as the last error.
\<close>

record serial_env =
  se_open :: "string \<Rightarrow> nat \<Rightarrow> string option"
  se_show :: "io_error \<Rightarrow> string"
  se_prune :: "string option \<Rightarrow> string option"

text \<open>
  What the thread does to the shared state when it gets \<open>Shutdown\<close>: it closes the log it has
  open, which prunes the log directory, and says that it is gone.
\<close>

definition log_closed :: "serial_env \<Rightarrow> status \<Rightarrow> status" where
  "log_closed V s = (if st_log s = None then s else s\<lparr>st_log := None, st_last_error := se_prune V (st_last_error s)\<rparr>)"

definition thread_shutdown :: "serial_env \<Rightarrow> app_state \<Rightarrow> app_state" where
  "thread_shutdown V a =
     emit_tune (emit_status
       (a\<lparr>ap_tune := set_loaded False (ap_tune a), ap_status := disconnected (log_closed V (ap_status a))\<rparr>))"

text \<open>
  Send \<open>Shutdown\<close> and join; a thread that is gone already does nothing more.  The handle is taken
  under its lock, which the code lets go of before it sends; here both are one step.
\<close>

definition stop_comms :: "serial_env \<Rightarrow> comms_handle \<Rightarrow> app_state \<Rightarrow> app_state" where
  "stop_comms V h a = (let a1 = a\<lparr>ap_comms := None\<rparr> in if ch_alive h then thread_shutdown V a1 else a1)"

definition shutdown_comms :: "serial_env \<Rightarrow> app_state \<Rightarrow> app_state" where
  "shutdown_comms V a = (case ap_comms a of None \<Rightarrow> a | Some h \<Rightarrow> stop_comms V h a)"

text \<open>Sending a command; the channel of a thread that is gone is closed.\<close>

definition send_cmd :: "cmd \<Rightarrow> app_state \<Rightarrow> unit reply" where
  "send_cmd c a =
     (case ap_comms a of
        None \<Rightarrow> refuse 409 ''not connected'' a
      | Some h \<Rightarrow>
          if \<not> ch_alive h then refuse 409 ''comms thread gone'' a
          else (Inr (), a\<lparr>ap_comms := Some (h\<lparr>ch_sent := ch_sent h @ [c]\<rparr>)\<rparr>))"

text \<open>\<open>comms_roundtrip\<close>: the reply, or nothing within the time the handler waits.\<close>

definition comms_roundtrip :: "cmd \<Rightarrow> 'r option \<Rightarrow> app_state \<Rightarrow> 'r reply" where
  "comms_roundtrip c answer a =
     (case send_cmd c a of
        (Inl e, a1) \<Rightarrow> (Inl e, a1)
      | (Inr u, a1) \<Rightarrow>
          (case answer of Some r \<Rightarrow> (Inr r, a1) | None \<Rightarrow> refuse 500 ''comms thread not responding'' a1))"

subsection \<open>Connecting\<close>

record connect_req =
  cr_port :: string
  cr_baud :: nat
  cr_mode :: string
  cr_poll_ms :: nat

definition em_dash :: string where "em_dash = [CHR 0xE2, CHR 0x80, CHR 0x94]"

definition mode_of :: "string \<Rightarrow> mode option" where
  "mode_of m = (if m = ''primary'' then Some Primary else if m = ''secondary'' then Some Secondary_mode else None)"

definition poll_interval_ns :: "nat \<Rightarrow> nat" where
  "poll_interval_ns ms = min 1000 (max 20 ms) * 10 ^ 6"

definition VERSION :: string where "VERSION = ''0.1.0''"

definition connect_ctx :: "app_state \<Rightarrow> connect_req \<Rightarrow> comms_ctx" where
  "connect_ctx a req =
     (let rt = ap_runtime a
      in \<lparr>cx_def = ap_def a, cx_defaults = ap_defaults a, cx_poll_interval = poll_interval_ns (cr_poll_ms req),
          cx_auto_log = lc_auto (rc_logging rt), cx_log_dir = ap_log_dir a,
          cx_retention = lc_retention_bytes (rc_logging rt), cx_engine_shutdown = rc_engine_shutdown rt,
          cx_shutdown_path = (if es_enabled (rc_engine_shutdown rt) then Some ''/run/rustytune/poweroff-request'' else None),
          cx_version = VERSION\<rparr>)"

definition connect_pages :: "mode \<Rightarrow> ini_def \<Rightarrow> proto_error + page_commands option" where
  "connect_pages m def =
     (case m of Primary \<Rightarrow> res_bind (comms_page_commands def) (\<lambda>p. Inr (Some p)) | Secondary_mode \<Rightarrow> Inr None)"

definition fresh_tune :: "app_state \<Rightarrow> tune" where
  "fresh_tune a = adopt_pc_values (ap_tune a) (tune_new (ap_def a))"

text \<open>From the opened port on: the status says connected before the page commands are built.\<close>

definition connect_opened :: "serial_env \<Rightarrow> connect_req \<Rightarrow> mode \<Rightarrow> app_state \<Rightarrow> status reply" where
  "connect_opened V req m a =
     (case session_new () (config_new m (i_och_get_command (ap_def a)) (of_nat (i_och_block_size (ap_def a)))) [] of
        Inl e \<Rightarrow> refuse 500 (show_proto_error (se_show V) e) a
      | Inr s \<Rightarrow>
          (let a1 = a\<lparr>ap_status := status_default\<lparr>st_connected := True, st_port := Some (cr_port req),
                        st_mode := Some (cr_mode req), st_baud := Some (cr_baud req)\<rparr>,
                      ap_tune := fresh_tune a, ap_writer := None\<rparr>
           in case connect_pages m (ap_def a) of
                Inl e \<Rightarrow> refuse 500 (show_proto_error (se_show V) e) a1
              | Inr pages \<Rightarrow>
                  (let a2 = a1\<lparr>ap_comms := Some \<lparr>ch_ctx = connect_ctx a1 req, ch_mode = m, ch_pages = pages,
                         ch_delay = h_delay_after_port_open (i_header (ap_def a)), ch_sent = [], ch_alive = True\<rparr>\<rparr>
                   in (Inr (ap_status a2), emit_status a2))))"

definition do_connect :: "serial_env \<Rightarrow> connect_req \<Rightarrow> app_state \<Rightarrow> status reply" where
  "do_connect V req a =
     (case mode_of (cr_mode req) of
        None \<Rightarrow> refuse 400 (''unknown mode `'' @ cr_mode req @ ''` (want primary|secondary)'') a
      | Some m \<Rightarrow>
          if st_offline (ap_status a) \<and> any_dirty (ap_tune a)
          then refuse 409 (''offline tune has unsaved changes '' @ em_dash
                 @ '' save it as .msq or close the offline session first'') a
          else if ap_comms a \<noteq> None \<and> st_connected (ap_status a) then refuse 409 ''already connected'' a
          else
            (let a1 = shutdown_comms V a
             in case se_open V (cr_port req) (cr_baud req) of
                  Some e \<Rightarrow> refuse 400 (''open '' @ cr_port req @ '': '' @ e) a1
                | None \<Rightarrow> connect_opened V req m a1))"

definition disconnect :: "serial_env \<Rightarrow> app_state \<Rightarrow> status reply" where
  "disconnect V a =
     (case ap_comms a of
        None \<Rightarrow> refuse 409 ''not connected'' a
      | Some h \<Rightarrow> (let a1 = stop_comms V h a in (Inr (ap_status a1), a1)))"

text \<open>
  One round of the appliance's supervisor: the seconds it sleeps, the delay for the next
  failure, the state.
\<close>

definition auto_request :: "app_state \<Rightarrow> connect_req" where
  "auto_request a =
     (let c = rc_ecu (ap_runtime a)
      in \<lparr>cr_port = ec_device c, cr_baud = ec_baud c, cr_mode = ec_mode c, cr_poll_ms = ec_poll_ms c\<rparr>)"

definition auto_connect_round :: "serial_env \<Rightarrow> nat \<Rightarrow> app_state \<Rightarrow> nat \<times> nat \<times> app_state" where
  "auto_connect_round V delay a =
     (if st_connected (ap_status a) then (1, delay, a)
      else case do_connect V (auto_request a) a of
          (Inr s, a1) \<Rightarrow> (1, 1, a1)
        | (Inl e, a1) \<Rightarrow> (delay, min 30 (delay * 2), a1))"

subsection \<open>The writer lock\<close>

definition client_id :: "string option \<Rightarrow> string" where
  "client_id header = or_val ''anonymous'' header"

definition acquire_writer :: "string option \<Rightarrow> app_state \<Rightarrow> unit reply" where
  "acquire_writer header a =
     (case ap_writer a of
        None \<Rightarrow> (Inr (), a\<lparr>ap_writer := Some (client_id header)\<rparr>)
      | Some current \<Rightarrow>
          if current = client_id header then (Inr (), a)
          else refuse 423 ''another client holds the tuning lock'' a)"

definition lock_release :: "string option \<Rightarrow> app_state \<Rightarrow> string option \<times> app_state" where
  "lock_release header a =
     (let a1 = (if ap_writer a = Some (client_id header) then a\<lparr>ap_writer := None\<rparr> else a)
      in (ap_writer a1, a1))"

text \<open>What an edit request does once it holds the lock.\<close>

definition as_writer :: "string option \<Rightarrow> (app_state \<Rightarrow> 'a reply run) \<Rightarrow> app_state \<Rightarrow> 'a reply run" where
  "as_writer header f a =
     (case acquire_writer header a of (Inl e, a1) \<Rightarrow> Ret (Inl e, a1) | (Inr u, a1) \<Rightarrow> f a1)"

subsection \<open>Tune edits\<close>

text \<open>Edits in order; an error leaves the ones before it applied.\<close>

fun edit_each :: "('e \<Rightarrow> tune \<Rightarrow> (string + tune) run) \<Rightarrow> 'e list \<Rightarrow> tune \<Rightarrow> (string option \<times> tune) run" where
  "edit_each f [] t = Ret (None, t)"
| "edit_each f (x # xs) t =
     run_bind (f x t) (\<lambda>r. case r of Inl e \<Rightarrow> Ret (Some e, t) | Inr t1 \<Rightarrow> edit_each f xs t1)"

definition text_error :: "(tune_error + 'a) run \<Rightarrow> (string + 'a) run" where
  "text_error m = run_map (map_sum show_tune_error id) m"

definition edit_tune :: "('e \<Rightarrow> tune \<Rightarrow> (string + tune) run) \<Rightarrow> 'e list \<Rightarrow> app_state \<Rightarrow> unit reply run" where
  "edit_tune f xs a =
     (if \<not> tn_loaded (ap_tune a) then Ret (refuse 409 ''tune not loaded'' a)
      else run_map (\<lambda>(e, t). let a1 = a\<lparr>ap_tune := t\<rparr> in
             case e of Some msg \<Rightarrow> refuse 400 msg a1 | None \<Rightarrow> (Inr (), emit_tune a1))
           (edit_each f xs (ap_tune a)))"

definition tune_table_axis ::
    "nat \<Rightarrow> string \<Rightarrow> string option \<Rightarrow> string \<times> nat \<times> f64 \<Rightarrow> app_state \<Rightarrow> unit reply run" where
  "tune_table_axis d ident header edit =
     as_writer header (edit_tune (\<lambda>(axis, i, v) t. text_error (set_table_axis d ident axis i v t)) [edit])"

definition tune_table_cells ::
    "nat \<Rightarrow> string \<Rightarrow> string option \<Rightarrow> (nat \<times> nat \<times> f64) list \<Rightarrow> app_state \<Rightarrow> unit reply run" where
  "tune_table_cells d ident header cells =
     as_writer header (edit_tune (\<lambda>(row, col, v) t. text_error (set_table_cell d ident row col v t)) cells)"

definition set_curve_point :: "nat \<Rightarrow> curve_def \<Rightarrow> string \<Rightarrow> string \<times> nat \<times> f64 \<Rightarrow> tune \<Rightarrow> (string + tune) run" where
  "set_curve_point d cu y_bin p t =
     (case p of (axis, i, v) \<Rightarrow>
        if axis = ''x'' then text_error (set_array_element d (fst (cu_x_bins cu)) i v t)
        else if axis = ''y'' then text_error (set_array_element d y_bin i v t)
        else rr_fail (''axis must be x or y, got `'' @ axis @ ''`''))"

definition tune_curve_points ::
    "nat \<Rightarrow> string \<Rightarrow> string option \<Rightarrow> (string \<times> nat \<times> f64) list \<Rightarrow> app_state \<Rightarrow> unit reply run" where
  "tune_curve_points d ident header points =
     as_writer header (\<lambda>a.
       case im_get (i_curves (ap_def a)) ident of
         None \<Rightarrow> Ret (refuse 404 (''unknown curve `'' @ ident @ ''`'') a)
       | Some cu \<Rightarrow>
           (case list_get (cu_y_bins cu) 0 of
              None \<Rightarrow> Ret (refuse 409 (''curve `'' @ ident @ ''` has no yBins'') a)
            | Some y_bin \<Rightarrow> edit_tune (set_curve_point d cu y_bin) points a))"

definition tune_set_constant ::
    "nat \<Rightarrow> string \<Rightarrow> string option \<Rightarrow> f64 \<Rightarrow> app_state \<Rightarrow> constant_json reply run" where
  "tune_set_constant d name header v =
     as_writer header (\<lambda>a.
       let is_pc = (im_get (i_constants (ap_def a)) name = None \<and> im_get (i_pc_variables (ap_def a)) name \<noteq> None)
       in if \<not> tn_loaded (ap_tune a) then Ret (refuse 409 ''tune not loaded'' a)
          else
            run_bind (if is_pc then set_pc_value d name v (ap_tune a) else set_constant d name v (ap_tune a)) (\<lambda>r.
              case r of
                Inl e \<Rightarrow> Ret (refuse 400 (show_tune_error e) a)
              | Inr t \<Rightarrow>
                  run_bind (if is_pc then refresh_definition (a\<lparr>ap_tune := t\<rparr>) else Ret (a\<lparr>ap_tune := t\<rparr>)) (\<lambda>a1.
                    run_map (\<lambda>cj.
                        let a2 = (if is_pc then a1 else emit_tune a1)
                        in case cj of Some c \<Rightarrow> (Inr c, a2) | None \<Rightarrow> refuse 500 ''constant vanished'' a2)
                      (constant_json_of t d name))))"

subsection \<open>Offline sessions\<close>

definition offline_check :: "app_state \<Rightarrow> api_error option" where
  "offline_check a =
     (if st_connected (ap_status a)
      then Some \<lparr>ae_code = 409, ae_text = ''connected to an ECU '' @ em_dash @ '' disconnect first''\<rparr>
      else None)"

definition offline_install :: "nat \<Rightarrow> app_state \<Rightarrow> (status \<times> apply_report) reply run" where
  "offline_install d a =
     (case ap_msq a of
        None \<Rightarrow> Ret (refuse 409 ''no .msq uploaded'' a)
      | Some (name, file) \<Rightarrow>
          run_bind (msq_apply d file None (fresh_tune a)) (\<lambda>(report, t).
            run_map (\<lambda>a1.
                let a2 = a1\<lparr>ap_writer := None, ap_status := status_default\<lparr>st_offline := True, st_tune_loaded := True\<rparr>\<rparr>
                in (Inr (ap_status a2, report), emit_tune (emit_status a2)))
              (refresh_definition (a\<lparr>ap_tune := set_loaded True (sync_shadows t)\<rparr>))))"

definition offline_open :: "nat \<Rightarrow> app_state \<Rightarrow> (status \<times> apply_report) reply run" where
  "offline_open d a = (case offline_check a of Some e \<Rightarrow> Ret (Inl e, a) | None \<Rightarrow> offline_install d a)"

text \<open>The check for an offline session and its end are one step here; the code locks twice.\<close>

definition offline_close :: "app_state \<Rightarrow> status reply" where
  "offline_close a =
     (if \<not> st_offline (ap_status a) then refuse 409 ''not in offline mode'' a
      else (let a1 = a\<lparr>ap_tune := fresh_tune a, ap_writer := None, ap_status := status_default\<rparr>
            in (Inr (ap_status a1), emit_tune (emit_status a1))))"

subsection \<open>The uploaded file\<close>

definition msq_upload ::
    "(string \<Rightarrow> (string + xml_event) list) \<Rightarrow> string \<Rightarrow> string \<Rightarrow> app_state \<Rightarrow> msq_meta reply" where
  "msq_upload xml filename content a =
     (case msq_parse xml content of
        Inl (Xml_error e) \<Rightarrow> refuse 400 (''xml: '' @ e) a
      | Inr file \<Rightarrow>
          if mf_constants file = [] then refuse 400 (''no constants found '' @ em_dash @ '' not a .msq tune?'') a
          else (Inr (msq_meta_of (ap_def a) filename file), a\<lparr>ap_msq := Some (filename, file)\<rparr>))"

definition api_msq_diff :: "nat \<Rightarrow> app_state \<Rightarrow> diff_json reply run" where
  "api_msq_diff d a =
     (if \<not> tn_loaded (ap_tune a) then Ret (refuse 409 ''tune not loaded'' a)
      else case ap_msq a of
          None \<Rightarrow> Ret (refuse 409 ''no .msq uploaded'' a)
        | Some (name, file) \<Rightarrow> run_map (\<lambda>j. (Inr j, a)) (diff_json_of (ap_tune a) d name file))"

definition api_msq_apply :: "nat \<Rightarrow> string option \<Rightarrow> string set option \<Rightarrow> app_state \<Rightarrow> apply_report reply run" where
  "api_msq_apply d header names =
     as_writer header (\<lambda>a.
       case ap_msq a of
         None \<Rightarrow> Ret (refuse 409 ''no .msq uploaded'' a)
       | Some (name, file) \<Rightarrow>
           if \<not> tn_loaded (ap_tune a) then Ret (refuse 409 ''tune not loaded'' a)
           else run_bind (msq_apply d file names (ap_tune a)) (\<lambda>(report, t).
             run_map (\<lambda>a1. (Inr report, emit_tune a1)) (refresh_definition (a\<lparr>ap_tune := t\<rparr>))))"

definition api_msq_save :: "nat \<Rightarrow> string \<Rightarrow> app_state \<Rightarrow> string reply run" where
  "api_msq_save d date a =
     (if \<not> tn_loaded (ap_tune a) then Ret (refuse 409 ''tune not loaded'' a)
      else run_map (\<lambda>txt. (Inr txt, a)) (msq_save d (ap_tune a) (ap_symbols a) (''rustytune '' @ VERSION) date))"

subsection \<open>Commands to the ECU\<close>

text \<open>A reply of the thread is an error text or a value; \<open>None\<close> is no reply in time.\<close>

definition thread_reply :: "nat \<Rightarrow> (string + 'a) reply \<Rightarrow> 'a reply" where
  "thread_reply sc r =
     (case r of (Inl e, a) \<Rightarrow> (Inl e, a) | (Inr (Inl msg), a) \<Rightarrow> refuse sc msg a | (Inr (Inr x), a) \<Rightarrow> (Inr x, a))"

definition tune_burn :: "string option \<Rightarrow> (string + nat list) option \<Rightarrow> app_state \<Rightarrow> nat list reply" where
  "tune_burn header answer a =
     (case acquire_writer header a of
        (Inl e, a1) \<Rightarrow> (Inl e, a1)
      | (Inr u, a1) \<Rightarrow> thread_reply 500 (comms_roundtrip Burn answer a1))"

definition log_start :: "string \<Rightarrow> (string + string) option \<Rightarrow> app_state \<Rightarrow> string reply" where
  "log_start stamp answer a =
     thread_reply 500 (comms_roundtrip
       (Start_log (path_join (ap_log_dir a) (''rustytune_'' @ stamp @ ''.msl''))) answer a)"

definition log_stop :: "log_summary option option \<Rightarrow> app_state \<Rightarrow> log_summary reply" where
  "log_stop answer a =
     (case comms_roundtrip Stop_log answer a of
        (Inl e, a1) \<Rightarrow> (Inl e, a1)
      | (Inr None, a1) \<Rightarrow> refuse 409 ''not logging'' a1
      | (Inr (Some s), a1) \<Rightarrow> (Inr s, a1))"

record calibration_json =
  kj_crc :: u32
  kj_matching :: "string list"
  kj_presets :: "preset list"

definition calibration_json_of :: "(bytes \<Rightarrow> u32) \<Rightarrow> ini_def \<Rightarrow> u32 \<Rightarrow> calibration_json run" where
  "calibration_json_of crc def c =
     run_map (\<lambda>ps. \<lparr>kj_crc = c,
         kj_matching = map (\<lambda>(p, tab). ps_name p) (filter (\<lambda>(p, tab). crc tab = c) ps), kj_presets = map fst ps\<rparr>)
       (presets def)"

definition afr_calibration ::
    "(bytes \<Rightarrow> u32) \<Rightarrow> (string + u32) option \<Rightarrow> app_state \<Rightarrow> calibration_json reply run" where
  "afr_calibration crc answer a =
     (case metadata (ap_def a) of
        Inl e \<Rightarrow> Ret (refuse 400 e a)
      | Inr cal \<Rightarrow>
          (case thread_reply 409 (comms_roundtrip (Calibration None) answer a) of
             (Inl e, a1) \<Rightarrow> Ret (Inl e, a1)
           | (Inr c, a1) \<Rightarrow> run_map (\<lambda>j. (Inr j, a1)) (calibration_json_of crc (ap_def a) c)))"

definition afr_calibration_write ::
    "(bytes \<Rightarrow> u32) \<Rightarrow> string option \<Rightarrow> linear \<Rightarrow> (string + u32) option \<Rightarrow> app_state \<Rightarrow> calibration_json reply run" where
  "afr_calibration_write crc header l answer a =
     run_bind (linear_table (ap_def a) l) (\<lambda>r. case r of
         Inl e \<Rightarrow> Ret (refuse 400 e a)
       | Inr table \<Rightarrow>
           as_writer header (\<lambda>a1.
             case thread_reply 409 (comms_roundtrip (Calibration (Some table)) answer a1) of
               (Inl e, a2) \<Rightarrow> Ret (Inl e, a2)
             | (Inr c, a2) \<Rightarrow> run_map (\<lambda>j. (Inr j, a2)) (calibration_json_of crc (ap_def a2) c)) a)"

end
