(* ===== verification/Server_Router.thy ===== *)
theory Server_Router
  imports Server_State
begin

text \<open>
  The handlers that read the tune, and the routes of the server over its shared state:
  every request as one step with its HTTP code, from \<open>server/src/api.rs\<close> and the table of
  routes in \<open>server/src/lib.rs\<close>.
\<close>

subsection \<open>Views of the loaded tune\<close>

text \<open>A read of the tune is refused while no tune is loaded.\<close>

definition if_loaded :: "'a reply run \<Rightarrow> app_state \<Rightarrow> 'a reply run" where
  "if_loaded m a = (if tn_loaded (ap_tune a) then m else Ret (refuse 409 ''tune not loaded'' a))"

definition answer_or :: "nat \<Rightarrow> string \<Rightarrow> app_state \<Rightarrow> 'a option \<Rightarrow> 'a reply" where
  "answer_or sc msg a r = (case r of Some x \<Rightarrow> (Inr x, a) | None \<Rightarrow> refuse sc msg a)"

record table_info =
  ti_id :: string
  ti_title :: string

record tune_summary =
  tu_loaded :: bool
  tu_dirty :: bool
  tu_burn_pending :: bool
  tu_writer :: "string option"
  tu_tables :: "table_info list"

definition tune_summary_of :: "nat \<Rightarrow> app_state \<Rightarrow> tune_summary run" where
  "tune_summary_of d a =
     (let t = ap_tune a
      in run_map (\<lambda>tabs. \<lparr>tu_loaded = tn_loaded t, tu_dirty = any_dirty t, tu_burn_pending = burn_pending t,
             tu_writer = ap_writer a, tu_tables = List.map_filter id tabs\<rparr>)
           (run_mapM (\<lambda>(ident, tbl). run_map (\<lambda>v. map_option (\<lambda>x. \<lparr>ti_id = ident, ti_title = td_title tbl\<rparr>) v)
              (table_view t d ident)) (i_tables (ap_def a))))"

record table_json =
  tj_id :: string
  tj_title :: string
  tj_data :: table_data
  tj_x_label :: "string option"
  tj_y_label :: "string option"
  tj_x_channel :: "string option"
  tj_y_channel :: "string option"

definition tune_table :: "nat \<Rightarrow> string \<Rightarrow> app_state \<Rightarrow> table_json reply run" where
  "tune_table d ident a =
     if_loaded
       (case im_get (i_tables (ap_def a)) ident of
          None \<Rightarrow> Ret (refuse 404 (''unknown table `'' @ ident @ ''`'') a)
        | Some tbl \<Rightarrow>
            run_map (\<lambda>v. answer_or 409 (''table `'' @ ident @ ''` does not decode'') a
                (map_option (\<lambda>data. \<lparr>tj_id = ident, tj_title = td_title tbl, tj_data = data,
                    tj_x_label = list_get (td_xy_labels tbl) 0, tj_y_label = list_get (td_xy_labels tbl) 1,
                    tj_x_channel = snd (td_x_bins tbl), tj_y_channel = snd (td_y_bins tbl)\<rparr>) v))
              (table_view (ap_tune a) d ident)) a"

definition tune_curve :: "nat \<Rightarrow> string \<Rightarrow> app_state \<Rightarrow> curve_json reply run" where
  "tune_curve d ident a =
     if_loaded
       (if im_get (i_curves (ap_def a)) ident = None
        then Ret (refuse 404 (''unknown curve `'' @ ident @ ''`'') a)
        else run_map (answer_or 409 (''curve `'' @ ident @ ''` does not decode'') a)
               (curve_json_of (ap_tune a) d ident)) a"

definition tune_constants :: "nat \<Rightarrow> string \<Rightarrow> app_state \<Rightarrow> constant_json list reply run" where
  "tune_constants d names a = if_loaded (run_map (\<lambda>js. (Inr js, a)) (constants_json (ap_tune a) d names)) a"

definition tune_menus :: "nat \<Rightarrow> app_state \<Rightarrow> menu_json list reply run" where
  "tune_menus d a = if_loaded (run_map (\<lambda>js. (Inr js, a)) (menus_json (ap_def a) (tune_syms (ap_tune a) d))) a"

definition tune_dialog :: "nat \<Rightarrow> string \<Rightarrow> app_state \<Rightarrow> dialog_json reply run" where
  "tune_dialog d name a =
     if_loaded (run_map (answer_or 404 (''no dialog `'' @ name @ ''`'') a) (dialog_json_of (ap_tune a) d name)) a"

subsection \<open>Requests\<close>

datatype request =
    Rq_status
  | Rq_definition
  | Rq_connect connect_req
  | Rq_disconnect
  | Rq_log_start
  | Rq_log_stop
  | Rq_summary
  | Rq_table string
  | Rq_table_cells string "string option" "(nat \<times> nat \<times> f64) list"
  | Rq_table_axis string "string option" "string \<times> nat \<times> f64"
  | Rq_curve string
  | Rq_curve_points string "string option" "(string \<times> nat \<times> f64) list"
  | Rq_menus
  | Rq_dialog string
  | Rq_constants string
  | Rq_constant string "string option" f64
  | Rq_burn "string option"
  | Rq_calibration
  | Rq_calibration_write "string option" linear
  | Rq_offline_open
  | Rq_offline_close
  | Rq_msq_upload string string
  | Rq_msq_diff
  | Rq_msq_apply "string option" "string set option"
  | Rq_msq_save
  | Rq_lock_release "string option"

text \<open>
  What a request meets outside the shared state: the system, the clock, the XML reader, the
  hash, and what the comms thread answers to a command in time.
\<close>

record request_env =
  re_serial :: serial_env
  re_stamp :: string
  re_date :: string
  re_xml :: "string \<Rightarrow> (string + xml_event) list"
  re_crc :: "bytes \<Rightarrow> u32"
  re_burned :: "(string + nat list) option"
  re_started :: "(string + string) option"
  re_stopped :: "log_summary option option"
  re_calibrated :: "(string + u32) option"

text \<open>The code of an answer and the state after it.\<close>

definition coded :: "'a reply \<Rightarrow> nat \<times> app_state" where
  "coded r = (case fst r of Inl e \<Rightarrow> ae_code e | Inr x \<Rightarrow> 200, snd r)"

definition coded_run :: "'a reply run \<Rightarrow> (nat \<times> app_state) run" where
  "coded_run = run_map coded"

fun serve :: "request_env \<Rightarrow> nat \<Rightarrow> request \<Rightarrow> app_state \<Rightarrow> (nat \<times> app_state) run" where
  "serve E d Rq_status a = Ret (200, a)"
| "serve E d Rq_definition a = Ret (200, a)"
| "serve E d (Rq_connect req) a = Ret (coded (do_connect (re_serial E) req a))"
| "serve E d Rq_disconnect a = Ret (coded (disconnect (re_serial E) a))"
| "serve E d Rq_log_start a = Ret (coded (log_start (re_stamp E) (re_started E) a))"
| "serve E d Rq_log_stop a = Ret (coded (log_stop (re_stopped E) a))"
| "serve E d Rq_summary a = run_map (\<lambda>s. (200, a)) (tune_summary_of d a)"
| "serve E d (Rq_table ident) a = coded_run (tune_table d ident a)"
| "serve E d (Rq_table_cells ident header cells) a = coded_run (tune_table_cells d ident header cells a)"
| "serve E d (Rq_table_axis ident header edit) a = coded_run (tune_table_axis d ident header edit a)"
| "serve E d (Rq_curve ident) a = coded_run (tune_curve d ident a)"
| "serve E d (Rq_curve_points ident header points) a = coded_run (tune_curve_points d ident header points a)"
| "serve E d Rq_menus a = coded_run (tune_menus d a)"
| "serve E d (Rq_dialog name) a = coded_run (tune_dialog d name a)"
| "serve E d (Rq_constants names) a = coded_run (tune_constants d names a)"
| "serve E d (Rq_constant name header v) a = coded_run (tune_set_constant d name header v a)"
| "serve E d (Rq_burn header) a = Ret (coded (tune_burn header (re_burned E) a))"
| "serve E d Rq_calibration a = coded_run (afr_calibration (re_crc E) (re_calibrated E) a)"
| "serve E d (Rq_calibration_write header l) a =
     coded_run (afr_calibration_write (re_crc E) header l (re_calibrated E) a)"
| "serve E d Rq_offline_open a = coded_run (offline_open d a)"
| "serve E d Rq_offline_close a = Ret (coded (offline_close a))"
| "serve E d (Rq_msq_upload name content) a = Ret (coded (msq_upload (re_xml E) name content a))"
| "serve E d Rq_msq_diff a = coded_run (api_msq_diff d a)"
| "serve E d (Rq_msq_apply header names) a = coded_run (api_msq_apply d header names a)"
| "serve E d Rq_msq_save a = coded_run (api_msq_save d (re_date E) a)"
| "serve E d (Rq_lock_release header) a = Ret (200, snd (lock_release header a))"

end
