(* ===== verification/Server_Laws.thy ===== *)
theory Server_Laws
  imports Server_Router Msq_Frame Loop_Laws
begin

text \<open>
  What a request can do to the shared state: an edit by the writer (\<open>edited\<close>), a command to the
  comms thread (\<open>commanded\<close>), the beginning or end of a session, or nothing; and in whose hands
  the writer lock is afterwards.
\<close>

subsection \<open>Edits\<close>

text \<open>
  What an edit leaves: the status, the definition and the thread stay, and the tune changes in
  local bytes and PC variables only.
\<close>

definition edited :: "app_state \<Rightarrow> app_state \<Rightarrow> bool" where
  "edited a a1 \<longleftrightarrow> ap_def a1 = ap_def a \<and> ap_status a1 = ap_status a
     \<and> map_option ch_alive (ap_comms a1) = map_option ch_alive (ap_comms a)
     \<and> map_option ch_ctx (ap_comms a1) = map_option ch_ctx (ap_comms a)
     \<and> only_bytes UNIV (ap_tune a) (ap_tune a1)"

lemma edited_refl [simp]: "edited a a"
  by (simp add: edited_def)

lemma edited_trans: "edited a b \<Longrightarrow> edited b c \<Longrightarrow> edited a c"
  by (auto simp: edited_def intro: only_bytes_trans)

lemma edited_updates [simp]:
  "edited a (b\<lparr>ap_writer := w\<rparr>) = edited a b" "edited (a\<lparr>ap_writer := w\<rparr>) b = edited a b"
  "edited a (b\<lparr>ap_msq := m\<rparr>) = edited a b" "edited a (b\<lparr>ap_definition := ui\<rparr>) = edited a b"
  "edited a (emit ev b) = edited a b" "edited a (emit_tune b) = edited a b"
  by (simp_all add: edited_def emit_def emit_tune_def)

lemma emit_simps [simp]:
  "ap_writer (emit ev a) = ap_writer a" "ap_writer (emit_tune a) = ap_writer a" "ap_writer (emit_status a) = ap_writer a"
  "ap_tune (emit ev a) = ap_tune a" "ap_tune (emit_tune a) = ap_tune a" "ap_tune (emit_status a) = ap_tune a"
  "ap_status (emit ev a) = ap_status a" "ap_status (emit_tune a) = ap_status a" "ap_status (emit_status a) = ap_status a"
  "ap_comms (emit ev a) = ap_comms a" "ap_comms (emit_tune a) = ap_comms a" "ap_comms (emit_status a) = ap_comms a"
  "ap_def (emit ev a) = ap_def a" "ap_def (emit_tune a) = ap_def a" "ap_def (emit_status a) = ap_def a"
  "ap_runtime (emit ev a) = ap_runtime a" "ap_runtime (emit_tune a) = ap_runtime a"
  "ap_runtime (emit_status a) = ap_runtime a"
  by (simp_all add: emit_def emit_tune_def emit_status_def)

lemma same_data_only: "same_but_data t t1 \<Longrightarrow> only_bytes UNIV t t1"
  by (simp add: same_but_data_def only_bytes_def)

lemmas edits_only =
  set_constant_frame [THEN same_data_only] set_element_frame [THEN same_data_only]
  set_table_frame [THEN same_data_only]

lemma set_pc_only: "set_pc_value d name v t = Ret (Inr t1) \<Longrightarrow> only_bytes UNIV t t1"
  by (auto simp: set_pc_value_def only_bytes_def run_simps split: option.splits)

lemma as_writerE:
  assumes "as_writer header f a = Ret (r, a1)"
  obtains (locked) "a1 = a" "ap_writer a \<noteq> None" "ap_writer a \<noteq> Some (client_id header)"
    "r = Inl \<lparr>ae_code = 423, ae_text = ''another client holds the tuning lock''\<rparr>"
  | (writer) "ap_writer a \<in> {None, Some (client_id header)}"
    "f (a\<lparr>ap_writer := Some (client_id header)\<rparr>) = Ret (r, a1)"
proof (cases "ap_writer a")
  case None
  with assms writer show ?thesis by (simp add: as_writer_def acquire_writer_def)
next
  case (Some w)
  show ?thesis
  proof (cases "w = client_id header")
    case True
    then have "a\<lparr>ap_writer := Some (client_id header)\<rparr> = a" using Some by simp
    with assms Some True writer show ?thesis by (simp add: as_writer_def acquire_writer_def)
  qed (use assms Some locked in \<open>simp add: as_writer_def acquire_writer_def refuse_def\<close>)
qed

lemma text_error_Ret: "text_error m = Ret (Inr t) \<longleftrightarrow> m = Ret (Inr t)"
  by (auto simp: text_error_def run_map_Ret) (metis Inl_Inr_False id_apply map_sum.simps(1) map_sum.simps(2) sum.exhaust sum.inject(2))

lemma refresh_edited:
  assumes "refresh_definition a = Ret a1"
  shows "edited b a1 = edited b a" "ap_writer a1 = ap_writer a" "ap_tune a1 = ap_tune a" "ap_status a1 = ap_status a"
    "ap_comms a1 = ap_comms a" "ap_def a1 = ap_def a"
  using assms by (auto simp: refresh_definition_def run_simps edited_def)

text \<open>The lock: nothing happened, or it was free or the requester's and is the requester's now.\<close>

definition granted :: "string option \<Rightarrow> app_state \<Rightarrow> app_state \<Rightarrow> bool" where
  "granted header a a1 \<longleftrightarrow> a1 = a
     \<or> ap_writer a \<in> {None, Some (client_id header)} \<and> ap_writer a1 = Some (client_id header)"

definition edited_by :: "string option \<Rightarrow> app_state \<Rightarrow> app_state \<Rightarrow> bool" where
  "edited_by header a a1 \<longleftrightarrow> edited a a1 \<and> granted header a a1"

lemma as_writer_edited:
  assumes "as_writer header f a = Ret (r, a1)"
    "\<And>b. b = a\<lparr>ap_writer := Some (client_id header)\<rparr> \<Longrightarrow> f b = Ret (r, a1) \<Longrightarrow> edited b a1 \<and> ap_writer a1 = ap_writer b"
  shows "edited_by header a a1"
  using assms(1)
proof (cases rule: as_writerE)
  case writer
  with assms(2) [OF refl writer(2)] show ?thesis by (auto simp: edited_by_def granted_def)
qed (simp add: edited_by_def granted_def)

text \<open>
  The contract of an edit of the tune: what it changes are local bytes.  Handlers that run a list
  of such edits under the writer lock then edit in the sense above, wherever the list stops.
\<close>

locale local_edit =
  fixes f :: "'x \<Rightarrow> tune \<Rightarrow> (string + tune) run"
  assumes local: "f x t = Ret (Inr t1) \<Longrightarrow> only_bytes UNIV t t1"
begin

lemma each_only: "edit_each f xs t = Ret (e, t1) \<Longrightarrow> only_bytes UNIV t t1"
proof (induction xs arbitrary: t)
  case (Cons x xs)
  then obtain r where r: "f x t = Ret r" by (auto simp: run_simps)
  show ?case
  proof (cases r)
    case (Inr t2)
    with r have "only_bytes UNIV t t2" using local by blast
    moreover have "only_bytes UNIV t2 t1" using Cons r Inr by simp
    ultimately show ?thesis by (rule only_bytes_trans)
  qed (use Cons r in simp)
qed simp

lemma list_edited:
  assumes "edit_tune f xs a = Ret (r, a1)"
  shows "edited a a1 \<and> ap_writer a1 = ap_writer a"
proof (cases "tn_loaded (ap_tune a)")
  case True
  then obtain e t where t: "edit_each f xs (ap_tune a) = Ret (e, t)"
    using assms by (auto simp: edit_tune_def run_simps)
  have "edited a (a\<lparr>ap_tune := t\<rparr>)" using each_only [OF t] by (simp add: edited_def)
  with assms True t show ?thesis by (cases e) (auto simp: edit_tune_def Let_def refuse_def)
qed (use assms in \<open>simp add: edit_tune_def refuse_def\<close>)

lemma writer_edited: "as_writer header (edit_tune f xs) a = Ret (r, a1) \<Longrightarrow> edited_by header a a1"
  by (erule as_writer_edited) (rule list_edited)

end

interpretation axis_edit: local_edit "\<lambda>(axis, i, v) t. text_error (set_table_axis d ident axis i v t)" for d ident
  by unfold_locales (auto simp: text_error_Ret split: prod.splits dest: edits_only(3))

interpretation cells_edit: local_edit "\<lambda>(row, col, v) t. text_error (set_table_cell d ident row col v t)" for d ident
  by unfold_locales (auto simp: text_error_Ret split: prod.splits dest: edits_only(4))

interpretation point_edit: local_edit "set_curve_point d cu y_bin" for d cu y_bin
  by unfold_locales
    (auto simp: set_curve_point_def text_error_Ret set_array_element_def split: prod.splits if_splits dest: edits_only(2))

lemma set_constant_edited:
  assumes "tune_set_constant d name header v a = Ret (r, a1)"
  shows "edited_by header a a1"
  using assms unfolding tune_set_constant_def
proof (rule as_writer_edited, goal_cases)
  case (1 b)
  note f = 1(2)
  let ?pc = "im_get (i_constants (ap_def b)) name = None \<and> im_get (i_pc_variables (ap_def b)) name \<noteq> None"
  show ?case
  proof (cases "tn_loaded (ap_tune b)")
    case True
    obtain s where s: "(if ?pc then set_pc_value d name v (ap_tune b) else set_constant d name v (ap_tune b)) = Ret s"
      using f True by (auto simp: Let_def run_simps split: if_splits)
    show ?thesis
    proof (cases s)
      case (Inr t)
      have "only_bytes UNIV (ap_tune b) t"
        using s Inr set_pc_only edits_only(1) by (auto simp: set_constant_def split: if_splits)
      then have e: "edited b (b\<lparr>ap_tune := t\<rparr>)" by (simp add: edited_def)
      obtain a2 where a2: "(if ?pc then refresh_definition (b\<lparr>ap_tune := t\<rparr>) else Ret (b\<lparr>ap_tune := t\<rparr>)) = Ret a2"
        using f True s Inr by (auto simp: Let_def run_simps split: if_splits)
      have a2e: "edited b a2 \<and> ap_writer a2 = ap_writer b"
        using a2 e refresh_edited [of "b\<lparr>ap_tune := t\<rparr>" a2] by (cases ?pc) (simp_all, auto)
      obtain cj where cj: "constant_json_of t d name = Ret cj"
        using f True s Inr a2 by (auto simp: Let_def run_simps split: if_splits)
      show ?thesis
        using f True s Inr a2 cj a2e by (cases cj; cases ?pc) (auto simp: Let_def refuse_def)
    qed (use f True s in \<open>auto simp: Let_def refuse_def split: if_splits\<close>)
  qed (use f in \<open>auto simp: Let_def refuse_def\<close>)
qed

lemma table_axis_edited: "tune_table_axis d ident header edit a = Ret (r, a1) \<Longrightarrow> edited_by header a a1"
  unfolding tune_table_axis_def by (rule axis_edit.writer_edited)

lemma table_cells_edited: "tune_table_cells d ident header cells a = Ret (r, a1) \<Longrightarrow> edited_by header a a1"
  unfolding tune_table_cells_def by (rule cells_edit.writer_edited)

lemma curve_points_edited: "tune_curve_points d ident header points a = Ret (r, a1) \<Longrightarrow> edited_by header a a1"
  unfolding tune_curve_points_def
  by (erule as_writer_edited)
    (auto simp: refuse_def split: option.splits dest: point_edit.list_edited)

lemma msq_apply_only: "msq_apply d file names t = Ret (report, t1) \<Longrightarrow> only_bytes UNIV t t1"
  by (fastforce simp: msq_apply_def run_simps intro: only_bytes_trans [OF only_bytes_mono [OF _ subset_UNIV]]
      dest: apply_constants apply_pcs)

lemma msq_apply_edited:
  assumes "api_msq_apply d header names a = Ret (r, a1)"
  shows "edited_by header a a1"
  using assms unfolding api_msq_apply_def
proof (rule as_writer_edited, goal_cases)
  case (1 b)
  note f = 1(2)
  show ?case
  proof (cases "\<exists>name msq. ap_msq b = Some (name, msq) \<and> tn_loaded (ap_tune b)")
    case True
    then obtain name msq where m: "ap_msq b = Some (name, msq)" "tn_loaded (ap_tune b)" by blast
    then obtain report t a2 where t: "msq_apply d msq names (ap_tune b) = Ret (report, t)"
      "refresh_definition (b\<lparr>ap_tune := t\<rparr>) = Ret a2" "a1 = emit_tune a2"
      using f by (auto simp: run_simps)
    have "edited b (b\<lparr>ap_tune := t\<rparr>)" using msq_apply_only [OF t(1)] by (simp add: edited_def)
    with refresh_edited [OF t(2)] t(3) show ?thesis by simp
  qed (use f in \<open>auto simp: refuse_def split: option.splits prod.splits\<close>)
qed

text \<open>Commands to the thread leave everything but the list of what was sent.\<close>

definition commanded :: "app_state \<Rightarrow> app_state \<Rightarrow> bool" where
  "commanded a a1 \<longleftrightarrow> edited a a1 \<and> ap_writer a1 = ap_writer a \<and> ap_tune a1 = ap_tune a"

lemma commanded_refl [simp]: "commanded a a"
  by (simp add: commanded_def)

lemma send_cmd_state: "commanded a (snd (send_cmd c a))"
  by (auto simp: send_cmd_def refuse_def commanded_def edited_def split: option.splits)

lemma roundtrip_state: "commanded a (snd (comms_roundtrip c answer a))"
proof -
  obtain r a1 where s: "send_cmd c a = (r, a1)" by fastforce
  with send_cmd_state [of a c] show ?thesis
    by (cases r; cases answer) (simp_all add: comms_roundtrip_def refuse_def)
qed

lemma thread_reply_state [simp]: "snd (thread_reply sc r) = snd r"
  by (auto simp: thread_reply_def refuse_def split: prod.splits sum.splits)

lemma log_commands_state: "commanded a (snd (log_start stamp started a))" "commanded a (snd (log_stop ended a))"
proof -
  show "commanded a (snd (log_start stamp started a))" by (simp add: log_start_def roundtrip_state)
  obtain r a1 where r: "comms_roundtrip Stop_log ended a = (r, a1)" by fastforce
  with roundtrip_state [of a Stop_log ended] show "commanded a (snd (log_stop ended a))"
    by (cases r) (auto simp: log_stop_def refuse_def split: option.splits)
qed

lemma burn_edited: "edited_by header a (snd (tune_burn header answer a))"
proof (cases "ap_writer a = None \<or> ap_writer a = Some (client_id header)")
  case True
  then have w: "acquire_writer header a = (Inr (), a\<lparr>ap_writer := Some (client_id header)\<rparr>)"
    by (auto simp: acquire_writer_def)
  show ?thesis
    using True roundtrip_state [of "a\<lparr>ap_writer := Some (client_id header)\<rparr>" Burn answer]
    by (auto simp: tune_burn_def w edited_by_def granted_def commanded_def)
next
  case False
  then have "snd (tune_burn header answer a) = a"
    by (auto simp: tune_burn_def acquire_writer_def refuse_def split: option.splits)
  then show ?thesis by (simp add: edited_by_def granted_def)
qed

lemma calibration_state:
  assumes "afr_calibration crc answer a = Ret (r, a1)"
  shows "commanded a a1"
proof (cases "metadata (ap_def a)")
  case (Inr cal)
  obtain x a2 where x: "thread_reply 409 (comms_roundtrip (Calibration None) answer a) = (x, a2)" by fastforce
  then have a2: "a2 = snd (comms_roundtrip (Calibration None) answer a)" using thread_reply_state by (metis snd_conv)
  have "a1 = a2" using assms Inr x by (cases x) (auto simp: afr_calibration_def run_simps)
  with a2 roundtrip_state show ?thesis by simp
qed (use assms in \<open>simp add: afr_calibration_def refuse_def\<close>)

lemma calibration_write_edited:
  assumes "afr_calibration_write crc header l answer a = Ret (r, a1)"
  shows "edited_by header a a1"
proof -
  obtain tbl where t: "linear_table (ap_def a) l = Ret tbl" using assms by (auto simp: afr_calibration_write_def run_simps)
  show ?thesis
  proof (cases tbl)
    case (Inr bytes)
    with assms t have "as_writer header (\<lambda>a1.
        case thread_reply 409 (comms_roundtrip (Calibration (Some bytes)) answer a1) of
          (Inl e, a2) \<Rightarrow> Ret (Inl e, a2)
        | (Inr c, a2) \<Rightarrow> run_map (\<lambda>j. (Inr j, a2)) (calibration_json_of crc (ap_def a2) c)) a = Ret (r, a1)"
      by (simp add: afr_calibration_write_def)
    then show ?thesis
    proof (rule as_writer_edited, goal_cases)
      case (1 b)
      obtain x a2 where x: "thread_reply 409 (comms_roundtrip (Calibration (Some bytes)) answer b) = (x, a2)" by fastforce
      then have a2: "a2 = snd (comms_roundtrip (Calibration (Some bytes)) answer b)"
        using thread_reply_state by (metis snd_conv)
      have "a1 = a2" using 1(2) x by (cases x) (auto simp: run_simps)
      with a2 roundtrip_state [of b "Calibration (Some bytes)" answer] show ?case by (simp add: commanded_def)
    qed
  qed (use assms t in \<open>auto simp: afr_calibration_write_def refuse_def edited_by_def granted_def\<close>)
qed

subsection \<open>Every request\<close>

text \<open>The requests that begin or end a session, and the client of an edit.\<close>

fun session_request :: "request \<Rightarrow> bool" where
  "session_request (Rq_connect req) = True"
| "session_request Rq_disconnect = True"
| "session_request Rq_offline_open = True"
| "session_request Rq_offline_close = True"
| "session_request _ = False"

fun editor :: "request \<Rightarrow> string option option" where
  "editor (Rq_table_cells ident header cells) = Some header"
| "editor (Rq_table_axis ident header edit) = Some header"
| "editor (Rq_curve_points ident header points) = Some header"
| "editor (Rq_constant name header v) = Some header"
| "editor (Rq_burn header) = Some header"
| "editor (Rq_calibration_write header l) = Some header"
| "editor (Rq_msq_apply header names) = Some header"
| "editor _ = None"

lemma coded_Ret: "coded r = (sc, a1) \<longleftrightarrow> a1 = snd r \<and> sc = fst (coded r)"
  by (auto simp: coded_def)

lemma coded_run_Ret: "coded_run m = Ret (sc, a1) \<longleftrightarrow> (\<exists>r. m = Ret (r, a1) \<and> sc = fst (coded (r, a1)))"
  by (auto simp: coded_run_def run_map_Ret coded_def split: sum.splits)

lemma reads_state:
  "tune_table d ident a = Ret (r1, a1) \<Longrightarrow> a1 = a" "tune_curve d ident a = Ret (r2, a1) \<Longrightarrow> a1 = a"
  "tune_constants d names a = Ret (r3, a1) \<Longrightarrow> a1 = a" "tune_menus d a = Ret (r4, a1) \<Longrightarrow> a1 = a"
  "tune_dialog d name a = Ret (r5, a1) \<Longrightarrow> a1 = a" "api_msq_diff d a = Ret (r6, a1) \<Longrightarrow> a1 = a"
  "api_msq_save d date a = Ret (r7, a1) \<Longrightarrow> a1 = a"
  by (auto simp: tune_table_def tune_curve_def tune_constants_def tune_menus_def tune_dialog_def api_msq_diff_def
      api_msq_save_def if_loaded_def answer_or_def refuse_def run_simps split: if_splits option.splits prod.splits)

lemma msq_upload_state: "commanded a (snd (msq_upload xml name content a))"
  by (auto simp: msq_upload_def refuse_def commanded_def split: sum.splits msq_error.splits)

lemma lock_release_state: "edited a (snd (lock_release header a)) \<and> ap_tune (snd (lock_release header a)) = ap_tune a"
  by (simp add: lock_release_def Let_def)

lemma commandedD: "commanded a a1 \<Longrightarrow> edited a a1 \<and> ap_tune a1 = ap_tune a"
  by (simp add: commanded_def)

lemma edited_byD: "edited_by header a a1 \<Longrightarrow> edited a a1 \<and> granted header a a1"
  by (simp add: edited_by_def)

lemma serve_edited:
  assumes "serve E d r a = Ret (sc, a1)" "\<not> session_request r"
  shows "edited a a1 \<and> (\<forall>header. editor r = Some header \<longrightarrow> granted header a a1)
    \<and> (editor r = None \<longrightarrow> ap_tune a1 = ap_tune a)"
proof -
  note state = log_commands_state [THEN commandedD] msq_upload_state [THEN commandedD] lock_release_state
    burn_edited [THEN edited_byD]
  note runs = table_cells_edited [THEN edited_byD] table_axis_edited [THEN edited_byD]
    curve_points_edited [THEN edited_byD] set_constant_edited [THEN edited_byD] msq_apply_edited [THEN edited_byD]
    calibration_write_edited [THEN edited_byD] calibration_state [THEN commandedD]
  from assms show ?thesis
    by (cases r) (auto simp: coded_Ret coded_run_Ret run_map_Ret state dest: reads_state runs)
qed

end
