(* ===== verification/Deep_Lookups.thy ===== *)
theory Deep_Lookups
  imports Telemetry
begin

text \<open>
  Live frames of a definition whose output channels may refer to each other in a cycle: a lookup
  returns or overflows the stack, and does nothing else.  \<open>fine a m\<close> says that of a step \<open>m\<close>; with
  \<open>a\<close>, which stands for a definition without such a cycle, it says that the step returns.
\<close>

definition fine :: "bool \<Rightarrow> 'a run \<Rightarrow> bool" where
  "fine a m \<longleftrightarrow> returns m \<or> \<not> a \<and> m = Crash StackOverflow"

named_theorems fine_intros \<open>steps that return or overflow the stack\<close>

lemma fine_Ret [fine_intros, simp]: "fine a (Ret x)"
  by (simp add: fine_def)

lemma fine_returns: "returns m \<Longrightarrow> fine a m"
  by (simp add: fine_def)

lemma fine_True [simp]: "fine True m = returns m"
  by (simp add: fine_def)

lemma fineE:
  assumes "fine a m"
  obtains (returned) x where "m = Ret x" | (overflow) "\<not> a" "m = Crash StackOverflow"
  using assms by (auto simp: fine_def returns_iff)

lemma fine_rr_bind [fine_intros]:
  assumes "fine a m" "\<And>x. m = Ret (Inr x) \<Longrightarrow> fine a (f x)"
  shows "fine a (rr_bind m f)"
  using assms(1)
proof (cases rule: fineE)
  case (returned r)
  with assms(2) show ?thesis by (cases r) auto
qed (simp add: fine_def)

lemma fine_ro_bind [fine_intros]:
  assumes "fine a m" "\<And>x. m = Ret (Some x) \<Longrightarrow> fine a (f x)"
  shows "fine a (ro_bind m f)"
  using assms(1)
proof (cases rule: fineE)
  case (returned r)
  with assms(2) show ?thesis by (cases r) auto
qed (simp add: fine_def)

lemma fine_run_bind [fine_intros]:
  assumes "fine a m" "\<And>x. m = Ret x \<Longrightarrow> fine a (f x)"
  shows "fine a (run_bind m f)"
  using assms(1)
proof (cases rule: fineE)
  case (returned r)
  with assms(2) show ?thesis by auto
qed (simp add: fine_def)

lemma fine_run_map [fine_intros, simp]: "fine a (run_map f m) = fine a m"
  by (cases m) (simp_all add: fine_def)

lemma fine_run_ok [fine_intros]: "fine a m \<Longrightarrow> fine a (run_ok m)"
  by (simp add: run_ok_def)

lemma fine_run_mapM [fine_intros]: "(\<And>x. x \<in> set xs \<Longrightarrow> fine a (f x)) \<Longrightarrow> fine a (run_mapM f xs)"
  by (induction xs) (auto intro!: fine_intros)

lemma fine_found [simp]: "fine a (found m msg) = fine a m"
  by (cases "(m, msg)" rule: found.cases) (auto simp: fine_def)

subsection \<open>Evaluation\<close>

definition fine_lookup :: "bool \<Rightarrow> symbols \<Rightarrow> sym_use \<Rightarrow> bool" where
  "fine_lookup a s u \<longleftrightarrow>
     (case u of
        Use_value n \<Rightarrow> fine a (sy_value s n)
      | Use_bits l \<Rightarrow> (\<forall>i. fine a (sy_bit_string s l i))
      | Use_array b \<Rightarrow> (\<forall>i. fine a (sy_array_value s b i)))"

lemma fine_lookup_True [simp]: "fine_lookup True = safe"
  by (simp add: fun_eq_iff fine_lookup_def safe_def split: sym_use.split)

lemma strict_op_fine: "op \<noteq> And_op \<Longrightarrow> op \<noteq> Or_op \<Longrightarrow> fine a (strict_op op x y)"
  by (intro fine_returns strict_op_returns)

lemma eval_fine: "(\<And>u. u \<in> uses e \<Longrightarrow> fine_lookup a syms u) \<Longrightarrow> fine a (eval syms e)"
proof (induction e rule: uses.induct)
  case (7 name args)
  show ?case
  proof (cases args rule: call_cases)
    case (builtin l a1 r)
    show ?thesis
    proof (cases "name = ''bitStringValue'' \<or> name = ''arrayValue''")
      case True
      have "fine_lookup a syms u" if "u \<in> uses a1" for u
        using that True "7.prems" [of u] builtin by simp
      then have "fine a (eval syms a1)" using "7.IH" [OF True builtin] by auto
      moreover have "fine_lookup a syms (if name = ''bitStringValue'' then Use_bits l else Use_array l)"
        using True "7.prems" builtin by simp
      ultimately show ?thesis
        using True
        by (auto simp only: eval_call_builtin [OF builtin] fine_lookup_def if_True if_False
            sym_use.case fine_found fine_Ret split: if_splits intro!: fine_rr_bind)
    next
      case False
      then show ?thesis by (simp only: eval_call_builtin [OF builtin]) simp
    qed
  next
    case no_name
    then show ?thesis using 7 by (auto simp: fine_lookup_def)
  next
    case (no_index l)
    then show ?thesis by (simp add: first_name_def)
  qed
next
  case (8 name i)
  have "fine a (eval syms i)" using "8.IH" "8.prems" by simp
  moreover have "fine_lookup a syms (Use_array name)" using "8.prems" by simp
  ultimately show ?case by (auto simp: fine_lookup_def intro!: fine_rr_bind)
qed (auto simp: fine_lookup_def strict_op_fine intro!: fine_rr_bind split: un_op.splits)

lemma field_eval_fine: "(\<And>u. u \<in> field_uses f \<Longrightarrow> fine_lookup a s u) \<Longrightarrow> fine a (num_or_expr_eval s f)"
  by (cases f) (auto intro!: fine_intros eval_fine)

subsection \<open>Frames\<close>

lemma tel_channel_fine:
  assumes "\<And>ch u. im_get (i_output_channels def) name = Some ch \<Longrightarrow> u \<in> channel_uses ch \<Longrightarrow> fine_lookup a S u"
  shows "fine a (tel_channel def block S name)"
  using assms
  by (cases "im_get (i_output_channels def) name")
    (auto simp: tel_channel_def channel_uses_def split: output_channel.splits
      intro!: fine_intros field_eval_fine eval_fine)

lemma tel_overflow_only:
  assumes "\<And>x name. extra = Some x \<Longrightarrow> returns (sy_value x name)"
  shows "fine_lookup False (tel_syms def block extra d) u"
proof (induction d arbitrary: u)
  case 0
  show ?case by (cases u) (simp_all add: fine_lookup_def fine_def)
next
  case (Suc d)
  have "fine False (tel_channel def block (tel_syms def block extra d) name)" for name
    by (rule tel_channel_fine) (rule Suc.IH)
  with assms show ?case
    by (cases u) (auto simp: fine_lookup_def tel_value_def intro: fine_returns split: option.splits)
qed

text \<open>With \<open>a\<close>, the channels have ranks below the depth of the stack.\<close>

definition shallow :: "ini_def \<Rightarrow> nat \<Rightarrow> bool" where
  "shallow def d \<longleftrightarrow> (\<exists>rank. channels_acyclic def rank \<and> (\<forall>name. rank name < d))"

lemma tel_fine:
  assumes "\<And>x name. extra = Some x \<Longrightarrow> returns (sy_value x name)" "a \<Longrightarrow> shallow def d"
  shows "fine_lookup a (tel_syms def block extra d) u"
    and "fine a (tel_channel def block (tel_syms def block extra d) name)"
proof -
  show lookup: "fine_lookup a (tel_syms def block extra d) u" for u
  proof (cases a)
    case True
    then obtain rank where "channels_acyclic def rank" "\<And>name. rank name < d"
      using assms(2) by (auto simp: shallow_def)
    with tel_safe [OF _ assms(1)] show ?thesis by (simp add: True)
  qed (use tel_overflow_only [OF assms(1)] in simp)
  show "fine a (tel_channel def block (tel_syms def block extra d) name)"
    by (rule tel_channel_fine) (rule lookup)
qed

end
