(* ===== verification/Thread_Safe.thy ===== *)
theory Thread_Safe
  imports Thread_Laws Definition_Ui Deep_Lookups
begin

text \<open>
  The comms thread never panics: whatever the ECU and the port answer, whatever the request
  handlers edit at any of its locks and whatever commands they send, every pass returns and
  leaves each page of the tune at its declared size.  Only output channels that refer to each
  other deeper than the stack reaches can stop it, by a stack overflow; the parameter \<open>a\<close> of
  the lemmas stands for a definition without them.  \<open>steady_link\<close> is what the thread relies on
  of its session: operations return, and downloads give whole pages; the sessions of
  \<open>ecu-proto\<close> satisfy it over any transport whose calls return.
\<close>

subsection \<open>The interface to the session\<close>

locale steady_link =
  fixes L :: "'s link" and def :: ini_def
  assumes query_returns: "returns (lk_query L c s)"
    and realtime_returns: "returns (lk_realtime L s)"
    and calib_crc_returns: "returns (lk_calib_crc L c n s)"
    and calib_write_returns: "returns (lk_calib_write L c n bf bs s)"
    and pages_port: "lk_pages L = Some P \<Longrightarrow> page_port P (h_page_sizes (i_header def))"

text \<open>The thread works on the definition; with \<open>a\<close>, its channels are no deeper than the stack.\<close>

definition ctx_ok :: "bool \<Rightarrow> comms_ctx \<Rightarrow> ini_def \<Rightarrow> nat \<Rightarrow> bool" where
  "ctx_ok a ctx def d \<longleftrightarrow> cx_def ctx = def \<and> (a \<longrightarrow> shallow def d)"

definition loop_ok :: "ini_def \<Rightarrow> 's loop_state \<Rightarrow> bool" where
  "loop_ok def w \<longleftrightarrow> world_ok def (lw_comms w)"

lemma loop_ok_simps [simp]:
  "loop_ok def (w\<lparr>lw_log := l\<rparr>) = loop_ok def w" "loop_ok def (w\<lparr>lw_auto := b\<rparr>) = loop_ok def w"
  "loop_ok def (w\<lparr>lw_monitor := m\<rparr>) = loop_ok def w" "loop_ok def (w\<lparr>lw_silent := n\<rparr>) = loop_ok def w"
  "loop_ok def (w\<lparr>lw_next_poll := t\<rparr>) = loop_ok def w" "loop_ok def (w\<lparr>lw_comms := c\<rparr>) = world_ok def c"
  "loop_ok def (on_comms f w) = world_ok def (f (lw_comms w))"
  by (simp_all add: loop_ok_def on_comms_def)

lemma world_ok_status [simp]:
  "world_ok def (upd_status f w) = world_ok def w" "world_ok def (send_event ev w) = world_ok def w"
  "world_ok def (prune_status ctx ps w) = world_ok def w" "world_ok def (request_shutdown ctx ps w) = world_ok def w"
  by (simp_all add: world_ok_def upd_status_def send_event_def prune_status_def request_shutdown_def
      set_error_def broadcast_status_def split: option.splits)

lemma loaded_ok: "world_ok def w \<Longrightarrow> world_ok def (upd_tune (set_loaded b) w)"
  by (rule upd_tune_ok) (auto intro: tune_step.loaded)

lemma finish_log_ok [simp]: "loop_ok def (snd (finish_log ctx ps w)) = loop_ok def w"
  by (simp add: finish_log_def loop_ok_def on_comms_def split: option.splits)

lemma log_opened_ok [simp]: "loop_ok def (log_opened path writer w) = loop_ok def w"
  by (simp add: log_opened_def loop_ok_def on_comms_def)

lemma log_frame_ok [simp]: "loop_ok def (log_frame ctx show_io ps numeric w) = loop_ok def w"
  by (auto simp: log_frame_def loop_ok_def on_comms_def finish_log_def split: option.splits prod.splits sum.splits)

subsection \<open>Frames\<close>

lemma frame_channels_fine:
  "(\<And>name. fine a (tel_channel def block S name)) \<Longrightarrow> fine a (frame_channels def block S names)"
  by (induction names) (auto intro!: fine_run_bind)

lemma build_frame_fine:
  assumes "ctx_ok a ctx def d"
  shows "fine a (build_frame ctx d block t rows)"
proof -
  let ?x = "extra_syms (cx_defaults ctx) t"
  let ?S = "tel_syms def block (Some ?x) d"
  have def: "cx_def ctx = def" using assms by (simp add: ctx_ok_def)
  have s: "fine_lookup a ?S u" "fine a (tel_channel def block ?S name)" for u name
  proof -
    have x: "returns (sy_value x n)" if "Some ?x = Some x" for x n using that extra_returns(1) by auto
    have sh: "shallow def d" if a using assms that by (simp add: ctx_ok_def)
    show "fine_lookup a ?S u" "fine a (tel_channel def block ?S name)"
      using tel_fine [OF x sh] by blast+
  qed
  have "fine a (indicator_on ?S ind)" for ind by (simp add: indicator_on_def eval_fine s(1))
  then have "fine a (run_mapM (indicator_on ?S) inds)" for inds by (intro fine_intros)
  then show ?thesis
    unfolding build_frame_def def Let_def
    by (intro fine_run_bind frame_channels_fine s(2)) (simp split: prod.split)
qed

subsection \<open>Logs\<close>

lemma start_log_returns: "returns (start_log ctx ps path)"
proof -
  let ?S = "defaults_syms (cx_defaults ctx)"
  have "returns (entry_included def ?S e)" for def e
    by (auto simp: entry_included_def intro: eval_returns source_safe split: option.splits)
  moreover have "returns (channel_units def ?S ch)" for def ch
    by (auto simp: channel_units_def intro!: returns_run_ok text_eval_returns source_safe split: option.splits output_channel.splits)
  ultimately have "returns (log_columns_of def ?S es)" for def es
    by (induction es) (auto intro!: returns_run_bind)
  then show ?thesis by (simp add: start_log_def log_columns_def)
qed

subsection \<open>Every pass\<close>

lemma safely_run_map:
  assumes "safely def m" "\<And>x w. world_ok def w \<Longrightarrow> world_ok def (snd (f (x, w)))"
  shows "safely def (run_map f m)"
proof -
  obtain x w where "m = Ret (x, w)" "world_ok def w" using assms(1) by (rule safelyE)
  with assms(2) [of w x] show ?thesis by (cases "f (x, w)") (simp add: safely_def)
qed

text \<open>
  \<open>steady\<close>: the step of the thread returns and leaves its world in order, or overflows the stack;
  \<open>kept\<close> says the same of an operation on the shared world.
\<close>

definition steady :: "bool \<Rightarrow> ini_def \<Rightarrow> ('a \<times> 's loop_state) run \<Rightarrow> bool" where
  "steady a def m \<longleftrightarrow> (\<exists>x w. m = Ret (x, w) \<and> loop_ok def w) \<or> \<not> a \<and> m = Crash StackOverflow"

definition kept :: "bool \<Rightarrow> ini_def \<Rightarrow> ('a \<times> 's comms) run \<Rightarrow> bool" where
  "kept a def m \<longleftrightarrow> safely def m \<or> \<not> a \<and> m = Crash StackOverflow"

lemma steady_Ret [simp]: "steady a def (Ret (x, w)) = loop_ok def w"
  and steady_Crash [simp]: "steady a def (Crash c) \<longleftrightarrow> \<not> a \<and> c = StackOverflow"
  by (auto simp: steady_def)

lemma steady_bind:
  "steady a def m \<Longrightarrow> (\<And>x w. loop_ok def w \<Longrightarrow> steady a def (f (x, w))) \<Longrightarrow> steady a def (run_bind m f)"
  by (cases m) (auto simp: steady_def)

lemma steady_fine_bind: "fine a m \<Longrightarrow> (\<And>x. steady a def (f x)) \<Longrightarrow> steady a def (run_bind m f)"
  by (erule fineE) simp_all

lemma kept_safely: "safely def m \<Longrightarrow> kept a def m"
  by (simp add: kept_def)

lemma kept_Ret [simp]: "kept a def (Ret (x, w)) = world_ok def w"
  by (simp add: kept_def)

lemma kept_run_map:
  "safely def m \<Longrightarrow> (\<And>x w. world_ok def w \<Longrightarrow> world_ok def (snd (f (x, w)))) \<Longrightarrow> kept a def (run_map f m)"
  by (intro kept_safely safely_run_map)

lemma kept_bind: "safely def m \<Longrightarrow> (\<And>x w. world_ok def w \<Longrightarrow> kept a def (f (x, w))) \<Longrightarrow> kept a def (run_bind m f)"
  by (erule safelyE) simp

lemma kept_fine_bind: "fine a m \<Longrightarrow> (\<And>x. kept a def (f x)) \<Longrightarrow> kept a def (run_bind m f)"
  by (erule fineE) (simp_all add: kept_def)

lemma auto_log_ok:
  assumes "loop_ok def w"
  shows "\<exists>w1. auto_log ctx show_io ps w = Ret w1 \<and> loop_ok def w1"
proof -
  define path where "path = path_join (cx_log_dir ctx) (''rustytune_'' @ ps_stamp ps @ ''.msl'')"
  obtain r where r: "start_log ctx ps path = Ret r" using start_log_returns unfolding returns_iff by blast
  have c: "world_ok def (lw_comms w)" using assms by (simp add: loop_ok_def)
  show ?thesis
    unfolding auto_log_def path_def [symmetric] Let_def r using assms c by (cases r) simp_all
qed

lemma on_frame_steady:
  assumes "ctx_ok a ctx def d" "loop_ok def w"
  shows "steady a def (on_frame ctx d show_io ps block w)"
proof -
  obtain w1 where w1: "auto_log ctx show_io ps w = Ret w1" "loop_ok def w1" using auto_log_ok [OF assms(2)] by blast
  show ?thesis
    unfolding on_frame_def w1(1) run_bind.simps Let_def
    by (rule steady_fine_bind [OF build_frame_fine [OF assms(1)]])
      (use w1(2) in \<open>auto simp: loop_ok_def [symmetric] split: prod.splits\<close>)
qed

context steady_link
begin

lemma session_safe:
  assumes "world_ok def c"
  shows "safely def (in_session (lk_query L q) c)" "safely def (in_session (lk_realtime L) c)"
    "safely def (in_session (lk_calib_crc L q n) c)" "safely def (in_session (lk_calib_write L q n bf bs) c)"
  using assms query_returns realtime_returns calib_crc_returns calib_write_returns by (auto intro: in_session_ok)

lemma calibration_write_safe:
  assumes "world_ok def c"
  shows "safely def (calibration_write L ctx crc show_io cal data c)"
  unfolding calibration_write_def
proof (rule safely_bind [OF session_safe(4) [OF assms]], goal_cases)
  case (1 r c1)
  then show ?case
    by (cases r) (auto intro!: safely_run_map session_safe split: prod.splits sum.splits)
qed

lemma do_calibration_kept:
  assumes "world_ok def c" "ctx_ok a ctx def d"
  shows "kept a def (do_calibration L ctx d crc show_io data c)"
proof -
  have "fine a (tel_channel def block (tel_syms def block None d) name)" for block name
    using assms(2) by (intro tel_fine(2)) (auto simp: ctx_ok_def)
  then have rest: "fine a (engine_at_rest ctx d block)" for block
    using assms(2) by (simp add: engine_at_rest_def ctx_ok_def)
  have writing: "kept a def (run_bind (in_session (lk_realtime L) c) (\<lambda>(r, w1).
      case r of
        Inl e \<Rightarrow> Ret (Inl (show_proto_error show_io e), w1)
      | Inr block \<Rightarrow> run_bind (engine_at_rest ctx d block) (\<lambda>rest. F rest w1)))"
    if "\<And>rest w1. world_ok def w1 \<Longrightarrow> safely def (F rest w1)" for F
  proof (rule kept_bind [OF session_safe(2) [OF assms(1)]], goal_cases)
    case (1 r c1)
    with that show ?case
      by (cases r) (auto intro!: kept_safely kept_fine_bind [OF rest])
  qed
  show ?thesis
    unfolding do_calibration_def
    by (auto split: sum.splits option.splits prod.splits intro!: writing kept_run_map session_safe
        calibration_write_safe locked_ok assms(1) simp: Let_def assms(1))
qed

lemma burn_safe:
  assumes "world_ok def c"
  shows "safely def (do_burn (lk_pages L) crc show_io c)"
proof (cases "lk_pages L")
  case (Some P)
  from page_port.do_burn_safe [OF pages_port [OF Some] assms refl] Some show ?thesis by simp
qed (use assms in \<open>simp add: do_burn_def\<close>)

lemma handle_cmd_steady:
  assumes "loop_ok def w" "ctx_ok a ctx def d"
  shows "steady a def (handle_cmd L ctx d crc show_io ps cmd w)"
proof -
  have c: "world_ok def (lw_comms w)" using assms(1) by (simp add: loop_ok_def)
  show ?thesis
  proof (cases cmd)
    case (Start_log path)
    obtain r where "start_log ctx ps path = Ret r" using start_log_returns unfolding returns_iff by blast
    with c Start_log show ?thesis by (cases r) (simp_all add: handle_cmd_def log_opened_def on_comms_def)
  next
    case Stop_log
    then show ?thesis
      using assms(1) finish_log_ok [of def ctx ps "w\<lparr>lw_auto := False\<rparr>"]
      by (auto simp: handle_cmd_def loop_ok_def on_comms_def split: prod.splits)
  next
    case Shutdown
    have "world_ok def (lw_comms (snd (finish_log ctx ps w)))"
      using assms(1) finish_log_ok [of def ctx ps w] by (simp add: loop_ok_def)
    with Shutdown show ?thesis by (simp add: handle_cmd_def Let_def broadcast_tune_ok loaded_ok)
  next
    case (Calibration data)
    with do_calibration_kept [OF c assms(2), of crc show_io data] show ?thesis
      by (auto simp: handle_cmd_def kept_def safely_def)
  next
    case Burn
    obtain r c1 where "do_burn (lk_pages L) crc show_io (lw_comms w) = Ret (r, c1)" "world_ok def c1"
      by (rule safelyE [OF burn_safe [OF c]])
    with Burn show ?thesis by (simp add: handle_cmd_def broadcast_tune_ok)
  qed
qed

lemma handle_cmds_steady:
  "loop_ok def w \<Longrightarrow> ctx_ok a ctx def d \<Longrightarrow> steady a def (handle_cmds L ctx d crc show_io ps cs w)"
proof (induction cs arbitrary: w)
  case (Cons c cs)
  show ?case
    unfolding handle_cmds.simps
    by (rule steady_bind [OF handle_cmd_steady [OF Cons.prems]]) (simp add: Cons)
qed simp

lemma flush_link_ok:
  assumes "loop_ok def w"
  shows "\<exists>w1. flush_link L crc show_io w = Ret w1 \<and> loop_ok def w1"
proof (cases "lk_pages L")
  case (Some P)
  have "world_ok def (lw_comms w)" using assms by (simp add: loop_ok_def)
  then obtain c where "flush_dirty P crc show_io (lw_comms w) = Ret c" "world_ok def c"
    using page_port.flush_dirty_safe [OF pages_port [OF Some] _ refl] by blast
  with Some show ?thesis by (simp add: flush_link_def)
qed (use assms in \<open>simp add: flush_link_def\<close>)

lemma on_lost_ok [simp]:
  assumes "loop_ok def w"
  shows "loop_ok def (on_lost ctx show_io ps e w)"
proof -
  have "world_ok def (lw_comms (snd (finish_log ctx ps w)))"
    using assms finish_log_ok [of def ctx ps w] by (simp only: loop_ok_def)
  then show ?thesis by (simp add: on_lost_def broadcast_tune_ok loaded_ok)
qed

lemma on_timeout_ok [simp]: "loop_ok def (on_timeout w) = loop_ok def w"
  by (simp add: on_timeout_def Let_def) (simp add: loop_ok_def on_comms_def)

lemma poll_steady:
  assumes "loop_ok def w" "ctx_ok a ctx def d"
  shows "steady a def (poll L ctx d show_io ps w)"
proof -
  have "world_ok def (lw_comms w)" using assms(1) by (simp add: loop_ok_def)
  then obtain r c where c: "in_session (lk_realtime L) (lw_comms w) = Ret (r, c)" "world_ok def c"
    by (rule safelyE [OF session_safe(2)])
  then have w1: "loop_ok def (w\<lparr>lw_comms := c\<rparr>)" by simp
  show ?thesis
  proof (cases r)
    case (Inl e)
    with c w1 show ?thesis by (cases e) (simp_all add: poll_def Let_def)
  qed (use c w1 on_frame_steady [OF assms(2) w1] in \<open>simp add: poll_def Let_def\<close>)
qed

lemma loop_pass_steady:
  assumes "loop_ok def w" "ctx_ok a ctx def d"
  shows "steady a def (loop_pass L ctx d crc show_io ps w)"
  unfolding loop_pass_def
proof (rule steady_bind [OF handle_cmds_steady [OF assms]], goal_cases)
  case (1 go w1)
  obtain w2 where "flush_link L crc show_io w1 = Ret w2" "loop_ok def w2" using flush_link_ok [OF 1] by blast
  with 1 assms(2) show ?case by (simp add: poll_steady)
qed

lemma run_passes_steady:
  "loop_ok def w \<Longrightarrow> ctx_ok a ctx def d \<Longrightarrow> steady a def (run_passes L ctx d crc show_io pss w)"
proof (induction pss arbitrary: w)
  case (Cons ps pss)
  show ?case
    unfolding run_passes.simps
    by (rule steady_bind [OF loop_pass_steady [OF Cons.prems]]) (simp add: Cons)
qed simp

text \<open>Before the loop.\<close>

lemma check_signature_ok:
  assumes "world_ok def c"
  shows "\<exists>c1. check_signature L ctx c = Ret c1 \<and> world_ok def c1"
proof -
  obtain r c1 where "in_session (lk_query L (i_query_command (cx_def ctx))) c = Ret (r, c1)" "world_ok def c1"
    by (rule safelyE [OF session_safe(1) [OF assms]])
  with assms show ?thesis by (cases r) (auto simp: check_signature_def Let_def)
qed

lemma first_download_ok:
  assumes "world_ok def c"
  shows "\<exists>c1. first_download L crc show_io c = Ret c1 \<and> world_ok def c1"
proof (cases "lk_pages L")
  case (Some P)
  obtain r c1 where "download_tune P crc c = Ret (r, c1)" "world_ok def c1"
    by (rule safelyE [OF page_port.download_tune_safe [OF pages_port [OF Some] assms refl]])
  with Some show ?thesis by (cases r) (simp_all add: first_download_def broadcast_tune_ok loaded_ok)
qed (use assms in \<open>simp add: first_download_def\<close>)

lemma thread_run_steady:
  assumes "world_ok def c" "ctx_ok a ctx def d"
  shows "steady a def (thread_run L ctx d crc show_io started pss c)"
proof -
  obtain c1 where c1: "check_signature L ctx c = Ret c1" "world_ok def c1" using check_signature_ok [OF assms(1)] by blast
  obtain c2 where "first_download L crc show_io c1 = Ret c2" "world_ok def c2" using first_download_ok [OF c1(2)] by blast
  with c1 assms(2) show ?thesis by (simp add: thread_run_def run_passes_steady loop_ok_def)
qed

end

subsection \<open>The sessions of the protocol crate\<close>

context transport_laws
begin

lemma any_request [keeps_intros]: "keeps (\<lambda>_. True) (request T crc payload ok)"
  by (rule keeps_weaken) (rule keeps_request)

lemma answer_keeps [keeps_intros]: "keeps (\<lambda>_. True) (be32_of_answer data)"
  by (auto simp: be32_of_answer_def split: list.splits intro!: keeps_intros)

lemma calibration_returns: "returns (calib_crc T crc c n s)" "returns (calib_write T crc c n bf bs s)"
proof -
  define can where "can = c_can_id (s_config s)"
  show "returns (calib_crc T crc c n s)" "returns (calib_write T crc c n bf bs s)"
    unfolding calib_crc_def calib_write_def can_def [symmetric] by (auto intro!: keeps_returns keeps_intros)
qed

lemma queries_return: "returns (query_string T crc c s)" "returns (read_realtime T crc s)"
  by (rule keeps_returns, rule keeps_weaken, rule keeps_query keeps_realtime)+

end

lemma session_steady:
  assumes "transport_laws T" "\<And>pcs. pages = Some pcs \<Longrightarrow> comms_page_commands def = Inr pcs"
  shows "steady_link (session_link T crc m pages) def"
  unfolding steady_link_def session_link_def
  using transport_laws.calibration_returns [OF assms(1)] transport_laws.queries_return [OF assms(1)]
    commands_paged [OF assms(1) assms(2)]
  by auto

interpretation demo_link: steady_link "session_link mock_ops crc32_ieee Primary (Some demo_pages)" demo_def
  by (rule session_steady [OF mock_laws.transport_laws_axioms]) (simp add: demo_def_pages)

text \<open>The same over the serial port whose device goes on taking bytes.\<close>

interpretation serial_link: steady_link "session_link pacer_port crc32_ieee Primary (Some demo_pages)" demo_def
  by (rule session_steady [OF pacer_serial.transport_laws_axioms]) (simp add: demo_def_pages)

text \<open>
  C3. The comms thread never panics.  Over any transport whose calls return and whose reads stay
  within the buffer (the serial port as long as its write loop ends), from the first query on and
  through any number of passes, with any commands, any edits of the request handlers at any of
  its locks, any answers of the ECU, any faults of the port and of the disk, the thread returns
  from every step, and every page of the tune keeps its declared size.  The one other way it can
  end is a stack overflow, by output channels that refer to each other in a cycle
  (\<open>cyclic_channel_overflows\<close>) or deeper than the stack; without them it always returns.
\<close>

theorem thread_never_panics:
  assumes "transport_laws T" "\<And>pcs. pages = Some pcs \<Longrightarrow> comms_page_commands def = Inr pcs"
    "world_ok def c" "cx_def ctx = def"
  shows "((\<exists>go w1. thread_run (session_link T crc m pages) ctx d crc show_io started passes c = Ret (go, w1)
        \<and> world_ok def (lw_comms w1))
      \<or> thread_run (session_link T crc m pages) ctx d crc show_io started passes c = Crash StackOverflow)
    \<and> (shallow def d \<longrightarrow>
      (\<exists>go w1. thread_run (session_link T crc m pages) ctx d crc show_io started passes c = Ret (go, w1)
        \<and> world_ok def (lw_comms w1)))"
proof -
  have "steady a def (thread_run (session_link T crc m pages) ctx d crc show_io started passes c)"
    if "a \<longrightarrow> shallow def d" for a
    using steady_link.thread_run_steady [OF session_steady [OF assms(1,2)] assms(3), where a = a and ctx = ctx and d = d]
      assms(4) that by (simp add: ctx_ok_def)
  from this [of False] this [of True] show ?thesis by (auto simp: steady_def loop_ok_def)
qed

text \<open>A session on the mock port: a burn is asked for while an edit waits at the first lock.\<close>

theorem thread_never_panics_witness:
  "\<exists>go w1. thread_run (session_link mock_ops crc32_ieee Primary (Some demo_pages)) (rpm_ctx\<lparr>cx_def := demo_def\<rparr>) 1
      crc32_ieee (\<lambda>e. []) 0 [(sunny_pass 7)\<lparr>ps_commands := [Burn, Stop_log]\<rparr>, sunny_pass 20] demo_world = Ret (go, w1)
    \<and> world_ok demo_def (lw_comms w1)"
proof -
  have "shallow demo_def 1"
    unfolding shallow_def
    by (rule exI [of _ "\<lambda>n. 0"]) (simp add: channels_acyclic_def demo_def_def ini_default_def im_get_def)
  with thread_never_panics [OF mock_laws.transport_laws_axioms _ demo_world_ok, of "Some demo_pages"
      "rpm_ctx\<lparr>cx_def := demo_def\<rparr>" crc32_ieee Primary 1 "\<lambda>e. []" 0]
  show ?thesis using demo_def_pages by simp
qed

end
