(* ===== verification/Server_Sessions.thy ===== *)
theory Server_Sessions
  imports Server_Laws Thread_Safe
begin

text \<open>
  Sessions of the server: what the comms thread does to the connected and offline flags, the
  invariant over requests, rounds of the supervisor and thread passes, and who changes the tune.
\<close>

subsection \<open>The thread and the connection flags\<close>

definition conn_c :: "'s comms \<Rightarrow> bool \<times> bool" where
  "conn_c c = (st_connected (cw_status c), st_offline (cw_status c))"

definition conn :: "'s loop_state \<Rightarrow> bool \<times> bool" where
  "conn w = conn_c (lw_comms w)"

lemma rest_conn:
  assumes "rest_of c1 = rest_of c"
  shows "conn_c c1 = conn_c c"
  using rest_ofD(2) [OF assms] arg_cong [OF assms, of st_offline] by (simp add: conn_c_def rest_of_def)

lemma conn_c_simps [simp]:
  "conn_c (locked c) = conn_c c" "conn_c (set_error msg c) = conn_c c" "conn_c (broadcast_status c) = conn_c c"
  "conn_c (broadcast_tune c) = conn_c c" "conn_c (upd_tune f c) = conn_c c" "conn_c (send_event ev c) = conn_c c"
  "conn_c (request_shutdown ctx ps c) = conn_c c"
  by (rule rest_conn, simp)+

lemma conn_c_status [simp]:
  "conn_c (prune_status ctx ps c) = conn_c c" "conn_c (upd_status (count_frame h m) c) = conn_c c"
  "conn_c (upd_status (\<lambda>s. s\<lparr>st_log := l\<rparr>) c) = conn_c c"
  "conn_c (upd_status (\<lambda>s. s\<lparr>st_timeouts := f s\<rparr>) c) = conn_c c"
  "conn_c (upd_status (\<lambda>s. s\<lparr>st_crc_errors := f s\<rparr>) c) = conn_c c"
  "conn_c (upd_status disconnected c) = (False, snd (conn_c c))"
  by (simp_all add: conn_c_def upd_status_def prune_status_def count_frame_def disconnected_def)

lemma conn_simps [simp]:
  "conn (w\<lparr>lw_log := l\<rparr>) = conn w" "conn (w\<lparr>lw_auto := b\<rparr>) = conn w" "conn (w\<lparr>lw_monitor := m\<rparr>) = conn w"
  "conn (w\<lparr>lw_silent := n\<rparr>) = conn w" "conn (w\<lparr>lw_next_poll := t\<rparr>) = conn w"
  "conn (w\<lparr>lw_comms := c\<rparr>) = conn_c c" "conn (on_comms f w) = conn_c (f (lw_comms w))"
  by (simp_all add: conn_def on_comms_def)

lemma lw_comms_on [simp]: "lw_comms (on_comms f w) = f (lw_comms w)" "conn_c (lw_comms w) = conn w"
  by (simp_all add: on_comms_def conn_def)

lemma finish_log_conn [simp]: "conn (snd (finish_log ctx ps w)) = conn w"
  by (simp add: finish_log_def split: option.split)

lemma log_opened_conn [simp]: "conn (log_opened path writer w) = conn w"
  by (simp add: log_opened_def)

lemma handle_cmd_conn:
  assumes "handle_cmd L ctx d crc show_io ps c w = Ret (go, w1)"
  shows "conn w1 = (if go then conn w else (False, snd (conn w)))"
proof (cases c)
  case (Start_log path)
  then obtain r where r: "start_log ctx ps path = Ret r" using assms by (auto simp: handle_cmd_def run_simps)
  with Start_log assms show ?thesis
    by (cases r) (auto simp: handle_cmd_def)
next
  case Stop_log
  obtain summary w2 where w2: "finish_log ctx ps (w\<lparr>lw_auto := False\<rparr>) = (summary, w2)" by fastforce
  from finish_log_conn [of ctx ps "w\<lparr>lw_auto := False\<rparr>"] w2 Stop_log assms show ?thesis
    by (auto simp: handle_cmd_def)
next
  case Burn
  with assms show ?thesis by (auto simp: handle_cmd_def run_simps dest!: do_burn_rest rest_conn)
next
  case (Calibration data)
  with assms show ?thesis by (auto simp: handle_cmd_def run_simps dest!: do_calibration_rest rest_conn)
next
  case Shutdown
  with assms show ?thesis by (auto simp: handle_cmd_def Let_def)
qed

lemma handle_cmds_conn:
  "handle_cmds L ctx d crc show_io ps cs w = Ret (go, w1) \<Longrightarrow> conn w1 = (if go then conn w else (False, snd (conn w)))"
proof (induction cs arbitrary: w)
  case (Cons c cs)
  then obtain b w2 where w2: "handle_cmd L ctx d crc show_io ps c w = Ret (b, w2)" by (auto simp: run_simps)
  from handle_cmd_conn [OF w2] Cons w2 show ?case by (cases b) auto
qed simp

lemma auto_log_conn: "auto_log ctx show_io ps w = Ret w1 \<Longrightarrow> conn w1 = conn w"
  by (erule auto_logE) simp_all

lemma log_frame_conn [simp]: "conn (log_frame ctx show_io ps numeric w) = conn w"
  by (simp add: log_frame_def split: option.split prod.split sum.split)

lemma on_frame_conn:
  assumes "on_frame ctx d show_io ps block w = Ret (go, w1)"
  shows "conn w1 = conn w"
proof -
  obtain wa where wa: "auto_log ctx show_io ps w = Ret wa"
    using assms by (auto simp: on_frame_def run_simps)
  obtain frame numeric where "build_frame ctx d block (ps_t ps) (map_option mw_rows (lw_log wa)) = Ret (frame, numeric)"
    using assms wa by (auto simp: on_frame_def Let_def run_simps)
  with assms wa auto_log_conn [OF wa] show ?thesis
    by (auto simp: on_frame_def Let_def split: prod.splits if_splits)
qed

lemma on_lost_conn [simp]: "conn (on_lost ctx show_io ps e w) = (False, snd (conn w))"
  by (simp add: on_lost_def)

lemma on_timeout_conn [simp]: "conn (on_timeout w) = conn w"
  by (simp add: on_timeout_def Let_def)

lemma poll_conn:
  assumes "poll L ctx d show_io ps w = Ret (go, w1)"
  shows "conn w1 = conn w \<or> \<not> go \<and> conn w1 = (False, snd (conn w))"
proof -
  obtain r c where c: "in_session (lk_realtime L) (lw_comms w) = Ret (r, c)"
    using assms by (auto simp: poll_def run_simps)
  have w: "conn_c c = conn w" using rest_conn [OF in_session_rest [OF c]] by simp
  show ?thesis
  proof (cases r)
    case (Inr block)
    with assms c w show ?thesis by (auto simp: poll_def dest!: on_frame_conn)
  next
    case (Inl e)
    with assms c w show ?thesis by (cases e) (auto simp: poll_def)
  qed
qed

lemma loop_pass_conn:
  assumes "loop_pass L ctx d crc show_io ps w = Ret (go, w1)"
  shows "conn w1 = conn w \<or> \<not> go \<and> conn w1 = (False, snd (conn w))"
proof -
  obtain b w2 where w2: "handle_cmds L ctx d crc show_io ps (ps_commands ps) w = Ret (b, w2)"
    using assms by (auto simp: loop_pass_def run_simps)
  note c2 = handle_cmds_conn [OF w2]
  show ?thesis
  proof (cases b)
    case True
    then obtain w3 where w3: "flush_link L crc show_io w2 = Ret w3"
      using assms w2 by (auto simp: loop_pass_def run_simps)
    have c3: "conn w3 = conn w2"
      using w3 by (cases "lk_pages L") (auto simp: flush_link_def run_simps dest!: flush_dirty_rest rest_conn)
    show ?thesis
    proof (cases "ps_now ps < lw_next_poll w3")
      case False
      then have "poll L ctx d show_io ps
          (w3\<lparr>lw_next_poll := max (lw_next_poll w3 + cx_poll_interval ctx) (ps_now ps)\<rparr>) = Ret (go, w1)"
        using assms w2 w3 True by (simp add: loop_pass_def)
      from poll_conn [OF this] c2 c3 True show ?thesis by simp
    qed (use assms w2 w3 True c2 c3 in \<open>simp add: loop_pass_def\<close>)
  qed (use assms w2 c2 in \<open>simp add: loop_pass_def\<close>)
qed

lemma check_signature_conn:
  assumes "check_signature L ctx c = Ret c1"
  shows "conn_c c1 = conn_c c"
proof (cases "lk_primary L")
  case True
  then obtain r c2 where r: "in_session (lk_query L (i_query_command (cx_def ctx))) c = Ret (r, c2)"
    using assms by (auto simp: check_signature_def run_map_Ret)
  have "conn_c (upd_status (\<lambda>s. s\<lparr>st_ecu_signature := x\<rparr>) d) = conn_c d" for x and d :: "'a comms"
    by (simp add: conn_c_def upd_status_def)
  with assms True r rest_conn [OF in_session_rest [OF r]] show ?thesis
    by (cases r) (auto simp: check_signature_def Let_def)
qed (use assms in \<open>simp add: check_signature_def\<close>)

lemma first_download_conn:
  assumes "first_download L crc show_io c = Ret c1"
  shows "conn_c c1 = conn_c c"
proof (cases "lk_pages L")
  case (Some P)
  then obtain r c2 where r: "download_tune P crc c = Ret (r, c2)"
    using assms by (auto simp: first_download_def run_map_Ret)
  have "conn_c (upd_status (\<lambda>s. s\<lparr>st_tune_loaded := x\<rparr>) d) = conn_c d" for x and d :: "'a comms"
    by (simp add: conn_c_def upd_status_def)
  with assms Some r rest_conn [OF download_tune_rest [OF r]] show ?thesis
    by (cases r) (auto simp: first_download_def)
qed (use assms in \<open>simp add: first_download_def\<close>)

subsection \<open>Reachable states of the server\<close>

text \<open>
  What the comms thread leaves in the shared state: the status and the tune, the events it
  broadcasts, and whether it still runs.
\<close>

fun broadcast_event :: "comms_event \<Rightarrow> bool" where
  "broadcast_event (Ev_status s) = True"
| "broadcast_event (Ev_frame f) = True"
| "broadcast_event (Ev_tune l x b) = True"
| "broadcast_event _ = False"

definition thread_back :: "comms_handle \<Rightarrow> bool \<Rightarrow> 's comms \<Rightarrow> app_state \<Rightarrow> app_state" where
  "thread_back h go c a =
     a\<lparr>ap_status := cw_status c, ap_tune := cw_tune c,
       ap_events := ap_events a @ map Sv_comms (filter broadcast_event (cw_events c)),
       ap_comms := Some (h\<lparr>ch_alive := go, ch_sent := []\<rparr>)\<rparr>"

text \<open>
  The thread starts a step on the shared state; what other requests do to the tune at its locks
  in the meantime are edits of the handlers.
\<close>

definition shares :: "app_state \<Rightarrow> 's comms \<Rightarrow> bool" where
  "shares a c \<longleftrightarrow> cw_status c = ap_status a \<and> cw_tune c = ap_tune a \<and> cw_events c = []
     \<and> (\<forall>e \<in> set (cw_edits c). handler_edit e)"

text \<open>
  One step: a request of a client, a round of the supervisor, the thread's start, or a pass of
  its loop with the commands sent to it so far; \<open>d\<close> is the room for lookups on the thread's stack.
  A request or pass that crashes is no step: it ends the process or poisons the locks it holds.
\<close>

inductive server_step :: "'s link \<Rightarrow> nat \<Rightarrow> app_state \<Rightarrow> app_state \<Rightarrow> bool" for L d where
  request: "serve E k r a = Ret (sc, a1) \<Longrightarrow> server_step L d a a1"
| supervise: "auto_connect_round V delay a = (n, delay1, a1) \<Longrightarrow> server_step L d a a1"
| start: "ap_comms a = Some h \<Longrightarrow> ch_alive h \<Longrightarrow> shares a c \<Longrightarrow> check_signature L (ch_ctx h) c = Ret c1 \<Longrightarrow>
    first_download L crc show_io c1 = Ret c2 \<Longrightarrow> server_step L d a (thread_back h True c2 a)"
| pass: "ap_comms a = Some h \<Longrightarrow> ch_alive h \<Longrightarrow> shares a (lw_comms w) \<Longrightarrow> ps_commands ps = ch_sent h \<Longrightarrow>
    loop_pass L (ch_ctx h) d crc show_io ps w = Ret (go, w1) \<Longrightarrow>
    server_step L d a (thread_back h go (lw_comms w1) a)"

inductive server_reach :: "'s link \<Rightarrow> nat \<Rightarrow> app_state \<Rightarrow> app_state \<Rightarrow> bool" for L d a0 where
  here: "server_reach L d a0 a0"
| step: "server_reach L d a0 a \<Longrightarrow> server_step L d a a1 \<Longrightarrow> server_reach L d a0 a1"

text \<open>
  The session the status shows is the one there is: a running thread means connected, and an
  offline session means that no thread runs and a tune is loaded.
\<close>

definition thread_runs :: "app_state \<Rightarrow> bool" where
  "thread_runs a \<longleftrightarrow> map_option ch_alive (ap_comms a) = Some True"

definition session_ok :: "app_state \<Rightarrow> bool" where
  "session_ok a \<longleftrightarrow> (thread_runs a \<longrightarrow> st_connected (ap_status a) \<and> \<not> st_offline (ap_status a))
     \<and> (st_offline (ap_status a) \<longrightarrow> \<not> st_connected (ap_status a) \<and> tn_loaded (ap_tune a))"

lemma session_ok_status:
  "\<not> st_offline (ap_status a) \<Longrightarrow> \<not> thread_runs a \<or> st_connected (ap_status a) \<Longrightarrow> session_ok a"
  by (auto simp: session_ok_def)

lemma thread_runs_emit [simp]:
  "thread_runs (emit ev a) = thread_runs a" "thread_runs (emit_status a) = thread_runs a"
  "thread_runs (emit_tune a) = thread_runs a" "thread_runs (a\<lparr>ap_comms := None\<rparr>) = False"
  by (simp_all add: thread_runs_def)

lemma edited_session_ok: "edited a a1 \<Longrightarrow> session_ok a \<Longrightarrow> session_ok a1"
  by (simp add: edited_def session_ok_def only_bytes_def thread_runs_def)

lemma stop_comms_state:
  assumes "session_ok a" "ap_comms a = Some h"
  shows "session_ok (stop_comms V h a) \<and> ap_comms (stop_comms V h a) = None \<and> ap_def (stop_comms V h a) = ap_def a"
proof (cases "ch_alive h")
  case True
  then have "\<not> st_offline (ap_status a)" using assms by (simp add: session_ok_def thread_runs_def)
  with True show ?thesis
    by (auto simp: stop_comms_def Let_def thread_shutdown_def log_closed_def disconnected_def thread_runs_def
        intro!: session_ok_status)
qed (use assms in \<open>auto simp: stop_comms_def Let_def session_ok_def thread_runs_def\<close>)

lemma shutdown_comms_state:
  assumes "session_ok a"
  shows "session_ok (shutdown_comms V a)" "ap_comms (shutdown_comms V a) = None" "ap_def (shutdown_comms V a) = ap_def a"
  using assms stop_comms_state by (auto simp: shutdown_comms_def split: option.split)

lemma connect_opened_ok:
  assumes "session_ok a" "ap_comms a = None"
  shows "session_ok (snd (connect_opened V req m a))"
proof -
  let ?s = "session_new () (config_new m (i_och_get_command (ap_def a)) (of_nat (i_och_block_size (ap_def a)))) []"
  show ?thesis
    using assms
    by (cases ?s; cases "connect_pages m (ap_def a)")
      (auto simp: connect_opened_def Let_def refuse_def thread_runs_def status_default_def intro!: session_ok_status)
qed

lemma do_connect_ok: "session_ok a \<Longrightarrow> session_ok (snd (do_connect V req a))"
  by (auto simp: do_connect_def Let_def refuse_def shutdown_comms_state connect_opened_ok split: option.split)

lemma disconnect_ok: "session_ok a \<Longrightarrow> session_ok (snd (disconnect V a))"
  by (auto simp: disconnect_def Let_def refuse_def stop_comms_state split: option.split)

lemma offline_installE:
  assumes "offline_install d a = Ret (r, a1)"
  obtains (no_file) "ap_msq a = None" "a1 = a"
  | (installed) name msq report t a2 where "ap_msq a = Some (name, msq)"
      "msq_apply d msq None (fresh_tune a) = Ret (report, t)"
      "refresh_definition (a\<lparr>ap_tune := set_loaded True (sync_shadows t)\<rparr>) = Ret a2"
      "a1 = emit_tune (emit_status (a2\<lparr>ap_writer := None, ap_status := status_default\<lparr>st_offline := True, st_tune_loaded := True\<rparr>\<rparr>))"
proof (cases "ap_msq a")
  case (Some m)
  obtain name msq where m: "m = (name, msq)" by (cases m)
  obtain report t a2 where "msq_apply d msq None (fresh_tune a) = Ret (report, t)"
    "refresh_definition (a\<lparr>ap_tune := set_loaded True (sync_shadows t)\<rparr>) = Ret a2"
    "a1 = emit_tune (emit_status (a2\<lparr>ap_writer := None, ap_status := status_default\<lparr>st_offline := True, st_tune_loaded := True\<rparr>\<rparr>))"
    using assms Some m by (auto simp: offline_install_def run_simps Let_def)
  with Some m show thesis by (intro installed) simp_all
next
  case None
  show thesis by (rule no_file) (use assms None in \<open>simp_all add: offline_install_def refuse_def\<close>)
qed

lemma offline_install_shape:
  assumes "offline_install d a = Ret (r, a1)"
  shows "a1 = a \<and> ap_msq a = None \<or> ap_msq a \<noteq> None \<and> ap_status a1 = status_default\<lparr>st_offline := True, st_tune_loaded := True\<rparr>
    \<and> tn_loaded (ap_tune a1) \<and> ap_comms a1 = ap_comms a \<and> ap_writer a1 = None"
  using assms
proof (cases rule: offline_installE)
  case (installed name msq report t a2)
  from refresh_edited [OF installed(3)] installed(1,4) show ?thesis by (auto simp: set_loaded_def)
qed simp

lemma offline_open_ok:
  assumes "offline_open d a = Ret (r, a1)" "session_ok a"
  shows "session_ok a1"
proof (cases "st_connected (ap_status a)")
  case False
  then have "offline_install d a = Ret (r, a1)" using assms(1) by (simp add: offline_open_def offline_check_def)
  from offline_install_shape [OF this] assms(2) False show ?thesis
    by (auto simp: session_ok_def thread_runs_def status_default_def)
qed (use assms in \<open>auto simp: offline_open_def offline_check_def\<close>)

lemma offline_close_ok: "session_ok a \<Longrightarrow> session_ok (snd (offline_close a))"
  by (auto simp: offline_close_def Let_def refuse_def session_ok_def thread_runs_def status_default_def)

lemma serve_session_ok:
  assumes "serve E d r a = Ret (sc, a1)" "session_ok a"
  shows "session_ok a1"
proof (cases "session_request r")
  case True
  with assms show ?thesis
    by (cases r) (auto simp: coded_Ret coded_run_Ret do_connect_ok disconnect_ok offline_close_ok dest: offline_open_ok)
next
  case False
  from serve_edited [OF assms(1) False] assms(2) show ?thesis by (blast intro: edited_session_ok)
qed

lemma thread_back_ok:
  assumes "session_ok a" "ap_comms a = Some h" "ch_alive h"
    "conn_c c1 = (st_connected (ap_status a), st_offline (ap_status a)) \<or> \<not> go \<and> conn_c c1 = (False, st_offline (ap_status a))"
  shows "session_ok (thread_back h go c1 a)"
  using assms by (auto simp: thread_back_def session_ok_def thread_runs_def conn_c_def)

lemma shares_conn: "shares a c \<Longrightarrow> conn_c c = (st_connected (ap_status a), st_offline (ap_status a))"
  by (simp add: shares_def conn_c_def)

lemma server_step_ok:
  assumes "server_step L d a a1" "session_ok a"
  shows "session_ok a1"
  using assms(1)
proof cases
  case (request E k r sc)
  then show ?thesis using assms(2) by (rule serve_session_ok)
next
  case (supervise V delay n delay1)
  then have "a1 = a \<or> a1 = snd (do_connect V (auto_request a) a)"
    by (auto simp: auto_connect_round_def split: if_splits prod.splits sum.splits)
  with assms(2) do_connect_ok show ?thesis by blast
next
  case (start h c c1 crc show_io c2)
  then show ?thesis
    using check_signature_conn [OF start(5)] first_download_conn [OF start(6)] shares_conn [OF start(4)] assms(2)
    by (auto intro: thread_back_ok)
next
  case (pass h w ps crc show_io go w1)
  have "conn w1 = conn w \<or> \<not> go \<and> conn w1 = (False, snd (conn w))" by (rule loop_pass_conn [OF pass(6)])
  with pass shares_conn [OF pass(4)] assms(2) show ?thesis by (auto intro: thread_back_ok)
qed

lemma build_state_fields:
  assumes "build_state_with_runtime def symbols rt = Ret a0"
  shows "ap_def a0 = def" "ap_status a0 = status_default" "ap_comms a0 = None" "ap_tune a0 = tune_new def"
    "ap_msq a0 = None" "ap_writer a0 = None" "ap_events a0 = []" "ap_runtime a0 = rt"
  using assms by (auto simp: build_state_with_runtime_def build_state_def Let_def run_simps)

lemma build_state_returns: "\<exists>a0. build_state_with_runtime def symbols rt = Ret a0"
  using definition_ui_returns [OF source_safe(2), of def "defaults_from_ini def"]
  by (auto simp: build_state_with_runtime_def build_state_def Let_def returns_iff)

text \<open>
  C1. The session that the status shows is the one there is.  From a fresh server on, after any
  requests (each taken as one step; for two that overlap see \<open>offline_open_race\<close>), rounds of the
  supervisor and passes of the comms thread, with any faults of the port: while the thread runs the status says connected and not offline; while it says offline
  it does not say connected, no thread runs and a tune is loaded.
\<close>

theorem session_invariant:
  assumes "build_state_with_runtime def symbols rt = Ret a0" "server_reach L d a0 a"
  shows "(thread_runs a \<longrightarrow> st_connected (ap_status a) \<and> \<not> st_offline (ap_status a))
    \<and> (st_offline (ap_status a) \<longrightarrow> \<not> st_connected (ap_status a) \<and> tn_loaded (ap_tune a) \<and> \<not> thread_runs a)"
proof -
  have "session_ok a0"
    using build_state_fields [OF assms(1)] by (simp add: session_ok_def thread_runs_def status_default_def)
  with assms(2) have "session_ok a" by (induction rule: server_reach.induct) (auto intro: server_step_ok)
  then show ?thesis by (auto simp: session_ok_def)
qed

text \<open>A connect to the raw port of a fresh server on an empty definition.\<close>

definition open_env :: serial_env where
  "open_env = \<lparr>se_open = \<lambda>p b. None, se_show = \<lambda>e. [], se_prune = id\<rparr>"

definition raw_request :: connect_req where
  "raw_request = \<lparr>cr_port = ''p'', cr_baud = 115200, cr_mode = ''secondary'', cr_poll_ms = 50\<rparr>"

lemma empty_template: "template_parse [] = Inr []"
  by code_simp

lemma session_new_empty: "i_och_get_command def = [] \<Longrightarrow>
    \<exists>s. session_new () (config_new m (i_och_get_command def) (of_nat (i_och_block_size def))) [] = Inr s"
  by (simp add: session_new_def config_new_def empty_template)

lemma raw_connect:
  assumes "i_och_get_command (ap_def a) = []" "ap_comms a = None" "\<not> st_offline (ap_status a)"
  shows "\<exists>st a1. do_connect open_env raw_request a = (Inr st, a1) \<and> thread_runs a1 \<and> ap_msq a1 = ap_msq a"
  using session_new_empty [OF assms(1), of Secondary_mode] assms(2,3)
  by (auto simp: do_connect_def raw_request_def mode_of_def shutdown_comms_def open_env_def connect_opened_def
      connect_pages_def thread_runs_def Let_def emit_status_def emit_def)

text \<open>Requests of a client that meet nothing else.\<close>

definition quiet_env :: request_env where
  "quiet_env = \<lparr>re_serial = open_env, re_stamp = [], re_date = [], re_xml = \<lambda>s. [], re_crc = \<lambda>b. 0,
     re_burned = None, re_started = None, re_stopped = None, re_calibrated = None\<rparr>"

theorem session_invariant_witness:
  "\<exists>a0 a. build_state_with_runtime ini_default [] desktop = Ret a0 \<and> server_reach (frame_link 0) 5 a0 a
    \<and> thread_runs a \<and> st_connected (ap_status a)"
proof -
  obtain a0 where a0: "build_state_with_runtime ini_default [] desktop = Ret a0" using build_state_returns by blast
  obtain st a where a: "do_connect open_env raw_request a0 = (Inr st, a)" "thread_runs a"
    using raw_connect [of a0] build_state_fields [OF a0] by (auto simp: ini_default_def status_default_def)
  have "serve quiet_env 0 (Rq_connect raw_request) a0 = Ret (200, a)" using a(1) by (simp add: coded_def quiet_env_def)
  then have "server_step (frame_link 0) 5 a0 a" by (rule server_step.request)
  then have r: "server_reach (frame_link 0) 5 a0 a" by (rule server_reach.step [OF server_reach.here])
  from session_invariant [OF a0 r] a0 r a(2) show ?thesis by blast
qed

subsection \<open>Who changes the tune\<close>

text \<open>
  C4. No request changes the tune behind the back of a client.  A request that changes it is an edit
  by the client who then holds the writer lock, changes only local bytes and PC variables, and
  had the lock or found it free; or it begins or ends a session: a connect, which is refused while an offline
  tune has unsaved changes, a disconnect of a running thread, the opening of an uploaded file
  while not connected, or the close of an offline session.  An edit while another client holds
  the lock changes nothing at all.
\<close>

theorem tune_change_rights:
  assumes "serve E d r a = Ret (sc, a1)"
  shows "(ap_tune a1 \<noteq> ap_tune a \<longrightarrow>
      (\<exists>header. editor r = Some header \<and> ap_writer a \<in> {None, Some (client_id header)}
         \<and> ap_writer a1 = Some (client_id header) \<and> only_bytes UNIV (ap_tune a) (ap_tune a1))
    \<or> (\<exists>req. r = Rq_connect req \<and> \<not> (st_offline (ap_status a) \<and> any_dirty (ap_tune a)))
    \<or> r = Rq_disconnect \<and> thread_runs a
    \<or> r = Rq_offline_open \<and> \<not> st_connected (ap_status a) \<and> ap_msq a \<noteq> None
    \<or> r = Rq_offline_close \<and> st_offline (ap_status a))
    \<and> (\<forall>header. editor r = Some header \<longrightarrow> ap_writer a \<notin> {None, Some (client_id header)} \<longrightarrow> a1 = a)"
proof (cases "session_request r")
  case True
  then show ?thesis
  proof (cases r)
    case (Rq_connect req)
    with assms show ?thesis by (auto simp: coded_Ret do_connect_def refuse_def split: option.splits)
  next
    case Rq_disconnect
    with assms show ?thesis
      by (auto simp: coded_Ret disconnect_def refuse_def stop_comms_def thread_runs_def Let_def split: option.splits)
  next
    case Rq_offline_open
    then obtain s where s: "offline_open d a = Ret (s, a1)" using assms by (auto simp: coded_run_Ret)
    show ?thesis
    proof (cases "st_connected (ap_status a)")
      case False
      then have "offline_install d a = Ret (s, a1)" using s by (simp add: offline_open_def offline_check_def)
      from offline_install_shape [OF this] Rq_offline_open False show ?thesis by auto
    qed (use s Rq_offline_open in \<open>auto simp: offline_open_def offline_check_def\<close>)
  next
    case Rq_offline_close
    with assms show ?thesis by (auto simp: coded_Ret offline_close_def refuse_def)
  qed auto
next
  case False
  from serve_edited [OF assms False] show ?thesis
    by (cases "editor r") (auto simp: edited_def granted_def)
qed

text \<open>A client edits the last cell of a table while nobody holds the lock.\<close>

abbreviation nine :: f64 where "nine \<equiv> to_user fone fzero 9"

lemma raw_nine: "to_raw U08 fone fzero nine = 9"
  by (rule to_raw_decoded) (simp_all add: codec_ok_one in_range_def)

lemma cell_bytes: "Prelude.splice [1, 2, 3, 4, 5, 6] 5 (raw_bytes U08 9) \<noteq> [1, 2, 3, 4, 5, 6]"
  by code_simp

lemma cell_edit:
  "\<exists>t1. set_table_cell 1 ''tab'' 2 1 nine sample_array = Ret (Inr t1) \<and> t1 \<noteq> sample_array"
proof -
  obtain tbl where tbl: "table_of sample_array ''tab'' = Some tbl" "table_dims sample_array tbl = Some (2, 3)"
    "td_z_bins tbl = ''z''" by (rule sample_table)
  show ?thesis
    using tbl raw_nine cell_bytes
    by (simp add: set_table_cell_def set_array_element_def set_array_element_impl_def
        sample_const_def location_def encode_impl_def limit_both_def limit_by_def write_page_def)
      (simp add: sample_array_def upd_page_def write_raw_def)
qed

theorem tune_change_rights_witness:
  "\<exists>a a1. serve quiet_env 1 (Rq_table_cells ''tab'' (Some ''me'') [(2, 1, nine)]) a = Ret (200, a1)
    \<and> ap_tune a1 \<noteq> ap_tune a \<and> ap_writer a = None \<and> ap_writer a1 = Some ''me''"
proof -
  let ?r = "Rq_table_cells ''tab'' (Some ''me'') [(2, 1, nine)]"
  obtain a0 where "build_state_with_runtime ini_default [] desktop = Ret a0" using build_state_returns by blast
  obtain a :: app_state where a: "ap_tune a = sample_array" "ap_writer a = None"
    by (rule that [of "a0\<lparr>ap_tune := sample_array, ap_writer := None\<rparr>"]) simp_all
  obtain t1 where t1: "set_table_cell 1 ''tab'' 2 1 nine sample_array = Ret (Inr t1)" "t1 \<noteq> sample_array"
    using cell_edit by blast
  have "tn_loaded sample_array" by (simp add: sample_array_def)
  with a t1 obtain a1 where a1: "serve quiet_env 1 ?r a = Ret (200, a1)" "ap_tune a1 = t1"
    by (simp add: tune_table_cells_def as_writer_def acquire_writer_def edit_tune_def text_error_def coded_run_def
        coded_def Let_def)
  from tune_change_rights [OF a1(1)] a1 a t1(2) have "ap_writer a1 = Some ''me''" by (auto simp: client_id_def or_val_def)
  with a1 a t1(2) show ?thesis by metis
qed

end
