(* ===== verification/Server_Errors.thy ===== *)
theory Server_Errors
  imports Server_Sessions
begin

text \<open>
  Error paths and orders of the handlers: the shutdown of the comms thread as the handlers see it, a
  connect that fails after the status was set, an edit list with an error in the middle, and the
  opening of an offline session that overlaps a connect.
\<close>

subsection \<open>Shutdown\<close>

text \<open>
  C26. The shutdown the handlers see is the one the thread performs: on the shared state, the
  thread's own code for \<open>Shutdown\<close> (which closes the log it has open, prunes the log
  directory and ends) has exactly the effect that \<open>thread_shutdown\<close> gives it.
\<close>

theorem shutdown_refines:
  assumes "shares a (lw_comms w)" "cw_edits (lw_comms w) = []" "log_shown w" "ap_comms a = Some h"
    "handle_cmd L ctx d crc show_io ps Shutdown w = Ret (go, w1)"
    "se_prune V = (\<lambda>e. snd (prune_logs (cx_retention ctx) None (ps_listing ps) (ps_remove ps) e))"
  shows "\<not> go \<and> (thread_back h go (lw_comms w1) a)\<lparr>ap_comms := None\<rparr> = thread_shutdown V (a\<lparr>ap_comms := None\<rparr>)"
proof -
  have s: "cw_status (lw_comms w) = ap_status a" "cw_tune (lw_comms w) = ap_tune a" "cw_events (lw_comms w) = []"
    using assms(1) by (simp_all add: shares_def)
  have l: "st_log (ap_status a) = map_option (\<lambda>m. \<lparr>ls_path = mw_path m, ls_rows = mw_rows m\<rparr>) (lw_log w)"
    using assms(3) s by (simp add: log_shown_def)
  show ?thesis
    using assms(2,5,6) s l
    by (cases "lw_log w")
      (auto simp: handle_cmd_def finish_log_def Let_def on_comms_def thread_back_def thread_shutdown_def
        emit_tune_def emit_status_def emit_def log_closed_def upd_status_def prune_status_def upd_tune_def locked_def
        broadcast_tune_def broadcast_status_def disconnected_def tune_message_def)
qed

text \<open>The thread of a connected server, with a log open.\<close>

theorem shutdown_refines_witness:
  "\<exists>a h w w1. ap_comms a = Some h \<and> lw_log w \<noteq> None \<and> st_log (ap_status a) \<noteq> None
    \<and> handle_cmd (frame_link 0) rpm_ctx 5 crc32_ieee (\<lambda>e. []) (sunny_pass 7) Shutdown w = Ret (False, w1)
    \<and> (thread_back h False (lw_comms w1) a)\<lparr>ap_comms := None\<rparr> = thread_shutdown
        (open_env\<lparr>se_prune := \<lambda>e. snd (prune_logs 0 None None (\<lambda>p. None) e)\<rparr>) (a\<lparr>ap_comms := None\<rparr>)"
proof -
  define m where "m = \<lparr>mw_file = \<lparr>df_text = [], df_faults = []\<rparr>, mw_path = ''a.msl'', mw_columns = [],
    mw_rows = 3, mw_last_sync = 0\<rparr>"
  define h where "h = \<lparr>ch_ctx = rpm_ctx, ch_mode = Primary, ch_pages = None, ch_delay = None, ch_sent = [], ch_alive = True\<rparr>"
  define c where "c = upd_status (\<lambda>s. s\<lparr>st_log := Some \<lparr>ls_path = ''a.msl'', ls_rows = 3\<rparr>\<rparr>) (frame_world 0)"
  define w where "w = (idle_state c 0)\<lparr>lw_log := Some m\<rparr>"
  obtain a0 where a0: "build_state_with_runtime rpm_def [] desktop = Ret a0" using build_state_returns by blast
  define a where "a = a0\<lparr>ap_comms := Some h, ap_status := cw_status c, ap_tune := cw_tune c\<rparr>"
  have c: "cw_events c = []" "cw_edits c = []" by (simp_all add: c_def upd_status_def frame_world_def)
  have s: "shares a (lw_comms w)" "log_shown w" "lw_comms w = c" "ap_comms a = Some h"
    by (simp_all add: a_def w_def idle_state_def shares_def c log_shown_def m_def) (simp add: c_def upd_status_def)
  obtain w1 where w1: "handle_cmd (frame_link 0) rpm_ctx 5 crc32_ieee (\<lambda>e. []) (sunny_pass 7) Shutdown w = Ret (False, w1)"
    by (simp add: handle_cmd_def Let_def)
  have "st_log (ap_status a) \<noteq> None" "lw_log w \<noteq> None" by (simp_all add: a_def c_def upd_status_def w_def)
  with shutdown_refines [OF s(1) _ s(2) s(4) w1, of "open_env\<lparr>se_prune := \<lambda>e. snd (prune_logs 0 None None (\<lambda>p. None) e)\<rparr>"]
    s c w1 show ?thesis by (fastforce simp: rpm_ctx_def sunny_pass_def)
qed

subsection \<open>A connect that fails late\<close>

text \<open>
  C35. A connect on the primary port whose page commands do not build answers 500 and yet leaves
  the status connected, with no thread: a disconnect then answers that nothing is connected, an
  offline session is refused because an ECU is connected, and the appliance's supervisor never
  tries again.
\<close>

theorem failed_connect_stuck:
  assumes "mode_of (cr_mode req) = Some Primary" "se_open V (cr_port req) (cr_baud req) = None"
    "ap_comms a = None" "\<not> (st_offline (ap_status a) \<and> any_dirty (ap_tune a))"
    "template_parse (i_och_get_command (ap_def a)) = Inr t" "comms_page_commands (ap_def a) = Inl e"
  shows "\<exists>a1. do_connect V req a = (Inl \<lparr>ae_code = 500, ae_text = show_proto_error (se_show V) e\<rparr>, a1)
    \<and> st_connected (ap_status a1) \<and> ap_comms a1 = None
    \<and> (\<forall>V2. disconnect V2 a1 = refuse 409 ''not connected'' a1) \<and> map_option ae_code (offline_check a1) = Some 409
    \<and> (\<forall>V2 delay. auto_connect_round V2 delay a1 = (1, delay, a1))"
  using assms
  by (auto simp: do_connect_def shutdown_comms_def connect_opened_def session_new_def config_new_def connect_pages_def
      Let_def refuse_def disconnect_def offline_check_def auto_connect_round_def)

text \<open>A definition with a page and no page commands.\<close>

definition bare_page_def :: ini_def where
  "bare_page_def = ini_default\<lparr>i_header := header_default\<lparr>h_page_sizes := [2]\<rparr>\<rparr>"

lemma bare_page_commands: "isl (comms_page_commands bare_page_def)"
  by (simp add: comms_page_commands_def bare_page_def_def ini_default_def header_default_def page_commands_new_def
      page_def_new_def page_tpl_def list_get_def Let_def)

theorem failed_connect_stuck_witness:
  "\<exists>a r a1. do_connect open_env (raw_request\<lparr>cr_mode := ''primary''\<rparr>) a = (Inl r, a1) \<and> ae_code r = 500
    \<and> st_connected (ap_status a1) \<and> disconnect open_env a1 = refuse 409 ''not connected'' a1"
proof -
  obtain a where a: "build_state_with_runtime bare_page_def [] desktop = Ret a" using build_state_returns by blast
  note f = build_state_fields [OF a]
  obtain e where e: "comms_page_commands bare_page_def = Inl e" using bare_page_commands by (auto simp: isl_def)
  have "template_parse (i_och_get_command (ap_def a)) = Inr []"
    by (simp add: f bare_page_def_def ini_default_def empty_template)
  then show ?thesis
    using failed_connect_stuck [of "raw_request\<lparr>cr_mode := ''primary''\<rparr>" open_env a "[]" e] f e
    by (fastforce simp: mode_of_def raw_request_def open_env_def status_default_def)
qed

subsection \<open>Edits with an error in the middle\<close>

lemma edit_each_append:
  "edit_each f xs t = Ret (None, t1) \<Longrightarrow> edit_each f (xs @ ys) t = edit_each f ys t1"
proof (induction xs arbitrary: t)
  case (Cons x xs)
  then obtain r where r: "f x t = Ret r" by (auto simp: run_simps)
  with Cons show ?case by (cases r) simp_all
qed simp

text \<open>
  A list of cell edits is not all or nothing: when the writer's list fails at some cell, the
  answer is 400 with that cell's error, the cells before it stay applied, the rest is skipped,
  and no event tells the clients about the cells that did change.
\<close>

theorem cells_error_partial:
  assumes "ap_writer a \<in> {None, Some (client_id header)}" "tn_loaded (ap_tune a)"
    "edit_each (\<lambda>(row, col, v) t. text_error (set_table_cell d ident row col v t)) xs (ap_tune a) = Ret (None, t1)"
    "set_table_cell d ident row col v t1 = Ret (Inl e)"
  shows "tune_table_cells d ident header (xs @ (row, col, v) # ys) a =
    Ret (refuse 400 (show_tune_error e) (a\<lparr>ap_tune := t1, ap_writer := Some (client_id header)\<rparr>))"
proof -
  let ?f = "\<lambda>(row, col, v) t. text_error (set_table_cell d ident row col v t)"
  have "edit_each ?f (xs @ (row, col, v) # ys) (ap_tune a) = Ret (Some (show_tune_error e), t1)"
    using edit_each_append [OF assms(3)] assms(4) by (simp add: text_error_def)
  moreover have "\<exists>b. acquire_writer header a = (Inr (), b) \<and> b = a\<lparr>ap_writer := Some (client_id header)\<rparr>"
    using assms(1) by (auto simp: acquire_writer_def)
  ultimately show ?thesis
    using assms(2) by (auto simp: tune_table_cells_def as_writer_def edit_tune_def Let_def refuse_def)
qed

theorem cells_error_partial_witness:
  "\<exists>a t1. ap_tune a = sample_array \<and> t1 \<noteq> sample_array \<and>
    (\<exists>msg. tune_table_cells 1 ''tab'' None [(2, 1, nine), (3, 0, nine)] a =
      Ret (refuse 400 msg (a\<lparr>ap_tune := t1, ap_writer := Some ''anonymous''\<rparr>)))"
proof -
  obtain a0 where "build_state_with_runtime ini_default [] desktop = Ret a0" using build_state_returns by blast
  obtain a :: app_state where a: "ap_tune a = sample_array" "ap_writer a = None"
    by (rule that [of "a0\<lparr>ap_tune := sample_array, ap_writer := None\<rparr>"]) simp_all
  obtain t1 where t1: "set_table_cell 1 ''tab'' 2 1 nine sample_array = Ret (Inr t1)" "t1 \<noteq> sample_array"
    using cell_edit by blast
  have loaded: "tn_loaded sample_array" by (simp add: sample_array_def)
  have "edit_each (\<lambda>(row, col, v) t. text_error (set_table_cell 1 ''tab'' row col v t)) [(2, 1, nine)] (ap_tune a)
      = Ret (None, t1)" using a t1 by (simp add: text_error_def)
  moreover have "\<exists>e. set_table_cell 1 ''tab'' 3 0 nine t1 = Ret (Inl e)"
  proof -
    have d: "tn_def t1 = tn_def sample_array" using set_table_frame(2) [OF t1(1)] by (simp add: same_but_data_def)
    obtain tbl where "table_of sample_array ''tab'' = Some tbl" "table_dims sample_array tbl = Some (2, 3)"
      by (rule sample_table)
    with d have "table_of t1 ''tab'' = Some tbl" "table_dims t1 tbl = Some (2, 3)"
      by (simp_all add: table_of_def table_dims_def tune_constant_def)
    then show ?thesis by (simp add: set_table_cell_def)
  qed
  ultimately show ?thesis
    using cells_error_partial [of a None 1 "''tab''" "[(2, 1, nine)]" t1 3 0 nine] a t1(2) loaded
    by (fastforce simp: client_id_def or_val_def)
qed

subsection \<open>Opening an offline session while another request connects\<close>

text \<open>
  C36. The check that no ECU is connected and the installation of the offline session are not
  one step.  When a connect runs between them, the offline session is installed over it: the
  status says offline and not connected while the comms thread runs on.
\<close>

theorem offline_open_race:
  assumes "offline_check a = None" "do_connect V req a = (Inr s, a1)" "offline_install d a1 = Ret (Inr x, a2)"
  shows "thread_runs a2 \<and> st_offline (ap_status a2) \<and> \<not> st_connected (ap_status a2) \<and> \<not> session_ok a2"
proof -
  have off: "\<not> st_connected (ap_status a)" using assms(1) by (simp add: offline_check_def split: if_splits)
  obtain m where m: "mode_of (cr_mode req) = Some m"
    using assms(2) by (cases "mode_of (cr_mode req)") (auto simp: do_connect_def refuse_def)
  have "connect_opened V req m (shutdown_comms V a) = (Inr s, a1)"
    using assms(2) m by (auto simp: do_connect_def refuse_def Let_def split: if_splits option.splits)
  then have "thread_runs a1"
    by (auto simp: connect_opened_def refuse_def Let_def thread_runs_def split: sum.splits)
  with offline_install_shape [OF assms(3)] assms(3) show ?thesis
    by (auto simp: thread_runs_def session_ok_def status_default_def offline_install_def refuse_def)
qed

text \<open>The empty file is uploaded, then the raw port is opened.\<close>

theorem offline_open_race_witness:
  "\<exists>a s a1 x a2. offline_check a = None \<and> do_connect open_env raw_request a = (Inr s, a1)
    \<and> offline_install 0 a1 = Ret (Inr x, a2) \<and> thread_runs a2 \<and> st_offline (ap_status a2)"
proof -
  obtain a0 where a0: "build_state_with_runtime ini_default [] desktop = Ret a0" using build_state_returns by blast
  note f = build_state_fields [OF a0]
  define a where "a = a0\<lparr>ap_msq := Some ([], msq_file_default)\<rparr>"
  have c: "offline_check a = None" by (simp add: a_def f offline_check_def status_default_def)
  obtain s a1 where a1: "do_connect open_env raw_request a = (Inr s, a1)" and m: "ap_msq a1 = Some ([], msq_file_default)"
    using raw_connect [of a] f by (auto simp: a_def ini_default_def status_default_def)
  have "msq_apply 0 msq_file_default None t = Ret (apply_report_default, t)" for t
    by (simp add: msq_apply_def msq_file_default_def)
  moreover have "\<exists>b. refresh_definition a = Ret b" for a
    using definition_ui_returns [OF source_safe(1), of "ap_def a" "ap_tune a" "ap_defaults a"]
    by (auto simp: refresh_definition_def returns_iff)
  ultimately obtain x a2 where a2: "offline_install 0 a1 = Ret (Inr x, a2)"
    using m by (fastforce simp: offline_install_def run_simps)
  from offline_open_race [OF c a1 a2] c a1 a2 show ?thesis by blast
qed

end
