(* ===== verification/Server_Safe.thy ===== *)
theory Server_Safe
  imports Server_Sessions
begin

text \<open>
  The whole server keeps its tune in shape: over requests, rounds of the supervisor and passes of
  the comms thread, the tune has the pages its definition declares, the thread works on the
  definition of the server, and no pass of it panics.
\<close>

definition whole :: "ini_def \<Rightarrow> app_state \<Rightarrow> bool" where
  "whole def a \<longleftrightarrow> ap_def a = def \<and> tune_ok def (ap_tune a)
     \<and> (\<forall>h. ap_comms a = Some h \<longrightarrow> cx_def (ch_ctx h) = def)"

lemma whole_emit [simp]:
  "whole def (emit ev a) = whole def a" "whole def (emit_status a) = whole def a" "whole def (emit_tune a) = whole def a"
  by (simp_all add: whole_def)

lemma loaded_whole: "tune_ok def t \<Longrightarrow> tune_ok def (set_loaded b t)"
  by (rule tune_step_ok [OF tune_step.loaded])

lemma edited_whole:
  assumes "edited a a1" "whole def a"
  shows "whole def a1"
proof -
  have "cx_def (ch_ctx h1) = def" if "ap_comms a1 = Some h1" for h1
    using assms that by (cases "ap_comms a") (auto simp: edited_def whole_def)
  with assms show ?thesis by (auto simp: edited_def whole_def intro: only_bytes_ok)
qed

lemma fresh_whole: "ap_def a = def \<Longrightarrow> tune_ok def (fresh_tune a)"
  using tune_new_ok [of def] by (simp add: fresh_tune_def adopt_pc_values_def tune_ok_def)

lemma shutdown_whole: "whole def a \<Longrightarrow> whole def (stop_comms V h a)" "whole def a \<Longrightarrow> whole def (shutdown_comms V a)"
proof -
  show stop: "whole def (stop_comms V h a)" if "whole def a" for h a
    using that by (auto simp: stop_comms_def thread_shutdown_def Let_def whole_def loaded_whole)
  show "whole def a \<Longrightarrow> whole def (shutdown_comms V a)"
    by (simp add: shutdown_comms_def stop split: option.splits)
qed

lemma connect_whole:
  assumes "whole def a"
  shows "whole def (snd (do_connect V req a))"
proof -
  have "whole def (snd (connect_opened V req m b))" if "whole def b" for m b
    using that fresh_whole [of b def]
    by (auto simp: connect_opened_def refuse_def Let_def whole_def connect_ctx_def split: sum.splits)
  with assms shutdown_whole(2) [OF assms] show ?thesis
    by (simp add: do_connect_def refuse_def Let_def split: option.splits)
qed

lemma disconnect_whole: "whole def a \<Longrightarrow> whole def (snd (disconnect V a))"
  by (simp add: disconnect_def refuse_def Let_def shutdown_whole split: option.splits)

lemma offline_whole:
  assumes "whole def a"
  shows "offline_open d a = Ret (r, a1) \<Longrightarrow> whole def a1" "whole def (snd (offline_close a))"
proof -
  show "whole def (snd (offline_close a))"
    using assms fresh_whole [of a def] by (auto simp: offline_close_def refuse_def Let_def whole_def)
  have "whole def a1" if "offline_install d a = Ret (r, a1)"
    using that
  proof (cases rule: offline_installE)
    case (installed name msq report t a2)
    have "tune_ok def t"
      by (rule only_bytes_ok [OF msq_apply_only [OF installed(2)] fresh_whole]) (use assms in \<open>simp add: whole_def\<close>)
    then have "tune_ok def (set_loaded True (sync_shadows t))"
      by (intro loaded_whole tune_step_ok [OF tune_step.sync])
    with assms refresh_edited [OF installed(3)] installed(4) show ?thesis by (simp add: whole_def)
  qed (use assms in simp)
  with assms show "offline_open d a = Ret (r, a1) \<Longrightarrow> whole def a1"
    by (auto simp: offline_open_def split: option.splits)
qed

lemma serve_whole:
  assumes "serve E d r a = Ret (sc, a1)" "whole def a"
  shows "whole def a1"
proof (cases "session_request r")
  case True
  then show ?thesis
    using assms connect_whole disconnect_whole offline_whole
    by (cases r) (auto simp: coded_Ret coded_run_Ret)
qed (use assms serve_edited edited_whole in blast)

text \<open>The thread's steps, with a link it can rely on.\<close>

lemma thread_back_whole: "whole def a \<Longrightarrow> ap_comms a = Some h \<Longrightarrow> world_ok def c \<Longrightarrow> whole def (thread_back h go c a)"
  by (simp add: whole_def thread_back_def world_ok_def)

lemma shares_world: "shares a c \<Longrightarrow> whole def a \<Longrightarrow> world_ok def c"
  by (simp add: shares_def whole_def world_ok_def)

context steady_link
begin

lemma server_step_whole:
  assumes "server_step L d a a1" "whole def a"
  shows "whole def a1"
  using assms(1)
proof cases
  case (request E k r sc)
  then show ?thesis using assms(2) by (rule serve_whole)
next
  case (supervise V delay n delay1)
  then have "a1 = a \<or> a1 = snd (do_connect V (auto_request a) a)"
    by (auto simp: auto_connect_round_def split: if_splits prod.splits sum.splits)
  with assms(2) connect_whole show ?thesis by blast
next
  case (start h c c1 crc show_io c2)
  have "world_ok def c1"
    using check_signature_ok [OF shares_world [OF start(4) assms(2)], of "ch_ctx h"] start(5) by auto
  then have "world_ok def c2" using first_download_ok [of c1 crc show_io] start(6) by auto
  with start(1,2) assms(2) show ?thesis by (simp add: thread_back_whole)
next
  case (pass h w ps crc show_io go w1)
  have "loop_ok def w" using shares_world [OF pass(4) assms(2)] by (simp add: loop_ok_def)
  moreover have "ctx_ok False (ch_ctx h) def d" using assms(2) pass(2) by (auto simp: ctx_ok_def whole_def)
  ultimately have "steady False def (loop_pass L (ch_ctx h) d crc show_io ps w)" by (rule loop_pass_steady)
  with pass(6) have "world_ok def (lw_comms w1)" by (simp add: loop_ok_def)
  with pass(1,2) assms(2) show ?thesis by (simp add: thread_back_whole)
qed

end

text \<open>
  C2. The tune of the server is never out of shape.  From a fresh server on, after any requests
  that return, rounds of the supervisor and passes of the comms thread on any steady link, every
  page of the tune has the size the definition declares in all three copies.  The next pass of a
  running thread returns, whatever commands have been sent to it and whatever edits meet it at
  its locks, or overflows the stack; it returns when the output channels of the definition do not
  refer to each other in a cycle or deeper than the stack.  A request that panics is not a step of
  the server: it poisons the locks it holds, after which the code's other users of them panic too.
\<close>

theorem server_keeps_tune:
  assumes "build_state_with_runtime def symbols rt = Ret a0" "server_reach L d a0 a" "steady_link L def"
  shows "tune_ok def (ap_tune a) \<and>
    (\<forall>h w ps crc show_io. ap_comms a = Some h \<and> shares a (lw_comms w) \<longrightarrow>
       ((\<exists>go w1. loop_pass L (ch_ctx h) d crc show_io ps w = Ret (go, w1))
        \<or> loop_pass L (ch_ctx h) d crc show_io ps w = Crash StackOverflow) \<and>
       (shallow def d \<longrightarrow> (\<exists>go w1. loop_pass L (ch_ctx h) d crc show_io ps w = Ret (go, w1))))"
proof -
  have "whole def a0"
    using build_state_fields [OF assms(1)] by (simp add: whole_def tune_new_ok)
  with assms(2) have a: "whole def a"
    by (induction rule: server_reach.induct) (auto intro: steady_link.server_step_whole [OF assms(3)])
  have "steady b def (loop_pass L (ch_ctx h) d crc show_io ps w)"
    if "ap_comms a = Some h" "shares a (lw_comms w)" "b \<longrightarrow> shallow def d" for b h w ps crc show_io
  proof (rule steady_link.loop_pass_steady [OF assms(3)])
    show "loop_ok def w" using shares_world [OF that(2) a] by (simp add: loop_ok_def)
    show "ctx_ok b (ch_ctx h) def d" using a that(1,3) by (auto simp: ctx_ok_def whole_def)
  qed
  from this [of _ _ False] this [of _ _ True] a show ?thesis
    by (simp add: steady_def whole_def) blast
qed

text \<open>A client connects to a fresh server with the pages of the demonstration device.\<close>

theorem server_keeps_tune_witness:
  "\<exists>a0 a. build_state_with_runtime demo_def [] desktop = Ret a0
    \<and> server_reach (session_link mock_ops crc32_ieee Primary (Some demo_pages)) 1 a0 a
    \<and> thread_runs a \<and> tune_ok demo_def (ap_tune a)"
proof -
  obtain a0 where a0: "build_state_with_runtime demo_def [] desktop = Ret a0" using build_state_returns by blast
  obtain st a where a: "do_connect open_env raw_request a0 = (Inr st, a)" "thread_runs a"
    using raw_connect [of a0] build_state_fields [OF a0] by (auto simp: demo_def_def ini_default_def status_default_def)
  have "serve quiet_env 0 (Rq_connect raw_request) a0 = Ret (200, a)" using a(1) by (simp add: coded_def quiet_env_def)
  then have "server_step (session_link mock_ops crc32_ieee Primary (Some demo_pages)) 1 a0 a" by (rule server_step.request)
  then have r: "server_reach (session_link mock_ops crc32_ieee Primary (Some demo_pages)) 1 a0 a"
    by (rule server_reach.step [OF server_reach.here])
  from server_keeps_tune [OF a0 r demo_link.steady_link_axioms] a0 r a(2) show ?thesis by blast
qed

end
