(* ===== verification/Auth.thy ===== *)
theory Auth
  imports Command
begin

text \<open>
  Pairing and the request guard, \<open>server/src/auth.rs\<close>.  The hash (SHA-256 in hex), the
  iteration order of a \<open>HashSet\<close> and whether the store file can be written are the
  parameter \<open>auth_env\<close>; the random code and token are arguments; instants are
  nanoseconds.

  \<open>door\<close> is what pairing promises, in plain text: which tokens were handed out and not
  taken back, and which code opens until when.  \<open>sessions_refine\<close> says that the state of
  hashes behaves like it.
\<close>

subsection \<open>State\<close>

record pairing_code =
  pr_hash :: string
  pr_expires :: nat

record auth_state =
  au_required :: bool
  au_approved :: "string set"
  au_pairing :: "pairing_code option"
  au_master_hash :: "string option"
  au_store :: "string option"

text \<open>\<open>au_store\<close> is the content of the store file, if it exists.\<close>

record auth_env =
  an_hash :: "string \<Rightarrow> string"
  an_order :: "string set \<Rightarrow> string list"
  an_writable :: bool

definition auth_new :: "auth_env \<Rightarrow> bool \<Rightarrow> string option \<Rightarrow> string option \<Rightarrow> auth_state" where
  "auth_new E required store master_pin =
     \<lparr>au_required = required,
      au_approved = (case store of None \<Rightarrow> {} | Some s \<Rightarrow> set (str_lines s)),
      au_pairing = None, au_master_hash = map_option (an_hash E) master_pin, au_store = store\<rparr>"

definition persist :: "auth_env \<Rightarrow> auth_state \<Rightarrow> auth_state" where
  "persist E st =
     (if an_writable E then st\<lparr>au_store := Some (str_join [CHR 0x0A] (an_order E (au_approved st)))\<rparr> else st)"

subsection \<open>Pairing\<close>

record pairing_info =
  pi_code :: string
  pi_expires_in :: nat

definition open_pairing :: "auth_env \<Rightarrow> nat \<Rightarrow> nat \<Rightarrow> auth_state \<Rightarrow> pairing_info \<times> auth_state" where
  "open_pairing E n now st =
     (let c = pad_left 6 (show_nat n)
      in (\<lparr>pi_code = c, pi_expires_in = 300\<rparr>,
          st\<lparr>au_pairing := Some \<lparr>pr_hash = an_hash E c, pr_expires = now + 300 * 10 ^ 9\<rparr>\<rparr>))"

definition token_text :: "bytes \<Rightarrow> string" where
  "token_text bs = concat (map (\<lambda>b. [hex_digit (unat b div 16), hex_digit (unat b mod 16)]) bs)"

definition one_time_valid :: "auth_env \<Rightarrow> nat \<Rightarrow> string \<Rightarrow> auth_state \<Rightarrow> bool" where
  "one_time_valid E now c st \<longleftrightarrow>
     (case au_pairing st of None \<Rightarrow> False | Some p \<Rightarrow> now < pr_expires p \<and> pr_hash p = an_hash E c)"

definition approve :: "auth_env \<Rightarrow> nat \<Rightarrow> bytes \<Rightarrow> string \<Rightarrow> auth_state \<Rightarrow> (string + string) \<times> auth_state" where
  "approve E now rnd c st =
     (let once = one_time_valid E now c st;
          master = (au_master_hash st = Some (an_hash E c))
      in if \<not> once \<and> \<not> master then (Inl ''pairing code is invalid or expired'', st)
         else
           (let st1 = (if once then st\<lparr>au_pairing := None\<rparr> else st);
                token = token_text rnd
            in (Inr token,
                persist E (st1\<lparr>au_approved := insert (an_hash E token) (au_approved st1)\<rparr>))))"

definition valid :: "auth_env \<Rightarrow> string \<Rightarrow> auth_state \<Rightarrow> bool" where
  "valid E token st \<longleftrightarrow> an_hash E token \<in> au_approved st"

definition revoke :: "auth_env \<Rightarrow> string \<Rightarrow> auth_state \<Rightarrow> auth_state" where
  "revoke E token st = persist E (st\<lparr>au_approved := au_approved st - {an_hash E token}\<rparr>)"

subsection \<open>Requests\<close>

datatype http_method = GET | HEAD | OPTIONS | POST | PUT | Other_method string

record request_head =
  rq_method :: http_method
  rq_path :: string
  rq_cookie :: "string option"
  rq_origin :: "string option"
  rq_host :: "string option"

text \<open>The first header of each name, when it is visible text.\<close>

definition cookie :: "request_head \<Rightarrow> string option" where
  "cookie rq =
     Option.bind (rq_cookie rq) (\<lambda>h.
       List.find (\<lambda>_. True)
         (List.map_filter (\<lambda>c. strip_prefix ''rustytune_session='' (trim c)) (split_on CHR '';'' h)))"

text \<open>An answer of the guard or of a pairing handler: status code, \<open>Set-Cookie\<close>, error text.\<close>

record answer =
  an_status :: nat
  an_set_cookie :: "string option"
  an_error :: "string option"

definition pair_request :: "auth_env \<Rightarrow> nat \<Rightarrow> bytes \<Rightarrow> string \<Rightarrow> auth_state \<Rightarrow> answer \<times> auth_state" where
  "pair_request E now rnd c st =
     (case approve E now rnd c st of
        (Inr token, st1) \<Rightarrow>
          (\<lparr>an_status = 200, an_set_cookie = Some (''rustytune_session='' @ token
             @ ''; Path=/; Max-Age=31536000; HttpOnly; SameSite=Strict''), an_error = None\<rparr>, st1)
      | (Inl e, st1) \<Rightarrow> (\<lparr>an_status = 401, an_set_cookie = None, an_error = Some e\<rparr>, st1))"

definition logout :: "auth_env \<Rightarrow> request_head \<Rightarrow> auth_state \<Rightarrow> answer \<times> auth_state" where
  "logout E rq st =
     (\<lparr>an_status = 204,
       an_set_cookie = Some ''rustytune_session=; Path=/; Max-Age=0; HttpOnly; SameSite=Strict'', an_error = None\<rparr>,
      case cookie rq of Some t \<Rightarrow> revoke E t st | None \<Rightarrow> st)"

definition same_origin :: "request_head \<Rightarrow> bool" where
  "same_origin rq \<longleftrightarrow>
     (case (rq_origin rq, rq_host rq) of
        (Some o1, Some h) \<Rightarrow> o1 = ''http://'' @ h \<or> o1 = ''https://'' @ h
      | _ \<Rightarrow> False)"

text \<open>\<open>require_auth\<close>: \<open>None\<close> hands the request on.\<close>

definition require_auth :: "auth_env \<Rightarrow> auth_state \<Rightarrow> request_head \<Rightarrow> answer option" where
  "require_auth E st rq =
     (if \<not> au_required st then None
      else if rq_path rq = ''/api/health'' \<or> rq_path rq = ''/api/pair'' \<or> \<not> starts_with ''/api/'' (rq_path rq)
      then None
      else if \<not> (case cookie rq of Some t \<Rightarrow> valid E t st | None \<Rightarrow> False)
      then Some \<lparr>an_status = 401, an_set_cookie = None, an_error = Some ''pairing required''\<rparr>
      else if rq_method rq \<notin> {GET, HEAD, OPTIONS} \<and> rq_origin rq \<noteq> None \<and> \<not> same_origin rq
      then Some \<lparr>an_status = 403, an_set_cookie = None, an_error = Some ''cross-origin request rejected''\<rparr>
      else None)"

text \<open>Every token of the guard is one that was approved, and what passes is not cross-origin.\<close>

theorem guarded_api_request:
  assumes "au_required st" "starts_with ''/api/'' (rq_path rq)"
    "rq_path rq \<noteq> ''/api/health''" "rq_path rq \<noteq> ''/api/pair''" "require_auth E st rq = None"
  shows "(\<exists>t. cookie rq = Some t \<and> valid E t st) \<and>
    (rq_method rq \<in> {GET, HEAD, OPTIONS} \<or> rq_origin rq = None \<or> same_origin rq)"
  using assms by (auto simp: require_auth_def split: if_splits option.splits)

subsection \<open>The contract of pairing\<close>

text \<open>What happens at the door: a window opens with a code, somebody pairs, somebody logs out.\<close>

datatype auth_op =
    Open_window nat nat
  | Pair string nat bytes
  | Log_out string

fun auth_step :: "auth_env \<Rightarrow> auth_op \<Rightarrow> auth_state \<Rightarrow> (string + string) option \<times> auth_state" where
  "auth_step E (Open_window n now) st = (None, snd (open_pairing E n now st))"
| "auth_step E (Pair c now rnd) st = (let (r, st1) = approve E now rnd c st in (Some r, st1))"
| "auth_step E (Log_out t) st = (None, revoke E t st)"

record door =
  do_tokens :: "string set"
  do_window :: "(string \<times> nat) option"
  do_master :: "string option"

text \<open>A window is open for five minutes and closes behind the first who uses its code.\<close>

definition window_opens :: "door \<Rightarrow> string \<Rightarrow> nat \<Rightarrow> bool" where
  "window_opens d c now \<longleftrightarrow> (\<exists>e. do_window d = Some (c, e) \<and> now < e)"

fun door_step :: "auth_op \<Rightarrow> door \<Rightarrow> (string + string) option \<times> door" where
  "door_step (Open_window n now) d =
     (None, d\<lparr>do_window := Some (pad_left 6 (show_nat n), now + 300 * 10 ^ 9)\<rparr>)"
| "door_step (Pair c now rnd) d =
     (if window_opens d c now
      then (Some (Inr (token_text rnd)),
            d\<lparr>do_tokens := insert (token_text rnd) (do_tokens d), do_window := None\<rparr>)
      else if do_master d = Some c
      then (Some (Inr (token_text rnd)), d\<lparr>do_tokens := insert (token_text rnd) (do_tokens d)\<rparr>)
      else (Some (Inl ''pairing code is invalid or expired''), d))"
| "door_step (Log_out t) d = (None, d\<lparr>do_tokens := do_tokens d - {t}\<rparr>)"

fun run_steps :: "('o \<Rightarrow> 's \<Rightarrow> 'r \<times> 's) \<Rightarrow> 'o list \<Rightarrow> 's \<Rightarrow> 'r list \<times> 's" where
  "run_steps f [] s = ([], s)"
| "run_steps f (x # xs) s = (let (r, s1) = f x s; (rs, s2) = run_steps f xs s1 in (r # rs, s2))"

text \<open>The texts an operation hashes.\<close>

fun op_texts :: "auth_op \<Rightarrow> string set" where
  "op_texts (Open_window n now) = {pad_left 6 (show_nat n)}"
| "op_texts (Pair c now rnd) = {c, token_text rnd}"
| "op_texts (Log_out t) = {t}"

text \<open>The hashed state of a door, over texts \<open>U\<close> without a collision.\<close>

definition door_repr :: "auth_env \<Rightarrow> string set \<Rightarrow> door \<Rightarrow> auth_state \<Rightarrow> bool" where
  "door_repr E U d st \<longleftrightarrow>
     do_tokens d \<subseteq> U \<and> au_approved st = an_hash E ` do_tokens d
     \<and> au_pairing st = map_option (\<lambda>(c, e). \<lparr>pr_hash = an_hash E c, pr_expires = e\<rparr>) (do_window d)
     \<and> (case do_window d of None \<Rightarrow> True | Some (c, e) \<Rightarrow> c \<in> U)
     \<and> au_master_hash st = map_option (an_hash E) (do_master d)
     \<and> (case do_master d of None \<Rightarrow> True | Some m \<Rightarrow> m \<in> U)"

lemma persist_simps [simp]:
  "au_approved (persist E st) = au_approved st" "au_pairing (persist E st) = au_pairing st"
  "au_master_hash (persist E st) = au_master_hash st" "au_required (persist E st) = au_required st"
  by (simp_all add: persist_def)

lemma same_text: "inj_on h U \<Longrightarrow> x \<in> U \<Longrightarrow> y \<in> U \<Longrightarrow> h x = h y \<longleftrightarrow> x = y"
  by (auto dest: inj_onD)

lemma window_repr:
  assumes "inj_on (an_hash E) U" "door_repr E U d st" "c \<in> U"
  shows "one_time_valid E now c st \<longleftrightarrow> window_opens d c now"
    "au_master_hash st = Some (an_hash E c) \<longleftrightarrow> do_master d = Some c"
  using assms(2,3) same_text [OF assms(1), of _ c]
  by (auto simp: door_repr_def one_time_valid_def window_opens_def split: option.splits)

lemma approve_repr:
  assumes "inj_on (an_hash E) U" "door_repr E U d st" "c \<in> U" "token_text rnd \<in> U"
  shows "fst (auth_step E (Pair c now rnd) st) = fst (door_step (Pair c now rnd) d)"
    "door_repr E U (snd (door_step (Pair c now rnd) d)) (snd (auth_step E (Pair c now rnd) st))"
  using window_repr(1) [OF assms(1-3), of now] window_repr(2) [OF assms(1-3)] assms(2,4)
  by (auto simp: approve_def Let_def door_repr_def split: if_splits)

lemma revoke_repr:
  assumes "inj_on (an_hash E) U" "door_repr E U d st" "t \<in> U"
  shows "door_repr E U (d\<lparr>do_tokens := do_tokens d - {t}\<rparr>) (revoke E t st)"
proof -
  have sub: "do_tokens d \<subseteq> U" and app: "au_approved st = an_hash E ` do_tokens d"
    using assms(2) by (auto simp: door_repr_def)
  have "an_hash E ` (do_tokens d - {t}) = an_hash E ` do_tokens d - {an_hash E t}"
    using inj_on_image_set_diff [OF assms(1), of "do_tokens d" "{t}"] sub assms(3) by auto
  with assms(2) sub app show ?thesis by (auto simp: door_repr_def revoke_def)
qed

lemma step_repr:
  assumes "inj_on (an_hash E) U" "door_repr E U d st" "op_texts x \<subseteq> U"
  shows "fst (auth_step E x st) = fst (door_step x d)"
    "door_repr E U (snd (door_step x d)) (snd (auth_step E x st))"
proof -
  show "fst (auth_step E x st) = fst (door_step x d)"
    using assms approve_repr(1) by (cases x) auto
  show "door_repr E U (snd (door_step x d)) (snd (auth_step E x st))"
    using assms approve_repr(2) revoke_repr
    by (cases x) (auto simp: open_pairing_def Let_def door_repr_def)
qed

lemma steps_repr:
  assumes "inj_on (an_hash E) U" "door_repr E U d st" "\<forall>x \<in> set xs. op_texts x \<subseteq> U"
  shows "fst (run_steps (auth_step E) xs st) = fst (run_steps door_step xs d)
    \<and> door_repr E U (snd (run_steps door_step xs d)) (snd (run_steps (auth_step E) xs st))"
  using assms(2,3)
proof (induction xs arbitrary: d st)
  case (Cons x xs)
  then have "op_texts x \<subseteq> U" "\<forall>x \<in> set xs. op_texts x \<subseteq> U" by auto
  with step_repr [OF assms(1) Cons.prems(1)] Cons.IH show ?case by (simp add: case_prod_beta)
qed simp

text \<open>
  C16. The server keeps hashes only, yet it behaves like the door: the same answers to every
  pairing attempt, and a token is accepted exactly when it was handed out and not revoked.
\<close>

theorem sessions_refine:
  assumes "inj_on (an_hash E) U" "\<forall>x \<in> set xs. op_texts x \<subseteq> U"
    "case pin of None \<Rightarrow> True | Some m \<Rightarrow> m \<in> U" "t \<in> U"
  shows "fst (run_steps (auth_step E) xs (auth_new E required None pin))
        = fst (run_steps door_step xs \<lparr>do_tokens = {}, do_window = None, do_master = pin\<rparr>) \<and>
    (valid E t (snd (run_steps (auth_step E) xs (auth_new E required None pin)))
      \<longleftrightarrow> t \<in> do_tokens (snd (run_steps door_step xs \<lparr>do_tokens = {}, do_window = None, do_master = pin\<rparr>)))"
proof -
  let ?d = "\<lparr>do_tokens = {}, do_window = None, do_master = pin\<rparr>"
  let ?st = "auth_new E required None pin"
  have "door_repr E U ?d ?st" using assms(3) by (auto simp: door_repr_def auth_new_def)
  note end_state = steps_repr [OF assms(1) this assms(2)]
  then have sub: "do_tokens (snd (run_steps door_step xs ?d)) \<subseteq> U"
    and app: "au_approved (snd (run_steps (auth_step E) xs ?st)) = an_hash E ` do_tokens (snd (run_steps door_step xs ?d))"
    by (simp_all add: door_repr_def)
  have "an_hash E t \<in> an_hash E ` do_tokens (snd (run_steps door_step xs ?d))
      \<longleftrightarrow> t \<in> do_tokens (snd (run_steps door_step xs ?d))"
    using inj_on_image_mem_iff [OF assms(1) assms(4) sub] .
  with end_state app show ?thesis by (simp add: valid_def)
qed

definition plain_env :: auth_env where
  "plain_env = \<lparr>an_hash = (\<lambda>s. ''#'' @ s), an_order = (\<lambda>S. []), an_writable = True\<rparr>"

text \<open>A code pairs one device; the second attempt with it is refused.\<close>

theorem sessions_refine_witness:
  "valid plain_env (token_text [1, 255]) (snd (run_steps (auth_step plain_env)
      [Open_window 42 0, Pair ''000042'' 1 [1, 255], Pair ''000042'' 2 [7, 7]] (auth_new plain_env True None None)))"
proof -
  let ?ops = "[Open_window 42 0, Pair ''000042'' 1 [1, 255], Pair ''000042'' 2 [7, 7]]"
  have code: "pad_left 6 (show_nat 42) = ''000042''" by code_simp
  have "inj_on (an_hash plain_env) UNIV" by (auto simp: plain_env_def inj_on_def)
  from sessions_refine [OF this, of ?ops None "token_text [1, 255]" True]
  show ?thesis by (simp add: code window_opens_def)
qed

subsection \<open>Restarts\<close>

text \<open>
  Paired devices survive a restart: reading the store back gives the approved hashes, after
  any sequence of operations.  Hashes are printed without line ends.
\<close>

definition store_faithful :: "auth_env \<Rightarrow> auth_state \<Rightarrow> bool" where
  "store_faithful E st \<longleftrightarrow>
     au_approved st \<subseteq> range (an_hash E) \<and> au_approved (auth_new E True (au_store st) None) = au_approved st"

lemma persist_faithful:
  assumes "an_writable E" "set (an_order E (au_approved st)) = au_approved st"
    "\<forall>x. an_hash E x \<noteq> [] \<and> CHR 0x0A \<notin> set (an_hash E x) \<and> CHR 0x0D \<notin> set (an_hash E x)"
    "au_approved st \<subseteq> range (an_hash E)"
  shows "store_faithful E (persist E st)"
proof -
  have "\<forall>p \<in> set (an_order E (au_approved st)). p \<noteq> [] \<and> CHR 0x0A \<notin> set p \<and> CHR 0x0D \<notin> set p"
  proof
    fix p assume "p \<in> set (an_order E (au_approved st))"
    then obtain x where "p = an_hash E x" using assms(2,4) by auto
    then show "p \<noteq> [] \<and> CHR 0x0A \<notin> set p \<and> CHR 0x0D \<notin> set p" using assms(3) by simp
  qed
  note lines_join [OF this]
  then have "set (str_lines (str_join [CHR 0x0A] (an_order E (au_approved st)))) = au_approved st"
    by (simp only: assms(2))
  moreover have "au_store (persist E st) = Some (str_join [CHR 0x0A] (an_order E (au_approved st)))"
    using assms(1) by (simp add: persist_def)
  ultimately show ?thesis
    using assms(4) unfolding store_faithful_def auth_new_def by (simp only: persist_simps option.case auth_state.select_convs)
qed

lemma auth_step_faithful:
  assumes "an_writable E" "\<forall>S. finite S \<and> S \<subseteq> range (an_hash E) \<longrightarrow> set (an_order E S) = S"
    "\<forall>x. an_hash E x \<noteq> [] \<and> CHR 0x0A \<notin> set (an_hash E x) \<and> CHR 0x0D \<notin> set (an_hash E x)"
    "store_faithful E st" "finite (au_approved st)"
  shows "store_faithful E (snd (auth_step E x st)) \<and> finite (au_approved (snd (auth_step E x st)))"
proof -
  have keep: "store_faithful E (persist E st1)" if "au_approved st1 \<subseteq> range (an_hash E)" "finite (au_approved st1)" for st1
    using that assms(2) by (intro persist_faithful [OF assms(1) _ assms(3)]) blast+
  have sub: "au_approved st \<subseteq> range (an_hash E)" using assms(4) by (simp add: store_faithful_def)
  show ?thesis
  proof (cases x)
    case (Open_window n now)
    then show ?thesis using assms(4,5) by (simp add: open_pairing_def Let_def store_faithful_def auth_new_def)
  next
    case (Pair c now rnd)
    then show ?thesis using assms(4,5) sub keep by (simp add: approve_def Let_def)
  next
    case (Log_out t)
    have "store_faithful E (revoke E t st)"
      using assms(5) sub unfolding revoke_def by (intro keep) auto
    then show ?thesis using Log_out assms(5) by (simp add: revoke_def)
  qed
qed

theorem devices_survive_restart:
  assumes "an_writable E" "\<forall>S. finite S \<and> S \<subseteq> range (an_hash E) \<longrightarrow> set (an_order E S) = S"
    "\<forall>x. an_hash E x \<noteq> [] \<and> CHR 0x0A \<notin> set (an_hash E x) \<and> CHR 0x0D \<notin> set (an_hash E x)"
    "st = snd (run_steps (auth_step E) xs (auth_new E required None pin))"
  shows "valid E t (auth_new E required (au_store st) pin) \<longleftrightarrow> valid E t st"
proof -
  have "store_faithful E st0 \<Longrightarrow> finite (au_approved st0) \<Longrightarrow>
      store_faithful E (snd (run_steps (auth_step E) xs st0))" for st0
    using auth_step_faithful [OF assms(1-3)]
    by (induction xs arbitrary: st0) (auto simp: case_prod_beta)
  moreover have "store_faithful E (auth_new E required None pin)" "finite (au_approved (auth_new E required None pin))"
    by (simp_all add: store_faithful_def auth_new_def)
  ultimately have "store_faithful E st" using assms(4) by blast
  then show ?thesis by (simp add: store_faithful_def valid_def auth_new_def)
qed

text \<open>One device, under a hash that is the same for all.\<close>

definition one_device_env :: auth_env where
  "one_device_env =
     \<lparr>an_hash = (\<lambda>s. ''h''), an_order = (\<lambda>S. if S = {} then [] else [''h'']), an_writable = True\<rparr>"

lemma one_device_laws:
  "an_writable one_device_env"
  "\<forall>S. finite S \<and> S \<subseteq> range (an_hash one_device_env) \<longrightarrow> set (an_order one_device_env S) = S"
  "\<forall>x. an_hash one_device_env x \<noteq> [] \<and> CHR 0x0A \<notin> set (an_hash one_device_env x)
    \<and> CHR 0x0D \<notin> set (an_hash one_device_env x)"
  by (auto simp: one_device_env_def)

theorem devices_survive_restart_witness:
  "valid one_device_env ''x'' (auth_new one_device_env True (au_store (snd (run_steps (auth_step one_device_env)
     [Open_window 7 0, Pair ''000007'' 5 [3]] (auth_new one_device_env True None None)))) None)"
  unfolding devices_survive_restart [OF one_device_laws refl]
  by (simp add: one_device_env_def approve_def one_time_valid_def open_pairing_def Let_def valid_def auth_new_def)
end
