(* ===== verification/Startup.thy ===== *)
theory Startup
  imports Auth Ini_Parse Server_Sessions
begin

text \<open>
  From the command line to the running server: \<open>main\<close> up to the listener
  (\<open>server/src/main.rs\<close>), the guarded router (\<open>app\<close> of \<open>server/src/lib.rs\<close>) and the
  commands of the management socket (\<open>server/src/admin.rs\<close>).  Reading files, the TOML
  library and the hash are parameters.
\<close>

subsection \<open>The command line\<close>

record args =
  ag_profile :: profile
  ag_config :: "string option"
  ag_port :: "nat option"
  ag_bind :: "ip_addr option"
  ag_no_open :: bool
  ag_ini :: "string option"
  ag_symbols :: "string list"
  ag_log_dir :: "string option"
  ag_allow_unsafe_no_auth :: bool

definition config_path :: "args \<Rightarrow> string option" where
  "config_path g =
     (case ag_config g of
        Some p \<Rightarrow> Some p
      | None \<Rightarrow> if ag_profile g = Appliance then Some ''/etc/rustytune/rustytune.toml'' else None)"

text \<open>What the options change in the loaded configuration.\<close>

definition with_args :: "args \<Rightarrow> runtime_config \<Rightarrow> runtime_config" where
  "with_args g rt =
     (let s = rc_server rt;
          s1 = s\<lparr>sc_bind := or_val (sc_bind s) (ag_bind g), sc_port := or_val (sc_port s) (ag_port g),
                 sc_open_browser := sc_open_browser s \<and> \<not> ag_no_open g\<rparr>
      in rt\<lparr>rc_server := s1,
            rc_logging := (rc_logging rt)\<lparr>lc_directory := or_val (lc_directory (rc_logging rt)) (ag_log_dir g)\<rparr>,
            rc_ecu := (rc_ecu rt)\<lparr>ec_ini := (case ag_ini g of Some p \<Rightarrow> Some p | None \<Rightarrow> ec_ini (rc_ecu rt))\<rparr>\<rparr>)"

definition refuse_open_listener :: "args \<Rightarrow> runtime_config \<Rightarrow> bool" where
  "refuse_open_listener g rt \<longleftrightarrow>
     ag_profile g = Appliance \<and> \<not> is_loopback (sc_bind (rc_server rt))
     \<and> \<not> ac_required (rc_authentication rt) \<and> \<not> ag_allow_unsafe_no_auth g"

definition start_config :: "toml_lib \<Rightarrow> disk \<Rightarrow> args \<Rightarrow> string + runtime_config" where
  "start_config L D g =
     res_bind (case config_path g of
                 Some p \<Rightarrow> config_load L D p (profile_config (ag_profile g))
               | None \<Rightarrow> Inr (profile_config (ag_profile g))) (\<lambda>loaded.
       let rt = with_args g loaded
       in res_bind (runtime_validate rt) (\<lambda>u.
            if refuse_open_listener g rt
            then Inl ''refusing unauthenticated non-loopback appliance listener; enable authentication or pass --allow-unsafe-no-auth''
            else Inr rt))"

subsection \<open>The server that is started\<close>

record server =
  sv_state :: app_state
  sv_auth :: auth_state
  sv_bind :: ip_addr
  sv_port :: nat
  sv_supervised :: bool
  sv_admin_socket :: "string option"
  sv_open_browser :: bool

text \<open>
  The appliance is built with the loaded configuration, the desktop with the default one and
  the log directory only.  \<open>stored\<close> is the session file of a state directory.
\<close>

definition build_server ::
    "auth_env \<Rightarrow> (string \<Rightarrow> string option) \<Rightarrow> args \<Rightarrow> runtime_config \<Rightarrow> ini_def \<Rightarrow> server run" where
  "build_server E stored g rt def =
     run_map (\<lambda>(a, au).
         \<lparr>sv_state = a, sv_auth = au, sv_bind = sc_bind (rc_server rt), sv_port = sc_port (rc_server rt),
          sv_supervised = ec_auto_connect (rc_ecu (ap_runtime a)),
          sv_admin_socket = sc_admin_socket (rc_server rt), sv_open_browser = sc_open_browser (rc_server rt)\<rparr>)
       (if ag_profile g = Appliance
        then run_map (\<lambda>a. (a, auth_new E (ac_required (rc_authentication rt))
               (stored (ac_state_directory (rc_authentication rt))) (ac_master_pin (rc_authentication rt))))
             (build_state_with_runtime def (ag_symbols g) rt)
        else run_map (\<lambda>a. (a, auth_new E False (stored ''.'') None))
             (build_state def (ag_symbols g) (lc_directory (rc_logging rt))))"

definition ini_error_text :: string where "ini_error_text = ''failed to parse ECU definition''"

definition start_server ::
    "auth_env \<Rightarrow> (string \<Rightarrow> string option) \<Rightarrow> toml_lib \<Rightarrow> disk \<Rightarrow> string \<Rightarrow> args \<Rightarrow> (string + server) run" where
  "start_server E stored L D embedded g =
     rr_bind (Ret (start_config L D g)) (\<lambda>rt.
     rr_bind (Ret (case ec_ini (rc_ecu rt) of Some p \<Rightarrow> dk_read D p | None \<Rightarrow> Inr embedded)) (\<lambda>src.
     run_bind (parse_with_symbols src (set (ag_symbols g))) (\<lambda>r. case r of
         Inl e \<Rightarrow> rr_fail ini_error_text
       | Inr def \<Rightarrow> run_map Inr (build_server E stored g rt def))))"

lemma start_serverE:
  assumes "start_server E stored L D embedded g = Ret (Inr sv)"
  obtains rt def where "start_config L D g = Inr rt" "build_server E stored g rt def = Ret sv"
proof -
  obtain rt where rt: "start_config L D g = Inr rt"
    using assms by (cases "start_config L D g") (auto simp: start_server_def)
  obtain src where src: "(case ec_ini (rc_ecu rt) of Some p \<Rightarrow> dk_read D p | None \<Rightarrow> Inr embedded) = Inr src"
    using assms rt
    by (cases "case ec_ini (rc_ecu rt) of Some p \<Rightarrow> dk_read D p | None \<Rightarrow> Inr embedded") (auto simp: start_server_def)
  obtain r where r: "parse_with_symbols src (set (ag_symbols g)) = Ret r"
    using assms rt src by (auto simp: start_server_def run_simps)
  show thesis
    using assms rt src r that by (cases r) (auto simp: start_server_def run_simps)
qed

text \<open>
  C37. The desktop profile takes the listener from the configuration file but not its authentication:
  a desktop server that starts never asks for pairing, does not connect by itself and runs with
  the default engine-stop and log settings, whatever the file says, and even where the file
  requires authentication and binds an address that is not loopback.
\<close>

theorem desktop_drops_authentication:
  assumes "start_server E stored L D embedded g = Ret (Inr sv)" "ag_profile g = Desktop"
  shows "\<exists>rt. start_config L D g = Inr rt \<and> sv_bind sv = sc_bind (rc_server rt)
    \<and> ap_runtime (sv_state sv) = desktop \<and> \<not> sv_supervised sv \<and> (\<forall>rq. require_auth E (sv_auth sv) rq = None)"
proof -
  obtain rt def where rt: "start_config L D g = Inr rt" "build_server E stored g rt def = Ret sv"
    using assms(1) by (rule start_serverE)
  then have "sv_bind sv = sc_bind (rc_server rt)" "sv_auth sv = auth_new E False (stored ''.'') None"
    "ap_runtime (sv_state sv) = desktop" "\<not> sv_supervised sv"
    using assms(2) by (auto simp: build_server_def build_state_def Let_def run_simps desktop_def ecu_config_default_def)
  with rt(1) show ?thesis by (simp add: require_auth_def auth_new_def)
qed

text \<open>A configuration file that requires authentication on all addresses, on a desktop.\<close>

definition lan_config :: runtime_config where
  "lan_config = desktop\<lparr>rc_server := server_config_default\<lparr>sc_bind := V4 0 0 0 0\<rparr>,
     rc_authentication := auth_config_default\<lparr>ac_required := True\<rparr>\<rparr>"

definition lan_toml :: toml_lib where
  "lan_toml = \<lparr>tl_of_config = \<lambda>c. Inr (Tbl []), tl_parse = \<lambda>s. Inr (Tbl []), tl_to_config = \<lambda>v. Inr lan_config,
     tl_print = \<lambda>c. Inr []\<rparr>"

definition lan_disk :: disk where
  "lan_disk = \<lparr>dk_exists = \<lambda>p. True, dk_read = \<lambda>p. Inr []\<rparr>"

definition lan_args :: "profile \<Rightarrow> args" where
  "lan_args p = \<lparr>ag_profile = p, ag_config = Some ''c.toml'', ag_port = None, ag_bind = None, ag_no_open = True,
     ag_ini = None, ag_symbols = [], ag_log_dir = None, ag_allow_unsafe_no_auth = False\<rparr>"

lemma lan_start: "start_config lan_toml lan_disk (lan_args p) =
    Inr (with_args (lan_args p) (lan_config\<lparr>rc_source_path := Some ''c.toml''\<rparr>))"
  by (simp add: start_config_def config_path_def config_load_def lan_args_def lan_disk_def lan_toml_def lan_config_def
      desktop_def with_args_def runtime_validate_def config_validate_def shutdown_config_default_def auth_config_default_def
      refuse_open_listener_def Let_def f_of_int_exact fle_def)

lemma build_server_returns: "\<exists>sv. build_server E stored g rt def = Ret sv"
  using build_state_returns [of def "ag_symbols g" rt]
    definition_ui_returns [OF source_safe(2), of def "defaults_from_ini def"]
  by (auto simp: build_server_def build_state_def Let_def returns_iff)

lemma lan_started: "\<exists>sv. start_server E stored lan_toml lan_disk sample_constants (lan_args p) = Ret (Inr sv)"
proof -
  obtain d where d: "parse_with_symbols sample_constants {} = Ret (Inr d)" using sample_parsed by blast
  obtain sv where "build_server E stored (lan_args p)
      (with_args (lan_args p) (lan_config\<lparr>rc_source_path := Some ''c.toml''\<rparr>)) d = Ret sv"
    using build_server_returns by blast
  moreover have "ec_ini (rc_ecu (with_args (lan_args p) (lan_config\<lparr>rc_source_path := Some ''c.toml''\<rparr>))) = None"
    "set (ag_symbols (lan_args p)) = {}"
    by (simp_all add: with_args_def lan_args_def lan_config_def desktop_def ecu_config_default_def Let_def)
  ultimately show ?thesis using d by (simp add: start_server_def lan_start)
qed

theorem desktop_drops_authentication_witness:
  "\<exists>rt. start_config lan_toml lan_disk (lan_args Desktop) = Inr rt \<and> ac_required (rc_authentication rt)
    \<and> \<not> is_loopback (sc_bind (rc_server rt))
    \<and> (\<exists>sv. start_server one_device_env (\<lambda>d. None) lan_toml lan_disk sample_constants (lan_args Desktop) = Ret (Inr sv)
        \<and> sv_bind sv = sc_bind (rc_server rt) \<and> (\<forall>rq. require_auth one_device_env (sv_auth sv) rq = None))"
proof -
  obtain sv where sv: "start_server one_device_env (\<lambda>d. None) lan_toml lan_disk sample_constants (lan_args Desktop) = Ret (Inr sv)"
    using lan_started by blast
  let ?rt = "with_args (lan_args Desktop) (lan_config\<lparr>rc_source_path := Some ''c.toml''\<rparr>)"
  have "ag_profile (lan_args Desktop) = Desktop" by (simp add: lan_args_def)
  note desktop_drops_authentication [OF sv this]
  moreover have "ac_required (rc_authentication ?rt) \<and> \<not> is_loopback (sc_bind (rc_server ?rt))"
    by (simp add: with_args_def lan_args_def lan_config_def auth_config_default_def server_config_default_def
        is_loopback_def or_val_def Let_def)
  ultimately show ?thesis using sv by (fastforce simp: lan_start)
qed

subsection \<open>The guarded router\<close>

text \<open>The method and the path of a request, without the escapes of a URL.\<close>

fun route :: "request \<Rightarrow> http_method \<times> string" where
  "route Rq_status = (GET, ''/api/status'')"
| "route Rq_definition = (GET, ''/api/definition'')"
| "route (Rq_connect req) = (POST, ''/api/connect'')"
| "route Rq_disconnect = (POST, ''/api/disconnect'')"
| "route Rq_log_start = (POST, ''/api/log/start'')"
| "route Rq_log_stop = (POST, ''/api/log/stop'')"
| "route Rq_summary = (GET, ''/api/tune'')"
| "route (Rq_table ident) = (GET, ''/api/tune/table/'' @ ident)"
| "route (Rq_table_cells ident header cells) = (POST, ''/api/tune/table/'' @ ident @ ''/cells'')"
| "route (Rq_table_axis ident header edit) = (POST, ''/api/tune/table/'' @ ident @ ''/axis'')"
| "route (Rq_curve ident) = (GET, ''/api/tune/curve/'' @ ident)"
| "route (Rq_curve_points ident header points) = (POST, ''/api/tune/curve/'' @ ident @ ''/points'')"
| "route Rq_menus = (GET, ''/api/tune/menus'')"
| "route (Rq_dialog name) = (GET, ''/api/tune/dialog/'' @ name)"
| "route (Rq_constants names) = (GET, ''/api/tune/constants'')"
| "route (Rq_constant name header v) = (POST, ''/api/tune/constant/'' @ name)"
| "route (Rq_burn header) = (POST, ''/api/tune/burn'')"
| "route Rq_calibration = (GET, ''/api/tune/afr-calibration'')"
| "route (Rq_calibration_write header l) = (POST, ''/api/tune/afr-calibration'')"
| "route Rq_offline_open = (POST, ''/api/offline'')"
| "route Rq_offline_close = (POST, ''/api/offline/close'')"
| "route (Rq_msq_upload name content) = (POST, ''/api/msq'')"
| "route Rq_msq_diff = (GET, ''/api/msq/diff'')"
| "route (Rq_msq_apply header names) = (POST, ''/api/msq/apply'')"
| "route Rq_msq_save = (GET, ''/api/msq/save'')"
| "route (Rq_lock_release header) = (POST, ''/api/lock/release'')"

text \<open>A request through the guard: refused with its code, or served.\<close>

definition guarded ::
    "auth_env \<Rightarrow> auth_state \<Rightarrow> request_env \<Rightarrow> nat \<Rightarrow> request_head \<Rightarrow> request \<Rightarrow> app_state \<Rightarrow> (nat \<times> app_state) run" where
  "guarded A st E d rq r a =
     (case require_auth A st rq of Some ans \<Rightarrow> Ret (an_status ans, a) | None \<Rightarrow> serve E d r a)"

lemma route_api:
  "starts_with ''/api/'' (snd (route r))" "snd (route r) \<noteq> ''/api/health''" "snd (route r) \<noteq> ''/api/pair''"
  by (cases r; simp add: starts_with_def)+

lemma get_reads:
  assumes "serve E d r a = Ret (sc, a1)" "fst (route r) = GET" "r \<noteq> Rq_calibration"
  shows "a1 = a"
  using assms by (cases r) (auto simp: coded_run_Ret run_map_Ret dest: reads_state)

lemma require_authD:
  assumes "au_required st" "rq_path rq = snd (route r)" "require_auth A st rq = None"
  shows "(\<exists>t. cookie rq = Some t \<and> valid A t st)
    \<and> (rq_method rq \<in> {GET, HEAD, OPTIONS} \<or> rq_origin rq = None \<or> same_origin rq)"
  using assms route_api [of r] by (auto simp: require_auth_def split: if_splits option.splits)

text \<open>
  C5. The guarded server: with authentication required, a request that changes anything in the shared state
  carries the token of a paired session, and it does not come from a page of another origin, except
  for the read of the calibration checksum, which only asks the thread for it.
\<close>

theorem guarded_change:
  assumes "au_required st" "rq_method rq = fst (route r)" "rq_path rq = snd (route r)"
    "guarded A st E d rq r a = Ret (sc, a1)" "a1 \<noteq> a"
  shows "(\<exists>t. cookie rq = Some t \<and> valid A t st)
    \<and> (rq_origin rq = None \<or> same_origin rq \<or> r = Rq_calibration \<and> commanded a a1)"
proof -
  have g: "require_auth A st rq = None" "serve E d r a = Ret (sc, a1)"
    using assms(4,5) by (auto simp: guarded_def split: option.splits)
  note auth = require_authD [OF assms(1,3) g(1)]
  have "rq_origin rq = None \<or> same_origin rq" if "r \<noteq> Rq_calibration"
  proof -
    have "fst (route r) \<noteq> GET" using get_reads [OF g(2) _ that] assms(5) by blast
    then have "fst (route r) = POST" by (cases r) simp_all
    with auth assms(2) show ?thesis by simp
  qed
  moreover have "commanded a a1" if "r = Rq_calibration"
    using g(2) that by (auto simp: coded_run_Ret dest: calibration_state)
  ultimately show ?thesis using auth by blast
qed

text \<open>A paired client connects.\<close>

definition paired_head :: request_head where
  "paired_head = \<lparr>rq_method = POST, rq_path = ''/api/connect'', rq_cookie = Some ''rustytune_session=x'',
     rq_origin = None, rq_host = None\<rparr>"

definition paired_door :: auth_state where
  "paired_door = \<lparr>au_required = True, au_approved = {''h''}, au_pairing = None, au_master_hash = None, au_store = None\<rparr>"

lemma paired_passes: "require_auth one_device_env paired_door paired_head = None"
proof -
  have "cookie paired_head = Some ''x''" by code_simp
  then show ?thesis by (simp add: require_auth_def paired_door_def valid_def one_device_env_def paired_head_def)
qed

theorem guarded_change_witness:
  "\<exists>a a1 t. guarded one_device_env paired_door quiet_env 0 paired_head (Rq_connect raw_request) a = Ret (200, a1) \<and> a1 \<noteq> a
    \<and> cookie paired_head = Some t \<and> valid one_device_env t paired_door"
proof -
  obtain a where a: "build_state_with_runtime ini_default [] desktop = Ret a" using build_state_returns by blast
  note f = build_state_fields [OF a]
  obtain st a1 where a1: "do_connect open_env raw_request a = (Inr st, a1)" "thread_runs a1"
    using raw_connect [of a] f by (auto simp: ini_default_def status_default_def)
  have ne: "a1 \<noteq> a" using a1(2) f(3) by (auto simp: thread_runs_def)
  have g: "guarded one_device_env paired_door quiet_env 0 paired_head (Rq_connect raw_request) a = Ret (200, a1)"
    using a1(1) by (simp add: guarded_def paired_passes coded_def quiet_env_def)
  have "au_required paired_door" "rq_method paired_head = fst (route (Rq_connect raw_request))"
    "rq_path paired_head = snd (route (Rq_connect raw_request))"
    by (simp_all add: paired_door_def paired_head_def)
  from guarded_change [OF this g ne] g ne show ?thesis by blast
qed

text \<open>
  An appliance does not serve a network without asking for pairing: a server that starts with
  the appliance profile on an address that is not loopback requires authentication, unless the
  option \<open>--allow-unsafe-no-auth\<close> was given.
\<close>

theorem appliance_listener_guarded:
  assumes "start_server E stored L D embedded g = Ret (Inr sv)" "ag_profile g = Appliance"
    "\<not> is_loopback (sv_bind sv)" "\<not> ag_allow_unsafe_no_auth g"
  shows "au_required (sv_auth sv)"
proof -
  obtain rt def where rt: "start_config L D g = Inr rt" "build_server E stored g rt def = Ret sv"
    using assms(1) by (rule start_serverE)
  then have sv: "sv_bind sv = sc_bind (rc_server rt)" "au_required (sv_auth sv) = ac_required (rc_authentication rt)"
    using assms(2) by (auto simp: build_server_def run_simps auth_new_def)
  obtain loaded where "(case config_path g of Some p \<Rightarrow> config_load L D p (profile_config (ag_profile g))
      | None \<Rightarrow> Inr (profile_config (ag_profile g))) = Inr loaded"
    using rt(1) by (cases "case config_path g of Some p \<Rightarrow> config_load L D p (profile_config (ag_profile g))
      | None \<Rightarrow> Inr (profile_config (ag_profile g))") (auto simp: start_config_def)
  then have "\<not> refuse_open_listener g rt"
    using rt(1) by (auto simp: start_config_def Let_def res_bind_Inr split: if_splits)
  with sv assms(2-4) show ?thesis by (simp add: refuse_open_listener_def)
qed

theorem appliance_listener_guarded_witness:
  "\<exists>sv. start_server one_device_env (\<lambda>d. None) lan_toml lan_disk sample_constants (lan_args Appliance) = Ret (Inr sv)
    \<and> au_required (sv_auth sv)"
proof -
  obtain sv where sv: "start_server one_device_env (\<lambda>d. None) lan_toml lan_disk sample_constants (lan_args Appliance) = Ret (Inr sv)"
    using lan_started by blast
  obtain rt def where "start_config lan_toml lan_disk (lan_args Appliance) = Inr rt"
    "build_server one_device_env (\<lambda>d. None) (lan_args Appliance) rt def = Ret sv"
    using sv by (rule start_serverE)
  moreover have "\<not> is_loopback (sc_bind (rc_server (with_args (lan_args Appliance) (lan_config\<lparr>rc_source_path := Some ''c.toml''\<rparr>))))"
    by (simp add: with_args_def lan_args_def lan_config_def server_config_default_def is_loopback_def or_val_def Let_def)
  moreover have "ag_profile (lan_args Appliance) = Appliance" by (simp add: lan_args_def)
  ultimately have "\<not> is_loopback (sv_bind sv)" by (auto simp: lan_start build_server_def run_simps)
  then show ?thesis
    using appliance_listener_guarded [OF sv] sv by (simp add: lan_args_def)
qed

subsection \<open>The management socket\<close>

text \<open>
  A command line of the socket as far as it parses; \<open>Adm_configure\<close> has the fields it was
  given with values of the right JSON type.
\<close>

datatype admin_command =
    Adm_status
  | Adm_config
  | Adm_pair nat nat
  | Adm_reconnect
  | Adm_configure "string option" "string option" "nat option" "bool option"
  | Adm_restart
  | Adm_unknown

datatype admin_answer =
    Ans_status status
  | Ans_config runtime_config
  | Ans_pairing pairing_info
  | Ans_ok
  | Ans_saved
  | Ans_error string

record admin_state =
  ad_server :: server
  ad_files :: "string \<Rightarrow> string option"
  ad_exit :: "nat option"

text \<open>\<open>ad_files\<close> are the files; a write that fails leaves what \<open>fault\<close> says.\<close>

definition configured ::
    "string option \<Rightarrow> string option \<Rightarrow> nat option \<Rightarrow> bool option \<Rightarrow> runtime_config \<Rightarrow> runtime_config" where
  "configured device mode baud auto rt =
     (let c = rc_ecu rt;
          c1 = (case device of Some v \<Rightarrow> c\<lparr>ec_device := v\<rparr> | None \<Rightarrow> c);
          c2 = (case mode of Some v \<Rightarrow> if v \<in> {''primary'', ''secondary''} then c1\<lparr>ec_mode := v\<rparr> else c1 | None \<Rightarrow> c1);
          c3 = (case baud of Some v \<Rightarrow> if 1200 \<le> v \<and> v \<le> 1000000 then c2\<lparr>ec_baud := v\<rparr> else c2 | None \<Rightarrow> c2)
      in rt\<lparr>rc_ecu := c3, rc_logging := (rc_logging rt)\<lparr>lc_auto := or_val (lc_auto (rc_logging rt)) auto\<rparr>\<rparr>)"

definition on_app :: "(app_state \<Rightarrow> app_state) \<Rightarrow> server \<Rightarrow> server" where
  "on_app f sv = sv\<lparr>sv_state := f (sv_state sv)\<rparr>"

definition admin_handle ::
    "auth_env \<Rightarrow> serial_env \<Rightarrow> toml_lib \<Rightarrow> (string \<Rightarrow> (string \<times> string option) option) \<Rightarrow> admin_command \<Rightarrow> admin_state
      \<Rightarrow> admin_answer \<times> admin_state" where
  "admin_handle E V L fault c m =
     (let sv = ad_server m; rt = ap_runtime (sv_state sv)
      in case c of
           Adm_status \<Rightarrow> (Ans_status (ap_status (sv_state sv)), m)
         | Adm_config \<Rightarrow> (Ans_config rt, m)
         | Adm_pair n now \<Rightarrow>
             (let (info, st) = open_pairing E n now (sv_auth sv) in (Ans_pairing info, m\<lparr>ad_server := sv\<lparr>sv_auth := st\<rparr>\<rparr>))
         | Adm_reconnect \<Rightarrow> (Ans_ok, m\<lparr>ad_server := on_app (shutdown_comms V) sv\<rparr>)
         | Adm_configure device mode baud auto \<Rightarrow>
             (case rc_source_path rt of
                None \<Rightarrow> (Ans_error ''no appliance configuration file'', m)
              | Some path \<Rightarrow>
                  (case tl_print L (configured device mode baud auto rt) of
                     Inl e \<Rightarrow> (Ans_error (''serialize configuration: '' @ e), m)
                   | Inr txt1 \<Rightarrow>
                       (case fault path of
                          Some (e, left) \<Rightarrow>
                            (Ans_error (''save configuration: '' @ e), m\<lparr>ad_files := (ad_files m)(path := left)\<rparr>)
                        | None \<Rightarrow> (Ans_saved, m\<lparr>ad_files := (ad_files m)(path \<mapsto> txt1)\<rparr>))))
         | Adm_restart \<Rightarrow> (Ans_ok, m\<lparr>ad_server := on_app (shutdown_comms V) sv, ad_exit := Some 75\<rparr>)
         | Adm_unknown \<Rightarrow> (Ans_error ''unknown command'', m))"

text \<open>
  Two configure commands before a restart do not add up: each starts from the configuration
  the server was started with, so after two that are saved, the file is the one the second
  alone would have written, and a setting only the first gave is gone.
\<close>

theorem configure_forgets:
  assumes "admin_handle E V L fault (Adm_configure dev1 mode1 baud1 auto1) m = (Ans_saved, m1)"
    "admin_handle E V L fault (Adm_configure dev2 mode2 baud2 auto2) m1 = (Ans_saved, m2)"
  shows "\<exists>path. rc_source_path (ap_runtime (sv_state (ad_server m))) = Some path
    \<and> map_option Inr (ad_files m2 path)
       = Some (tl_print L (configured dev2 mode2 baud2 auto2 (ap_runtime (sv_state (ad_server m)))))
    \<and> admin_handle E V L fault (Adm_configure dev2 mode2 baud2 auto2) m = (Ans_saved, m2)"
  using assms by (auto simp: admin_handle_def Let_def split: option.splits sum.splits)

theorem configure_forgets_witness:
  "\<exists>m m1 m2. admin_handle one_device_env open_env (lan_toml\<lparr>tl_print := \<lambda>c. Inr (ec_device (rc_ecu c))\<rparr>) (\<lambda>p. None)
      (Adm_configure (Some ''new'') None None None) m = (Ans_saved, m1)
    \<and> admin_handle one_device_env open_env (lan_toml\<lparr>tl_print := \<lambda>c. Inr (ec_device (rc_ecu c))\<rparr>) (\<lambda>p. None)
      (Adm_configure None None (Some 9600) None) m1 = (Ans_saved, m2)
    \<and> ad_files m1 ''c'' = Some ''new'' \<and> ad_files m2 ''c'' = Some []"
proof -
  let ?L = "lan_toml\<lparr>tl_print := \<lambda>c. Inr (ec_device (rc_ecu c))\<rparr>" and ?rt = "desktop\<lparr>rc_source_path := Some ''c''\<rparr>"
  obtain a where a: "build_state_with_runtime ini_default [] ?rt = Ret a" using build_state_returns by blast
  define sv where "sv = \<lparr>sv_state = a, sv_auth = paired_door, sv_bind = V4 0 0 0 0, sv_port = 0, sv_supervised = False,
    sv_admin_socket = None, sv_open_browser = False\<rparr>"
  define m where "m = \<lparr>ad_server = sv, ad_files = Map.empty, ad_exit = None\<rparr>"
  note simps = admin_handle_def Let_def m_def sv_def build_state_fields [OF a] configured_def desktop_def
    ecu_config_default_def or_val_def
  obtain m1 where m1: "admin_handle one_device_env open_env ?L (\<lambda>p. None) (Adm_configure (Some ''new'') None None None) m
      = (Ans_saved, m1)" "ad_files m1 ''c'' = Some ''new''" "ad_server m1 = sv"
    by (simp add: simps)
  obtain m2 where m2: "admin_handle one_device_env open_env ?L (\<lambda>p. None) (Adm_configure None None (Some 9600) None) m1
      = (Ans_saved, m2)"
    using m1(3) by (simp add: simps)
  from configure_forgets [OF m1(1) m2] have "map_option Inr (ad_files m2 ''c'') = Some (Inr [] :: string + string)"
    by (simp add: simps)
  with m1 m2 show ?thesis by auto
qed

subsection \<open>Saving a whole configuration\<close>

text \<open>\<open>appliance_config_put\<close>: the request of a paired client, answered with a status and a text.\<close>

definition config_put ::
    "toml_lib \<Rightarrow> (string \<Rightarrow> (string \<times> string option) option) \<Rightarrow> runtime_config \<Rightarrow> admin_state
      \<Rightarrow> (nat \<times> string) \<times> admin_state" where
  "config_put L fault cfg m =
     (case rc_source_path (ap_runtime (sv_state (ad_server m))) of
        None \<Rightarrow> ((409, ''no configuration file was selected at startup''), m)
      | Some path \<Rightarrow>
          if \<not> is_loopback (sc_bind (rc_server cfg)) \<and> \<not> ac_required (rc_authentication cfg)
          then ((400, ''authentication is required for a non-loopback listener''), m)
          else (case runtime_validate cfg of
                  Inl e \<Rightarrow> ((400, e), m)
                | Inr u \<Rightarrow>
                    (case tl_print L cfg of
                       Inl e \<Rightarrow> ((400, e), m)
                     | Inr txt1 \<Rightarrow>
                         (case fault path of
                            Some (e, left) \<Rightarrow> ((500, ''write '' @ path @ '': '' @ e), m\<lparr>ad_files := (ad_files m)(path := left)\<rparr>)
                          | None \<Rightarrow> ((200, []), m\<lparr>ad_files := (ad_files m)(path \<mapsto> txt1)\<rparr>)))))"

text \<open>The file system at the next start.\<close>

definition files_disk :: "(string \<Rightarrow> string option) \<Rightarrow> disk" where
  "files_disk fs = \<lparr>dk_exists = \<lambda>p. fs p \<noteq> None,
     dk_read = \<lambda>p. case fs p of Some s \<Rightarrow> Inr s | None \<Rightarrow> Inl ''No such file or directory''\<rparr>"

text \<open>
  What a client saved is what the next start of the appliance runs with, when reading back the
  printed text over the profile gives the configuration again (the TOML library does so for
  every setting that has a value): the start is not refused.
\<close>

theorem saved_config_starts:
  assumes "config_put L fault cfg m = ((200, s), m1)" "tl_print L cfg = Inr txt1" "tl_parse L txt1 = Inr v"
    "tl_of_config L appliance = Inr base" "tl_to_config L (merge base v) = Inr (cfg\<lparr>rc_source_path := None\<rparr>)"
    "ag_profile g = Appliance" "config_path g = rc_source_path (ap_runtime (sv_state (ad_server m)))"
    "ag_bind g = None"
  shows "\<exists>rt. start_config L (files_disk (ad_files m1)) g = Inr rt
    \<and> rt = with_args g (cfg\<lparr>rc_source_path := config_path g\<rparr>)"
proof -
  obtain path where path: "rc_source_path (ap_runtime (sv_state (ad_server m))) = Some path"
    using assms(1) by (auto simp: config_put_def split: option.splits)
  have saved: "ad_files m1 path = Some txt1" "runtime_validate cfg = Inr ()"
    "is_loopback (sc_bind (rc_server cfg)) \<or> ac_required (rc_authentication cfg)"
    using assms(1,2) path by (auto simp: config_put_def split: if_splits sum.splits option.splits)
  let ?c = "with_args g (cfg\<lparr>rc_source_path := Some path\<rparr>)"
  have loaded: "config_load L (files_disk (ad_files m1)) path appliance = Inr (cfg\<lparr>rc_source_path := Some path\<rparr>)"
    using assms(3-5) saved(1) by (simp add: config_load_def files_disk_def)
  have "runtime_validate ?c = Inr ()"
    using saved(2) by (simp add: with_args_def Let_def runtime_validate_def config_validate_def)
  moreover have "\<not> refuse_open_listener g ?c"
    using saved(3) assms(8) by (auto simp: refuse_open_listener_def with_args_def Let_def or_val_def)
  ultimately show ?thesis
    using assms(6,7) path loaded by (simp add: start_config_def profile_config_def Let_def)
qed

end
