(* ===== verification/Spec2Isabelle.thy ===== *)
theory Spec2Isabelle
  imports Constant_Lines Ini_Parse Msq_Save Thread_Laws Log_View_Laws Api_View_Laws Log_Store
    Server_Errors Server_Safe Startup
begin

text \<open>
  rustytune is a tuning server for engine control units (ECUs) of the Speeduino family.  It reads
  a TunerStudio definition file (INI) that describes the memory of the ECU, talks to the ECU over
  a serial port, and lets browsers watch live data, edit the tune, burn it, record and plot logs
  and exchange tune files.  This development models the Rust crates under \<open>src/crates/\<close>.

  \<^bold>\<open>The parts and how they interact.\<close>  The definition file is parsed once (\<open>ts-ini\<close>).  A tune
  (\<open>tune-model\<close>) holds, for every page of ECU memory, the local data, what the ECU is known to
  have (shadow) and what it has burned; edits of clients change the local data only.  The comms
  thread (\<open>server/src/comms.rs\<close>) owns the serial session (\<open>ecu-proto\<close>): it downloads the tune,
  polls live frames, sends dirty bytes, verifies checksums, burns, records logs (\<open>datalog\<close>) and
  watches for the engine to stop.  Request handlers (\<open>server/src/api.rs\<close>) share tune and status
  with it through locks and talk to it by commands over a channel.  In front of the handlers stand
  the pairing guard (\<open>auth.rs\<close>) and the configuration (\<open>config.rs\<close>, \<open>main.rs\<close>, \<open>lib.rs\<close>).

  \<^bold>\<open>Conventions.\<close>  A Rust struct is a \<open>record\<close>, an enum a \<open>datatype\<close>, fixed-width integers are
  words; lengths, offsets and times are \<open>nat\<close>.  \<open>f64\<close> is the theory \<open>F64\<close>: exact rationals rounded once, with
  signed zero, infinities and NaN.  A \<open>str\<close> is its UTF-8 bytes.  \<open>Result\<close> is a sum with the error
  left.  Code that can panic or overflow its stack returns a \<open>run\<close>, whose \<open>Ret\<close> is a normal
  return.  Release builds of the repository wrap on integer overflow, and so does the model where a value can
  reach the width.

  \<^bold>\<open>Theories and code.\<close>
  \<^item> \<open>Prelude\<close>, \<open>F64\<close>, \<open>F64_Mono\<close>, \<open>RustStr\<close>, \<open>Decimal_Text\<close>, \<open>Index_Map\<close>: integers and byte
    codecs, floating point and its rounding bounds, strings, printed numbers, ordered maps.
  \<^item> \<open>Expr_Syntax\<close>, \<open>Expr_Eval\<close> (\<open>ts-ini/src/expr.rs\<close>), \<open>Lex\<close>, \<open>Preprocess\<close>, \<open>Model\<close>,
    \<open>Sections_Tuning\<close>, \<open>Sections_Ui\<close> (\<open>sections.rs\<close>), \<open>Constant_Lines\<close>, \<open>Sections_Safe\<close>,
    \<open>Ini_Parse\<close> (\<open>lib.rs\<close>), \<open>Telemetry\<close>, \<open>Deep_Lookups\<close> (\<open>telemetry.rs\<close>): the definition file and
    the decoding of live frames.
  \<^item> \<open>Raw_Fields\<close>, \<open>Tune_State\<close>, \<open>Tune_Edit\<close>, \<open>Tune_Codec\<close>, \<open>Tune_Lookups\<close>, \<open>Tune_Dirty\<close>,
    \<open>Tune_Laws\<close>, \<open>Tune_Reach\<close> (\<open>tune-model/src/lib.rs\<close>); \<open>Msq_File\<close>, \<open>Msq_Apply\<close>, \<open>Msq_Laws\<close>,
    \<open>Msq_Frame\<close>, \<open>Msq_Save\<close> (\<open>tune-model/src/msq.rs\<close>): the tune and its files.
  \<^item> \<open>Envelope\<close>, \<open>Secondary\<close>, \<open>Command\<close>, \<open>Transport\<close>, \<open>Session\<close>, \<open>Pages\<close>, \<open>Ecu_Calibration\<close>
    (the files of \<open>ecu-proto/src\<close>): framing, command templates, requests.
  \<^item> \<open>Datalog\<close> (\<open>datalog/src/lib.rs\<close>), \<open>Log_Retention\<close>, \<open>Engine_Shutdown\<close>, \<open>Afr_Curve\<close>
    (\<open>server/src/calibration.rs\<close>), \<open>Comms_Tune\<close>, \<open>Comms_Laws\<close>, \<open>Comms_Flush\<close>, \<open>Comms_Loop\<close>,
    \<open>Loop_Laws\<close>, \<open>Thread_Laws\<close>, \<open>Thread_Safe\<close> (\<open>comms.rs\<close>): the comms thread.
  \<^item> \<open>Log_Sample\<close>, \<open>Log_View\<close>, \<open>Log_View_Laws\<close> (\<open>log_view.rs\<close>), \<open>Log_Store\<close> (\<open>api.rs\<close>): plots of
    recordings and the log directory.
  \<^item> \<open>Definition_Ui\<close> (\<open>definition.rs\<close>), \<open>Api_Views\<close>, \<open>Api_View_Laws\<close> (\<open>api.rs\<close>): what clients are
    shown.
  \<^item> \<open>Server_State\<close>, \<open>Server_Router\<close>, \<open>Server_Laws\<close>, \<open>Server_Sessions\<close>, \<open>Server_Safe\<close>,
    \<open>Server_Errors\<close> (\<open>api.rs\<close>, \<open>lib.rs\<close>): the shared state, every handler that changes it, and the thread beside them.
  \<^item> \<open>Auth\<close> (\<open>auth.rs\<close>), \<open>Runtime_Config\<close> (\<open>config.rs\<close>), \<open>Startup\<close> (\<open>main.rs\<close>, \<open>lib.rs\<close>,
    \<open>admin.rs\<close>): pairing, configuration, startup, router and management socket.
\<close>

text \<open>
  \<^bold>\<open>What the lemmas show.\<close>
  \<^item> Formats: frames, tokens, expressions, preprocessor blocks, constant lines, log rows and tune
    file values read back as what was written; the nested meaning of \<open>#if\<close> equals the stack machine.
  \<^item> The tune: every reachable tune keeps its declared page sizes; setters change the bytes of their
    constant and nothing else; decode and encode are inverse under \<open>f64\<close> rounding; lookups end.
  \<^item> Synchronisation: with any edits of clients at any lock and any answers of the ECU, flush, burn
    and download return and keep the pages whole; an undisturbed flush implements \<open>all_sent\<close>.
  \<^item> The thread: requests get the ECU's answer or an error within their deadline; no pass of the thread
    panics (output channels that refer to each other in a cycle overflow its stack); the log in the status is the log that is open; a calibration is written only under its guards; the engine-stop
    monitor implements \<open>should_fire\<close>.
  \<^item> The server: over requests, rounds of the supervisor and passes of the thread the status tells
    the truth about the session and the tune keeps its shape; only the holder of the writer lock edits; with authentication only paired clients of
    the same origin change anything; pairing implements the plain-text \<open>door\<close>.
  \<^item> Plots: the one-pass index holds the timed rows of the file, a zoom of up to 5000 rows shows
    exactly these, and a larger one a selection of them that keeps the extremes of every channel.
  \<^item> Faults of the code, stated as it behaves: what a failed connect leaves, overlapping requests,
    partial edits, and what the desktop profile drops from its configuration file.

  \<^bold>\<open>Interfaces.\<close>  \<open>ordered_map\<close> (insertion-ordered maps), \<open>transport_laws\<close> and \<open>transport_queue\<close>
  (byte transports), \<open>serial_port\<close> (the serial port over its file descriptor, a transport while its
  device takes bytes), \<open>page_port\<close> (page commands under the comms thread), \<open>steady_link\<close> (the session
  under the thread) and \<open>local_edit\<close> (edits under the handlers) are interpreted on the model's definitions in the theories of their providers.

  \<^bold>\<open>Bounds and fuel.\<close>  Loops of the code are structural recursion, recursion with a measure, or, for
  the search of a free log name, \<open>partial_function\<close> with a proof that it ends.  Expression parsing has
  a budget of twice the number of tokens plus two, which is shown to suffice.  Lookups of the tune
  and of frames take the stack left as a depth \<open>d\<close>: \<open>tune_lookups_terminate\<close> shows that a depth
  above the rank of the symbol suffices and that the result does not depend on it, and that a cyclic
  definition overflows every depth; for frames \<open>shallow\<close> says that the channels are no deeper than
  \<open>d\<close>, and without it a pass still ends only by returning or by a stack overflow.  The session's clock is a list that says how many deadline checks
  each wait passes; every loop iteration consumes one.

  \<^bold>\<open>Parameters.\<close>  Third-party code enters as arguments: \<open>crc32fast\<close>, \<open>quick_xml\<close> (events of a text),
  \<open>toml\<close>, SHA-256, random bytes, the clock, the file system's answers, the texts of system errors,
  and the ECU itself (a transport).  Their use is stated by hypotheses where a property relies on it.

  \<^bold>\<open>Not modelled.\<close>  JSON text and HTTP (\<open>serde_json\<close>, \<open>axum\<close>), delivery of broadcasts to WebSockets,
  static assets, the ZIP container of a log archive, terminal and signal handling, opening of the
  browser, serial port settings (\<open>SerialTransport::open\<close>), the desktop shell, tracing output, and
  poisoned locks: they are calls into libraries or the operating system.  So a request that panics is
  no step of the server.  Handlers run in one piece
  against each other (\<open>disconnect\<close> and \<open>offline_close\<close> too, which let go of a lock half way), except
  \<open>offline_open\<close>, which is split where it lets go of its lock; the comms
  thread is interleaved with edits at each of its locks (\<open>Comms_Tune\<close>) and pass by pass with requests
  (\<open>Server_Sessions\<close>).  The parser's own recursion on nested parentheses is not bounded by a stack.
  A write of the session file of paired devices either happens or leaves the file as it was.
\<close>

end
